(* ===== verification/Prelude.thy ===== *)
theory Prelude
  imports Main "HOL-Library.Char_ord" "HOL-Library.List_Lexorder"
begin

text \<open>
  Shared vocabulary of the development: Go's error values, the world-passing effects the
  pipeline is written in, the bytes of Go strings with the functions of the packages strings
  and path the sources call, and 64-bit integer arithmetic.

  A Go string, and a byte slice, is a list of bytes; a byte is a \<open>char\<close>. White space is
  what unicode.IsSpace accepts, given by its UTF-8 encodings. Case folding is ASCII's, which is
  all of it for the host names, slugs and hexadecimal digests it is applied to when they are
  ASCII.
\<close>

named_theorems steps_intro \<open>rules showing that every run of an effect keeps a relation\<close>

section \<open>Errors\<close>

text \<open>
  An error carries what errors.As can find in it (its kind), its text, and what it wraps.
\<close>

datatype errkind =
    Plain
  | ManifestRefused
  | ManifestTooLarge int
  | ObjectTooLarge int
  | ApiError string string   \<comment> \<open>a store's error code and message\<close>
  | HttpStatus int
  | ResponseError string int \<comment> \<open>an Azure error code and the HTTP status\<close>
  | RateLimit int int        \<comment> \<open>GitHub's primary limit: its reset, and the Date of the refusal\<close>
  | AbuseLimit "int option"  \<comment> \<open>its secondary limit, with Retry-After\<close>
  | GithubResponse "int option" string \<comment> \<open>GitHub's error: the status of its answer when it has one, and its message\<close>
  | InstallationHTTP "int option" \<comment> \<open>the same of a request for the installation token\<close>
  | PathError                \<comment> \<open>a file operation's error: it wraps its reason\<close>
  | ExitStatus int           \<comment> \<open>a process that ended with this exit code\<close>
  | RedirectRefused string string string
  | GoogleError "string list" \<comment> \<open>a Google API's error, with its reasons\<close>
  | NetDNS bool | NetTLS | NetOp string bool | NetErr bool \<comment> \<open>the network's errors: whether it is a timeout, and the operation\<close>

datatype goerr = GoErr (err_kind: errkind) (err_text: string) (err_wraps: "goerr list")

definition new_error :: "string \<Rightarrow> goerr" where
  "new_error s = GoErr Plain s []"

text \<open>\<open>fmt.Errorf("<prefix>: %w", err)\<close>, the shape of nearly every wrap in the sources.\<close>

definition wrap_error :: "string \<Rightarrow> goerr \<Rightarrow> goerr" where
  "wrap_error p e = GoErr Plain (p @ '': '' @ err_text e) [e]"

fun errors_is :: "goerr \<Rightarrow> goerr \<Rightarrow> bool" where
  "errors_is (GoErr k s ws) t = (GoErr k s ws = t \<or> (\<exists>w \<in> set ws. errors_is w t))"

text \<open>\<open>errors.As\<close>: the first error of the tree, depth first, whose kind the test accepts.\<close>

fun errors_as :: "(errkind \<Rightarrow> bool) \<Rightarrow> goerr \<Rightarrow> goerr option" where
  "errors_as p (GoErr k s ws) =
     (if p k then Some (GoErr k s ws)
      else foldr (\<lambda>r acc. case r of Some e \<Rightarrow> Some e | None \<Rightarrow> acc) (map (errors_as p) ws) None)"

lemma errors_is_refl [simp]: "errors_is e e"
  by (cases e) simp

lemma errors_is_wrap [simp]: "errors_is (wrap_error p e) t \<longleftrightarrow> wrap_error p e = t \<or> errors_is e t"
  by (simp add: wrap_error_def)

section \<open>Effects\<close>

text \<open>
  A call that may fail and changes the world: the error or the value it returns, with the
  world after it. An early return of an error is the \<open>Inl\<close> branch of \<open>bindE\<close>.
\<close>

type_synonym ('w, 'a) io = "'w \<Rightarrow> (goerr + 'a) \<times> 'w"

definition okE :: "'a \<Rightarrow> ('w, 'a) io" where
  "okE x = (\<lambda>w. (Inr x, w))"

definition failE :: "goerr \<Rightarrow> ('w, 'a) io" where
  "failE e = (\<lambda>w. (Inl e, w))"

definition bindE :: "('w, 'a) io \<Rightarrow> ('a \<Rightarrow> ('w, 'b) io) \<Rightarrow> ('w, 'b) io" where
  "bindE m f = (\<lambda>w. case m w of (Inl e, w') \<Rightarrow> (Inl e, w') | (Inr x, w') \<Rightarrow> f x w')"

text \<open>The call with its error as a value: what \<open>x, err := m()\<close> binds before err is looked at.\<close>

definition tryE :: "('w, 'a) io \<Rightarrow> ('w, goerr + 'a) io" where
  "tryE m = (\<lambda>w. case m w of (r, w') \<Rightarrow> (Inr r, w'))"

definition mapErrE :: "(goerr \<Rightarrow> goerr) \<Rightarrow> ('w, 'a) io \<Rightarrow> ('w, 'a) io" where
  "mapErrE g m = (\<lambda>w. case m w of (Inl e, w') \<Rightarrow> (Inl (g e), w') | (Inr x, w') \<Rightarrow> (Inr x, w'))"

definition readE :: "('w \<Rightarrow> 'a) \<Rightarrow> ('w, 'a) io" where
  "readE f = (\<lambda>w. (Inr (f w), w))"

definition liftE :: "goerr + 'a \<Rightarrow> ('w, 'a) io" where
  "liftE r = (\<lambda>w. (r, w))"

text \<open>A deferred clean-up: it runs after the call, whatever the call returned.\<close>

definition deferE :: "('w \<Rightarrow> 'w) \<Rightarrow> ('w, 'a) io \<Rightarrow> ('w, 'a) io" where
  "deferE f m = (\<lambda>w. case m w of (r, w') \<Rightarrow> (r, f w'))"

text \<open>\<open>steps_in R m\<close>: whatever m returns, the world after it stands in R to the world before.\<close>

definition steps_in :: "('w \<Rightarrow> 'w \<Rightarrow> bool) \<Rightarrow> ('w, 'a) io \<Rightarrow> bool" where
  "steps_in R m \<longleftrightarrow> (\<forall>w. R w (snd (m w)))"

lemma steps_inD: "steps_in R m \<Longrightarrow> m w = (r, w') \<Longrightarrow> R w w'"
  unfolding steps_in_def by (metis snd_conv)

text \<open>
  A relation a run can be held to: every world stands in it to itself, and it composes. The
  combinators keep every such relation.
\<close>

locale world_order =
  fixes R :: "'w \<Rightarrow> 'w \<Rightarrow> bool"
  assumes refl: "R w w"
    and trans: "R u v \<Longrightarrow> R v w \<Longrightarrow> R u w"
begin

lemma steps_ok: "steps_in R (okE x)"
  by (simp add: steps_in_def okE_def refl)

lemma steps_fail: "steps_in R (failE e)"
  by (simp add: steps_in_def failE_def refl)

lemma steps_read: "steps_in R (readE f)"
  by (simp add: steps_in_def readE_def refl)

lemma steps_lift: "steps_in R (liftE r)"
  by (simp add: steps_in_def liftE_def refl)

lemma steps_bind:
  assumes "steps_in R m" and "\<And>x. steps_in R (f x)"
  shows "steps_in R (bindE m f)"
  unfolding steps_in_def
proof
  fix w
  obtain r w' where m: "m w = (r, w')" by (cases "m w")
  have "R w w'" using assms(1) m by (rule steps_inD)
  moreover have "R w' (snd (f x w'))" for x
    using assms(2) by (simp add: steps_in_def)
  ultimately show "R w (snd (bindE m f w))"
    by (auto simp: bindE_def m split: sum.splits intro: trans)
qed

lemma steps_try: "steps_in R m \<Longrightarrow> steps_in R (tryE m)"
  by (auto simp: steps_in_def tryE_def split: prod.splits) (metis snd_conv)

lemma steps_mapErr: "steps_in R m \<Longrightarrow> steps_in R (mapErrE g m)"
  by (auto simp: steps_in_def mapErrE_def split: prod.splits sum.splits) (metis snd_conv)+

lemma steps_defer: "steps_in R m \<Longrightarrow> (\<And>w. R w (f w)) \<Longrightarrow> steps_in R (deferE f m)"
  by (auto simp: steps_in_def deferE_def split: prod.splits) (metis snd_conv trans)

lemma steps_if: "steps_in R a \<Longrightarrow> steps_in R b \<Longrightarrow> steps_in R (if c then a else b)"
  by simp

lemma steps_sum:
  "(\<And>e. steps_in R (f e)) \<Longrightarrow> (\<And>x. steps_in R (g x)) \<Longrightarrow> steps_in R (case r of Inl e \<Rightarrow> f e | Inr x \<Rightarrow> g x)"
  by (cases r) simp_all

lemma steps_option:
  "steps_in R f \<Longrightarrow> (\<And>x. steps_in R (g x)) \<Longrightarrow> steps_in R (case r of None \<Rightarrow> f | Some x \<Rightarrow> g x)"
  by (cases r) simp_all

lemma steps_prod: "(\<And>a b. steps_in R (f a b)) \<Longrightarrow> steps_in R (case p of (a, b) \<Rightarrow> f a b)"
  by (cases p) simp

lemma steps_list:
  "steps_in R f \<Longrightarrow> (\<And>x xs. steps_in R (g x xs)) \<Longrightarrow> steps_in R (case r of [] \<Rightarrow> f | x # xs \<Rightarrow> g x xs)"
  by (cases r) simp_all

lemmas steps_rules = steps_ok steps_fail steps_read steps_lift steps_bind steps_try steps_mapErr
  steps_if steps_sum steps_option steps_prod steps_list

end

text \<open>
  Relations a run is held to: the observation g is unchanged, it grows as a map, or it is
  unchanged outside a set.
\<close>

definition same_on :: "('w \<Rightarrow> 'b) \<Rightarrow> 'w \<Rightarrow> 'w \<Rightarrow> bool" where
  "same_on g w w' \<longleftrightarrow> g w' = g w"

definition grows_on :: "('w \<Rightarrow> ('k \<rightharpoonup> 'v)) \<Rightarrow> 'w \<Rightarrow> 'w \<Rightarrow> bool" where
  "grows_on g w w' \<longleftrightarrow> g w \<subseteq>\<^sub>m g w'"

definition except_on :: "('w \<Rightarrow> ('k \<Rightarrow> 'v)) \<Rightarrow> 'k set \<Rightarrow> 'w \<Rightarrow> 'w \<Rightarrow> bool" where
  "except_on g S w w' \<longleftrightarrow> (\<forall>k. k \<notin> S \<longrightarrow> g w' k = g w k)"

interpretation same: world_order "same_on g" for g
  by unfold_locales (auto simp: same_on_def)

interpretation grows: world_order "grows_on g" for g
  by unfold_locales (auto simp: grows_on_def intro: map_le_trans)

interpretation outside: world_order "except_on g S" for g S
  by unfold_locales (auto simp: except_on_def)

lemma same_outside: "same_on g w w' \<Longrightarrow> except_on g S w w'"
  by (simp add: same_on_def except_on_def)

lemma steps_same_outside: "steps_in (same_on g) m \<Longrightarrow> steps_in (except_on g S) m"
  by (auto simp: steps_in_def intro: same_outside)

lemma steps_outside_mono: "steps_in (except_on g S) m \<Longrightarrow> S \<subseteq> T \<Longrightarrow> steps_in (except_on g T) m"
  by (fastforce simp: steps_in_def except_on_def)

lemma outside_D: "steps_in (except_on g S) m \<Longrightarrow> m w = (x, w') \<Longrightarrow> k \<notin> S \<Longrightarrow> g w' k = g w k"
  by (drule steps_inD, assumption) (simp add: except_on_def)

lemma same_D: "steps_in (same_on g) m \<Longrightarrow> m w = (x, w') \<Longrightarrow> g w' = g w"
  by (drule steps_inD, assumption) (simp add: same_on_def)

lemma grows_D: "steps_in (grows_on g) m \<Longrightarrow> m w = (x, w') \<Longrightarrow> g w k = Some v \<Longrightarrow> g w' k = Some v"
  by (drule steps_inD, assumption) (auto simp: grows_on_def map_le_def dom_def)

lemma same_grows: "same_on g w w' \<Longrightarrow> grows_on g w w'"
  by (simp add: same_on_def grows_on_def)

lemma steps_same_grows: "steps_in (same_on g) m \<Longrightarrow> steps_in (grows_on g) m"
  by (auto simp: steps_in_def intro: same_grows)

text \<open>Nothing changed, or a key that was free now holds these bytes and nothing else changed.\<close>

definition lands_on :: "('w \<Rightarrow> ('k \<rightharpoonup> 'v)) \<Rightarrow> 'k \<Rightarrow> 'v \<Rightarrow> 'w \<Rightarrow> 'w \<Rightarrow> bool" where
  "lands_on g k v w w' \<longleftrightarrow> g w' = g w \<or> g w' = (g w)(k \<mapsto> v) \<and> g w k = None"

interpretation lands: world_order "lands_on g k v" for g k v
  by unfold_locales (auto simp: lands_on_def)

lemma same_lands: "same_on g w w' \<Longrightarrow> lands_on g k v w w'"
  by (simp add: same_on_def lands_on_def)

lemma steps_same_lands: "steps_in (same_on g) m \<Longrightarrow> steps_in (lands_on g k v) m"
  by (auto simp: steps_in_def intro: same_lands)

lemma lands_grows: "lands_on g k v w w' \<Longrightarrow> grows_on g w w'"
  by (auto simp: lands_on_def grows_on_def map_le_def dom_def)

lemma bindE_Inr:
  "bindE m f w = (Inr y, w'') \<longleftrightarrow> (\<exists>x w'. m w = (Inr x, w') \<and> f x w' = (Inr y, w''))"
  by (auto simp: bindE_def split: prod.splits sum.splits)

lemma bindE_InrE:
  assumes "bindE m f w = (Inr y, w'')"
  obtains x w' where "m w = (Inr x, w')" and "f x w' = (Inr y, w'')"
  using assms by (auto simp: bindE_Inr)

lemma bindE_cases:
  assumes "bindE m f w = (x, w')"
  obtains e where "m w = (Inl e, w')" and "x = Inl e" | y w1 where "m w = (Inr y, w1)" and "f y w1 = (x, w')"
  using assms by (auto simp: bindE_def split: prod.splits sum.splits)

lemma tryE_Inr: "tryE m w = (Inr r, w') \<longleftrightarrow> m w = (r, w')" and tryE_Inl: "tryE m w \<noteq> (Inl e, w')"
  by (auto simp: tryE_def split: prod.splits)

lemma mapErrE_Inr [simp]: "mapErrE g m w = (Inr x, w') \<longleftrightarrow> m w = (Inr x, w')"
  by (auto simp: mapErrE_def split: prod.splits sum.splits)

lemma map_sum_Inr: "map_sum id f r = Inr y \<longleftrightarrow> (\<exists>x. r = Inr x \<and> y = f x)"
  by (cases r) auto

lemma okE_apply [simp]: "okE x w = (Inr x, w)"
  by (simp add: okE_def)

lemma failE_apply [simp]: "failE e w = (Inl e, w)"
  by (simp add: failE_def)

lemma readE_apply [simp]: "readE f w = (Inr (f w), w)"
  by (simp add: readE_def)

lemma liftE_apply [simp]: "liftE r w = (r, w)"
  by (simp add: liftE_def)

lemma tryE_apply: "tryE m w = (Inr (fst (m w)), snd (m w))"
  by (simp add: tryE_def split: prod.splits)

lemma bindE_ok [simp]: "bindE (okE x) f = f x"
  by (simp add: bindE_def okE_def)

lemma bindE_fail [simp]: "bindE (failE e) f = failE e"
  by (simp add: bindE_def failE_def fun_eq_iff)

lemma bindE_assoc: "bindE (bindE m f) g = bindE m (\<lambda>x. bindE (f x) g)"
  by (auto simp: bindE_def fun_eq_iff split: prod.splits sum.splits)

section \<open>Integers\<close>

text \<open>A signed 64-bit result: Go's int64, int and time.Duration wrap around.\<close>

definition wrap64 :: "int \<Rightarrow> int" where
  "wrap64 x = (x + 2 ^ 63) mod 2 ^ 64 - 2 ^ 63"

definition in_int64 :: "int \<Rightarrow> bool" where
  "in_int64 x \<longleftrightarrow> - (2 ^ 63) \<le> x \<and> x < 2 ^ 63"

lemma wrap64_id: "in_int64 x \<Longrightarrow> wrap64 x = x"
  by (simp add: wrap64_def in_int64_def)

lemma wrap64_range: "in_int64 (wrap64 x)"
proof -
  have "0 \<le> (x + 2 ^ 63) mod 2 ^ 64" and "(x + 2 ^ 63) mod 2 ^ 64 < (2::int) ^ 64"
    by simp_all
  then show ?thesis by (simp add: wrap64_def in_int64_def)
qed

text \<open>Go's integer division and remainder truncate towards zero.\<close>

definition go_div :: "int \<Rightarrow> int \<Rightarrow> int" where
  "go_div a b = sgn a * sgn b * (\<bar>a\<bar> div \<bar>b\<bar>)"

definition go_mod :: "int \<Rightarrow> int \<Rightarrow> int" where
  "go_mod a b = a - b * go_div a b"

lemma go_div_nonneg: "0 \<le> a \<Longrightarrow> 0 < b \<Longrightarrow> go_div a b = a div b"
  by (cases "a = 0") (simp_all add: go_div_def)

lemma go_mod_nonneg: "0 \<le> a \<Longrightarrow> 0 < b \<Longrightarrow> go_mod a b = a mod b"
  by (simp add: go_mod_def go_div_nonneg minus_mult_div_eq_mod)

section \<open>Strings\<close>

definition has_prefix :: "string \<Rightarrow> string \<Rightarrow> bool" where
  "has_prefix p s \<longleftrightarrow> take (length p) s = p"

definition has_suffix :: "string \<Rightarrow> string \<Rightarrow> bool" where
  "has_suffix p s \<longleftrightarrow> length p \<le> length s \<and> drop (length s - length p) s = p"

definition cut_prefix :: "string \<Rightarrow> string \<Rightarrow> string option" where
  "cut_prefix p s = (if has_prefix p s then Some (drop (length p) s) else None)"

definition trim_suffix :: "string \<Rightarrow> string \<Rightarrow> string" where
  "trim_suffix p s = (if has_suffix p s then take (length s - length p) s else s)"

lemma has_prefix_append [simp]: "has_prefix p (p @ s)"
  by (simp add: has_prefix_def)

lemma has_prefix_iff: "has_prefix p s \<longleftrightarrow> (\<exists>r. s = p @ r)"
  by (metis append_eq_conv_conj append_take_drop_id has_prefix_def)

lemma has_suffix_append [simp]: "has_suffix p (s @ p)"
  by (simp add: has_suffix_def)

lemma trim_suffix_append [simp]: "trim_suffix p (s @ p) = s"
  by (simp add: trim_suffix_def)

lemma cut_prefix_Some: "cut_prefix p s = Some r \<longleftrightarrow> s = p @ r"
  by (auto simp: cut_prefix_def has_prefix_def) (metis append_take_drop_id)

text \<open>strings.Split and strings.Join at a one-byte separator.\<close>

fun split_on :: "char \<Rightarrow> string \<Rightarrow> string list" where
  "split_on c [] = [[]]"
| "split_on c (x # xs) =
     (if x = c then [] # split_on c xs
      else case split_on c xs of [] \<Rightarrow> [[x]] | s # ss \<Rightarrow> (x # s) # ss)"

fun join_with :: "string \<Rightarrow> string list \<Rightarrow> string" where
  "join_with sep [] = []"
| "join_with sep [s] = s"
| "join_with sep (s # t # ss) = s @ sep @ join_with sep (t # ss)"

lemma split_on_nonempty [simp]: "split_on c s \<noteq> []"
  by (induction s) (auto split: list.splits)

lemma join_with_Cons: "ss \<noteq> [] \<Longrightarrow> join_with sep (s # ss) = s @ sep @ join_with sep ss"
  by (cases ss) simp_all

lemma join_split [simp]: "join_with [c] (split_on c s) = s"
proof (induction s)
  case Nil
  then show ?case by simp
next
  case (Cons x xs)
  then obtain t ts where t: "split_on c xs = t # ts"
    by (meson list.exhaust split_on_nonempty)
  show ?case
  proof (cases "x = c")
    case True
    with Cons show ?thesis by (simp add: join_with_Cons)
  next
    case False
    with Cons t show ?thesis by (cases ts) simp_all
  qed
qed

lemma split_on_no_sep: "c \<notin> set s \<Longrightarrow> split_on c s = [s]"
  by (induction s) auto

lemma split_on_append:
  "c \<notin> set s \<Longrightarrow> split_on c (s @ c # r) = s # split_on c r"
  by (induction s) auto

lemma split_join:
  "ss \<noteq> [] \<Longrightarrow> \<forall>s \<in> set ss. c \<notin> set s \<Longrightarrow> split_on c (join_with [c] ss) = ss"
proof (induction ss rule: induct_list012)
  case (3 s t ss)
  then show ?case by (simp add: split_on_append)
qed (simp_all add: split_on_no_sep)

lemma split_on_parts: "s \<in> set (split_on c r) \<Longrightarrow> c \<notin> set s"
proof (induction r arbitrary: s)
  case (Cons x xs)
  then show ?case by (cases "split_on c xs") (auto split: if_splits)
qed simp

lemma split_on_eq_iff: "split_on c a = split_on c b \<longleftrightarrow> a = b"
  by (metis join_split)

text \<open>strings.Cut at a one-byte separator: the parts around its first occurrence.\<close>

fun cut_at :: "char \<Rightarrow> string \<Rightarrow> (string \<times> string) option" where
  "cut_at c [] = None"
| "cut_at c (x # xs) =
     (if x = c then Some ([], xs)
      else map_option (\<lambda>(a, b). (x # a, b)) (cut_at c xs))"

lemma cut_at_Some: "cut_at c s = Some (a, b) \<longleftrightarrow> s = a @ c # b \<and> c \<notin> set a"
proof (induction s arbitrary: a)
  case (Cons x xs)
  show ?case
  proof (cases a)
    case Nil
    then show ?thesis by (auto simp: Cons.IH)
  next
    case (Cons y ys)
    then show ?thesis using Cons.IH [of ys] by auto
  qed
qed simp

lemma cut_at_None: "cut_at c s = None \<longleftrightarrow> c \<notin> set s"
  by (induction s) auto

text \<open>
  The white space of unicode.IsSpace as its UTF-8 encodings. No encoding is a proper part of
  another rune's, so a prefix or suffix of a string that is one of them is a whole rune.
\<close>

definition utf8_spaces :: "string list" where
  "utf8_spaces =
     [[CHR 0x09], [CHR 0x0A], [CHR 0x0B], [CHR 0x0C], [CHR 0x0D], [CHR 0x20],
      [CHR 0xC2, CHR 0x85], [CHR 0xC2, CHR 0xA0], [CHR 0xE1, CHR 0x9A, CHR 0x80],
      [CHR 0xE2, CHR 0x80, CHR 0x80], [CHR 0xE2, CHR 0x80, CHR 0x81], [CHR 0xE2, CHR 0x80, CHR 0x82],
      [CHR 0xE2, CHR 0x80, CHR 0x83], [CHR 0xE2, CHR 0x80, CHR 0x84], [CHR 0xE2, CHR 0x80, CHR 0x85],
      [CHR 0xE2, CHR 0x80, CHR 0x86], [CHR 0xE2, CHR 0x80, CHR 0x87], [CHR 0xE2, CHR 0x80, CHR 0x88],
      [CHR 0xE2, CHR 0x80, CHR 0x89], [CHR 0xE2, CHR 0x80, CHR 0x8A], [CHR 0xE2, CHR 0x80, CHR 0xA8],
      [CHR 0xE2, CHR 0x80, CHR 0xA9], [CHR 0xE2, CHR 0x80, CHR 0xAF], [CHR 0xE2, CHR 0x81, CHR 0x9F],
      [CHR 0xE3, CHR 0x80, CHR 0x80]]"

text \<open>How many bytes of white space s starts with: 0 when its first rune is not white space.\<close>

definition space_len :: "string \<Rightarrow> nat" where
  "space_len s = (case List.find (\<lambda>e. has_prefix e s) utf8_spaces of None \<Rightarrow> 0 | Some e \<Rightarrow> length e)"

lemma space_len_le: "space_len s \<le> length s"
  by (auto simp: space_len_def has_prefix_def find_Some_iff split: option.splits)
    (metis length_take min.cobounded1 min_def nat_le_linear)

lemma drop_space_shorter: "space_len s \<noteq> 0 \<Longrightarrow> length s - space_len s < length s"
  using space_len_le [of s] by arith

function trim_left :: "string \<Rightarrow> string" where
  "trim_left s = (if space_len s = 0 then s else trim_left (drop (space_len s) s))"
  by pat_completeness auto
termination
  by (relation "measure length") (simp_all add: drop_space_shorter)

declare trim_left.simps [simp del]

fun strip_space_end :: "string \<Rightarrow> string option" where
  "strip_space_end s = (case List.find (\<lambda>e. has_suffix e s) utf8_spaces of
     None \<Rightarrow> None | Some e \<Rightarrow> Some (take (length s - length e) s))"

lemma utf8_spaces_nonempty: "e \<in> set utf8_spaces \<Longrightarrow> e \<noteq> []"
  by (auto simp: utf8_spaces_def)

lemma strip_space_end_shorter: "strip_space_end s = Some t \<Longrightarrow> length t < length s"
proof -
  assume h: "strip_space_end s = Some t"
  then obtain e where e: "List.find (\<lambda>e. has_suffix e s) utf8_spaces = Some e"
    and t: "t = take (length s - length e) s"
    by (auto split: option.splits)
  then have "e \<in> set utf8_spaces" and "has_suffix e s"
    by (auto simp: find_Some_iff)
  then have "e \<noteq> []" and "length e \<le> length s"
    by (auto simp: utf8_spaces_nonempty has_suffix_def)
  then show ?thesis using t by (cases e) auto
qed

function trim_right :: "string \<Rightarrow> string" where
  "trim_right s = (case strip_space_end s of None \<Rightarrow> s | Some t \<Rightarrow> trim_right t)"
  by pat_completeness auto
termination
  by (relation "measure length") (use strip_space_end_shorter in auto)

declare trim_right.simps [simp del] strip_space_end.simps [simp del]

definition trim_space :: "string \<Rightarrow> string" where
  "trim_space s = trim_right (trim_left s)"

lemma trim_space_Nil [simp]: "trim_space [] = []"
  by (simp add: trim_space_def trim_left.simps trim_right.simps strip_space_end.simps
      space_len_def utf8_spaces_def has_prefix_def has_suffix_def)

text \<open>strings.Fields: the runs of bytes between white space.\<close>

function fields_from :: "string \<Rightarrow> string \<Rightarrow> string list" where
  "fields_from acc s =
     (if space_len s \<noteq> 0 then
        (if acc = [] then [] else [rev acc]) @ fields_from [] (drop (space_len s) s)
      else case s of
        [] \<Rightarrow> (if acc = [] then [] else [rev acc])
      | x # xs \<Rightarrow> fields_from (x # acc) xs)"
  by pat_completeness auto
termination
  by (relation "measure (\<lambda>(acc, s). length s)") (simp_all add: drop_space_shorter)

declare fields_from.simps [simp del]

definition str_fields :: "string \<Rightarrow> string list" where
  "str_fields s = fields_from [] s"

text \<open>Case mapping, on ASCII letters.\<close>

definition lower_char :: "char \<Rightarrow> char" where
  "lower_char c = (let n = of_char c :: nat in if 65 \<le> n \<and> n \<le> 90 then char_of (n + 32) else c)"

definition upper_char :: "char \<Rightarrow> char" where
  "upper_char c = (let n = of_char c :: nat in if 97 \<le> n \<and> n \<le> 122 then char_of (n - 32) else c)"

definition to_lower :: "string \<Rightarrow> string" where
  "to_lower = map lower_char"

definition to_upper :: "string \<Rightarrow> string" where
  "to_upper = map upper_char"

definition equal_fold :: "string \<Rightarrow> string \<Rightarrow> bool" where
  "equal_fold a b \<longleftrightarrow> to_lower a = to_lower b"

lemma equal_fold_refl [simp]: "equal_fold a a"
  by (simp add: equal_fold_def)

lemma equal_fold_length: "length a \<noteq> length b \<Longrightarrow> \<not> equal_fold a b"
  by (metis equal_fold_def length_map to_lower_def)

lemma equal_fold_sym: "equal_fold a b \<Longrightarrow> equal_fold b a"
  by (simp add: equal_fold_def)

lemma equal_fold_trans: "equal_fold a b \<Longrightarrow> equal_fold b c \<Longrightarrow> equal_fold a c"
  by (simp add: equal_fold_def)

text \<open>Decimal digits, as fmt and strconv print them.\<close>

definition digit :: "nat \<Rightarrow> char" where
  "digit n = char_of (48 + n mod 10)"

fun show_nat :: "nat \<Rightarrow> string" where
  "show_nat n = (if n < 10 then [digit n] else show_nat (n div 10) @ [digit n])"

declare show_nat.simps [simp del]

definition show_int :: "int \<Rightarrow> string" where
  "show_int i = (if i < 0 then ''-'' @ show_nat (nat (- i)) else show_nat (nat i))"

text \<open>
  Hexadecimal text, and what %q writes: the text between double quotes with the ASCII escapes of
  strconv.Quote. A byte from 0x80 on is kept, as it is when it belongs to a printable character.
\<close>

definition hex_digit :: "nat \<Rightarrow> char" where
  "hex_digit n = (if n < 10 then char_of (48 + n) else char_of (87 + n))"

definition hex_byte :: "char \<Rightarrow> string" where
  "hex_byte c = [hex_digit (of_char c div 16), hex_digit (of_char c mod 16)]"

definition hex_encode :: "string \<Rightarrow> string" where
  "hex_encode s = concat (map hex_byte s)"

definition quote_byte :: "char \<Rightarrow> string" where
  "quote_byte c =
     (let n = (of_char c :: nat); esc = (\<lambda>e. [CHR 0x5C, e]) in
      if n = 34 \<or> n = 92 then esc c
      else if n = 7 then esc (CHR ''a'') else if n = 8 then esc (CHR ''b'')
      else if n = 9 then esc (CHR ''t'') else if n = 10 then esc (CHR ''n'')
      else if n = 11 then esc (CHR ''v'') else if n = 12 then esc (CHR ''f'')
      else if n = 13 then esc (CHR ''r'')
      else if n < 32 \<or> n = 127 then esc (CHR ''x'') @ hex_byte c else [c])"

definition quote :: "string \<Rightarrow> string" where
  "quote s = CHR 0x22 # concat (map quote_byte s) @ [CHR 0x22]"

section \<open>Paths\<close>

text \<open>
  path.Clean on the segments between slashes, the last kept segment first: empty and dot
  segments vanish, a dot-dot removes the segment before it or is kept where there is none to
  remove, and at the root it vanishes.
\<close>

fun clean_segs :: "bool \<Rightarrow> string list \<Rightarrow> string list \<Rightarrow> string list" where
  "clean_segs rooted acc [] = rev acc"
| "clean_segs rooted acc (s # ss) =
     (if s = [] \<or> s = ''.'' then clean_segs rooted acc ss
      else if s = ''..'' then
        (case acc of
           [] \<Rightarrow> clean_segs rooted (if rooted then [] else [s]) ss
         | t # ts \<Rightarrow> if t = ''..'' then clean_segs rooted (s # acc) ss
                     else clean_segs rooted ts ss)
      else clean_segs rooted (s # acc) ss)"

definition path_clean :: "string \<Rightarrow> string" where
  "path_clean p =
     (if p = [] then ''.''
      else let rooted = has_prefix ''/'' p;
               s = join_with ''/'' (clean_segs rooted [] (split_on (CHR ''/'') p))
           in if rooted then CHR ''/'' # s else if s = [] then ''.'' else s)"

text \<open>path.Join: the elements that are not empty, joined and cleaned.\<close>

definition path_join :: "string list \<Rightarrow> string" where
  "path_join es = (let es' = filter (\<lambda>e. e \<noteq> []) es in
     if es' = [] then [] else path_clean (join_with ''/'' es'))"

text \<open>path.Base and path.Dir.\<close>

definition path_base :: "string \<Rightarrow> string" where
  "path_base p =
     (if p = [] then ''.''
      else let q = rev (dropWhile (\<lambda>c. c = CHR ''/'') (rev p))
           in if q = [] then ''/'' else last (split_on (CHR ''/'') q))"

definition path_dir :: "string \<Rightarrow> string" where
  "path_dir p = (case butlast (split_on (CHR ''/'') p) of
       [] \<Rightarrow> ''.''
     | ds \<Rightarrow> path_clean (join_with ''/'' ds @ ''/''))"

text \<open>
  A segment a key is built from: not empty, no slash, and not a dot or a dot-dot, so joining
  and cleaning leave it as it is. Host names, owners' segments, repository names and dates are
  segments.
\<close>

definition plain_seg :: "string \<Rightarrow> bool" where
  "plain_seg s \<longleftrightarrow> s \<noteq> [] \<and> CHR ''/'' \<notin> set s \<and> s \<noteq> ''.'' \<and> s \<noteq> ''..''"

definition plain_path :: "string \<Rightarrow> bool" where
  "plain_path p \<longleftrightarrow> (\<forall>s \<in> set (split_on (CHR ''/'') p). plain_seg s)"

lemma clean_segs_Cons_plain: "plain_seg s \<Longrightarrow> clean_segs r acc (s # ss) = clean_segs r (s # acc) ss"
  by (simp add: plain_seg_def)

lemma clean_segs_plain: "\<forall>s \<in> set ss. plain_seg s \<Longrightarrow> clean_segs r acc ss = rev acc @ ss"
proof (induction ss arbitrary: acc)
  case Nil
  then show ?case by simp
next
  case (Cons s ss)
  then have "clean_segs r acc (s # ss) = clean_segs r (s # acc) ss"
    by (intro clean_segs_Cons_plain) simp
  also have "\<dots> = rev (s # acc) @ ss"
    using Cons.prems by (intro Cons.IH) simp
  finally show ?case by simp
qed

lemma not_plain_path_Nil [simp]: "\<not> plain_path []"
  by (simp add: plain_path_def plain_seg_def)

lemma plain_path_nonempty: "plain_path p \<Longrightarrow> p \<noteq> []"
  by (metis not_plain_path_Nil)

lemma plain_path_not_rooted: "plain_path p \<Longrightarrow> \<not> has_prefix ''/'' p"
proof
  assume p: "plain_path p" and "has_prefix ''/'' p"
  then obtain r where "p = CHR ''/'' # r" by (auto simp: has_prefix_iff)
  then have "[] \<in> set (split_on (CHR ''/'') p)" by simp
  with p have "plain_seg []" unfolding plain_path_def by blast
  then show False by (simp add: plain_seg_def)
qed

lemma clean_segs_path: "plain_path p \<Longrightarrow> clean_segs r [] (split_on (CHR ''/'') p) = split_on (CHR ''/'') p"
  by (simp add: plain_path_def clean_segs_plain)

lemma path_clean_plain:
  assumes "plain_path p"
  shows "path_clean p = p"
  unfolding path_clean_def Let_def clean_segs_path [OF assms]
  using plain_path_nonempty [OF assms] plain_path_not_rooted [OF assms] by simp

lemma plain_seg_path: "plain_seg s \<Longrightarrow> plain_path s"
  by (simp add: plain_path_def plain_seg_def split_on_no_sep)

lemma split_on_append_sep: "split_on c (a @ c # b) = split_on c a @ split_on c b"
proof (induction a)
  case (Cons x xs)
  then show ?case by (cases "split_on c xs") auto
qed simp

lemma plain_path_append: "plain_path (a @ ''/'' @ b) \<longleftrightarrow> plain_path a \<and> plain_path b"
  by (simp add: plain_path_def split_on_append_sep ball_Un)

lemma plain_path_join:
  "ps \<noteq> [] \<Longrightarrow> plain_path (join_with ''/'' ps) \<longleftrightarrow> (\<forall>p \<in> set ps. plain_path p)"
  by (induction ps rule: induct_list012) (simp_all add: plain_path_append [simplified])

lemma path_join_plain:
  assumes "ps \<noteq> []" and "\<forall>p \<in> set ps. plain_path p"
  shows "path_join ps = join_with ''/'' ps"
proof -
  have "filter (\<lambda>e. e \<noteq> []) ps = ps"
    using assms(2) plain_path_nonempty by (simp add: filter_id_conv)
  then show ?thesis
    using assms by (simp add: path_join_def path_clean_plain plain_path_join)
qed

lemma clean_segs_trailing: "clean_segs r acc (ss @ [[]]) = clean_segs r acc ss"
  by (induction r acc ss rule: clean_segs.induct) (auto split: list.splits)

lemma path_clean_trailing:
  assumes "plain_path d"
  shows "path_clean (d @ ''/'') = d"
proof -
  have ne: "d \<noteq> []" using assms by (rule plain_path_nonempty)
  have split: "split_on (CHR ''/'') (d @ ''/'') = split_on (CHR ''/'') d @ [[]]"
    by (simp add: split_on_append_sep)
  have "\<not> has_prefix ''/'' (d @ ''/'')"
    using plain_path_not_rooted [OF assms] ne by (cases d) (simp_all add: has_prefix_def)
  then show ?thesis
    unfolding path_clean_def Let_def split clean_segs_trailing clean_segs_path [OF assms]
    using ne by simp
qed

lemma path_dir_plain:
  assumes "plain_path d" and "CHR ''/'' \<notin> set f"
  shows "path_dir (d @ ''/'' @ f) = d"
proof -
  obtain x xs where x: "split_on (CHR ''/'') d = x # xs"
    by (meson list.exhaust split_on_nonempty)
  have "split_on (CHR ''/'') (d @ ''/'' @ f) = (x # xs) @ [f]"
    using assms(2) by (simp add: split_on_append_sep split_on_no_sep x)
  then have "path_dir (d @ ''/'' @ f) = path_clean (join_with ''/'' (x # xs) @ ''/'')"
    by (simp add: path_dir_def del: join_with.simps)
  also have "join_with ''/'' (x # xs) = d"
    by (metis join_split x)
  finally show ?thesis using path_clean_trailing [OF assms(1)] by simp
qed

lemma path_base_plain:
  assumes "f \<noteq> []" and "CHR ''/'' \<notin> set f"
  shows "path_base (d @ ''/'' @ f) = f"
proof -
  obtain y ys where "rev f = y # ys" using assms(1) by (metis list.exhaust rev_is_Nil_conv)
  moreover have "y \<noteq> CHR ''/''" using assms(2) calculation by (metis list.set_intros(1) set_rev)
  ultimately have "dropWhile (\<lambda>c. c = CHR ''/'') (rev (d @ ''/'' @ f)) = rev (d @ ''/'' @ f)"
    by simp
  then show ?thesis
    using assms(2) by (simp add: path_base_def split_on_append_sep split_on_no_sep)
qed

lemma clean_segs_last: "plain_seg f \<Longrightarrow> clean_segs r acc (ss @ [f]) = clean_segs r acc ss @ [f]"
  by (induction r acc ss rule: clean_segs.induct) (auto simp: plain_seg_def split: list.splits)

text \<open>Joining a directory and a plain file name puts the name after something of the directory.\<close>

lemma path_join_seg:
  "\<exists>x. (x = [] \<or> (\<exists>y. x = y @ ''/'')) \<and> (\<forall>f. plain_seg f \<longrightarrow> path_join [d, f] = x @ f)"
proof (cases "d = []")
  case True
  then have "path_join [d, f] = f" if "plain_seg f" for f
    using that path_join_plain [of "[f]"] plain_seg_path [OF that]
    by (simp add: path_join_def plain_seg_def)
  then show ?thesis by (metis append_Nil)
next
  case False
  let ?r = "has_prefix ''/'' d"
  let ?cs = "clean_segs ?r [] (split_on (CHR ''/'') d)"
  let ?pre = "(if ?r then ''/'' else []) @ (if ?cs = [] then [] else join_with ''/'' ?cs @ ''/'')"
  have "path_join [d, f] = ?pre @ f" if f: "plain_seg f" for f
  proof -
    have ne: "f \<noteq> []" and ns: "CHR ''/'' \<notin> set f" using f by (auto simp: plain_seg_def)
    have j: "path_join [d, f] = path_clean (d @ ''/'' @ f)"
      using False ne by (simp add: path_join_def)
    have r: "has_prefix ''/'' (d @ ''/'' @ f) = ?r"
      using False by (cases d) (simp_all add: has_prefix_def)
    have "split_on (CHR ''/'') (d @ ''/'' @ f) = split_on (CHR ''/'') d @ [f]"
      by (simp add: split_on_append_sep split_on_no_sep [OF ns])
    then have c: "clean_segs ?r [] (split_on (CHR ''/'') (d @ ''/'' @ f)) = ?cs @ [f]"
      using clean_segs_last [OF f] by simp
    have jw: "join_with ''/'' (xs @ [f]) = (if xs = [] then [] else join_with ''/'' xs @ ''/'') @ f" for xs
      by (induction xs) (auto simp: join_with_Cons)
    have "path_clean (d @ ''/'' @ f) = (if ?r then ''/'' else []) @ join_with ''/'' (?cs @ [f])"
      unfolding path_clean_def Let_def r c using ne jw [of ?cs] by (auto simp: jw)
    then show ?thesis unfolding j jw by simp
  qed
  moreover have "?pre = [] \<or> (\<exists>y. ?pre = y @ ''/'')"
    by (auto simp: append_assoc [symmetric] simp del: append_assoc)
  ultimately show ?thesis by blast
qed

lemma path_base_join: "plain_seg f \<Longrightarrow> path_base (path_join [d, f]) = f"
proof -
  assume f: "plain_seg f"
  then have ne: "f \<noteq> []" and ns: "CHR ''/'' \<notin> set f" by (auto simp: plain_seg_def)
  obtain x where x: "x = [] \<or> (\<exists>y. x = y @ ''/'')" and j: "path_join [d, f] = x @ f"
    using path_join_seg [of d] f by blast
  have "path_base f = f"
  proof -
    obtain y ys where "rev f = y # ys" using ne by (metis list.exhaust rev_is_Nil_conv)
    moreover have "y \<noteq> CHR ''/''" using ns calculation by (metis list.set_intros(1) set_rev)
    ultimately show ?thesis using ns by (simp add: path_base_def split_on_no_sep)
  qed
  then show ?thesis using x j path_base_plain [OF ne ns] by auto
qed

lemma path_join_distinct:
  "plain_seg f \<Longrightarrow> plain_seg g \<Longrightarrow> path_join [d, f] = path_join [d, g] \<longleftrightarrow> f = g"
  using path_join_seg [of d] by (metis append_same_eq same_append_eq)

end
