(* ===== verification/Go_Url.thy ===== *)
theory Go_Url
  imports Prelude
begin

text \<open>
  Go's package net/url, as far as the sources use it: a URL's scheme, user and host with port,
  the host name without the port, and whether parsing succeeds. The path is kept as it is
  written, without its percent-escapes decoded, the query and the fragment are dropped after
  parsing, and a bracketed IPv6 host is taken as it stands.
\<close>

record url =
  url_scheme :: string
  url_user :: "string option"
  url_host :: string
  url_path :: string

definition byte :: "char \<Rightarrow> nat" where
  "byte c = of_char c"

definition is_letter :: "char \<Rightarrow> bool" where
  "is_letter c \<longleftrightarrow> (let n = byte c in 65 \<le> n \<and> n \<le> 90 \<or> 97 \<le> n \<and> n \<le> 122)"

definition is_num :: "char \<Rightarrow> bool" where
  "is_num c \<longleftrightarrow> (let n = byte c in 48 \<le> n \<and> n \<le> 57)"

definition is_hex_digit :: "char \<Rightarrow> bool" where
  "is_hex_digit c \<longleftrightarrow> (let n = byte c in 48 \<le> n \<and> n \<le> 57 \<or> 97 \<le> n \<and> n \<le> 102 \<or> 65 \<le> n \<and> n \<le> 70)"

definition is_control :: "char \<Rightarrow> bool" where
  "is_control c \<longleftrightarrow> byte c < 0x20 \<or> byte c = 0x7F"

text \<open>getScheme: the scheme before the first colon and what follows it; None is an error.\<close>

fun get_scheme :: "string \<Rightarrow> string \<Rightarrow> string \<Rightarrow> (string \<times> string) option" where
  "get_scheme whole acc [] = Some ([], whole)"
| "get_scheme whole acc (c # cs) =
     (if is_letter c then get_scheme whole (c # acc) cs
      else if is_num c \<or> c \<in> set ''+-.'' then
        (if acc = [] then Some ([], whole) else get_scheme whole (c # acc) cs)
      else if c = CHR '':'' then (if acc = [] then None else Some (rev acc, cs))
      else Some ([], whole))"

text \<open>The bytes a host may hold unescaped.\<close>

definition host_byte :: "char \<Rightarrow> bool" where
  "host_byte c \<longleftrightarrow> byte c \<ge> 0x80 \<or> is_letter c \<or> is_num c
     \<or> c \<in> set ''!$&'()*+,;=:[]<>-_.~'' \<or> c = CHR 0x22"

definition hex_val :: "char \<Rightarrow> nat" where
  "hex_val c = (let n = byte c in if n \<le> 57 then n - 48 else if n \<ge> 97 then n - 87 else n - 55)"

fun unescape_host :: "string \<Rightarrow> string option" where
  "unescape_host [] = Some []"
| "unescape_host [c] = (if c \<noteq> CHR ''%'' \<and> host_byte c then Some [c] else None)"
| "unescape_host [c, d] =
     (if c \<noteq> CHR ''%'' \<and> host_byte c then map_option ((#) c) (unescape_host [d]) else None)"
| "unescape_host (c # a # b # cs) =
     (if c = CHR ''%'' then
        (if is_hex_digit a \<and> is_hex_digit b \<and> (hex_val a \<ge> 8 \<or> a = CHR ''2'' \<and> b = CHR ''5'')
         then map_option ((#) (char_of (16 * hex_val a + hex_val b))) (unescape_host cs) else None)
      else if host_byte c then map_option ((#) c) (unescape_host (a # b # cs)) else None)"

text \<open>Whether every percent sign starts an escape, which the path, user and fragment need.\<close>

fun escapes_ok :: "string \<Rightarrow> bool" where
  "escapes_ok [] = True"
| "escapes_ok (c # cs) = (if c = CHR ''%''
     then (case cs of a # b # r \<Rightarrow> is_hex_digit a \<and> is_hex_digit b | _ \<Rightarrow> False) \<and> escapes_ok cs
     else escapes_ok cs)"

definition user_byte :: "char \<Rightarrow> bool" where
  "user_byte c \<longleftrightarrow> is_letter c \<or> is_num c \<or> c \<in> set ''-._:~!$&'()*+,;=%@''"

text \<open>The text after the last occurrence of a byte, with the text before it.\<close>

definition cut_last :: "char \<Rightarrow> string \<Rightarrow> (string \<times> string) option" where
  "cut_last c s = map_option (\<lambda>(a, b). (rev b, rev a)) (cut_at c (rev s))"

lemma cut_last_Some: "cut_last c s = Some (a, b) \<longleftrightarrow> s = a @ c # b \<and> c \<notin> set b"
proof -
  have "rev s = rev b @ c # rev a \<longleftrightarrow> s = a @ c # b"
    by (metis append.assoc append_Cons append_Nil rev.simps(2) rev_append rev_rev_ident)
  then show ?thesis
    unfolding cut_last_def by (auto simp: cut_at_Some) (metis rev_rev_ident set_rev)
qed

lemma cut_last_None: "cut_last c s = None \<longleftrightarrow> c \<notin> set s"
  by (simp add: cut_last_def cut_at_None)

definition valid_port :: "string \<Rightarrow> bool" where
  "valid_port s \<longleftrightarrow> s = [] \<or> hd s = CHR '':'' \<and> list_all is_num (tl s)"

definition parse_host :: "string \<Rightarrow> string option" where
  "parse_host h =
     (if has_prefix ''['' h then
        (case cut_last (CHR '']'') h of
           None \<Rightarrow> None
         | Some (a, p) \<Rightarrow> if valid_port p then unescape_host h else None)
      else case cut_last (CHR '':'') h of
           Some (a, p) \<Rightarrow> if valid_port (CHR '':'' # p) then unescape_host h else None
         | None \<Rightarrow> unescape_host h)"

definition parse_authority :: "string \<Rightarrow> (string option \<times> string) option" where
  "parse_authority a = (case cut_last (CHR ''@'') a of
       None \<Rightarrow> map_option (Pair None) (parse_host a)
     | Some (u, h) \<Rightarrow>
         if list_all user_byte u \<and> escapes_ok u then map_option (Pair (Some u)) (parse_host h) else None)"

definition url_parse :: "string \<Rightarrow> url option" where
  "url_parse raw = (let (u, frag) = (case cut_at (CHR ''#'') raw of None \<Rightarrow> (raw, []) | Some p \<Rightarrow> p) in
     if list_ex is_control u \<or> \<not> escapes_ok frag then None
     else if u = ''*'' then Some \<lparr>url_scheme = [], url_user = None, url_host = [], url_path = u\<rparr>
     else case get_scheme u [] u of
       None \<Rightarrow> None
     | Some (sch, r) \<Rightarrow>
         let scheme = to_lower sch;
             rest = (case cut_at (CHR ''?'') r of None \<Rightarrow> r | Some (a, q) \<Rightarrow> a);
             slash = (has_prefix ''/'' rest);
             seg = (case cut_at (CHR ''/'') rest of None \<Rightarrow> rest | Some (a, b) \<Rightarrow> a)
         in if \<not> slash \<and> scheme \<noteq> []
            then Some \<lparr>url_scheme = scheme, url_user = None, url_host = [], url_path = []\<rparr>
            else if \<not> slash \<and> CHR '':'' \<in> set seg then None
            else if (scheme \<noteq> [] \<or> \<not> has_prefix ''///'' rest) \<and> has_prefix ''//'' rest then
              (let (auth, path) = (case cut_at (CHR ''/'') (drop 2 rest) of
                     None \<Rightarrow> (drop 2 rest, []) | Some (a, b) \<Rightarrow> (a, CHR ''/'' # b))
               in case parse_authority auth of
                    None \<Rightarrow> None
                  | Some (usr, h) \<Rightarrow>
                      if escapes_ok path
                      then Some \<lparr>url_scheme = scheme, url_user = usr, url_host = h, url_path = path\<rparr>
                      else None)
            else if escapes_ok rest
            then Some \<lparr>url_scheme = scheme, url_user = None, url_host = [], url_path = rest\<rparr>
            else None)"

text \<open>\<open>u.Hostname()\<close>: the host without its port and without the brackets of an IPv6 one.\<close>

definition url_hostname :: "url \<Rightarrow> string" where
  "url_hostname u = (let h = (case cut_last (CHR '':'') (url_host u) of
       Some (a, p) \<Rightarrow> if valid_port (CHR '':'' # p) then a else url_host u
     | None \<Rightarrow> url_host u)
   in if has_prefix ''['' h \<and> has_suffix '']'' h then butlast (tl h) else h)"

text \<open>
  A host that parsed holds no at sign and no slash, so neither a credential written before the
  host nor a path after it is ever part of it.
\<close>

lemma not_host_bytes: "\<not> host_byte (CHR ''@'')" "\<not> host_byte (CHR ''/'')"
  "\<not> is_hex_digit (CHR ''@'')" "\<not> is_hex_digit (CHR ''/'')"
  by code_simp+

lemma unescape_host_bytes:
  "unescape_host s = Some h \<Longrightarrow> c \<in> {CHR ''@'', CHR ''/''} \<Longrightarrow> c \<notin> set s"
proof (induction s arbitrary: h rule: unescape_host.induct)
  case (4 x a b cs)
  have nc: "\<not> host_byte c" "\<not> is_hex_digit c" "c \<noteq> CHR ''%''"
    using 4(4) not_host_bytes by auto
  show ?case
  proof (cases "x = CHR ''%''")
    case True
    with 4(3) obtain t where t: "is_hex_digit a \<and> is_hex_digit b \<and> (hex_val a \<ge> 8 \<or> a = CHR ''2'' \<and> b = CHR ''5'')"
      "unescape_host cs = Some t"
      by (auto simp only: unescape_host.simps map_option_eq_Some split: if_splits)
    moreover have "c \<notin> set cs" by (rule 4(1) [OF True t 4(4)])
    ultimately show ?thesis using nc True by auto
  next
    case False
    with 4 obtain t where "host_byte x" "unescape_host (a # b # cs) = Some t"
      by (auto simp only: unescape_host.simps split: if_splits option.splits)
    moreover from this have "c \<notin> set (a # b # cs)" using 4(2) 4(4) False by simp
    ultimately show ?thesis using nc by auto
  qed
next
  case (2 x)
  then show ?case using not_host_bytes by (auto split: if_splits)
next
  case (3 x d)
  then show ?case using not_host_bytes by (auto split: if_splits)
qed simp

end
