(* ===== verification/Gitexec.thy ===== *)
theory Gitexec
  imports Prelude Go_Url "HOL-Library.AList"
begin

text \<open>
  src/internal/gitexec/gitexec.go: how gitdr runs the git binary and reads what it prints. The
  operating system is a record of effects over the world (starting a process, making and
  removing a temporary directory, looking a program up), so every method of Git is a definition
  over it: the argv it builds, the environment it gives, and how it reads the output. A Go map
  of refs is an association list whose keys are distinct.
\<close>

section \<open>The operating system\<close>

text \<open>
  A process that ran: the error of cmd.Run, what it wrote to stdout, and the writes it made on
  stderr in order.
\<close>

record proc_result =
  run_error :: "goerr option"
  run_stdout :: string
  run_stderr :: "string list"

record 'w machine =
  environ :: "string list"
  start_git :: "string \<Rightarrow> string list \<Rightarrow> string list \<Rightarrow> 'w \<Rightarrow> proc_result \<times> 'w"
  mkdir_temp :: "string \<Rightarrow> ('w, string) io"
  remove_all :: "string \<Rightarrow> 'w \<Rightarrow> 'w"
  abs_path :: "string \<Rightarrow> ('w, string) io"
  look_path :: "string \<Rightarrow> 'w \<Rightarrow> bool"

section \<open>The tail of stderr\<close>

definition stderr_kept :: nat where
  "stderr_kept = 64 * 1024 - 512"

record stderr_tail =
  tail_max :: nat
  tail_buf :: string
  tail_dropped :: int

definition new_tail :: "nat \<Rightarrow> stderr_tail" where
  "new_tail m = \<lparr>tail_max = m, tail_buf = [], tail_dropped = 0\<rparr>"

definition tail_write :: "stderr_tail \<Rightarrow> string \<Rightarrow> stderr_tail" where
  "tail_write t p =
     (let n = length p; m = tail_max t in
      if n \<ge> m then
        t\<lparr>tail_dropped := tail_dropped t + (int (length (tail_buf t)) + int n - int m),
          tail_buf := drop (n - m) p\<rparr>
      else let over = length (tail_buf t) + n - m in
        if over > 0 then
          t\<lparr>tail_dropped := tail_dropped t + int over,
            tail_buf := drop over (tail_buf t) @ p\<rparr>
        else t\<lparr>tail_buf := tail_buf t @ p\<rparr>)"

definition tail_string :: "stderr_tail \<Rightarrow> string" where
  "tail_string t = (let s = trim_space (tail_buf t) in
     if tail_dropped t > 0
     then s @ '' [git stderr cut: the first '' @ show_int (tail_dropped t) @ '' bytes dropped, the last ''
          @ show_nat (length (tail_buf t)) @ '' kept]''
     else s)"

text \<open>The buffer is the end of everything written, and the count is what is missing from it.\<close>

definition tail_holds :: "stderr_tail \<Rightarrow> string \<Rightarrow> bool" where
  "tail_holds t whole \<longleftrightarrow>
     tail_buf t = drop (length whole - tail_max t) whole
     \<and> tail_dropped t = int (length whole - tail_max t)"

lemma tail_holds_new: "tail_holds (new_tail m) []"
  by (simp add: tail_holds_def new_tail_def)

lemma tail_max_write [simp]: "tail_max (tail_write t p) = tail_max t"
  by (simp add: tail_write_def Let_def)

lemma tail_holds_write:
  assumes "tail_holds t whole"
  shows "tail_holds (tail_write t p) (whole @ p)"
proof -
  define m where "m = tail_max t"
  have buf: "tail_buf t = drop (length whole - m) whole"
    and dr: "tail_dropped t = int (length whole - m)"
    using assms by (simp_all add: tail_holds_def m_def)
  have len: "length (tail_buf t) = min (length whole) m"
    unfolding buf by simp
  consider "length p \<ge> m" | "length p < m" "length whole + length p > m" "length (tail_buf t) + length p > m"
    | "p = []" "m > 0" | "length p < m" "length (tail_buf t) + length p \<le> m" "length whole + length p \<le> m"
    unfolding len by (cases "length p \<ge> m"; cases "length whole \<le> m"; cases p) (auto simp: min_def not_le, linarith+)
  then show ?thesis
  proof cases
    case 1
    then have "tail_write t p = t\<lparr>tail_dropped := tail_dropped t + (int (length (tail_buf t)) + int (length p) - int m),
        tail_buf := drop (length p - m) p\<rparr>"
      by (simp add: tail_write_def m_def Let_def)
    then show ?thesis
      using 1 len dr by (simp add: tail_holds_def m_def [symmetric])
  next
    case 2
    then have "tail_write t p = t\<lparr>tail_dropped := tail_dropped t + int (length (tail_buf t) + length p - m),
        tail_buf := drop (length (tail_buf t) + length p - m) (tail_buf t) @ p\<rparr>"
      by (simp add: tail_write_def m_def [symmetric] Let_def)
    moreover have "length (tail_buf t) + length p - m + (length whole - m) = length whole + length p - m"
      using 2 len by linarith
    ultimately show ?thesis
      using 2 len dr unfolding buf by (simp add: tail_holds_def m_def [symmetric])
  next
    case 3
    then show ?thesis using assms len by (simp add: tail_write_def m_def [symmetric] Let_def)
  next
    case 4
    then have "tail_write t p = t\<lparr>tail_buf := tail_buf t @ p\<rparr>"
      by (simp add: tail_write_def m_def [symmetric] Let_def)
    then show ?thesis
      using 4 dr unfolding buf by (simp add: tail_holds_def m_def [symmetric])
  qed
qed

definition tail_writes :: "stderr_tail \<Rightarrow> string list \<Rightarrow> stderr_tail" where
  "tail_writes t ps = foldl tail_write t ps"

lemma tail_holds_writes: "tail_holds t whole \<Longrightarrow> tail_holds (tail_writes t ps) (whole @ concat ps)"
proof (induction ps arbitrary: t whole)
  case Nil
  then show ?case by (simp add: tail_writes_def)
next
  case (Cons p ps)
  from Cons.IH [OF tail_holds_write [OF Cons.prems]] show ?case
    by (simp add: tail_writes_def)
qed

section \<open>The environment of a git process\<close>

record git_config =
  cfg_key :: string
  cfg_value :: string

definition low_speed_limit :: string where "low_speed_limit = ''1000''"
definition low_speed_time :: string where "low_speed_time = ''600''"

definition memory_bounds :: "git_config list" where
  "memory_bounds =
     [\<lparr>cfg_key = ''pack.threads'', cfg_value = ''2''\<rparr>,
      \<lparr>cfg_key = ''pack.windowMemory'', cfg_value = ''256m''\<rparr>,
      \<lparr>cfg_key = ''pack.deltaCacheSize'', cfg_value = ''128m''\<rparr>,
      \<lparr>cfg_key = ''core.bigFileThreshold'', cfg_value = ''64m''\<rparr>,
      \<lparr>cfg_key = ''core.packedGitWindowSize'', cfg_value = ''32m''\<rparr>,
      \<lparr>cfg_key = ''core.packedGitLimit'', cfg_value = ''256m''\<rparr>]"

definition passed_through :: "string list" where
  "passed_through =
     [''PATH'', ''HOME'', ''TMPDIR'', ''HTTPS_PROXY'', ''https_proxy'', ''HTTP_PROXY'', ''http_proxy'',
      ''ALL_PROXY'', ''all_proxy'', ''NO_PROXY'', ''no_proxy'', ''GIT_SSL_CAINFO'', ''GIT_SSL_CAPATH'',
      ''SSL_CERT_FILE'', ''SSL_CERT_DIR'', ''GIT_HTTP_LOW_SPEED_LIMIT'', ''GIT_HTTP_LOW_SPEED_TIME'']"

text \<open>The name before the first equals sign, the whole entry when there is none.\<close>

definition env_name :: "string \<Rightarrow> string" where
  "env_name kv = (case cut_at (CHR ''='') kv of None \<Rightarrow> kv | Some (n, v) \<Rightarrow> n)"

definition base_env :: "string list \<Rightarrow> string list" where
  "base_env env = filter (\<lambda>kv. env_name kv \<in> set passed_through) env"

fun config_env :: "nat \<Rightarrow> git_config list \<Rightarrow> string list" where
  "config_env i [] = []"
| "config_env i (c # cs) =
     (''GIT_CONFIG_KEY_'' @ show_nat i @ ''='' @ cfg_key c)
     # (''GIT_CONFIG_VALUE_'' @ show_nat i @ ''='' @ cfg_value c)
     # config_env (i + 1) cs"

definition command_env :: "string list \<Rightarrow> git_config list \<Rightarrow> string list \<Rightarrow> string list" where
  "command_env env cfg extra =
     (let all = [\<lparr>cfg_key = ''http.lowSpeedLimit'', cfg_value = low_speed_limit\<rparr>,
                 \<lparr>cfg_key = ''http.lowSpeedTime'', cfg_value = low_speed_time\<rparr>] @ memory_bounds @ cfg
      in base_env env @ extra @ [''GIT_CONFIG_COUNT='' @ show_nat (length all)] @ config_env 0 all)"

definition set_by_gitdr :: "string \<Rightarrow> bool" where
  "set_by_gitdr name \<longleftrightarrow>
     name = ''GIT_TERMINAL_PROMPT'' \<or> name = ''GIT_LFS_SKIP_SMUDGE'' \<or> name = ''GIT_CONFIG_COUNT''
     \<or> has_prefix ''GIT_CONFIG_KEY_'' name \<or> has_prefix ''GIT_CONFIG_VALUE_'' name"

text \<open>slices.Compact: runs of equal elements become one.\<close>

definition changes_git :: "string \<Rightarrow> bool" where
  "changes_git name \<longleftrightarrow> has_prefix ''GIT_'' name \<or> name = ''XDG_CONFIG_HOME'' \<or> name = ''SSH_ASKPASS''
     \<or> name = ''LD_PRELOAD'' \<or> name = ''LD_LIBRARY_PATH''"

definition withheld :: "string list \<Rightarrow> string list" where
  "withheld env = remdups_adj (sort (filter
     (\<lambda>name. \<not> (name \<in> set passed_through \<or> set_by_gitdr name) \<and> changes_git name) (map env_name env)))"

definition extra_header_key :: "string \<Rightarrow> string" where
  "extra_header_key raw = (case url_parse raw of
       Some u \<Rightarrow> if url_scheme u \<noteq> [] \<and> url_host u \<noteq> []
                 then ''http.'' @ url_scheme u @ ''://'' @ url_host u @ ''/.extraHeader''
                 else ''http.extraHeader''
     | None \<Rightarrow> ''http.extraHeader'')"

definition auth_config :: "string \<Rightarrow> string \<Rightarrow> git_config list" where
  "auth_config repo_url header =
     (if header \<noteq> [] then [\<lparr>cfg_key = extra_header_key repo_url, cfg_value = header\<rparr>] else [])"

text \<open>An entry of the environment sets the variable its name names.\<close>

lemma env_name_append: "CHR ''='' \<notin> set n \<Longrightarrow> env_name (n @ ''='' @ v) = n"
  by (simp add: env_name_def cut_at_Some split: option.splits)
    (metis cut_at_Some cut_at_None in_set_conv_decomp option.exhaust option.inject prod.inject surj_pair)

lemma digit_not_eq: "digit n \<noteq> CHR ''=''"
proof
  assume "digit n = CHR ''=''"
  then have "(of_char (digit n)::nat) = of_char (CHR ''='')" by (rule arg_cong)
  then have "48 + n mod 10 = (61::nat)" by (simp add: digit_def)
  moreover have "n mod 10 < 10" by simp
  ultimately show False by linarith
qed

lemma env_name_cfg:
  assumes "n \<in> {''GIT_CONFIG_KEY_'', ''GIT_CONFIG_VALUE_''}"
  shows "set_by_gitdr (env_name (n @ show_nat i @ ''='' @ v))"
proof -
  have "CHR ''='' \<notin> set (show_nat i)"
    by (induction i rule: show_nat.induct) (subst show_nat.simps, simp add: digit_not_eq [symmetric])
  moreover have "CHR ''='' \<notin> set n" using assms by auto
  ultimately have "env_name ((n @ show_nat i) @ ''='' @ v) = n @ show_nat i"
    by (intro env_name_append) simp
  then have "env_name (n @ show_nat i @ ''='' @ v) = n @ show_nat i" by simp
  moreover have "has_prefix n (n @ show_nat i)" by (rule has_prefix_append)
  ultimately show ?thesis using assms unfolding set_by_gitdr_def by fastforce
qed

lemma config_env_names: "kv \<in> set (config_env i cs) \<Longrightarrow> set_by_gitdr (env_name kv)"
proof (induction i cs rule: config_env.induct)
  case (2 i c cs)
  then show ?case using env_name_cfg [of "''GIT_CONFIG_KEY_''" i "cfg_key c"]
      env_name_cfg [of "''GIT_CONFIG_VALUE_''" i "cfg_value c"] by auto
qed simp

lemma env_name_count: "set_by_gitdr (env_name (''GIT_CONFIG_COUNT='' @ v))"
proof -
  have "env_name (''GIT_CONFIG_COUNT'' @ ''='' @ v) = ''GIT_CONFIG_COUNT''"
    by (rule env_name_append) simp
  then show ?thesis by (simp add: set_by_gitdr_def)
qed

lemma command_env_entry:
  assumes "kv \<in> set (command_env env cfg extra)"
  shows "kv \<in> set extra \<or> set_by_gitdr (env_name kv)
    \<or> kv \<in> set env \<and> env_name kv \<in> set passed_through"
  using assms config_env_names env_name_count
  unfolding command_env_def Let_def base_env_def
  by (auto simp del: config_env.simps)

section \<open>Running git\<close>

definition git_error :: "string list \<Rightarrow> goerr \<Rightarrow> string \<Rightarrow> goerr" where
  "git_error args e tail = GoErr Plain (''git '' @ hd args @ '': '' @ err_text e @ '': '' @ tail) [e]"

definition kept_stderr :: "string list \<Rightarrow> string" where
  "kept_stderr writes = tail_string (tail_writes (new_tail stderr_kept) writes)"

text \<open>The environment outputCfg and run give git besides what baseEnv lets through.\<close>

definition output_extra :: "string list" where
  "output_extra = [''GIT_TERMINAL_PROMPT=0'']"

definition run_extra :: "string list" where
  "run_extra = [''GIT_TERMINAL_PROMPT=0'', ''GIT_LFS_SKIP_SMUDGE=1'']"

definition command :: "'w machine \<Rightarrow> string \<Rightarrow> git_config list \<Rightarrow> string list \<Rightarrow> string list \<Rightarrow> 'w \<Rightarrow> proc_result \<times> 'w" where
  "command m workdir cfg extra args = start_git m workdir (command_env (environ m) cfg extra) args"

definition git_output_cfg :: "'w machine \<Rightarrow> string \<Rightarrow> git_config list \<Rightarrow> string list \<Rightarrow> ('w, string) io" where
  "git_output_cfg m workdir cfg args = (\<lambda>w. case command m workdir cfg output_extra args w of
     (r, w') \<Rightarrow> (case run_error r of
         Some e \<Rightarrow> (Inl (git_error args e (kept_stderr (run_stderr r))), w')
       | None \<Rightarrow> (Inr (run_stdout r), w')))"

definition git_output :: "'w machine \<Rightarrow> string \<Rightarrow> string list \<Rightarrow> ('w, string) io" where
  "git_output m workdir args = git_output_cfg m workdir [] args"

definition git_run :: "'w machine \<Rightarrow> string \<Rightarrow> git_config list \<Rightarrow> string list \<Rightarrow> ('w, unit) io" where
  "git_run m workdir cfg args = (\<lambda>w. case command m workdir cfg run_extra args w of
     (r, w') \<Rightarrow> (case run_error r of
         Some e \<Rightarrow> (Inl (git_error args e (kept_stderr (run_stderr r))), w')
       | None \<Rightarrow> (Inr (), w')))"

definition clone_mirror :: "'w machine \<Rightarrow> string \<Rightarrow> string \<Rightarrow> string \<Rightarrow> ('w, unit) io" where
  "clone_mirror m repo_url dir header =
     git_run m [] (auth_config repo_url header) [''clone'', ''--mirror'', ''--quiet'', ''--'', repo_url, dir]"

definition has_refs :: "'w machine \<Rightarrow> string \<Rightarrow> ('w, bool) io" where
  "has_refs m dir = bindE (git_output m dir [''for-each-ref'', ''--count=1'', ''--format=%(refname)''])
     (\<lambda>out. okE (trim_space out \<noteq> []))"

definition is_hex :: "string \<Rightarrow> bool" where
  "is_hex s \<longleftrightarrow> s \<noteq> [] \<and> list_all is_hex_digit s"

text \<open>\<open>errors.As(err, &exit) && exit.ExitCode() == 1\<close>.\<close>

definition exited_1 :: "goerr \<Rightarrow> bool" where
  "exited_1 e \<longleftrightarrow> map_option err_kind (errors_as (\<lambda>k. case k of ExitStatus c \<Rightarrow> True | _ \<Rightarrow> False) e) = Some (ExitStatus 1)"

definition head_ref :: "'w machine \<Rightarrow> string \<Rightarrow> ('w, string \<times> bool) io" where
  "head_ref m dir = bindE (tryE (git_output m dir [''rev-parse'', ''--verify'', ''--quiet'', ''HEAD'']))
     (\<lambda>r. case r of
        Inl e \<Rightarrow> if exited_1 e then okE ([], False) else failE (wrap_error ''resolve HEAD'' e)
      | Inr out \<Rightarrow> okE (trim_space out, True))"

definition head_resolves :: "'w machine \<Rightarrow> string \<Rightarrow> ('w, bool) io" where
  "head_resolves m dir = bindE (head_ref m dir) (\<lambda>(oid, resolves). okE resolves)"

definition head_oid :: "'w machine \<Rightarrow> string \<Rightarrow> ('w, string) io" where
  "head_oid m dir = bindE (mapErrE (wrap_error ''resolve HEAD'') (git_output m dir [''rev-parse'', ''--verify'', ''HEAD'']))
     (\<lambda>out. let oid = trim_space out in
        if \<not> is_hex oid then failE (new_error (''unreadable HEAD '' @ quote oid)) else okE oid)"

definition bundle_all :: "'w machine \<Rightarrow> string \<Rightarrow> string \<Rightarrow> ('w, unit) io" where
  "bundle_all m dir path = bindE (head_ref m dir) (\<lambda>(oid, resolves).
     git_run m dir [] ([''bundle'', ''create'', path, ''--all''] @ (if resolves then [''HEAD''] else []) @ [''--'']))"

text \<open>
  The scratch repository a bundle is read from: made, used, and removed on every path out of it.
\<close>

definition with_scratch_repo :: "'w machine \<Rightarrow> string \<Rightarrow> (string \<Rightarrow> string \<Rightarrow> ('w, 'a) io) \<Rightarrow> ('w, 'a) io" where
  "with_scratch_repo m path use =
     bindE (mapErrE (wrap_error ''scratch repo'') (mkdir_temp m ''gitdr-bundle-'')) (\<lambda>scratch.
       deferE (remove_all m scratch)
         (bindE (mapErrE (wrap_error ''scratch repo'')
                   (git_run m [] [] [''init'', ''--quiet'', ''--bare'', scratch])) (\<lambda>_.
          bindE (mapErrE (wrap_error ''bundle path'') (abs_path m path)) (\<lambda>abs. use scratch abs))))"

definition bundle_verify :: "'w machine \<Rightarrow> string \<Rightarrow> ('w, unit) io" where
  "bundle_verify m path = with_scratch_repo m path (\<lambda>scratch abs.
     git_run m scratch [] [''bundle'', ''verify'', abs])"

definition clone_from_bundle :: "'w machine \<Rightarrow> string \<Rightarrow> string \<Rightarrow> ('w, unit) io" where
  "clone_from_bundle m path dir =
     git_run m [] [] [''clone'', ''--quiet'', ''--origin'', ''origin'', ''--'', path, dir]"

definition lfs_available :: "'w machine \<Rightarrow> 'w \<Rightarrow> bool" where
  "lfs_available m = look_path m ''git-lfs''"

definition lfs_fetch_all :: "'w machine \<Rightarrow> string \<Rightarrow> string \<Rightarrow> string \<Rightarrow> ('w, unit) io" where
  "lfs_fetch_all m dir repo_url header =
     git_run m dir (auth_config repo_url header) [''lfs'', ''fetch'', ''--all'']"

definition lfs_install_local :: "'w machine \<Rightarrow> string \<Rightarrow> ('w, unit) io" where
  "lfs_install_local m dir = git_run m dir [] [''lfs'', ''install'', ''--local'', ''--skip-repo'']"

definition lfs_checkout :: "'w machine \<Rightarrow> string \<Rightarrow> ('w, unit) io" where
  "lfs_checkout m dir = git_run m dir [] [''lfs'', ''checkout'']"

section \<open>Reading what git prints\<close>

text \<open>
  Every listing is read a line at a time: blank lines are passed over, a line that cannot be
  read is an error for the whole listing, and an entry is kept unless the reader drops it.
\<close>

definition blank :: "string \<Rightarrow> bool" where
  "blank line \<longleftrightarrow> trim_space line = []"

fun read_lines :: "(string \<Rightarrow> goerr + 'a option) \<Rightarrow> string list \<Rightarrow> goerr + 'a list" where
  "read_lines rd [] = Inr []"
| "read_lines rd (l # ls) =
     (if blank l then read_lines rd ls
      else case rd l of
        Inl e \<Rightarrow> Inl e
      | Inr x \<Rightarrow> (case read_lines rd ls of
            Inl e \<Rightarrow> Inl e
          | Inr xs \<Rightarrow> Inr (case x of None \<Rightarrow> xs | Some y \<Rightarrow> y # xs)))"

definition newline :: char where "newline = CHR 0x0A"
definition tab :: char where "tab = CHR 0x09"

definition parse_oid_name :: "string \<Rightarrow> goerr + (string \<times> string)" where
  "parse_oid_name line = (case str_fields line of
       [oid, name] \<Rightarrow>
         if \<not> is_hex oid then Inl (new_error (''object id '' @ quote oid @ '' is not hexadecimal''))
         else if list_ex is_control name
         then Inl (new_error (''ref name '' @ quote name @ '' contains a control character''))
         else Inr (oid, name)
     | fs \<Rightarrow> Inl (new_error (''want '' @ quote ''<oid> <ref>'' @ '', got '' @ show_nat (length fs) @ '' fields in '' @ quote line)))"

type_synonym refs = "(string \<times> string) list"

record bundle_ref =
  bref_name :: string
  bref_oid :: string

definition read_oid_name :: "string \<Rightarrow> string \<Rightarrow> goerr + (string \<times> string) option" where
  "read_oid_name what line = (case parse_oid_name line of
       Inl e \<Rightarrow> Inl (wrap_error what e)
     | Inr (oid, name) \<Rightarrow> Inr (Some (name, oid)))"

definition parse_bundle_heads :: "string \<Rightarrow> goerr + bundle_ref list" where
  "parse_bundle_heads out = map_sum id (map (\<lambda>(n, oid). \<lparr>bref_name = n, bref_oid = oid\<rparr>))
     (read_lines (read_oid_name ''unreadable bundle header line'') (split_on newline out))"

text \<open>The map a loop of assignments \<open>refs[name] = oid\<close> builds.\<close>

definition ref_map :: "(string \<times> string) list \<Rightarrow> refs" where
  "ref_map es = foldl (\<lambda>m (n, oid). AList.update n oid m) [] es"

definition bundle_heads :: "'w machine \<Rightarrow> string \<Rightarrow> ('w, bundle_ref list) io" where
  "bundle_heads m path = with_scratch_repo m path (\<lambda>scratch abs.
     bindE (mapErrE (wrap_error ''list bundle heads'') (git_output m scratch [''bundle'', ''list-heads'', abs]))
       (\<lambda>out. liftE (parse_bundle_heads out)))"

definition list_refs :: "'w machine \<Rightarrow> string \<Rightarrow> ('w, refs) io" where
  "list_refs m dir =
     bindE (mapErrE (wrap_error ''list refs'') (git_output m dir [''for-each-ref'', ''--format=%(objectname) %(refname)'']))
       (\<lambda>out. liftE (map_sum id ref_map (read_lines (read_oid_name ''unreadable ref line'') (split_on newline out))))"

definition read_remote_line :: "string \<Rightarrow> goerr + (string \<times> string) option" where
  "read_remote_line line = (case cut_at tab (trim_space line) of
       None \<Rightarrow> Inl (new_error (''unreadable ls-remote line: '' @ quote line))
     | Some (oid, name) \<Rightarrow> Inr (if has_suffix ''^{}'' name then None else Some (name, oid)))"

definition ls_remote :: "'w machine \<Rightarrow> string \<Rightarrow> string \<Rightarrow> ('w, refs) io" where
  "ls_remote m repo_url header =
     bindE (mapErrE (wrap_error ''ls-remote'')
         (git_output_cfg m [] (auth_config repo_url header) [''ls-remote'', ''--'', repo_url]))
       (\<lambda>out. liftE (map_sum id ref_map (read_lines read_remote_line (split_on newline out))))"

definition mirror_refs :: "'w machine \<Rightarrow> string \<Rightarrow> ('w, refs) io" where
  "mirror_refs m dir = bindE (list_refs m dir) (\<lambda>refs. bindE (head_ref m dir) (\<lambda>(head, resolves).
     if \<not> resolves then okE refs
     else if \<not> is_hex head then failE (new_error (''unreadable HEAD '' @ quote head))
     else okE (AList.update ''HEAD'' head refs)))"

subsection \<open>A listing of entries reads back as those entries\<close>

text \<open>
  What the readers of git's listings share: a line printed for an entry holds no newline, is
  not blank, and reads back as the entry, kept or dropped.
\<close>

locale line_format =
  fixes line :: "'e \<Rightarrow> string" and rd :: "string \<Rightarrow> goerr + 'a option"
    and ok :: "'e \<Rightarrow> bool" and entry :: "'e \<Rightarrow> 'a option"
  assumes one_line: "ok e \<Longrightarrow> newline \<notin> set (line e)"
    and not_blank: "ok e \<Longrightarrow> \<not> blank (line e)"
    and reads: "ok e \<Longrightarrow> rd (line e) = Inr (entry e)"
begin

lemma split_lines:
  "\<forall>e \<in> set es. ok e \<Longrightarrow>
   split_on newline (concat (map (\<lambda>e. line e @ [newline]) es)) = map line es @ [[]]"
  by (induction es) (simp_all add: one_line split_on_append)

lemma read_printed:
  assumes "\<forall>e \<in> set es. ok e"
  shows "read_lines rd (split_on newline (concat (map (\<lambda>e. line e @ [newline]) es))) = Inr (List.map_filter entry es)"
proof -
  have "read_lines rd (map line es @ [[]]) = Inr (List.map_filter entry es)"
    using assms
    by (induction es) (simp_all add: not_blank reads blank_def [symmetric] map_filter_simps
        blank_def [of "[]"] split: option.splits)
  then show ?thesis by (simp add: split_lines assms)
qed

end

text \<open>Visible ASCII bytes, which object ids and nearly every ref name are made of.\<close>

definition graphic :: "char \<Rightarrow> bool" where
  "graphic c \<longleftrightarrow> 0x21 \<le> byte c \<and> byte c \<le> 0x7E"

lemma graphic_not_space: "graphic c \<Longrightarrow> e \<in> set utf8_spaces \<Longrightarrow> c \<notin> set e"
  by (auto simp: utf8_spaces_def graphic_def byte_def)

lemma space_len_graphic [simp]:
  assumes "graphic c"
  shows "space_len (c # s) = 0"
proof -
  have "\<not> has_prefix e (c # s)" if e_in: "e \<in> set utf8_spaces" for e
  proof -
    obtain x xs where e: "e = x # xs" using utf8_spaces_nonempty [OF e_in] by (cases e) simp_all
    then have "x \<noteq> c" using graphic_not_space [OF assms e_in] by auto
    then show ?thesis by (simp add: e has_prefix_def)
  qed
  then have "List.find (\<lambda>e. has_prefix e (c # s)) utf8_spaces = None"
    by (simp add: find_None_iff)
  then show ?thesis by (simp add: space_len_def)
qed

lemma space_len_blank [simp]: "space_len (CHR '' '' # s) = 1"
  by (simp add: space_len_def utf8_spaces_def has_prefix_def)

lemma space_len_Nil [simp]: "space_len [] = 0"
  by (simp add: space_len_def utf8_spaces_def has_prefix_def)

lemma fields_from_word:
  "\<forall>c \<in> set s. graphic c \<Longrightarrow> fields_from acc (s @ r) = fields_from (rev s @ acc) r"
proof (induction s arbitrary: acc)
  case (Cons c s)
  then show ?case by (subst fields_from.simps) simp
qed simp

definition word :: "string \<Rightarrow> bool" where
  "word s \<longleftrightarrow> s \<noteq> [] \<and> (\<forall>c \<in> set s. graphic c)"

lemma fields_two: "word a \<Longrightarrow> word b \<Longrightarrow> str_fields (a @ '' '' @ b) = [a, b]"
proof -
  assume a: "word a" and b: "word b"
  have e: "fields_from (rev b) [] = [b]"
    using b by (subst fields_from.simps) (simp add: word_def)
  have "fields_from [] b = fields_from (rev b) []"
    using b fields_from_word [of b "[]" "[]"] by (simp add: word_def)
  moreover have "fields_from (rev a) ('' '' @ b) = a # fields_from [] b"
    using a by (subst fields_from.simps) (simp add: word_def)
  ultimately show ?thesis
    using a e fields_from_word [of a "[]" "'' '' @ b"] by (simp add: str_fields_def word_def)
qed

lemma trim_left_graphic: "graphic c \<Longrightarrow> trim_left (c # s) = c # s"
  by (simp add: trim_left.simps)

lemma trim_right_graphic:
  assumes "graphic c"
  shows "trim_right (s @ [c]) = s @ [c]"
proof -
  have "\<not> has_suffix e (s @ [c])" if e_in: "e \<in> set utf8_spaces" for e
  proof
    assume "has_suffix e (s @ [c])"
    then obtain p where "s @ [c] = p @ e" by (metis append_take_drop_id has_suffix_def)
    then have "last e = c" and "e \<noteq> []"
      using utf8_spaces_nonempty [OF e_in] by (metis last_appendR last_snoc, simp)
    then have "c \<in> set e" by (metis last_in_set)
    then show False using graphic_not_space [OF assms e_in] by simp
  qed
  then have "List.find (\<lambda>e. has_suffix e (s @ [c])) utf8_spaces = None"
    by (simp add: find_None_iff)
  then show ?thesis by (simp add: trim_right.simps strip_space_end.simps)
qed

lemma trim_space_edges: "graphic c \<Longrightarrow> graphic d \<Longrightarrow> trim_space (c # s @ [d]) = c # s @ [d]"
  using trim_right_graphic [of d "c # s"] by (simp add: trim_space_def trim_left_graphic)

lemma word_edges: "word s \<Longrightarrow> \<exists>c t. s = c # t \<and> graphic c" "word s \<Longrightarrow> \<exists>t d. s = t @ [d] \<and> graphic d"
proof -
  show "word s \<Longrightarrow> \<exists>c t. s = c # t \<and> graphic c" by (cases s) (auto simp: word_def)
  show "word s \<Longrightarrow> \<exists>t d. s = t @ [d] \<and> graphic d" by (cases s rule: rev_cases) (auto simp: word_def)
qed

lemma trim_space_words: "word a \<Longrightarrow> word b \<Longrightarrow> trim_space (a @ sep @ b) = a @ sep @ b"
proof -
  assume "word a" and "word b"
  then obtain c t u d where "a = c # t" "graphic c" "b = u @ [d]" "graphic d"
    using word_edges by meson
  then show ?thesis using trim_space_edges [of c d "t @ sep @ u"] by simp
qed

lemma trim_space_word: "word a \<Longrightarrow> trim_space a = a"
proof -
  assume a: "word a"
  then obtain t d where "a = t @ [d]" "graphic d" using word_edges by meson
  moreover obtain c u where "a = c # u" "graphic c" using a word_edges by meson
  ultimately show ?thesis
    using trim_right_graphic [of d t] trim_left_graphic [of c u] by (simp add: trim_space_def)
qed

text \<open>The line of bundle list-heads and of the for-each-ref format, and the line of ls-remote.\<close>

definition oid_line :: "string \<times> string \<Rightarrow> string" where
  "oid_line e = snd e @ '' '' @ fst e"

definition remote_line :: "string \<times> string \<Rightarrow> string" where
  "remote_line e = snd e @ [tab] @ fst e"

definition listed_ref :: "string \<times> string \<Rightarrow> bool" where
  "listed_ref e \<longleftrightarrow> word (fst e) \<and> word (snd e) \<and> is_hex (snd e)"

definition unpeeled :: "string \<times> string \<Rightarrow> (string \<times> string) option" where
  "unpeeled e = (if has_suffix ''^{}'' (fst e) then None else Some e)"

lemma word_no_control: "word s \<Longrightarrow> \<not> list_ex is_control s"
  by (auto simp: word_def list_ex_iff is_control_def graphic_def)

lemma word_bytes: "word s \<Longrightarrow> newline \<notin> set s \<and> tab \<notin> set s \<and> CHR '' '' \<notin> set s"
  by (auto simp: word_def graphic_def byte_def newline_def tab_def)

lemma space_line_bytes: "newline \<noteq> CHR '' ''" "newline \<noteq> tab"
  by (simp_all add: newline_def tab_def)

lemma parse_oid_name_line: "listed_ref e \<Longrightarrow> parse_oid_name (oid_line e) = Inr (snd e, fst e)"
  by (simp add: parse_oid_name_def oid_line_def listed_ref_def fields_two [simplified] word_no_control)

interpretation oid_lines: line_format oid_line "read_oid_name what" listed_ref Some for what
proof
  fix e assume e: "listed_ref e"
  then have w: "word (fst e)" "word (snd e)" by (simp_all add: listed_ref_def)
  show "newline \<notin> set (oid_line e)"
    using word_bytes [OF w(1)] word_bytes [OF w(2)] space_line_bytes by (simp add: oid_line_def)
  show "\<not> blank (oid_line e)"
    using w trim_space_words [OF w(2) w(1), of "'' ''"] by (simp add: blank_def oid_line_def word_def)
  show "read_oid_name what (oid_line e) = Inr (Some e)"
    using parse_oid_name_line [OF e] by (simp add: read_oid_name_def)
qed

interpretation remote_lines: line_format remote_line read_remote_line listed_ref unpeeled
proof
  fix e assume e: "listed_ref e"
  then have w: "word (fst e)" "word (snd e)" by (simp_all add: listed_ref_def)
  have t: "trim_space (remote_line e) = remote_line e"
    unfolding remote_line_def by (rule trim_space_words [OF w(2) w(1)])
  show "newline \<notin> set (remote_line e)"
    using word_bytes [OF w(1)] word_bytes [OF w(2)] space_line_bytes by (simp add: remote_line_def)
  show "\<not> blank (remote_line e)"
    unfolding blank_def t by (simp add: remote_line_def)
  have "cut_at tab (remote_line e) = Some (snd e, fst e)"
    using word_bytes [OF w(2)] by (simp add: remote_line_def cut_at_Some)
  then show "read_remote_line (remote_line e) = Inr (unpeeled e)"
    by (simp add: read_remote_line_def t unpeeled_def)
qed

lemma map_filter_Some [simp]: "List.map_filter Some xs = xs"
  by (induction xs) (simp_all add: map_filter_simps)

definition print_heads :: "bundle_ref list \<Rightarrow> string" where
  "print_heads rs = concat (map (\<lambda>r. bref_oid r @ '' '' @ bref_name r @ [newline]) rs)"

definition readable_ref :: "bundle_ref \<Rightarrow> bool" where
  "readable_ref r \<longleftrightarrow> listed_ref (bref_name r, bref_oid r)"

lemma print_heads_lines:
  "print_heads rs = concat (map (\<lambda>e. oid_line e @ [newline]) (map (\<lambda>r. (bref_name r, bref_oid r)) rs))"
  by (simp add: print_heads_def oid_line_def comp_def)

lemma parse_print_heads:
  assumes "\<forall>r \<in> set rs. readable_ref r"
  shows "parse_bundle_heads (print_heads rs) = Inr rs"
proof -
  let ?es = "map (\<lambda>r. (bref_name r, bref_oid r)) rs"
  have "\<forall>e \<in> set ?es. listed_ref e" using assms by (simp add: readable_ref_def)
  note r = oid_lines.read_printed [OF this, of "''unreadable bundle header line''"]
  have "map ((\<lambda>(n, oid). \<lparr>bref_name = n, bref_oid = oid\<rparr>) \<circ> (\<lambda>r. (bref_name r, bref_oid r))) rs = rs"
    by (induction rs) simp_all
  then show ?thesis
    unfolding parse_bundle_heads_def print_heads_lines r by simp
qed

lemma distinct_ref_map: "distinct (map fst (ref_map es))"
proof -
  have "distinct (map fst m) \<Longrightarrow> distinct (map fst (foldl (\<lambda>m (n, oid). AList.update n oid m) m es))" for m
    by (induction es arbitrary: m) (auto simp: distinct_update split: prod.splits)
  then show ?thesis by (simp add: ref_map_def)
qed

lemma ref_map_last: "map_of (ref_map es) n = map_of (rev es) n"
proof -
  have "map_of (foldl (\<lambda>m (n, oid). AList.update n oid m) m es) n
      = (case map_of (rev es) n of None \<Rightarrow> map_of m n | Some v \<Rightarrow> Some v)" for m
    by (induction es arbitrary: m)
      (auto simp: update_conv' map_add_def split: prod.splits option.splits)
  then show ?thesis by (simp add: ref_map_def split: option.splits)
qed

lemma list_refs_printed:
  assumes "\<forall>e \<in> set es. listed_ref e"
    and "git_output m dir [''for-each-ref'', ''--format=%(objectname) %(refname)''] w
      = (Inr (concat (map (\<lambda>e. oid_line e @ [newline]) es)), w')"
  shows "list_refs m dir w = (Inr (ref_map es), w')"
  using assms(2) oid_lines.read_printed [OF assms(1)]
  by (simp add: list_refs_def bindE_def mapErrE_def)

lemma ls_remote_printed:
  assumes "\<forall>e \<in> set es. listed_ref e"
    and "git_output_cfg m [] (auth_config url header) [''ls-remote'', ''--'', url] w
      = (Inr (concat (map (\<lambda>e. remote_line e @ [newline]) es)), w')"
  shows "ls_remote m url header w = (Inr (ref_map (List.map_filter unpeeled es)), w')"
  using assms(2) remote_lines.read_printed [OF assms(1)]
  by (simp add: ls_remote_def bindE_def mapErrE_def)

text \<open>A listing whose every line must be read: what comes back accounts for each of its lines.\<close>

lemma read_lines_all:
  "read_lines rd ls = Inr xs \<Longrightarrow> l \<in> set ls \<Longrightarrow> \<not> blank l \<Longrightarrow>
   \<exists>x. rd l = Inr x \<and> (\<forall>y. x = Some y \<longrightarrow> y \<in> set xs)"
  by (induction ls arbitrary: xs) (auto split: if_splits sum.splits option.splits)

lemma read_lines_length:
  "read_lines (\<lambda>l. map_sum id Some (f l)) ls = Inr xs \<Longrightarrow> length xs = length (filter (\<lambda>l. \<not> blank l) ls)"
proof (induction ls arbitrary: xs)
  case (Cons l ls)
  then show ?case by (cases "f l") (auto split: if_splits sum.splits)
qed simp

lemma parse_oid_name_Inr:
  "parse_oid_name line = Inr (oid, name) \<longleftrightarrow>
   str_fields line = [oid, name] \<and> is_hex oid \<and> \<not> list_ex is_control name"
  by (auto simp: parse_oid_name_def split: list.splits if_splits)

lemma parse_bundle_heads_complete:
  assumes "parse_bundle_heads out = Inr rs"
  shows "length rs = length (filter (\<lambda>l. \<not> blank l) (split_on newline out))"
    and "l \<in> set (split_on newline out) \<Longrightarrow> \<not> blank l \<Longrightarrow>
      \<exists>r \<in> set rs. str_fields l = [bref_oid r, bref_name r] \<and> is_hex (bref_oid r)
        \<and> \<not> list_ex is_control (bref_name r)"
proof -
  let ?rd = "read_oid_name ''unreadable bundle header line''"
  obtain es where es: "read_lines ?rd (split_on newline out) = Inr es"
    and rs: "rs = map (\<lambda>(n, oid). \<lparr>bref_name = n, bref_oid = oid\<rparr>) es"
    using assms by (cases "read_lines ?rd (split_on newline out)") (auto simp: parse_bundle_heads_def)
  have rd: "?rd = (\<lambda>l. map_sum id Some (map_sum (wrap_error ''unreadable bundle header line'') prod.swap (parse_oid_name l)))"
    by (auto simp: read_oid_name_def fun_eq_iff split: sum.splits)
  show "length rs = length (filter (\<lambda>l. \<not> blank l) (split_on newline out))"
    using read_lines_length [OF es [unfolded rd]] rs by simp
  assume "l \<in> set (split_on newline out)" "\<not> blank l"
  then obtain x where x: "?rd l = Inr x" "\<forall>y. x = Some y \<longrightarrow> y \<in> set es"
    using read_lines_all [OF es] by blast
  then obtain oid n where e: "(n, oid) \<in> set es" "parse_oid_name l = Inr (oid, n)"
    by (cases "parse_oid_name l") (auto simp: read_oid_name_def)
  then show "\<exists>r \<in> set rs. str_fields l = [bref_oid r, bref_name r] \<and> is_hex (bref_oid r)
        \<and> \<not> list_ex is_control (bref_name r)"
    unfolding rs parse_oid_name_Inr by (intro bexI [of _ "\<lparr>bref_name = n, bref_oid = oid\<rparr>"]) (simp, force)
qed

section \<open>What a run of git may change\<close>

text \<open>
  A machine whose every call stays within a relation keeps every method of Git within it: the
  methods do nothing to the world but through the machine.
\<close>

definition machine_steps :: "('w \<Rightarrow> 'w \<Rightarrow> bool) \<Rightarrow> 'w machine \<Rightarrow> bool" where
  "machine_steps R m \<longleftrightarrow>
     (\<forall>d e a w. R w (snd (start_git m d e a w))) \<and> (\<forall>p. steps_in R (mkdir_temp m p))
     \<and> (\<forall>p w. R w (remove_all m p w)) \<and> (\<forall>p. steps_in R (abs_path m p))"

locale git_frame = world_order R for R :: "'w \<Rightarrow> 'w \<Rightarrow> bool" +
  fixes m :: "'w machine"
  assumes machine: "machine_steps R m"
begin

lemma steps_command: "R w (snd (command m d cfg x args w))"
  using machine by (simp add: machine_steps_def command_def)

lemma steps_output_cfg: "steps_in R (git_output_cfg m d cfg args)"
  unfolding steps_in_def git_output_cfg_def
  using steps_command [of _ d cfg output_extra args] by (auto split: prod.splits option.splits) (metis snd_conv)+

lemma steps_output: "steps_in R (git_output m d args)"
  by (simp add: git_output_def steps_output_cfg)

lemma steps_run: "steps_in R (git_run m d cfg args)"
  unfolding steps_in_def git_run_def
  using steps_command [of _ d cfg run_extra args] by (auto split: prod.splits option.splits) (metis snd_conv)+

lemma steps_head: "steps_in R (head_ref m d)"
  unfolding head_ref_def by (intro steps_rules steps_output)

lemma steps_scratch: "(\<And>a b. steps_in R (f a b)) \<Longrightarrow> steps_in R (with_scratch_repo m p f)"
  unfolding with_scratch_repo_def using machine
  by (intro steps_rules steps_defer steps_run) (simp_all add: machine_steps_def)

lemmas steps_git = steps_output_cfg steps_output steps_run steps_head steps_scratch

lemma steps_methods:
  "steps_in R (clone_mirror m u d h)" "steps_in R (has_refs m d)" "steps_in R (head_resolves m d)"
  "steps_in R (head_oid m d)" "steps_in R (bundle_all m d p)" "steps_in R (bundle_verify m p)"
  "steps_in R (clone_from_bundle m p d)" "steps_in R (lfs_fetch_all m d u h)"
  "steps_in R (lfs_install_local m d)" "steps_in R (lfs_checkout m d)" "steps_in R (bundle_heads m p)"
  "steps_in R (list_refs m d)" "steps_in R (ls_remote m u h)" "steps_in R (mirror_refs m d)"
  unfolding clone_mirror_def has_refs_def head_resolves_def head_oid_def bundle_all_def bundle_verify_def
    clone_from_bundle_def lfs_fetch_all_def lfs_install_local_def lfs_checkout_def bundle_heads_def
    list_refs_def ls_remote_def mirror_refs_def Let_def
  by (intro steps_rules steps_git)+

end

end
