(* ===== verification/Go_Time.thy ===== *)
theory Go_Time
  imports Prelude
begin

text \<open>
  Go's package time, as far as the sources use it: an instant is its nanoseconds since the Unix
  epoch, a duration is a signed 64-bit count of nanoseconds, and the two layouts the pipeline
  writes and reads, the date of a copy and the stamp a manifest is named by, are formatted and
  parsed on the proleptic Gregorian calendar. The lemmas at the end are what the pipeline rests
  on: a stamp reads back as the second it was written for, and stamps compare as strings the
  way their instants compare.
\<close>

section \<open>Instants and durations\<close>

type_synonym time = int
type_synonym duration = int

definition nanosecond :: int where "nanosecond = 1"
definition second :: int where "second = 1000000000"
definition minute :: int where "minute = 60 * second"
definition hour :: int where "hour = 60 * minute"
definition day :: int where "day = 24 * hour"

lemmas time_units = nanosecond_def second_def minute_def hour_def day_def

text \<open>The zero time.Time, 1 January of year 1.\<close>

definition time_zero :: time where
  "time_zero = - 62135596800 * second"

definition is_zero :: "time \<Rightarrow> bool" where
  "is_zero t \<longleftrightarrow> t = time_zero"

text \<open>\<open>t.Sub(u)\<close> saturates at the largest and the smallest duration.\<close>

definition time_sub :: "time \<Rightarrow> time \<Rightarrow> duration" where
  "time_sub t u = max (- (2 ^ 63)) (min (2 ^ 63 - 1) (t - u))"

definition time_add :: "time \<Rightarrow> duration \<Rightarrow> time" where
  "time_add t d = t + d"

text \<open>\<open>time.Duration(n) * 24 * time.Hour\<close>: the product wraps around at 64 bits.\<close>

definition days_duration :: "int \<Rightarrow> duration" where
  "days_duration n = wrap64 (n * day)"

lemma days_duration_exact: "0 \<le> n \<Longrightarrow> n \<le> 106751 \<Longrightarrow> days_duration n = n * day"
  by (simp add: days_duration_def time_units wrap64_id in_int64_def)

lemma time_sub_nonneg_le: "0 \<le> time_sub t u \<Longrightarrow> time_sub t u < b \<Longrightarrow> b \<le> 2 ^ 63 - 1 \<Longrightarrow> u \<le> t \<and> t - u < b"
  by (auto simp: time_sub_def max_def min_def split: if_splits)

section \<open>The calendar\<close>

text \<open>Days are counted from 1 January of year 1.\<close>

definition leap :: "int \<Rightarrow> bool" where
  "leap y \<longleftrightarrow> y mod 4 = 0 \<and> (y mod 100 \<noteq> 0 \<or> y mod 400 = 0)"

definition year_len :: "int \<Rightarrow> int" where
  "year_len y = (if leap y then 366 else 365)"

definition days_before :: "int \<Rightarrow> int" where
  "days_before y = 365 * (y - 1) + (y - 1) div 4 - (y - 1) div 100 + (y - 1) div 400"

definition month_lens :: "int \<Rightarrow> int list" where
  "month_lens y = [31, if leap y then 29 else 28, 31, 30, 31, 30, 31, 31, 30, 31, 30, 31]"

definition year_of :: "int \<Rightarrow> int" where
  "year_of n = (let g = (n * 400) div 146097 + 1 in if n < days_before (g + 1) then g else g + 1)"

fun month_of :: "int \<Rightarrow> int list \<Rightarrow> int \<Rightarrow> int \<times> int" where
  "month_of m [] d = (m, d + 1)"
| "month_of m (l # ls) d = (if d < l then (m, d + 1) else month_of (m + 1) ls (d - l))"

definition civil :: "int \<Rightarrow> int \<times> int \<times> int" where
  "civil n = (let y = year_of n in case month_of 1 (month_lens y) (n - days_before y) of (m, d) \<Rightarrow> (y, m, d))"

definition days_of :: "int \<Rightarrow> int \<Rightarrow> int \<Rightarrow> int" where
  "days_of y m d = days_before y + sum_list (take (nat (m - 1)) (month_lens y)) + d - 1"

lemma div_pred:
  assumes "0 < (k::int)"
  shows "y div k = (y - 1) div k + (if y mod k = 0 then 1 else 0)"
proof -
  define q r where "q = (y - 1) div k" and "r = (y - 1) mod k"
  have y: "y = k * q + (r + 1)" unfolding q_def r_def by (simp add: mult.commute div_mult_mod_eq)
  have r: "0 \<le> r" "r < k" unfolding r_def using assms by simp_all
  show ?thesis
  proof (cases "r + 1 < k")
    case True
    then have "y div k = q" and "y mod k = r + 1"
      using y r by (auto intro: int_div_pos_eq int_mod_pos_eq)
    then show ?thesis using r unfolding q_def by simp
  next
    case False
    then have "y = k * (q + 1) + 0" using y r by (simp add: algebra_simps)
    then have "y div k = q + 1" and "y mod k = 0"
      using assms by (auto intro: int_div_pos_eq int_mod_pos_eq)
    then show ?thesis unfolding q_def by simp
  qed
qed

lemma mod_century: "(y::int) mod 400 = 0 \<Longrightarrow> y mod 100 = 0" "(y::int) mod 100 = 0 \<Longrightarrow> y mod 4 = 0"
proof -
  show "y mod 400 = 0 \<Longrightarrow> y mod 100 = 0"
    using dvd_trans [of 100 400 y] by (simp add: mod_eq_0_iff_dvd)
  show "y mod 100 = 0 \<Longrightarrow> y mod 4 = 0"
    using dvd_trans [of 4 100 y] by (simp add: mod_eq_0_iff_dvd)
qed

lemma days_before_Suc: "days_before (y + 1) = days_before y + year_len y"
proof -
  define a b c where "a = (y - 1) div 4" and "b = (y - 1) div 100" and "c = (y - 1) div 400"
  have "y div 4 = a + (if y mod 4 = 0 then 1 else 0)" "y div 100 = b + (if y mod 100 = 0 then 1 else 0)"
    "y div 400 = c + (if y mod 400 = 0 then 1 else 0)"
    unfolding a_def b_def c_def by (rule div_pred, simp)+
  then have "days_before (y + 1) = 365 * y + (a + (if y mod 4 = 0 then 1 else 0))
      - (b + (if y mod 100 = 0 then 1 else 0)) + (c + (if y mod 400 = 0 then 1 else 0))"
    by (simp only: days_before_def add_diff_cancel_right')
  moreover have "days_before y = 365 * (y - 1) + a - b + c"
    by (simp only: days_before_def a_def b_def c_def)
  moreover have "year_len y = 365 + (if y mod 4 = 0 then 1 else 0) - (if y mod 100 = 0 then 1 else 0)
      + (if y mod 400 = 0 then 1 else 0)"
  proof -
    have bool_years: "(if p \<and> (\<not> q \<or> r) then 366 else (365::int))
        = 365 + (if p then 1 else 0) - (if q then 1 else 0) + (if r then 1 else 0)"
      if "r \<Longrightarrow> q" and "q \<Longrightarrow> p" for p q r :: bool
      using that by (cases p; cases q; cases r) simp_all
    show ?thesis
      unfolding year_len_def leap_def by (rule bool_years) (erule mod_century)+
  qed
  ultimately show ?thesis by (simp only: algebra_simps)
qed

lemma days_before_mono: "y \<le> z \<Longrightarrow> days_before y \<le> days_before z"
proof (induction "nat (z - y)" arbitrary: z)
  case (Suc k)
  then have "days_before y \<le> days_before (z - 1)" by simp
  moreover have "days_before z = days_before (z - 1) + year_len (z - 1)"
    using days_before_Suc [of "z - 1"] by simp
  ultimately show ?case by (simp add: year_len_def split: if_splits)
qed simp

lemma sum_month_lens: "sum_list (month_lens y) = year_len y"
  by (simp add: month_lens_def year_len_def)

lemma floor_bounds: "0 < (c::int) \<Longrightarrow> c * (k div c) \<le> k \<and> k < c * (k div c) + c"
  using mult_div_mod_eq [of c k] pos_mod_bound [of c k] pos_mod_sign [of c k] by linarith

lemma days_before_bounds:
  "146097 * k - 699 \<le> 400 * days_before (k + 1) \<and> 400 * days_before (k + 1) \<le> 146097 * k + 396"
  using floor_bounds [of 4 k] floor_bounds [of 100 k] floor_bounds [of 400 k]
  unfolding days_before_def by simp

lemma year_of_bounds: "days_before (year_of n) \<le> n \<and> n < days_before (year_of n + 1)"
proof -
  define m where "m = (n * 400) div 146097"
  have m: "146097 * m \<le> n * 400 \<and> n * 400 < 146097 * m + 146097"
    unfolding m_def using floor_bounds [of 146097 "n * 400"] by simp
  have low: "days_before (m + 1) \<le> n"
    using m days_before_bounds [of m] by arith
  have high: "n < days_before (m + 3)"
    using m days_before_bounds [of "m + 2"] by (simp add: add.commute)
  show ?thesis
  proof (cases "n < days_before (m + 2)")
    case True
    then have "year_of n = m + 1" by (simp add: year_of_def m_def [symmetric] Let_def add.commute)
    then show ?thesis using True low by (simp add: add.commute)
  next
    case False
    then have "year_of n = m + 2" by (simp add: year_of_def m_def [symmetric] Let_def add.commute)
    then show ?thesis using False high by (simp add: add.commute)
  qed
qed

lemma year_of_unique: "days_before y \<le> n \<Longrightarrow> n < days_before (y + 1) \<Longrightarrow> year_of n = y"
  using year_of_bounds [of n] days_before_mono [of "year_of n + 1" y] days_before_mono [of "y + 1" "year_of n"]
  by (cases y "year_of n" rule: linorder_cases) auto

lemma month_of_bounds:
  "month_of m ls d = (m', d') \<Longrightarrow> 0 \<le> d \<Longrightarrow> d < sum_list ls \<Longrightarrow>
   m \<le> m' \<and> m' < m + int (length ls) \<and> sum_list (take (nat (m' - m)) ls) + d' - 1 = d
     \<and> 1 \<le> d' \<and> d' \<le> ls ! nat (m' - m)"
proof (induction m ls d rule: month_of.induct)
  case (2 m l ls d)
  show ?case
  proof (cases "d < l")
    case True
    with 2 show ?thesis by auto
  next
    case False
    then have IH: "m + 1 \<le> m' \<and> m' < m + 1 + int (length ls) \<and>
        sum_list (take (nat (m' - (m + 1))) ls) + d' - 1 = d - l \<and> 1 \<le> d' \<and> d' \<le> ls ! nat (m' - (m + 1))"
      using 2 by simp
    then have "nat (m' - m) = Suc (nat (m' - (m + 1)))" by arith
    with IH show ?thesis by simp
  qed
qed simp

lemma civil_bounds:
  assumes "civil n = (y, m, d)"
  shows "y = year_of n" and "1 \<le> m \<and> m \<le> 12" and "1 \<le> d \<and> d \<le> month_lens y ! nat (m - 1)"
    and "days_of y m d = n"
proof -
  have y: "y = year_of n" and md: "month_of 1 (month_lens y) (n - days_before y) = (m, d)"
    using assms by (auto simp: civil_def Let_def split: prod.splits)
  have "0 \<le> n - days_before y" and "n - days_before y < sum_list (month_lens y)"
    using year_of_bounds [of n] y days_before_Suc [of y] by (simp_all add: sum_month_lens)
  from month_of_bounds [OF md this]
  show "y = year_of n" "1 \<le> m \<and> m \<le> 12" "1 \<le> d \<and> d \<le> month_lens y ! nat (m - 1)" "days_of y m d = n"
    using y by (auto simp: days_of_def month_lens_def)
qed

lemma month_cases:
  "1 \<le> (m::int) \<Longrightarrow> m \<le> 12 \<Longrightarrow>
   m = 1 \<or> m = 2 \<or> m = 3 \<or> m = 4 \<or> m = 5 \<or> m = 6 \<or> m = 7 \<or> m = 8 \<or> m = 9 \<or> m = 10 \<or> m = 11 \<or> m = 12"
  by arith

lemma month_len_le:
  assumes "1 \<le> m" and "m \<le> 12"
  shows "28 \<le> month_lens y ! nat (m - 1) \<and> month_lens y ! nat (m - 1) \<le> 31"
  using month_cases [OF assms] by (elim disjE) (simp_all add: month_lens_def)

lemma days_of_month_mono:
  assumes "1 \<le> m" and "m < m'" and "m' \<le> 12" and "d \<le> month_lens y ! nat (m - 1)" and "1 \<le> d'"
  shows "days_of y m d < days_of y m' d'"
proof -
  have "nat (m - 1) < length (month_lens y)"
    using assms by (simp add: month_lens_def)
  then have "sum_list (take (nat (m - 1)) (month_lens y)) + month_lens y ! nat (m - 1)
      = sum_list (take (Suc (nat (m - 1))) (month_lens y))"
    by (simp add: take_Suc_conv_app_nth)
  also have "\<dots> \<le> sum_list (take (nat (m' - 1)) (month_lens y))"
  proof -
    have "nat (m' - 1) = Suc (nat (m - 1)) + (nat (m' - 1) - Suc (nat (m - 1)))" using assms by arith
    then have "take (nat (m' - 1)) (month_lens y) = take (Suc (nat (m - 1))) (month_lens y)
        @ take (nat (m' - 1) - Suc (nat (m - 1))) (drop (Suc (nat (m - 1))) (month_lens y))"
      by (metis take_add)
    moreover have "0 \<le> sum_list (take k (drop j (month_lens y)))" for j k
      by (rule sum_list_nonneg) (auto simp: month_lens_def dest!: in_set_takeD in_set_dropD split: if_splits)
    ultimately show ?thesis by simp
  qed
  finally show ?thesis using assms by (simp add: days_of_def)
qed

text \<open>Valid dates are in the order of their days.\<close>

definition valid_date :: "int \<Rightarrow> int \<Rightarrow> int \<Rightarrow> bool" where
  "valid_date y m d \<longleftrightarrow> 1 \<le> m \<and> m \<le> 12 \<and> 1 \<le> d \<and> d \<le> month_lens y ! nat (m - 1)"

lemma days_of_in_year:
  assumes "valid_date y m d"
  shows "days_before y \<le> days_of y m d \<and> days_of y m d < days_before (y + 1)"
proof -
  have m: "1 \<le> m" "m \<le> 12" using assms by (auto simp: valid_date_def)
  have "0 \<le> sum_list (take (nat (m - 1)) (month_lens y)) \<and>
      sum_list (take (nat (m - 1)) (month_lens y)) + month_lens y ! nat (m - 1) \<le> year_len y"
    using month_cases [OF m] by (elim disjE) (simp_all add: month_lens_def year_len_def numeral_eq_Suc)
  then show ?thesis
    using assms days_before_Suc [of y] by (auto simp: days_of_def valid_date_def)
qed

lemma days_of_less:
  assumes "valid_date y m d" and "valid_date y' m' d'"
    and "y < y' \<or> y = y' \<and> (m < m' \<or> m = m' \<and> d < d')"
  shows "days_of y m d < days_of y' m' d'"
proof -
  consider "y < y'" | "y = y'" "m < m'" | "y = y'" "m = m'" "d < d'" using assms(3) by blast
  then show ?thesis
  proof cases
    case 1
    then have "days_before (y + 1) \<le> days_before y'" by (intro days_before_mono) simp
    then show ?thesis using days_of_in_year [OF assms(1)] days_of_in_year [OF assms(2)] by simp
  next
    case 2
    then show ?thesis using assms by (auto simp: valid_date_def intro: days_of_month_mono)
  next
    case 3
    then show ?thesis by (simp add: days_of_def)
  qed
qed

lemma civil_valid: "civil n = (y, m, d) \<Longrightarrow> valid_date y m d"
  using civil_bounds by (simp add: valid_date_def)

lemma civil_days_of: "valid_date y m d \<Longrightarrow> civil (days_of y m d) = (y, m, d)"
proof -
  assume v: "valid_date y m d"
  obtain y' m' d' where c: "civil (days_of y m d) = (y', m', d')" by (metis prod_cases3)
  have v': "valid_date y' m' d'" and eq: "days_of y' m' d' = days_of y m d"
    using civil_valid [OF c] civil_bounds(4) [OF c] by auto
  have "y' = y \<and> m' = m \<and> d' = d"
    using days_of_less [OF v v'] days_of_less [OF v' v] eq by (metis less_irrefl linorder_cases)
  with c show ?thesis by simp
qed

section \<open>The two layouts\<close>

text \<open>1970-01-01 is this many days after 0001-01-01.\<close>

definition epoch_day :: int where "epoch_day = 719162"

definition secs_of :: "time \<Rightarrow> int" where
  "secs_of t = t div second"

definition day_of :: "time \<Rightarrow> int" where
  "day_of t = secs_of t div 86400 + epoch_day"

definition year_of_time :: "time \<Rightarrow> int" where
  "year_of_time t = fst (civil (day_of t))"

definition dig2 :: "int \<Rightarrow> string" where
  "dig2 n = [digit (nat n div 10), digit (nat n)]"

definition dig4 :: "int \<Rightarrow> string" where
  "dig4 n = dig2 (n div 100) @ dig2 (n mod 100)"

text \<open>A year is written in at least four digits, with a minus sign before the year 0.\<close>

definition year_str :: "int \<Rightarrow> string" where
  "year_str y = (if 0 \<le> y \<and> y \<le> 9999 then dig4 y
     else if y < 0 then ''-'' @ replicate (4 - length (show_nat (nat (- y)))) (CHR ''0'') @ show_nat (nat (- y))
     else show_int y)"

text \<open>\<open>Format("2006-01-02")\<close> and \<open>Format("20060102T150405Z")\<close>, in UTC.\<close>

definition format_date :: "time \<Rightarrow> string" where
  "format_date t = (case civil (day_of t) of (y, m, d) \<Rightarrow> year_str y @ ''-'' @ dig2 m @ ''-'' @ dig2 d)"

definition format_day :: "time \<Rightarrow> string" where
  "format_day t = (case civil (day_of t) of (y, m, d) \<Rightarrow> year_str y @ dig2 m @ dig2 d)"

definition format_stamp :: "time \<Rightarrow> string" where
  "format_stamp t = (let s = secs_of t mod 86400 in
     format_day t @ ''T'' @ dig2 (s div 3600) @ dig2 (s div 60 mod 60) @ dig2 (s mod 60) @ ''Z'')"

text \<open>\<open>Format(time.RFC3339)\<close>, in UTC.\<close>

definition format_rfc3339 :: "time \<Rightarrow> string" where
  "format_rfc3339 t = (let s = secs_of t mod 86400 in
     format_date t @ ''T'' @ dig2 (s div 3600) @ '':'' @ dig2 (s div 60 mod 60) @ '':'' @ dig2 (s mod 60) @ ''Z'')"

definition is_digit :: "char \<Rightarrow> bool" where
  "is_digit c \<longleftrightarrow> (let n = of_char c :: nat in 48 \<le> n \<and> n \<le> 57)"

definition num :: "string \<Rightarrow> int" where
  "num s = foldl (\<lambda>a c. 10 * a + (of_char c - 48)) 0 s"

definition mk_time :: "int \<Rightarrow> int \<Rightarrow> int \<Rightarrow> int \<Rightarrow> time" where
  "mk_time y m d s = ((days_of y m d - epoch_day) * 86400 + s) * second"

text \<open>
  \<open>time.Parse\<close> of the same layouts: every field is digits of the layout's width, and the date
  has to exist. \<open>parse_stamp\<close> is given names that have the layout's shape; a fraction of a
  second after the seconds, which time.Parse would also take, has not.
\<close>

definition parse_date :: "string \<Rightarrow> time option" where
  "parse_date s =
     (if length s = 10 \<and> s ! 4 = CHR ''-'' \<and> s ! 7 = CHR ''-''
         \<and> list_all is_digit (take 4 s) \<and> list_all is_digit (take 2 (drop 5 s)) \<and> list_all is_digit (drop 8 s)
      then let y = num (take 4 s); m = num (take 2 (drop 5 s)); d = num (drop 8 s)
           in if valid_date y m d then Some (mk_time y m d 0) else None
      else None)"

definition parse_stamp :: "string \<Rightarrow> time option" where
  "parse_stamp s =
     (if length s = 16 \<and> s ! 8 = CHR ''T'' \<and> s ! 15 = CHR ''Z''
         \<and> list_all is_digit (take 8 s) \<and> list_all is_digit (take 6 (drop 9 s))
      then let y = num (take 4 s); m = num (take 2 (drop 4 s)); d = num (take 2 (drop 6 s));
               h = num (take 2 (drop 9 s)); mi = num (take 2 (drop 11 s)); se = num (take 2 (drop 13 s))
           in if valid_date y m d \<and> h < 24 \<and> mi < 60 \<and> se < 60
              then Some (mk_time y m d (h * 3600 + mi * 60 + se)) else None
      else None)"

text \<open>\<open>t.AddDate(0, 0, 1)\<close> in UTC.\<close>

definition next_day :: "time \<Rightarrow> time" where
  "next_day t = t + day"

section \<open>Stamps read back, and are in the order of their instants\<close>

lemma of_char_digit_nat [simp]: "of_char (digit n) = 48 + n mod 10"
  by (simp add: digit_def)

lemma of_char_digit [simp]: "of_char (digit n) = 48 + int (n mod 10)"
proof -
  have "of_char (digit n) = int (of_char (digit n))" by (rule of_nat_of_char [symmetric])
  also have "\<dots> = 48 + int (n mod 10)" unfolding of_char_digit_nat by simp
  finally show ?thesis .
qed

lemma is_digit_digit [simp]: "is_digit (digit n)"
  by (simp add: is_digit_def)

lemma length_dig2 [simp]: "length (dig2 n) = 2"
  by (simp add: dig2_def)

lemma length_dig4 [simp]: "length (dig4 n) = 4"
  by (simp add: dig4_def)

lemma digits_dig2 [simp]: "list_all is_digit (dig2 n)"
  by (simp add: dig2_def)

lemma digits_dig4 [simp]: "list_all is_digit (dig4 n)"
  by (simp add: dig4_def)

lemma num_dig2: "0 \<le> n \<Longrightarrow> n < 100 \<Longrightarrow> num (dig2 n) = n"
proof -
  assume n: "0 \<le> n" "n < 100"
  have "10 * (nat n div 10) + nat n mod 10 = nat n" by simp
  then have "int (10 * (nat n div 10) + nat n mod 10) = n" using n by presburger
  then have "10 * int (nat n div 10) + int (nat n mod 10) = n" by (simp only: of_nat_add of_nat_mult of_nat_numeral)
  moreover have "nat n div 10 < 10" using n by simp
  ultimately show ?thesis by (simp add: num_def dig2_def del: of_nat_mod of_nat_div)
qed

lemma num_append: "num (a @ b) = num a * 10 ^ length b + num b"
proof (induction b rule: rev_induct)
  case Nil
  then show ?case by (simp add: num_def)
next
  case (snoc x b)
  have "num (a @ b @ [x]) = 10 * num (a @ b) + (of_char x - 48)" by (simp add: num_def)
  moreover have "num (b @ [x]) = 10 * num b + (of_char x - 48)" by (simp add: num_def)
  ultimately show ?case using snoc by (simp add: algebra_simps)
qed

lemma num_dig4: "0 \<le> n \<Longrightarrow> n < 10000 \<Longrightarrow> num (dig4 n) = n"
  by (simp add: dig4_def num_append num_dig2)

lemma dig2_eq_iff: "0 \<le> a \<Longrightarrow> a < 100 \<Longrightarrow> 0 \<le> b \<Longrightarrow> b < 100 \<Longrightarrow> dig2 a = dig2 b \<longleftrightarrow> a = b"
  by (metis num_dig2)

lemma list_less_append:
  "length a = length b \<Longrightarrow> (a @ c < b @ d) = (a < b \<or> a = b \<and> c < (d :: 'a::linorder list))"
proof (induction a b rule: list_induct2)
  case (Cons x xs y ys)
  then show ?case by auto
qed simp

lemma list_less_tail: "dig2 s @ z < dig2 s' @ z \<longleftrightarrow> dig2 s < dig2 s'"
  by (simp add: list_less_append)

lemma digit_less: "m < 10 \<Longrightarrow> n < 10 \<Longrightarrow> digit m < digit n \<longleftrightarrow> m < n"
  by (simp add: less_char_def)

lemma digit_eq: "m < 10 \<Longrightarrow> n < 10 \<Longrightarrow> digit m = digit n \<longleftrightarrow> m = n"
  by (metis less_irrefl linorder_neq_iff digit_less)

lemma div_lex:
  assumes "0 < (k::int)"
  shows "a div k < b div k \<or> a div k = b div k \<and> a mod k < b mod k \<longleftrightarrow> a < b"
proof
  assume "a div k < b div k \<or> a div k = b div k \<and> a mod k < b mod k"
  then show "a < b"
  proof
    assume "a div k < b div k"
    then show ?thesis using zdiv_mono1 [of b a k] assms by linarith
  next
    assume h: "a div k = b div k \<and> a mod k < b mod k"
    have "k * (a div k) + a mod k = a" "k * (b div k) + b mod k = b" by simp_all
    with h show ?thesis by (metis add_less_cancel_left)
  qed
next
  assume lt: "a < b"
  then have "a div k \<le> b div k" using assms by (intro zdiv_mono1) simp_all
  moreover have "a mod k < b mod k" if "a div k = b div k"
  proof -
    have "k * (a div k) + a mod k = a" "k * (b div k) + b mod k = b" by simp_all
    with lt that show ?thesis by (metis add_less_cancel_left)
  qed
  ultimately show "a div k < b div k \<or> a div k = b div k \<and> a mod k < b mod k" by linarith
qed

lemma div_mod_eq: "a div k = b div k \<and> a mod k = b mod k \<longleftrightarrow> a = (b::int)"
  by (metis div_mult_mod_eq)

lemma dig2_less_iff:
  assumes "0 \<le> a" "a < 100" "0 \<le> b" "b < 100"
  shows "dig2 a < dig2 b \<longleftrightarrow> a < b"
proof -
  have m: "digit k = digit (k mod 10)" for k by (simp add: digit_def)
  have "dig2 a < dig2 b \<longleftrightarrow> nat a div 10 < nat b div 10
      \<or> nat a div 10 = nat b div 10 \<and> nat a mod 10 < nat b mod 10"
    using assms m [of "nat a"] m [of "nat b"]
    by (simp add: dig2_def digit_less digit_eq)
  also have "\<dots> \<longleftrightarrow> a div 10 < b div 10 \<or> a div 10 = b div 10 \<and> a mod 10 < b mod 10"
  proof -
    have "int (nat x div 10) = x div 10" "int (nat x mod 10) = x mod 10" if "0 \<le> x" for x
      using that by (simp_all add: of_nat_div of_nat_mod)
    with assms show ?thesis by (metis of_nat_eq_iff of_nat_less_iff)
  qed
  also have "\<dots> \<longleftrightarrow> a < b" by (rule div_lex) simp
  finally show ?thesis .
qed

text \<open>The fields of a stamp, in the order they are written.\<close>

definition stamp_fields :: "time \<Rightarrow> int list" where
  "stamp_fields t = (case civil (day_of t) of (y, m, d) \<Rightarrow> let s = secs_of t mod 86400 in
     [y div 100, y mod 100, m, d, s div 3600, s div 60 mod 60, s mod 60])"

definition stamp_year :: "time \<Rightarrow> bool" where
  "stamp_year t \<longleftrightarrow> 0 \<le> year_of_time t \<and> year_of_time t \<le> 9999"

lemma sod_bounds: "0 \<le> secs_of t mod 86400 \<and> secs_of t mod 86400 < 86400"
  by simp

lemma sod_split:
  assumes "0 \<le> (s::int)" and "s < 86400"
  shows "s div 3600 * 3600 + s div 60 mod 60 * 60 + s mod 60 = s"
    and "0 \<le> s div 3600 \<and> s div 3600 < 24"
    and "0 \<le> s div 60 mod 60 \<and> s div 60 mod 60 < 60" and "0 \<le> s mod 60 \<and> s mod 60 < 60"
proof -
  have "s div 3600 = s div 60 div 60" by (simp add: zdiv_zmult2_eq [of 60 s 60, simplified])
  then show "s div 3600 * 3600 + s div 60 mod 60 * 60 + s mod 60 = s"
    using div_mult_mod_eq [of s 60] div_mult_mod_eq [of "s div 60" 60] by linarith
  show "0 \<le> s div 3600 \<and> s div 3600 < 24"
    using assms floor_bounds [of 3600 s] by (simp add: pos_imp_zdiv_nonneg_iff)
qed simp_all

lemma secs_of_civil:
  "civil (day_of t) = (y, m, d) \<Longrightarrow> secs_of t = (days_of y m d - epoch_day) * 86400 + secs_of t mod 86400"
  using civil_bounds(4) [of "day_of t" y m d] by (simp add: day_of_def)

lemma stamp_shape:
  assumes "stamp_year t" and "civil (day_of t) = (y, m, d)"
  shows "format_stamp t = dig4 y @ dig2 m @ dig2 d @ ''T'' @ dig2 (secs_of t mod 86400 div 3600)
    @ dig2 (secs_of t mod 86400 div 60 mod 60) @ dig2 (secs_of t mod 86400 mod 60) @ ''Z''"
  using assms by (simp add: format_stamp_def format_day_def year_str_def stamp_year_def year_of_time_def Let_def)

lemma stamp_length [simp]: "stamp_year t \<Longrightarrow> length (format_stamp t) = 16"
  by (cases "civil (day_of t)") (simp add: stamp_shape)

lemma parse_fields:
  assumes "length a = 4" "length b = 2" "length c = 2" "length e = 2" "length f = 2" "length g = 2"
    and "list_all is_digit (a @ b @ c)" "list_all is_digit (e @ f @ g)"
    and "valid_date (num a) (num b) (num c)" "num e < 24" "num f < 60" "num g < 60"
  shows "parse_stamp (a @ b @ c @ ''T'' @ e @ f @ g @ ''Z'')
    = Some (mk_time (num a) (num b) (num c) (num e * 3600 + num f * 60 + num g))"
  using assms by (simp add: parse_stamp_def nth_append Let_def)

lemma civil_ranges:
  assumes "civil (day_of t) = (y, m, d)"
  shows "valid_date y m d" and "0 \<le> m \<and> m < 100" and "0 \<le> d \<and> d < 100"
proof -
  show v: "valid_date y m d" using assms by (rule civil_valid)
  then have "1 \<le> m" "m \<le> 12" "1 \<le> d" "d \<le> month_lens y ! nat (m - 1)" by (auto simp: valid_date_def)
  with month_len_le [of m y] show "0 \<le> m \<and> m < 100" "0 \<le> d \<and> d < 100" by simp_all
qed

lemma parse_format_stamp:
  assumes "stamp_year t"
  shows "parse_stamp (format_stamp t) = Some (secs_of t * second)"
proof -
  obtain y m d where c: "civil (day_of t) = (y, m, d)" by (metis prod_cases3)
  have y: "0 \<le> y" "y < 10000" using assms c by (simp_all add: stamp_year_def year_of_time_def)
  note r = civil_ranges [OF c]
  define s where "s = secs_of t mod 86400"
  note sod = sod_split [of s, OF conjunct1 [OF sod_bounds [of t, folded s_def]]
      conjunct2 [OF sod_bounds [of t, folded s_def]]]
  have n: "num (dig4 y) = y" "num (dig2 m) = m" "num (dig2 d) = d"
    using y r by (simp_all only: num_dig4 num_dig2)
  have n': "num (dig2 (s div 3600)) = s div 3600"
    "num (dig2 (s div 60 mod 60)) = s div 60 mod 60" "num (dig2 (s mod 60)) = s mod 60"
    using sod by (auto intro!: num_dig2)
  have "parse_stamp (format_stamp t) = Some (mk_time (num (dig4 y)) (num (dig2 m)) (num (dig2 d))
      (num (dig2 (s div 3600)) * 3600 + num (dig2 (s div 60 mod 60)) * 60 + num (dig2 (s mod 60))))"
    unfolding stamp_shape [OF assms c] s_def [symmetric]
    by (rule parse_fields) (simp_all only: n n' r sod length_dig2 length_dig4 digits_dig2 digits_dig4 list_all_append simp_thms)
  then show ?thesis
    unfolding n n' sod(1) using secs_of_civil [OF c] by (simp add: mk_time_def s_def)
qed

definition field :: "int \<Rightarrow> bool" where
  "field n \<longleftrightarrow> 0 \<le> n \<and> n < 100"

lemma dig2_append_less:
  "field v \<Longrightarrow> field w \<Longrightarrow> dig2 v @ xs < dig2 w @ ys \<longleftrightarrow> v < w \<or> v = w \<and> xs < ys"
  by (simp add: field_def list_less_append dig2_less_iff dig2_eq_iff)

lemma stamp_digits_less:
  assumes "field a" "field b" "field c" "field e" "field f" "field g" "field h"
    and "field a'" "field b'" "field c'" "field e'" "field f'" "field g'" "field h'"
  shows "dig2 a @ dig2 b @ dig2 c @ dig2 e @ ''T'' @ dig2 f @ dig2 g @ dig2 h @ ''Z''
      < dig2 a' @ dig2 b' @ dig2 c' @ dig2 e' @ ''T'' @ dig2 f' @ dig2 g' @ dig2 h' @ ''Z''
    \<longleftrightarrow> [a, b, c, e, f, g, h] < [a', b', c', e', f', g', h']"
  using assms by (simp add: dig2_append_less)

lemma year_fields: "0 \<le> y \<Longrightarrow> y < 10000 \<Longrightarrow> field (y div 100) \<and> field (y mod 100)"
  using floor_bounds [of 100 y] by (simp add: field_def pos_imp_zdiv_nonneg_iff)

lemma sod_fields:
  "field (secs_of t mod 86400 div 3600) \<and> field (secs_of t mod 86400 div 60 mod 60) \<and> field (secs_of t mod 86400 mod 60)"
proof -
  have w: "field n" if "0 \<le> n \<and> n < k" "k \<le> 100" for n k using that by (simp add: field_def)
  note s = sod_split [OF conjunct1 [OF sod_bounds [of t]] conjunct2 [OF sod_bounds [of t]]]
  show ?thesis by (intro conjI) (rule w [OF s(2)] w [OF s(3)] w [OF s(4)], simp)+
qed

lemma stamp_less_fields:
  assumes "stamp_year t" "stamp_year u"
  shows "format_stamp t < format_stamp u \<longleftrightarrow> stamp_fields t < stamp_fields u"
proof -
  obtain y m d where c: "civil (day_of t) = (y, m, d)" by (metis prod_cases3)
  obtain y' m' d' where c': "civil (day_of u) = (y', m', d')" by (metis prod_cases3)
  have y: "0 \<le> y" "y < 10000" "0 \<le> y'" "y' < 10000"
    using assms c c' by (simp_all add: stamp_year_def year_of_time_def)
  have md: "field m" "field d" "field m'" "field d'"
    using civil_ranges [OF c] civil_ranges [OF c'] unfolding field_def by blast+
  note f = md year_fields [OF y(1,2), THEN conjunct1] year_fields [OF y(1,2), THEN conjunct2]
    year_fields [OF y(3,4), THEN conjunct1] year_fields [OF y(3,4), THEN conjunct2]
    sod_fields [THEN conjunct1] sod_fields [THEN conjunct2, THEN conjunct1] sod_fields [THEN conjunct2, THEN conjunct2]
  show ?thesis
    unfolding stamp_shape [OF assms(1) c] stamp_shape [OF assms(2) c'] stamp_fields_def c c' dig4_def
      append_assoc prod.case Let_def
    by (rule stamp_digits_less) (rule f)+
qed

lemma fields_less_secs:
  assumes "stamp_fields t < stamp_fields u"
  shows "secs_of t < secs_of u"
proof -
  obtain y m d where c: "civil (day_of t) = (y, m, d)" by (metis prod_cases3)
  obtain y' m' d' where c': "civil (day_of u) = (y', m', d')" by (metis prod_cases3)
  define s where "s = secs_of t mod 86400"
  define s' where "s' = secs_of u mod 86400"
  have b: "0 \<le> s" "s < 86400" "0 \<le> s'" "s' < 86400" by (simp_all add: s_def s'_def)
  note sp = sod_split [OF b(1,2)] sod_split [OF b(3,4)]
  define p q r where "p = s div 3600" and "q = s div 60 mod 60" and "r = s mod 60"
  define p' q' r' where "p' = s' div 3600" and "q' = s' div 60 mod 60" and "r' = s' mod 60"
  note ylt = div_lex [of 100 y y', simplified] and yeq = div_mod_eq [of y 100 y']
  have "(y < y' \<or> y = y' \<and> (m < m' \<or> m = m' \<and> d < d')) \<or> y = y' \<and> m = m' \<and> d = d' \<and>
      (p < p' \<or> p = p' \<and> (q < q' \<or> q = q' \<and> r < r'))"
  proof -
    have "y div 100 < y' div 100 \<or> y div 100 = y' div 100 \<and> (y mod 100 < y' mod 100 \<or>
        y mod 100 = y' mod 100 \<and> (m < m' \<or> m = m' \<and> (d < d' \<or> d = d' \<and>
        (p < p' \<or> p = p' \<and> (q < q' \<or> q = q' \<and> r < r')))))"
      using assms by (simp add: stamp_fields_def c c' Let_def s_def [symmetric] s'_def [symmetric]
          p_def q_def r_def p'_def q'_def r'_def)
    then show ?thesis using ylt yeq by metis
  qed
  then show ?thesis
  proof
    assume "y < y' \<or> y = y' \<and> (m < m' \<or> m = m' \<and> d < d')"
    with civil_valid [OF c] civil_valid [OF c'] have "days_of y m d < days_of y' m' d'"
      by (rule days_of_less)
    then have "day_of t < day_of u"
      using civil_bounds(4) [OF c] civil_bounds(4) [OF c'] by simp
    then have "secs_of t div 86400 < secs_of u div 86400" by (simp add: day_of_def)
    then show ?thesis by (meson not_le zdiv_mono1 zero_less_numeral)
  next
    assume h: "y = y' \<and> m = m' \<and> d = d' \<and>
      (p < p' \<or> p = p' \<and> (q < q' \<or> q = q' \<and> r < r'))"
    then have "s < s'"
      using sp unfolding p_def [symmetric] q_def [symmetric] r_def [symmetric]
        p'_def [symmetric] q'_def [symmetric] r'_def [symmetric] by linarith
    then show ?thesis
      using h secs_of_civil [OF c] secs_of_civil [OF c'] by (simp add: s_def s'_def)
  qed
qed

lemma stamp_less_secs:
  assumes "stamp_year t" "stamp_year u"
  shows "format_stamp t < format_stamp u \<longleftrightarrow> secs_of t < secs_of u"
proof
  assume "format_stamp t < format_stamp u"
  then show "secs_of t < secs_of u" using assms by (simp add: stamp_less_fields fields_less_secs)
next
  assume lt: "secs_of t < secs_of u"
  then have "format_stamp t \<noteq> format_stamp u"
    using parse_format_stamp [OF assms(1)] parse_format_stamp [OF assms(2)] by (auto simp: second_def)
  moreover have "\<not> format_stamp u < format_stamp t"
    using lt assms fields_less_secs [of u t] by (auto simp: stamp_less_fields)
  ultimately show "format_stamp t < format_stamp u" by (meson linorder_neq_iff)
qed

end
