(* ===== verification/Refs.thy ===== *)
theory Refs
  imports Gitexec Go_Time
begin

text \<open>
  src/internal/pipeline/refs.go, unchanged.go and copiedrefs.go: comparing a restored repository
  with the refs its bundle declares, deciding whether a repository has changed since its last
  copy, and holding the clone to the source's listing and the bundle to the clone. The order a
  Go map is ranged over is not fixed; every list the code builds from a map it sorts, and the
  model ranges over the association list.
\<close>

section \<open>Comparing a restored repository with a bundle\<close>

record ref_mismatch =
  mm_ref :: string
  mm_want :: string
  mm_got :: string

record ref_comparison =
  rc_declared :: int
  rc_matched :: int
  rc_unreferenced :: "string list"
  rc_mismatches :: "ref_mismatch list"

definition comparison_ok :: "ref_comparison \<Rightarrow> bool" where
  "comparison_ok c \<longleftrightarrow> rc_mismatches c = []"

definition describe :: "ref_mismatch \<Rightarrow> string \<Rightarrow> string" where
  "describe m declared_by =
     (if mm_got m = []
      then mm_ref m @ '' ('' @ declared_by @ '' '' @ mm_want m @ '', the restored repository has no such ref)''
      else mm_ref m @ '' ('' @ declared_by @ '' '' @ mm_want m @ '', the restored repository has '' @ mm_got m @ '')'')"

definition plural :: "int \<Rightarrow> string \<Rightarrow> string \<Rightarrow> string" where
  "plural n one many = (if n = 1 then one else many)"

definition first_n :: "string list \<Rightarrow> nat \<Rightarrow> string list" where
  "first_n s n = (if length s \<le> n then s else take n s @ [''and '' @ show_nat (length s - n) @ '' more''])"

definition comparison_summary :: "ref_comparison \<Rightarrow> bool \<Rightarrow> string" where
  "comparison_summary c signed_bundle =
     (let which = (if signed_bundle then ''the signed bundle'' else ''the bundle'');
          n = int (length (rc_unreferenced c)) in
      (if rc_matched c = rc_declared c
       then ''all '' @ show_int (rc_declared c) @ '' refs '' @ which @ '' declares are present in the restored repository at the same commits''
       else show_int (rc_matched c) @ '' of '' @ show_int (rc_declared c) @ '' refs '' @ which
         @ '' declares are present in the restored repository at the same commits'')
      @ (if n > 0 then ''; '' @ show_int n @ '' ('' @ join_with '', '' (first_n (rc_unreferenced c) 3) @ '') ''
           @ plural n ''is'' ''are'' @ '' in the bundle but git clone creates no ref for '' @ plural n ''it'' ''them''
           @ '', so those objects are restored with nothing pointing at them'' else [])
      @ (if \<not> signed_bundle then '', and the bundle itself was not verified against a signed manifest'' else []))"

definition head_name :: string where "head_name = ''HEAD''"
definition heads_pfx :: string where "heads_pfx = ''refs/heads/''"
definition tags_pfx :: string where "tags_pfx = ''refs/tags/''"
definition remotes_pfx :: string where "remotes_pfx = ''refs/remotes/origin/''"

definition candidates :: "string \<Rightarrow> string list" where
  "candidates name = (case cut_prefix heads_pfx name of
       Some branch \<Rightarrow> [name, remotes_pfx @ branch]
     | None \<Rightarrow> [name])"

definition clonable :: "string \<Rightarrow> bool" where
  "clonable name \<longleftrightarrow> has_prefix heads_pfx name \<or> has_prefix tags_pfx name"

text \<open>The places a ref may have landed: the first object found, and whether one matched.\<close>

fun probe :: "refs \<Rightarrow> string \<Rightarrow> string list \<Rightarrow> string \<Rightarrow> string \<times> bool" where
  "probe restored oid [] found = (found, False)"
| "probe restored oid (c # cs) found = (case map_of restored c of
       None \<Rightarrow> probe restored oid cs found
     | Some got \<Rightarrow>
         let found' = (if found = [] then got else found) in
         if equal_fold got oid then (found', True) else probe restored oid cs found')"

definition add_mismatch :: "string \<Rightarrow> string \<Rightarrow> string \<Rightarrow> ref_comparison \<Rightarrow> ref_comparison" where
  "add_mismatch r want got c = c\<lparr>rc_mismatches := rc_mismatches c @ [\<lparr>mm_ref = r, mm_want = want, mm_got = got\<rparr>]\<rparr>"

definition add_match :: "ref_comparison \<Rightarrow> ref_comparison" where
  "add_match c = c\<lparr>rc_matched := rc_matched c + 1\<rparr>"

definition compare_one :: "refs \<Rightarrow> string \<Rightarrow> ref_comparison \<Rightarrow> bundle_ref \<Rightarrow> ref_comparison" where
  "compare_one restored head c d =
     (if bref_name d = head_name then
        (if head = [] then add_mismatch (bref_name d) (bref_oid d) [] c
         else if equal_fold head (bref_oid d) then add_match c
         else add_mismatch (bref_name d) (bref_oid d) head c)
      else case probe restored (bref_oid d) (candidates (bref_name d)) [] of (found, matched) \<Rightarrow>
        (if matched then add_match c
         else if found \<noteq> [] then add_mismatch (bref_name d) (bref_oid d) found c
         else if clonable (bref_name d) then add_mismatch (bref_name d) (bref_oid d) [] c
         else c\<lparr>rc_unreferenced := rc_unreferenced c @ [bref_name d]\<rparr>))"

definition compare_refs :: "bundle_ref list \<Rightarrow> refs \<Rightarrow> string \<Rightarrow> ref_comparison" where
  "compare_refs declared restored head =
     foldl (compare_one restored head)
       \<lparr>rc_declared = int (length declared), rc_matched = 0, rc_unreferenced = [], rc_mismatches = []\<rparr>
       (sort_key bref_name declared)"

text \<open>A head that cannot be read is an empty one, which a declared HEAD does not match.\<close>

definition head_or_empty :: "'w machine \<Rightarrow> string \<Rightarrow> ('w, string) io" where
  "head_or_empty m dir = bindE (tryE (head_oid m dir)) (\<lambda>r. case r of Inl e \<Rightarrow> okE [] | Inr h \<Rightarrow> okE h)"

definition compare_restored_refs :: "'w machine \<Rightarrow> string \<Rightarrow> string \<Rightarrow> ('w, ref_comparison) io" where
  "compare_restored_refs m bundle dir = bindE (bundle_heads m bundle) (\<lambda>declared.
     if declared = [] then failE (new_error ''bundle declares no refs, so there is nothing to compare the restored repository against'')
     else bindE (list_refs m dir) (\<lambda>restored.
          bindE (head_or_empty m dir) (\<lambda>head. okE (compare_refs declared restored head))))"

definition compare_source_refs :: "'w machine \<Rightarrow> refs \<Rightarrow> string \<Rightarrow> ('w, ref_comparison) io" where
  "compare_source_refs m source_refs dir =
     (if source_refs = [] then failE (new_error ''no source refs recorded, so there is nothing to compare the restored repository against'')
      else let declared = map (\<lambda>(n, oid). \<lparr>bref_name = n, bref_oid = oid\<rparr>) source_refs in
        bindE (list_refs m dir) (\<lambda>restored.
        bindE (head_or_empty m dir) (\<lambda>head. okE (compare_refs declared restored head))))"

subsection \<open>What the comparison says\<close>

text \<open>
  The specification: a declared ref is carried when HEAD resolves to its object, or one of the
  places it may land holds its object; it is passed over when a clone creates no such ref and
  none of the places holds anything; otherwise it is lost.
\<close>

definition carried :: "refs \<Rightarrow> string \<Rightarrow> bundle_ref \<Rightarrow> bool" where
  "carried restored head d \<longleftrightarrow>
     (if bref_name d = head_name then head \<noteq> [] \<and> equal_fold head (bref_oid d)
      else (\<exists>c \<in> set (candidates (bref_name d)). \<exists>got. map_of restored c = Some got \<and> equal_fold got (bref_oid d)))"

definition unpointed :: "refs \<Rightarrow> bundle_ref \<Rightarrow> bool" where
  "unpointed restored d \<longleftrightarrow> bref_name d \<noteq> head_name \<and> \<not> clonable (bref_name d)
     \<and> (\<forall>c \<in> set (candidates (bref_name d)). map_of restored c \<in> {None, Some []})"

lemma probe_matched:
  "snd (probe restored oid cs f) \<longleftrightarrow> (\<exists>c \<in> set cs. \<exists>got. map_of restored c = Some got \<and> equal_fold got oid)"
  by (induction cs arbitrary: f) (auto simp: Let_def split: option.splits)

lemma probe_found:
  "\<not> snd (probe restored oid cs f) \<Longrightarrow>
   fst (probe restored oid cs f) = [] \<longleftrightarrow> f = [] \<and> (\<forall>c \<in> set cs. map_of restored c \<in> {None, Some []})"
  by (induction cs arbitrary: f) (auto simp: Let_def split: option.splits if_splits)

lemma compare_one_cases:
  "compare_one restored head c d =
     (if carried restored head d then add_match c
      else if unpointed restored d then c\<lparr>rc_unreferenced := rc_unreferenced c @ [bref_name d]\<rparr>
      else add_mismatch (bref_name d) (bref_oid d)
        (if bref_name d = head_name then head else fst (probe restored (bref_oid d) (candidates (bref_name d)) [])) c)"
proof (cases "bref_name d = head_name")
  case True
  then show ?thesis by (auto simp: compare_one_def carried_def unpointed_def)
next
  case False
  let ?p = "probe restored (bref_oid d) (candidates (bref_name d)) []"
  have one: "compare_one restored head c d =
      (if snd ?p then add_match c
       else if fst ?p \<noteq> [] then add_mismatch (bref_name d) (bref_oid d) (fst ?p) c
       else if clonable (bref_name d) then add_mismatch (bref_name d) (bref_oid d) [] c
       else c\<lparr>rc_unreferenced := rc_unreferenced c @ [bref_name d]\<rparr>)"
    using False by (simp add: compare_one_def split: prod.split)
  have "carried restored head d \<longleftrightarrow> snd ?p"
    using False by (simp add: carried_def probe_matched)
  moreover have "unpointed restored d \<longleftrightarrow> \<not> clonable (bref_name d) \<and> fst ?p = []" if "\<not> snd ?p"
    using False probe_found [OF that] by (auto simp: unpointed_def)
  ultimately show ?thesis
    unfolding one using False by auto
qed

definition lost :: "refs \<Rightarrow> string \<Rightarrow> bundle_ref \<Rightarrow> bool" where
  "lost restored head d \<longleftrightarrow> \<not> carried restored head d \<and> \<not> unpointed restored d"

lemma compare_fold:
  fixes restored head
  defines "cmp \<equiv> foldl (compare_one restored head)"
  shows "rc_declared (cmp c ds) = rc_declared c"
    and "rc_matched (cmp c ds) = rc_matched c + int (length (filter (carried restored head) ds))"
    and "rc_unreferenced (cmp c ds) = rc_unreferenced c @
      map bref_name (filter (\<lambda>d. \<not> carried restored head d \<and> unpointed restored d) ds)"
    and "map mm_ref (rc_mismatches (cmp c ds)) = map mm_ref (rc_mismatches c) @
      map bref_name (filter (lost restored head) ds)"
  unfolding cmp_def
  by (induction ds arbitrary: c) (simp_all add: compare_one_cases lost_def add_match_def add_mismatch_def)

lemma compare_refs_fields:
  fixes declared restored head
  defines "c \<equiv> compare_refs declared restored head" and "ds \<equiv> sort_key bref_name declared"
  shows "rc_declared c = int (length declared)"
    and "rc_matched c = int (length (filter (carried restored head) ds))"
    and "rc_unreferenced c = map bref_name (filter (\<lambda>d. \<not> carried restored head d \<and> unpointed restored d) ds)"
    and "map mm_ref (rc_mismatches c) = map bref_name (filter (lost restored head) ds)"
  by (simp_all add: c_def ds_def compare_refs_def compare_fold)

lemma compare_refs_ok:
  "comparison_ok (compare_refs declared restored head) \<longleftrightarrow>
   (\<forall>d \<in> set declared. carried restored head d \<or> unpointed restored d)"
proof -
  have "comparison_ok (compare_refs declared restored head) \<longleftrightarrow>
      map mm_ref (rc_mismatches (compare_refs declared restored head)) = []"
    by (simp add: comparison_ok_def)
  also have "\<dots> \<longleftrightarrow> (\<forall>d \<in> set declared. carried restored head d \<or> unpointed restored d)"
    unfolding compare_refs_fields by (auto simp: filter_empty_conv lost_def)
  finally show ?thesis .
qed

lemma length_filter_split:
  "length xs = length (filter p xs) + length (filter (\<lambda>x. \<not> p x \<and> q x) xs)
     + length (filter (\<lambda>x. \<not> p x \<and> \<not> q x) xs)"
  by (induction xs) auto

lemma compare_refs_total:
  fixes declared restored head
  defines "c \<equiv> compare_refs declared restored head"
  shows "rc_matched c + int (length (rc_unreferenced c)) + int (length (rc_mismatches c)) = rc_declared c"
proof -
  have "length (rc_mismatches c) = length (map mm_ref (rc_mismatches c))" by simp
  then show ?thesis
    unfolding c_def compare_refs_fields
    using length_filter_split [of "sort_key bref_name declared" "carried restored head" "unpointed restored"]
    by (simp add: lost_def [abs_def])
qed

section \<open>Deciding whether a repository has changed\<close>

definition same_refs :: "refs \<Rightarrow> refs \<Rightarrow> bool" where
  "same_refs a b \<longleftrightarrow> length a = length b
     \<and> (\<forall>(n, oid) \<in> set a. (case map_of b n of None \<Rightarrow> [] | Some v \<Rightarrow> v) = oid)"

record unchanged_decision =
  ud_skip :: bool
  ud_reason :: string

definition refresh_floor :: int where "refresh_floor = 3"
definition max_skip_days :: int where "max_skip_days = 30"

definition refresh_bound :: "duration \<Rightarrow> duration" where
  "refresh_bound retention =
     (let limit = max_skip_days * 24 * hour in
      if retention \<le> 0 then limit else min limit (go_div retention refresh_floor))"

definition reason_resume :: string where "reason_resume = ''already backed up for this date''"
definition reason_empty :: string where "reason_empty = ''repository has no commits''"
definition reason_unchanged :: string where "reason_unchanged = ''unchanged since''"

definition decide_unchanged :: "refs \<Rightarrow> refs \<Rightarrow> time \<Rightarrow> time \<Rightarrow> duration \<Rightarrow> unchanged_decision" where
  "decide_unchanged previous current copied_at now retention =
     (let no = \<lparr>ud_skip = False, ud_reason = []\<rparr> in
      if length previous = 0 then no
      else if length current = 0 then no
      else if \<not> same_refs previous current then no
      else let age = time_sub now copied_at in
        if age < 0 then no
        else if age \<ge> refresh_bound retention
        then \<lparr>ud_skip = False, ud_reason = ''unchanged, but the last copy is '' @ show_int (go_div age day)
               @ '' days old and is being refreshed''\<rparr>
        else \<lparr>ud_skip = True, ud_reason = reason_unchanged @ '' '' @ format_date copied_at\<rparr>)"

record ref_entry =
  re_name :: string
  re_commit :: string

definition refs_to_entries :: "refs \<Rightarrow> ref_entry list" where
  "refs_to_entries refs = sort_key re_name (map (\<lambda>(n, oid). \<lparr>re_name = n, re_commit = oid\<rparr>) refs)"

definition entries_to_refs :: "ref_entry list \<Rightarrow> refs" where
  "entries_to_refs es = (if length es = 0 then [] else ref_map (map (\<lambda>e. (re_name e, re_commit e)) es))"

text \<open>
  On maps that hold no empty object id, sameRefs is equality of the maps. An empty id on the
  left is matched by a name the right side lacks, because indexing a Go map with a missing name
  gives the empty string.
\<close>

definition ref_ids :: "refs \<Rightarrow> bool" where
  "ref_ids a \<longleftrightarrow> distinct (map fst a) \<and> [] \<notin> snd ` set a"

lemma same_refs_iff:
  assumes a: "ref_ids a" and b: "distinct (map fst b)"
  shows "same_refs a b \<longleftrightarrow> map_of a = map_of b"
proof
  assume s: "same_refs a b"
  have look: "map_of b n = Some v" if "(n, v) \<in> set a" for n v
  proof -
    have "(case map_of b n of None \<Rightarrow> [] | Some u \<Rightarrow> u) = v" using s that by (auto simp: same_refs_def)
    moreover have "v \<noteq> []" using a that by (force simp: ref_ids_def)
    ultimately show ?thesis by (cases "map_of b n") simp_all
  qed
  have sub: "set a \<subseteq> set b" using look map_of_SomeD by fastforce
  have "card (set a) = card (set b)"
    using s a b by (simp add: same_refs_def ref_ids_def distinct_card distinct_map)
  with sub have "set a = set b" by (simp add: card_subset_eq)
  then show "map_of a = map_of b" using a b by (simp add: ref_ids_def map_of_inject_set)
next
  assume e: "map_of a = map_of b"
  then have "set a = set b" using a b by (simp add: ref_ids_def map_of_inject_set)
  then have "length a = length b" using a b by (metis distinct_card distinct_map ref_ids_def)
  moreover have "map_of b n = Some v" if "(n, v) \<in> set a" for n v
    using that a e by (metis map_of_eq_Some_iff ref_ids_def)
  ultimately show "same_refs a b" by (auto simp: same_refs_def)
qed

lemma refresh_bound_limits:
  "refresh_bound r \<le> 30 * day" "0 < r \<Longrightarrow> refresh_bound r * 3 \<le> r"
proof -
  show "refresh_bound r \<le> 30 * day"
    by (simp add: refresh_bound_def max_skip_days_def time_units Let_def)
  assume "0 < r"
  then have "refresh_bound r \<le> r div 3"
    by (simp add: refresh_bound_def refresh_floor_def go_div_nonneg Let_def)
  then show "refresh_bound r * 3 \<le> r" by linarith
qed

lemma decide_skip:
  assumes "ud_skip (decide_unchanged previous current copied_at now retention)"
  shows "previous \<noteq> [] \<and> current \<noteq> [] \<and> same_refs previous current"
    and "copied_at \<le> now" and "now - copied_at < refresh_bound retention"
proof -
  have s: "previous \<noteq> []" "current \<noteq> []" "same_refs previous current"
    "0 \<le> time_sub now copied_at" "time_sub now copied_at < refresh_bound retention"
    using assms by (auto simp: decide_unchanged_def Let_def split: if_splits)
  have "refresh_bound retention \<le> 2 ^ 63 - 1"
    using refresh_bound_limits(1) [of retention] by (simp add: time_units)
  with s(4,5) have "copied_at \<le> now \<and> now - copied_at < refresh_bound retention"
    by (rule time_sub_nonneg_le)
  with s show "previous \<noteq> [] \<and> current \<noteq> [] \<and> same_refs previous current"
    "copied_at \<le> now" "now - copied_at < refresh_bound retention" by auto
qed

lemma entries_round_trip:
  assumes "distinct (map fst refs)"
  shows "map_of (entries_to_refs (refs_to_entries refs)) = map_of refs"
proof -
  let ?es = "map (\<lambda>e. (re_name e, re_commit e)) (refs_to_entries refs)"
  have set: "set ?es = set refs"
    by (force simp: refs_to_entries_def image_iff)
  have "distinct (map re_name (refs_to_entries refs))
      = distinct (map re_name (map (\<lambda>(n, oid). \<lparr>re_name = n, re_commit = oid\<rparr>) refs))"
    unfolding refs_to_entries_def distinct_map distinct_sort set_sort ..
  then have d: "distinct (map fst ?es)" using assms by (simp add: comp_def case_prod_unfold)
  have "map_of (rev ?es) = map_of refs"
    using d assms set by (intro map_of_inject_set [THEN iffD2]) (simp_all only: rev_map [symmetric] distinct_rev set_rev)
  then show ?thesis
    by (auto simp: entries_to_refs_def fun_eq_iff ref_map_last) 
qed

section \<open>Holding the clone to the source, and the bundle to the clone\<close>

text \<open>
  \<open>cloneHolds\<close> asks the source again only when the clone lacks a branch or tag the source
  advertised before the clone. \<open>auth\<close> is gitAuthHeader and \<open>ask\<close> the listing made with its
  header.
\<close>

definition lacking :: "refs \<Rightarrow> refs \<Rightarrow> string list" where
  "lacking advertised copied = sort (filter (\<lambda>n. map_of copied n = None \<and> clonable n) (map fst advertised))"

definition unasked :: "string list \<Rightarrow> goerr \<Rightarrow> goerr" where
  "unasked lack = wrap_error (''the clone lacks '' @ join_with '', '' (first_n lack 3)
     @ '', which the source advertised before the clone, and the source could not be asked whether it still does'')"

definition still_lacks :: "string list \<Rightarrow> goerr" where
  "still_lacks still = new_error (''the clone lacks '' @ join_with '', '' (first_n still 3)
     @ '', which the source advertised before the clone and still advertises'')"

definition clone_holds ::
  "('w, string) io \<Rightarrow> (string \<Rightarrow> ('w, refs) io) \<Rightarrow> refs \<Rightarrow> refs \<Rightarrow> ('w, unit) io" where
  "clone_holds auth ask advertised copied =
     (let lack = lacking advertised copied in
      if lack = [] then okE ()
      else bindE (mapErrE (\<lambda>e. unasked lack (wrap_error ''source auth'' e)) auth) (\<lambda>header.
           bindE (mapErrE (unasked lack) (ask header)) (\<lambda>now.
             let still = filter (\<lambda>n. map_of now n \<noteq> None) lack in
             if still \<noteq> [] then failE (still_lacks still) else okE ())))"

lemma set_lacking: "set (lacking advertised copied) =
    {n. n \<in> fst ` set advertised \<and> map_of copied n = None \<and> clonable n}"
  by (auto simp: lacking_def)

lemma ask_again:
  "bindE (mapErrE f auth) (\<lambda>h. bindE (mapErrE g (ask h)) (\<lambda>now. if P now then failE (err now) else okE ())) w
      = (Inr u, w') \<longleftrightarrow> (\<exists>h w1 now. auth w = (Inr h, w1) \<and> ask h w1 = (Inr now, w') \<and> \<not> P now)"
  by (auto simp: bindE_Inr split: if_splits)

lemma clone_holds_ok:
  assumes "clone_holds auth ask advertised copied w = (Inr u, w')"
  shows "(\<forall>n \<in> fst ` set advertised. clonable n \<longrightarrow> map_of copied n \<noteq> None)
    \<or> (\<exists>h w1 now. auth w = (Inr h, w1) \<and> ask h w1 = (Inr now, w')
        \<and> (\<forall>n \<in> fst ` set advertised. clonable n \<and> map_of copied n = None \<longrightarrow> map_of now n = None))"
proof (cases "lacking advertised copied = []")
  case True
  have "map_of copied n \<noteq> None" if "n \<in> fst ` set advertised" "clonable n" for n
  proof
    assume "map_of copied n = None"
    with that have "n \<in> set (lacking advertised copied)" unfolding set_lacking by blast
    with True show False by simp
  qed
  then show ?thesis by simp
next
  case False
  let ?lack = "lacking advertised copied"
  obtain h w1 now where a: "auth w = (Inr h, w1)" and n: "ask h w1 = (Inr now, w')"
    and still: "filter (\<lambda>n. map_of now n \<noteq> None) ?lack = []"
    using assms False unfolding clone_holds_def Let_def by (auto simp only: if_False ask_again)
  from still have "\<forall>n \<in> set ?lack. map_of now n = None" by (auto simp: filter_empty_conv)
  then have "\<forall>n \<in> fst ` set advertised. clonable n \<and> map_of copied n = None \<longrightarrow> map_of now n = None"
    by (auto simp: set_lacking)
  with a n show ?thesis by blast
qed

definition bundle_differs :: "refs \<Rightarrow> refs \<Rightarrow> string" where
  "bundle_differs copied declared =
     (let lacks = sort (filter (\<lambda>n. map_of declared n = None) (map fst copied));
          moved = sort (map fst (filter (\<lambda>(n, oid). map_of declared n \<noteq> None \<and> map_of declared n \<noteq> Some oid) copied));
          extra = sort (filter (\<lambda>n. map_of copied n = None) (map fst declared))
      in join_with ''; ''
          ((if lacks \<noteq> [] then [''it lacks '' @ join_with '', '' (first_n lacks 3)] else [])
           @ (if moved \<noteq> [] then [''it declares '' @ join_with '', '' (first_n moved 3) @ '' at another object''] else [])
           @ (if extra \<noteq> [] then [''it declares '' @ join_with '', '' (first_n extra 3) @ '', which the clone does not hold''] else [])))"

definition bundle_holds :: "'w machine \<Rightarrow> string \<Rightarrow> refs \<Rightarrow> ('w, unit) io" where
  "bundle_holds m bundle copied =
     bindE (mapErrE (wrap_error ''read the bundle's refs'') (bundle_heads m bundle)) (\<lambda>heads.
       let declared = ref_map (map (\<lambda>h. (bref_name h, bref_oid h)) heads) in
       if same_refs copied declared then okE ()
       else failE (new_error (''the bundle written from the clone does not declare the refs the clone holds: ''
              @ bundle_differs copied declared)))"

lemma bundle_holds_ok:
  assumes "ref_ids copied"
  shows "bundle_holds m bundle copied w = (Inr u, w') \<longleftrightarrow>
    (\<exists>heads. bundle_heads m bundle w = (Inr heads, w')
      \<and> map_of copied = map_of (rev (map (\<lambda>h. (bref_name h, bref_oid h)) heads)))"
proof -
  have "same_refs copied (ref_map es) \<longleftrightarrow> map_of copied = map_of (rev es)" for es
    using same_refs_iff [OF assms distinct_ref_map, of es] by (simp add: ref_map_last fun_eq_iff)
  then show ?thesis
    by (auto simp: bundle_holds_def bindE_Inr mapErrE_def Let_def split: prod.splits sum.splits if_splits)
qed

text \<open>The refs git's listings give are such maps: no name twice, and every id hexadecimal.\<close>

lemma ref_map_values: "snd ` set (ref_map es) \<subseteq> snd ` set es"
proof
  fix v assume "v \<in> snd ` set (ref_map es)"
  then obtain n where "(n, v) \<in> set (ref_map es)" by auto
  then have "map_of (ref_map es) n = Some v" by (simp add: distinct_ref_map)
  then have "map_of (rev es) n = Some v" by (simp add: ref_map_last)
  then show "v \<in> snd ` set es" by (force dest: map_of_SomeD)
qed

lemma read_lines_in:
  "read_lines rd ls = Inr xs \<Longrightarrow> x \<in> set xs \<Longrightarrow> \<exists>l \<in> set ls. rd l = Inr (Some x)"
  by (induction ls arbitrary: xs) (auto split: if_splits sum.splits option.splits)

lemma list_refs_ids:
  assumes "list_refs m dir w = (Inr refs, w')"
  shows "ref_ids refs"
proof -
  obtain out es where r: "read_lines (read_oid_name ''unreadable ref line'') (split_on newline out) = Inr es"
    and refs: "refs = ref_map es"
    using assms unfolding list_refs_def by (simp only: bindE_Inr mapErrE_Inr liftE_apply prod.inject map_sum_Inr) blast
  have "v \<noteq> []" if "v \<in> snd ` set es" for v
    using that read_lines_in [OF r]
    by (fastforce simp: read_oid_name_def parse_oid_name_Inr is_hex_def split: sum.splits)
  then show ?thesis
    using ref_map_values [of es] unfolding refs ref_ids_def using distinct_ref_map by blast
qed

lemma mirror_refs_ids:
  assumes "mirror_refs m dir w = (Inr refs, w')"
  shows "ref_ids refs"
proof -
  obtain rs w1 head resolves w2 where l: "list_refs m dir w = (Inr rs, w1)"
    and h: "refs = rs \<or> is_hex head \<and> refs = AList.update ''HEAD'' head rs"
    using assms by (auto simp: mirror_refs_def bindE_Inr split: prod.splits if_splits)
  have rs: "ref_ids rs" using l by (rule list_refs_ids)
  from h show ?thesis
  proof
    assume "is_hex head \<and> refs = AList.update ''HEAD'' head rs"
    moreover have "snd ` set (AList.update k v rs) \<subseteq> insert v (snd ` set rs)" for k v
      by (induction rs) auto
    ultimately show ?thesis
      using rs by (auto simp: ref_ids_def is_hex_def distinct_update)
  qed (simp add: rs)
qed

end
