(* ===== verification/Dest.thy ===== *)
theory Dest
  imports Prelude Go_Time Go_Url
begin

text \<open>
  src/internal/dest/dest.go and limit.go: the vocabulary of immutable storage (verdicts,
  retention, what a write returns), the create-only Destination interface as a record of effects
  over the world with the contract every backend promises, and the capped response body.
\<close>

section \<open>Verdicts and retention\<close>

datatype worm_verdict = VerdictUnknown | VerdictImmutable | VerdictNotImmutable

definition verdict_wire :: "worm_verdict \<Rightarrow> string" where
  "verdict_wire v = (case v of VerdictUnknown \<Rightarrow> ''unknown'' | VerdictImmutable \<Rightarrow> ''immutable''
     | VerdictNotImmutable \<Rightarrow> ''not-immutable'')"

definition immutable :: "worm_verdict \<Rightarrow> bool" where
  "immutable v \<longleftrightarrow> v = VerdictImmutable"

record retention =
  ret_mode :: string
  ret_until :: time

definition no_retention :: retention where
  "no_retention = \<lparr>ret_mode = [], ret_until = time_zero\<rparr>"

record worm_status =
  ws_period :: duration
  ws_verdict :: worm_verdict
  ws_mode :: string
  ws_details :: string
  ws_refusal :: "goerr option"

definition unnamed_code :: string where "unnamed_code = ''unnamed''"

definition code_byte :: "char \<Rightarrow> bool" where
  "code_byte c \<longleftrightarrow> is_letter c \<or> is_num c \<or> c = CHR ''.''"

text \<open>\<open>^[A-Za-z][A-Za-z0-9.]{0,63}$\<close>\<close>

definition code_shape :: "string \<Rightarrow> bool" where
  "code_shape s = (case s of [] \<Rightarrow> False
     | c # cs \<Rightarrow> is_letter c \<and> length cs \<le> 63 \<and> list_all code_byte cs)"

definition shaped_code :: "string \<Rightarrow> string" where
  "shaped_code code = (if code_shape code then code else unnamed_code)"

definition err_no_such_bucket :: goerr where "err_no_such_bucket = new_error ''the bucket does not exist''"
definition err_no_credentials :: goerr where "err_no_credentials = new_error ''no credential could be obtained''"
definition err_not_storage_api :: goerr where
  "err_not_storage_api = new_error ''the endpoint did not answer as the storage API does''"

datatype retention_observation = RetentionPresent | RetentionAbsent | RetentionNotChecked

definition observation_string :: "retention_observation \<Rightarrow> string" where
  "observation_string ob = (case ob of RetentionPresent \<Rightarrow> ''present'' | RetentionAbsent \<Rightarrow> ''absent''
     | RetentionNotChecked \<Rightarrow> ''not-checked'')"

record put_result =
  pr_key :: string
  pr_etag :: string
  pr_version :: string
  pr_size :: int
  pr_sha256 :: string
  pr_until :: time
  pr_mode :: string

record object =
  obj_key :: string
  obj_size :: int
  obj_modified :: time

text \<open>Whatever the store wrote, what is repeated of it is a short word.\<close>

lemma shaped_code_safe:
  "list_all code_byte (shaped_code s) \<and> 1 \<le> length (shaped_code s) \<and> length (shaped_code s) \<le> 64"
proof -
  have "list_all code_byte unnamed_code" by code_simp
  then show ?thesis
    by (auto simp: shaped_code_def code_shape_def code_byte_def unnamed_code_def split: list.splits)
qed

section \<open>The Destination interface\<close>

text \<open>
  What a reader gives when it is read to its end: its bytes, and the error it ends with when it
  does not end well.
\<close>

record body =
  body_bytes :: string
  body_err :: "goerr option"

record 'w destination =
  verify_worm :: "('w, worm_status) io"
  put_immutable :: "string \<Rightarrow> body \<Rightarrow> int \<Rightarrow> retention \<Rightarrow> ('w, put_result) io"
  list_objects :: "string \<Rightarrow> ('w, object list) io"
  get_object :: "string \<Rightarrow> ('w, body) io"
  observe_retention :: "(string \<Rightarrow> ('w, retention_observation \<times> time) io) option"

text \<open>
  The contract: \<open>objs\<close> is what the store holds. Only a put changes it, a put never changes or
  removes an object that is there, and after a put that succeeds its key holds exactly the bytes it
  was given: the put wrote them, or found them there when the answer to the write was lost. Get of
  a stored object gives its bytes, and a listing gives the stored keys under its prefix.
\<close>

locale stored_reads =
  fixes d :: "'w destination" and objs :: "'w \<Rightarrow> (string \<rightharpoonup> string)"
  assumes verify_same: "steps_in (same_on objs) (verify_worm d)"
    and list_same: "steps_in (same_on objs) (list_objects d pre)"
    and get_same: "steps_in (same_on objs) (get_object d k)"
    and get_gives: "get_object d k w = (Inr b, w') \<Longrightarrow>
      \<exists>bs t. objs w k = Some bs \<and> bs = body_bytes b @ t \<and> (body_err b = None \<longrightarrow> t = [])"
    and list_gives: "list_objects d pre w = (Inr os, w') \<Longrightarrow>
      obj_key ` set os = {k \<in> dom (objs w). has_prefix pre k}"
    and observe_same: "observe_retention d = Some f \<Longrightarrow> steps_in (same_on objs) (f k)"

locale create_only = stored_reads +
  assumes put_grows: "steps_in (grows_on objs) (put_immutable d k b n r)"
    and put_only: "put_immutable d k b n r w = (x, w') \<Longrightarrow> k' \<noteq> k \<Longrightarrow> objs w' k' = objs w k'"
    and put_stores: "put_immutable d k b n r w = (Inr p, w') \<Longrightarrow>
      objs w' k = Some (body_bytes b) \<and> int (length (body_bytes b)) = n
      \<and> pr_key p = k \<and> pr_size p = n"
begin

lemma put_result_stored:
  "put_immutable d k b n r w = (Inr p, w') \<Longrightarrow> objs w' = (objs w)(k \<mapsto> body_bytes b)"
  using put_only put_stores by (fastforce simp: fun_eq_iff)

lemma put_result_named:
  "put_immutable d k b n r w = (Inr p, w') \<Longrightarrow>
   pr_key p = k \<and> pr_size p = n \<and> int (length (body_bytes b)) = n"
  using put_stores by blast

lemma reads_grow:
  "steps_in (grows_on objs) (verify_worm d)" "steps_in (grows_on objs) (list_objects d pre)"
  "steps_in (grows_on objs) (get_object d k)"
  "observe_retention d = Some f \<Longrightarrow> steps_in (grows_on objs) (f k)"
  using verify_same list_same get_same observe_same by (auto intro: steps_same_grows)

lemma kept: "put_immutable d k b n r w = (x, w') \<Longrightarrow> objs w k' = Some v \<Longrightarrow> objs w' k' = Some v"
  using steps_inD [OF put_grows] by (metis domI grows_on_def map_le_def)

end

text \<open>
  The way the backends keep it: whatever a put returns, it has stored all of the bytes at a free key, or
  nothing.
\<close>

locale lands_whole = stored_reads +
  assumes put_lands: "put_immutable d k b n r w = (x, w') \<Longrightarrow> lands_on objs k (body_bytes b) w w'"
    and put_whole: "put_immutable d k b n r w = (Inr p, w') \<Longrightarrow>
      objs w' k = Some (body_bytes b) \<and> int (length (body_bytes b)) = n \<and> pr_key p = k \<and> pr_size p = n"

sublocale lands_whole \<subseteq> create_only
proof
  show "steps_in (grows_on objs) (put_immutable d k b n r)" for k b n r
    unfolding steps_in_def by (intro allI, rule lands_grows [OF put_lands]) (rule surjective_pairing)
  show "put_immutable d k b n r w = (x, w') \<Longrightarrow> k' \<noteq> k \<Longrightarrow> objs w' k' = objs w k'" for k b n r w x w' k'
    using put_lands by (fastforce simp: lands_on_def)
qed (use put_whole in blast)

section \<open>readCapped\<close>

text \<open>
  \<open>io.ReadAll(io.LimitReader(rc, limit+1))\<close>, and a refusal of an object that is longer than the
  limit. The object's error, when it ends with one, shows only if the end is reached.
\<close>

definition read_capped :: "'w destination \<Rightarrow> string \<Rightarrow> int \<Rightarrow> ('w, string) io" where
  "read_capped d key limit = bindE (get_object d key) (\<lambda>rc.
     let b = take (nat (limit + 1)) (body_bytes rc) in
     if length (body_bytes rc) < nat (limit + 1) \<and> body_err rc \<noteq> None then failE (the (body_err rc))
     else if int (length b) > limit
     then failE (GoErr (ObjectTooLarge limit) (''larger than '' @ show_int limit @ '' bytes'') [])
     else okE b)"

lemma read_capped_Inr:
  "0 \<le> limit \<Longrightarrow> read_capped d key limit w = (Inr b, w') \<Longrightarrow>
   \<exists>rc. get_object d key w = (Inr rc, w') \<and> b = body_bytes rc \<and> body_err rc = None
     \<and> int (length b) \<le> limit"
  by (auto simp: read_capped_def bindE_Inr Let_def split: if_splits)

section \<open>A response body that is capped\<close>

definition eof :: goerr where "eof = new_error ''EOF''"
definition err_response_too_large :: goerr where
  "err_response_too_large = new_error ''the answer is longer than gitdr reads''"

text \<open>
  \<open>'r\<close> is the reader underneath, read through \<open>rd\<close>: asked for at most so many bytes, it gives
  some and perhaps an error.
\<close>

record 'r limited_body =
  lb_rc :: 'r
  lb_left :: int
  lb_err :: "goerr option"

definition limit_body :: "'r \<Rightarrow> int \<Rightarrow> 'r limited_body" where
  "limit_body rc limit = \<lparr>lb_rc = rc, lb_left = (if limit < 0 then 0 else limit), lb_err = None\<rparr>"

type_synonym 'r reader = "'r \<Rightarrow> nat \<Rightarrow> (string \<times> goerr option) \<times> 'r"

definition limited_read :: "'r reader \<Rightarrow> 'r limited_body \<Rightarrow> nat \<Rightarrow> (string \<times> goerr option) \<times> 'r limited_body" where
  "limited_read rd b len =
     (if lb_err b \<noteq> None then (([], lb_err b), b)
      else if len = 0 then (([], None), b)
      else let ask = wrap64 (lb_left b + 1);
               len' = (if ask > 0 \<and> int len > ask then nat ask else len)
           in case rd (lb_rc b) len' of ((p, e), rc') \<Rightarrow>
             if int (length p) > lb_left b
             then ((take (nat (lb_left b)) p, Some err_response_too_large),
                   b\<lparr>lb_rc := rc', lb_left := 0, lb_err := Some err_response_too_large\<rparr>)
             else ((p, e), b\<lparr>lb_rc := rc', lb_left := lb_left b - int (length p), lb_err := e\<rparr>))"

text \<open>A sequence of reads: the bytes each gave, with the error it gave them with.\<close>

fun limited_reads :: "'r reader \<Rightarrow> 'r limited_body \<Rightarrow> nat list \<Rightarrow> (string \<times> goerr option) list \<times> 'r limited_body" where
  "limited_reads rd b [] = ([], b)"
| "limited_reads rd b (n # ns) =
     (case limited_read rd b n of (r, b') \<Rightarrow>
        (case limited_reads rd b' ns of (rs, b'') \<Rightarrow> (r # rs, b'')))"

lemma limited_read_total:
  assumes "limited_read rd b n = ((p, e), b')" and "0 \<le> lb_left b"
  shows "int (length p) + lb_left b' \<le> lb_left b" and "0 \<le> lb_left b'"
    and "lb_err b \<noteq> None \<Longrightarrow> p = [] \<and> e = lb_err b \<and> b' = b"
  using assms by (auto simp: limited_read_def Let_def split: if_splits prod.splits)

lemma limited_reads_total:
  "limited_reads rd b ns = (rs, b') \<Longrightarrow> 0 \<le> lb_left b \<Longrightarrow>
   int (length (concat (map fst rs))) + lb_left b' \<le> lb_left b \<and> 0 \<le> lb_left b'"
proof (induction ns arbitrary: b rs)
  case (Cons n ns)
  obtain p e b1 where one: "limited_read rd b n = ((p, e), b1)" by (metis prod.collapse)
  obtain qs where rest: "limited_reads rd b1 ns = (qs, b')" and rs: "rs = (p, e) # qs"
    using Cons.prems(1) one by (auto split: prod.splits)
  note l = limited_read_total [OF one Cons.prems(2)]
  from Cons.IH [OF rest l(2)] l(1) show ?case by (simp add: rs)
qed simp

lemma limited_reads_stuck:
  "lb_err b = Some e \<Longrightarrow> limited_reads rd b ns = (map (\<lambda>n. ([], Some e)) ns, b)"
  by (induction ns) (simp_all add: limited_read_def)

end
