(* ===== verification/Crypto.thy ===== *)
theory Crypto
  imports Dest
begin

text \<open>
  src/internal/crypto/encrypt.go and checksum.go: the chunked envelope encryption, and the text forms
  an encryption key may have. AES-GCM and SHA-256 are parameters: a seal and an open function, a
  digest. Source streams are bodies (bytes, and the error they end with), and the writer is an
  effect that may fail. The signing keys of sign.go are in Keys.
\<close>

section \<open>The nonce of a chunk\<close>

definition enc_magic :: string where "enc_magic = ''GDRE''"
definition enc_version :: char where "enc_version = CHR 0x01"
definition enc_chunk :: nat where "enc_chunk = 64 * 1024"
definition enc_dek :: nat where "enc_dek = 32"
definition enc_nonce :: nat where "enc_nonce = 12"
definition enc_tag :: nat where "enc_tag = 16"
definition enc_prefix :: nat where "enc_prefix = 4"

lemmas enc_sizes = enc_dek_def enc_nonce_def enc_tag_def enc_prefix_def

definition enc_header_len :: nat where
  "enc_header_len = length enc_magic + 1 + enc_nonce + (enc_dek + enc_tag) + enc_prefix"

definition encryption_key_size :: nat where "encryption_key_size = 32"

text \<open>Bytes 4 to 10 are the low 56 bits of the counter, most significant first.\<close>

definition counter_byte :: "nat \<Rightarrow> nat \<Rightarrow> char" where
  "counter_byte c i = char_of (c div 256 ^ i mod 256)"

definition chunk_nonce :: "string \<Rightarrow> nat \<Rightarrow> bool \<Rightarrow> string" where
  "chunk_nonce prefix counter final =
     take enc_prefix (prefix @ replicate enc_prefix (CHR 0x00))
     @ map (\<lambda>i. counter_byte counter (6 - i)) [0..<7]
     @ [if final then CHR 0x01 else CHR 0x00]"

text \<open>A \<open>uint64\<close> counter wraps around.\<close>

definition next_counter :: "nat \<Rightarrow> nat" where
  "next_counter c = (c + 1) mod 2 ^ 64"

lemma char_of_inj: "a < 256 \<Longrightarrow> b < 256 \<Longrightarrow> char_of a = char_of b \<Longrightarrow> a = (b::nat)"
  by (metis mod_less of_char_of)

lemma bytes_inj:
  "\<forall>i < k. (a::nat) div 256 ^ i mod 256 = b div 256 ^ i mod 256 \<Longrightarrow> a mod 256 ^ k = b mod 256 ^ k"
proof (induction k)
  case (Suc k)
  then have "a mod 256 ^ k = b mod 256 ^ k" and "a div 256 ^ k mod 256 = b div 256 ^ k mod 256"
    by simp_all
  moreover have "x mod 256 ^ Suc k = 256 ^ k * (x div 256 ^ k mod 256) + x mod 256 ^ k" for x :: nat
    by (metis mod_mult2_eq power_Suc2)
  ultimately show ?case by (simp only:)
qed simp

lemma chunk_nonce_inj:
  assumes "chunk_nonce p c l = chunk_nonce p c' l'" and "c < 2 ^ 56" and "c' < 2 ^ 56"
  shows "c = c' \<and> l = l'"
proof -
  have m: "map (\<lambda>i. counter_byte c (6 - i)) [0..<7] = map (\<lambda>i. counter_byte c' (6 - i)) [0..<7]"
    and l: "(if l then CHR 0x01 else CHR 0x00) = (if l' then CHR 0x01 else CHR 0x00)"
    using assms(1) by (simp_all add: chunk_nonce_def)
  have "c div 256 ^ i mod 256 = c' div 256 ^ i mod 256" if "i < 7" for i
  proof -
    have all: "\<forall>x \<in> {0..<7}. counter_byte c (6 - x) = counter_byte c' (6 - x)"
      using m by (simp only: map_eq_conv set_upt)
    have "counter_byte c (6 - (6 - i)) = counter_byte c' (6 - (6 - i))"
      by (rule bspec [OF all]) simp
    then have "counter_byte c i = counter_byte c' i" using that by simp
    then show ?thesis unfolding counter_byte_def by (intro char_of_inj) simp_all
  qed
  then have "c mod 256 ^ 7 = c' mod 256 ^ 7" by (intro bytes_inj) simp
  with assms(2,3) have "c = c'" by simp
  with l show ?thesis by (auto split: if_splits)
qed

lemma length_chunk_nonce: "length (chunk_nonce p c l) = enc_nonce"
  by (simp add: chunk_nonce_def enc_sizes)

section \<open>The envelope\<close>

record aead =
  seal :: "string \<Rightarrow> string \<Rightarrow> string \<Rightarrow> string"          \<comment> \<open>key, nonce, plaintext\<close>
  open_box :: "string \<Rightarrow> string \<Rightarrow> string \<Rightarrow> string option"

text \<open>
  What AES-256-GCM is relied on for: a box opens to what was sealed in it, a box is as long as
  its plaintext and the tag, and only the box sealed under the key and nonce opens under them
  (sealing is deterministic).
\<close>

definition aead_opens :: "aead \<Rightarrow> bool" where
  "aead_opens a \<longleftrightarrow> (\<forall>k n p. open_box a k n (seal a k n p) = Some p)
     \<and> (\<forall>k n p. length (seal a k n p) = length p + enc_tag)"

definition aead_authentic :: "aead \<Rightarrow> bool" where
  "aead_authentic a \<longleftrightarrow> (\<forall>k n c p. open_box a k n c = Some p \<longrightarrow> c = seal a k n p)"

text \<open>
  \<open>io.ReadFull\<close> of n bytes, with the one-byte peek after a full read: the bytes read, the rest,
  and whether the stream ended here. An error of the source is reached when fewer than n bytes
  are left before it, or at once when the peek finds none.
\<close>

definition read_full :: "nat \<Rightarrow> body \<Rightarrow> goerr + (string \<times> body \<times> bool)" where
  "read_full n b =
     (let p = take n (body_bytes b); rest = drop n (body_bytes b) in
      if length p < n then
        (case body_err b of Some e \<Rightarrow> Inl e | None \<Rightarrow> Inr (p, b\<lparr>body_bytes := rest\<rparr>, True))
      else Inr (p, b\<lparr>body_bytes := rest\<rparr>, rest = [] \<and> body_err b = None))"

lemma read_full_shorter:
  "0 < n \<Longrightarrow> read_full n b = Inr (p, b', False) \<Longrightarrow> length (body_bytes b') < length (body_bytes b)"
  by (auto simp: read_full_def Let_def split: if_splits option.splits)

type_synonym 'w writer = "string \<Rightarrow> ('w, unit) io"

function encrypt_chunks :: "aead \<Rightarrow> 'w writer \<Rightarrow> string \<Rightarrow> string \<Rightarrow> nat \<Rightarrow> body \<Rightarrow> ('w, unit) io" where
  "encrypt_chunks a wr dek prefix counter src = (case read_full enc_chunk src of
       Inl e \<Rightarrow> failE e
     | Inr (p, rest, final) \<Rightarrow>
         bindE (wr (seal a dek (chunk_nonce prefix counter final) p)) (\<lambda>_.
           if final then okE () else encrypt_chunks a wr dek prefix (next_counter counter) rest))"
  by pat_completeness auto
termination
  by (relation "measure (\<lambda>(a, wr, dek, prefix, counter, src). length (body_bytes src))")
    (auto intro: read_full_shorter [of enc_chunk] simp: enc_chunk_def)

declare encrypt_chunks.simps [simp del]

definition err_wrong_data :: goerr where
  "err_wrong_data = new_error ''decryption failed: wrong key or corrupt data''"

function decrypt_chunks :: "aead \<Rightarrow> 'w writer \<Rightarrow> string \<Rightarrow> string \<Rightarrow> nat \<Rightarrow> body \<Rightarrow> ('w, unit) io" where
  "decrypt_chunks a wr dek prefix counter src = (case read_full (enc_chunk + enc_tag) src of
       Inl e \<Rightarrow> failE e
     | Inr (c, rest, final) \<Rightarrow>
         (case open_box a dek (chunk_nonce prefix counter final) c of
            None \<Rightarrow> failE err_wrong_data
          | Some p \<Rightarrow> bindE (wr p) (\<lambda>_.
              if final then okE () else decrypt_chunks a wr dek prefix (next_counter counter) rest)))"
  by pat_completeness auto
termination
  by (relation "measure (\<lambda>(a, wr, dek, prefix, counter, src). length (body_bytes src))")
    (auto intro: read_full_shorter [of "enc_chunk + enc_tag"] simp: enc_chunk_def)

declare decrypt_chunks.simps [simp del]

text \<open>\<open>newGCM\<close> takes keys of AES's three lengths.\<close>

definition aes_key :: "string \<Rightarrow> bool" where
  "aes_key k \<longleftrightarrow> length k \<in> {16, 24, 32}"

definition err_key_size :: goerr where "err_key_size = new_error ''encryption key must be 32 bytes''"

text \<open>\<open>rand n\<close> reads n random bytes.\<close>

definition encrypt :: "aead \<Rightarrow> (nat \<Rightarrow> ('w, string) io) \<Rightarrow> 'w writer \<Rightarrow> body \<Rightarrow> string \<Rightarrow> ('w, unit) io" where
  "encrypt a rand wr src kek =
     (if length kek \<noteq> encryption_key_size then failE err_key_size
      else bindE (rand enc_dek) (\<lambda>dek.
           bindE (rand enc_nonce) (\<lambda>wrap_nonce.
           let wrapped = seal a kek wrap_nonce dek in
           bindE (rand enc_prefix) (\<lambda>prefix.
           bindE (wr (enc_magic @ [enc_version] @ wrap_nonce @ wrapped @ prefix)) (\<lambda>_.
             encrypt_chunks a wr dek prefix 0 src)))))"

definition decrypt :: "aead \<Rightarrow> 'w writer \<Rightarrow> body \<Rightarrow> string \<Rightarrow> ('w, unit) io" where
  "decrypt a wr src kek =
     (if length kek \<noteq> encryption_key_size then failE err_key_size
      else let hdr = take enc_header_len (body_bytes src) in
        if length hdr < enc_header_len then
          failE (wrap_error ''read encryption header''
            (case body_err src of Some e \<Rightarrow> e | None \<Rightarrow> new_error (if hdr = [] then ''EOF'' else ''unexpected EOF'')))
        else if take (length enc_magic) hdr \<noteq> enc_magic then failE (new_error ''not a gitdr-encrypted stream'')
        else if hdr ! length enc_magic \<noteq> enc_version then
          failE (new_error (''unsupported encryption version '' @ show_nat (of_char (hdr ! length enc_magic))))
        else let off = length enc_magic + 1;
                 wrap_nonce = take enc_nonce (drop off hdr);
                 wrapped = take (enc_dek + enc_tag) (drop (off + enc_nonce) hdr);
                 prefix = drop (off + enc_nonce + enc_dek + enc_tag) hdr
             in case open_box a kek wrap_nonce wrapped of
                  None \<Rightarrow> failE (new_error ''decryption failed: wrong key or corrupt header'')
                | Some dek \<Rightarrow> if \<not> aes_key dek then failE (new_error ''crypto/aes: invalid key size'')
                    else decrypt_chunks a wr dek prefix 0 (src\<lparr>body_bytes := drop enc_header_len (body_bytes src)\<rparr>))"

definition is_encrypted :: "string \<Rightarrow> bool" where
  "is_encrypted b \<longleftrightarrow> length b \<ge> length enc_magic \<and> take (length enc_magic) b = enc_magic"

subsection \<open>A stream decrypts to what was encrypted, and to nothing else\<close>

text \<open>The chunks of a stream that ends well, sealed.\<close>

function seal_all :: "aead \<Rightarrow> string \<Rightarrow> string \<Rightarrow> nat \<Rightarrow> string \<Rightarrow> string" where
  "seal_all a dek prefix counter bs =
     (let final = drop enc_chunk bs = [] in
      seal a dek (chunk_nonce prefix counter final) (take enc_chunk bs)
      @ (if final then [] else seal_all a dek prefix (next_counter counter) (drop enc_chunk bs)))"
  by pat_completeness auto
termination
  by (relation "measure (\<lambda>(a, dek, prefix, counter, bs). length bs)") (auto simp: enc_chunk_def)

declare seal_all.simps [simp del]

text \<open>A writer that appends to what has been written.\<close>

definition appends :: "'w writer \<Rightarrow> ('w \<Rightarrow> string) \<Rightarrow> bool" where
  "appends wr out \<longleftrightarrow> (\<forall>p w. fst (wr p w) = Inr () \<and> out (snd (wr p w)) = out w @ p)"

lemma appends_write: "appends wr out \<Longrightarrow> \<exists>w'. wr p w = (Inr (), w') \<and> out w' = out w @ p"
  by (metis appends_def prod.collapse)

lemma read_full_ok:
  "0 < n \<Longrightarrow> read_full n \<lparr>body_bytes = bs, body_err = None\<rparr>
     = Inr (take n bs, \<lparr>body_bytes = drop n bs, body_err = None\<rparr>, drop n bs = [])"
  by (auto simp: read_full_def Let_def)

lemma enc_chunk_pos: "0 < enc_chunk"
  by (simp add: enc_chunk_def)

lemma encrypt_chunks_seals:
  assumes "appends wr out"
  shows "\<exists>w'. encrypt_chunks a wr dek prefix counter \<lparr>body_bytes = bs, body_err = None\<rparr> w = (Inr (), w')
    \<and> out w' = out w @ seal_all a dek prefix counter bs"
proof (induction bs arbitrary: counter w rule: length_induct)
  case (1 bs)
  let ?final = "drop enc_chunk bs = []"
  obtain w1 where w1: "wr (seal a dek (chunk_nonce prefix counter ?final) (take enc_chunk bs)) w = (Inr (), w1)"
    and o1: "out w1 = out w @ seal a dek (chunk_nonce prefix counter ?final) (take enc_chunk bs)"
    using appends_write [OF assms] by blast
  show ?case
  proof (cases ?final)
    case True
    then show ?thesis using w1 o1
      by (subst encrypt_chunks.simps, subst seal_all.simps) (simp add: read_full_ok enc_chunk_pos bindE_def)
  next
    case False
    then have "length (drop enc_chunk bs) < length bs" using enc_chunk_pos by (cases bs) auto
    with 1 obtain w' where "encrypt_chunks a wr dek prefix (next_counter counter)
          \<lparr>body_bytes = drop enc_chunk bs, body_err = None\<rparr> w1 = (Inr (), w')"
      "out w' = out w1 @ seal_all a dek prefix (next_counter counter) (drop enc_chunk bs)"
      by blast
    then show ?thesis using w1 o1 False
      by (subst encrypt_chunks.simps, subst seal_all.simps)
        (simp add: read_full_ok enc_chunk_pos bindE_def Let_def)
  qed
qed

lemma seal_all_long:
  assumes "aead_opens a"
  shows "seal_all a dek prefix c bs \<noteq> []"
proof
  assume "seal_all a dek prefix c bs = []"
  then have "seal a dek (chunk_nonce prefix c (drop enc_chunk bs = [])) (take enc_chunk bs) = []"
    by (subst (asm) seal_all.simps) (simp add: Let_def)
  then have "length (take enc_chunk bs) + enc_tag = 0"
    using assms by (metis aead_opens_def list.size(3))
  then show False by (simp add: enc_tag_def)
qed

lemma decrypt_seal_all:
  assumes a: "aead_opens a" and wr: "appends wr out"
  shows "\<exists>w'. decrypt_chunks a wr dek prefix counter
      \<lparr>body_bytes = seal_all a dek prefix counter bs, body_err = None\<rparr> w = (Inr (), w') \<and> out w' = out w @ bs"
proof (induction bs arbitrary: counter w rule: length_induct)
  case (1 bs)
  let ?final = "drop enc_chunk bs = []"
  let ?box = "seal a dek (chunk_nonce prefix counter ?final) (take enc_chunk bs)"
  let ?tail = "if ?final then [] else seal_all a dek prefix (next_counter counter) (drop enc_chunk bs)"
  have all: "seal_all a dek prefix counter bs = ?box @ ?tail"
    by (subst seal_all.simps) (simp add: Let_def)
  have len: "length ?box = length (take enc_chunk bs) + enc_tag"
    using a by (simp add: aead_opens_def)
  have full: "length ?box \<le> enc_chunk + enc_tag" "\<not> ?final \<Longrightarrow> length ?box = enc_chunk + enc_tag"
    using len by auto
  have tail: "?tail = [] \<longleftrightarrow> ?final" using seal_all_long [OF a] by simp
  have rd: "read_full (enc_chunk + enc_tag) \<lparr>body_bytes = ?box @ ?tail, body_err = None\<rparr>
      = Inr (?box, \<lparr>body_bytes = ?tail, body_err = None\<rparr>, ?final)"
    using full tail by (cases ?final) (simp_all add: read_full_ok enc_chunk_pos)
  have opens: "open_box a dek (chunk_nonce prefix counter ?final) ?box = Some (take enc_chunk bs)"
    using a by (simp add: aead_opens_def)
  obtain w1 where w1: "wr (take enc_chunk bs) w = (Inr (), w1)" and o1: "out w1 = out w @ take enc_chunk bs"
    using appends_write [OF wr] by blast
  show ?case
  proof (cases ?final)
    case True
    then have "take enc_chunk bs = bs" by simp
    then show ?thesis
      unfolding all using rd opens w1 o1 True
      by (subst decrypt_chunks.simps) (simp add: bindE_def)
  next
    case False
    then have "length (drop enc_chunk bs) < length bs" using enc_chunk_pos by (cases bs) auto
    with 1 obtain w' where "decrypt_chunks a wr dek prefix (next_counter counter)
          \<lparr>body_bytes = seal_all a dek prefix (next_counter counter) (drop enc_chunk bs), body_err = None\<rparr> w1 = (Inr (), w')"
      "out w' = out w1 @ drop enc_chunk bs" by blast
    then show ?thesis
      unfolding all using rd opens w1 o1 False
      by (subst decrypt_chunks.simps) (simp add: bindE_def)
  qed
qed

text \<open>
  A stream the decryption accepts is the sealing of the chunks it wrote: each under its own
  place's nonce, the last under the nonce that says it is the last, and nothing after it. A
  stream cut short, reordered or lengthened is not one, unless a box was forged.
\<close>

fun seal_list :: "aead \<Rightarrow> string \<Rightarrow> string \<Rightarrow> nat \<Rightarrow> string list \<Rightarrow> string" where
  "seal_list a dek prefix counter [] = []"
| "seal_list a dek prefix counter (p # ps) =
     seal a dek (chunk_nonce prefix counter (ps = [])) p @ seal_list a dek prefix (next_counter counter) ps"

definition chunked :: "string list \<Rightarrow> bool" where
  "chunked ps \<longleftrightarrow> ps \<noteq> [] \<and> (\<forall>p \<in> set (butlast ps). length p = enc_chunk) \<and> length (last ps) \<le> enc_chunk"

lemma decrypt_only_sealed:
  assumes a: "aead_opens a" "aead_authentic a" and wr: "appends wr out"
    and ok: "decrypt_chunks a wr dek prefix counter src w = (Inr u, w')"
  shows "\<exists>ps. chunked ps \<and> body_bytes src = seal_list a dek prefix counter ps \<and> out w' = out w @ concat ps"
  using ok
proof (induction "length (body_bytes src)" arbitrary: src counter w rule: less_induct)
  case less
  obtain c rest final where rd: "read_full (enc_chunk + enc_tag) src = Inr (c, rest, final)"
    using less.prems by (subst (asm) decrypt_chunks.simps) (auto split: sum.splits)
  obtain p where p: "open_box a dek (chunk_nonce prefix counter final) c = Some p"
    using less.prems rd by (subst (asm) decrypt_chunks.simps) (auto split: option.splits)
  obtain w1 where w1: "wr p w = (Inr (), w1)" and o1: "out w1 = out w @ p"
    using appends_write [OF wr] by blast
  have c: "c = seal a dek (chunk_nonce prefix counter final) p"
    using a(2) p by (simp add: aead_authentic_def)
  then have len: "length c = length p + enc_tag" using a(1) by (simp add: aead_opens_def)
  have src: "body_bytes src = c @ body_bytes rest" and cl: "length c \<le> enc_chunk + enc_tag"
    and fin: "final \<Longrightarrow> body_bytes rest = []" "\<not> final \<Longrightarrow> length c = enc_chunk + enc_tag"
    using rd by (auto simp: read_full_def Let_def split: if_splits option.splits)
  show ?case
  proof (cases final)
    case True
    then have "out w' = out w @ p"
      using less.prems rd p w1 o1 by (subst (asm) decrypt_chunks.simps) (simp add: bindE_def)
    then show ?thesis
      using src fin(1) [OF True] len cl c True by (intro exI [of _ "[p]"]) (simp add: chunked_def)
  next
    case False
    then have step: "decrypt_chunks a wr dek prefix (next_counter counter) rest w1 = (Inr u, w')"
      using less.prems rd p w1 by (subst (asm) decrypt_chunks.simps) (simp add: bindE_def)
    have "length (body_bytes rest) < length (body_bytes src)"
      using src fin(2) [OF False] enc_chunk_pos by simp
    from less.hyps [OF this step] obtain ps where ps: "chunked ps"
      "body_bytes rest = seal_list a dek prefix (next_counter counter) ps" "out w' = out w1 @ concat ps"
      by blast
    have "length p = enc_chunk" using len fin(2) [OF False] by simp
    then show ?thesis
      using ps src c o1 False by (intro exI [of _ "p # ps"]) (auto simp: chunked_def)
  qed
qed

subsection \<open>The whole envelope\<close>

definition gives_random :: "(nat \<Rightarrow> ('w, string) io) \<Rightarrow> ('w \<Rightarrow> string) \<Rightarrow> bool" where
  "gives_random rand out \<longleftrightarrow> (\<forall>n w. \<exists>bs w'. rand n w = (Inr bs, w') \<and> length bs = n \<and> out w' = out w)"

lemma split_header:
  assumes "length wn = enc_nonce" "length wd = enc_dek + enc_tag" "length pre = enc_prefix"
  defines "hdr \<equiv> enc_magic @ [enc_version] @ wn @ wd @ pre"
  shows "length hdr = enc_header_len" "take (length enc_magic) hdr = enc_magic"
    "hdr ! length enc_magic = enc_version"
    "take enc_nonce (drop (length enc_magic + 1) hdr) = wn"
    "take (enc_dek + enc_tag) (drop (length enc_magic + 1 + enc_nonce) hdr) = wd"
    "drop (length enc_magic + 1 + enc_nonce + enc_dek + enc_tag) hdr = pre"
proof -
  have d: "drop (length enc_magic + 1) hdr = wn @ wd @ pre" by (simp add: hdr_def)
  show "length hdr = enc_header_len" using assms by (simp add: hdr_def enc_header_len_def)
  show "take (length enc_magic) hdr = enc_magic" by (simp add: hdr_def)
  show "hdr ! length enc_magic = enc_version" by (simp add: hdr_def nth_append)
  show "take enc_nonce (drop (length enc_magic + 1) hdr) = wn" using assms by (simp add: d)
  have d2: "drop (length enc_magic + 1 + enc_nonce) hdr = wd @ pre"
    using assms d by (metis add.commute append_eq_conv_conj drop_drop)
  then show "take (enc_dek + enc_tag) (drop (length enc_magic + 1 + enc_nonce) hdr) = wd"
    using assms by simp
  have "length enc_magic + 1 + enc_nonce + enc_dek + enc_tag = (enc_dek + enc_tag) + (length enc_magic + 1 + enc_nonce)"
    by simp
  then show "drop (length enc_magic + 1 + enc_nonce + enc_dek + enc_tag) hdr = pre"
    using assms d2 by (metis append_eq_conv_conj drop_drop)
qed

lemma decrypt_header:
  assumes a: "aead_opens a" and k: "length kek = encryption_key_size"
    and len: "length dek = enc_dek" "length wn = enc_nonce" "length pre = enc_prefix"
  shows "decrypt a wr \<lparr>body_bytes = (enc_magic @ [enc_version] @ wn @ seal a kek wn dek @ pre) @ cs, body_err = None\<rparr> kek
    = decrypt_chunks a wr dek pre 0 \<lparr>body_bytes = cs, body_err = None\<rparr>"
proof -
  have wd: "length (seal a kek wn dek) = enc_dek + enc_tag"
    using a len by (simp add: aead_opens_def)
  define hdr where "hdr = enc_magic @ [enc_version] @ wn @ seal a kek wn dek @ pre"
  note h = split_header [OF len(2) wd len(3), folded hdr_def]
  have tk: "take enc_header_len (hdr @ cs) = hdr" "drop enc_header_len (hdr @ cs) = cs"
    using h(1) by simp_all
  have "open_box a kek wn (seal a kek wn dek) = Some dek" using a by (simp add: aead_opens_def)
  moreover have "aes_key dek" using len by (simp add: aes_key_def enc_dek_def)
  ultimately show ?thesis
    unfolding hdr_def [symmetric] decrypt_def Let_def by (simp add: k tk h h [simplified] del: One_nat_def)
qed

lemma decrypt_encrypt:
  assumes a: "aead_opens a" and wr: "appends wr out" and rand: "gives_random rand out"
    and kek: "length kek = encryption_key_size"
  shows "\<exists>c w1. encrypt a rand wr \<lparr>body_bytes = bs, body_err = None\<rparr> kek w = (Inr (), w1)
    \<and> out w1 = out w @ c
    \<and> (\<forall>v. \<exists>v'. decrypt a wr \<lparr>body_bytes = c, body_err = None\<rparr> kek v = (Inr (), v') \<and> out v' = out v @ bs)"
proof -
  obtain dek wa where dek: "rand enc_dek w = (Inr dek, wa)" "length dek = enc_dek" "out wa = out w"
    using rand unfolding gives_random_def by blast
  obtain wn wb where wn: "rand enc_nonce wa = (Inr wn, wb)" "length wn = enc_nonce" "out wb = out wa"
    using rand unfolding gives_random_def by blast
  obtain pre wc where pre: "rand enc_prefix wb = (Inr pre, wc)" "length pre = enc_prefix" "out wc = out wb"
    using rand unfolding gives_random_def by blast
  let ?hdr = "enc_magic @ [enc_version] @ wn @ seal a kek wn dek @ pre"
  obtain wd where wd: "wr ?hdr wc = (Inr (), wd)" "out wd = out wc @ ?hdr"
    using appends_write [OF wr] by blast
  obtain we where we: "encrypt_chunks a wr dek pre 0 \<lparr>body_bytes = bs, body_err = None\<rparr> wd = (Inr (), we)"
    "out we = out wd @ seal_all a dek pre 0 bs"
    using encrypt_chunks_seals [OF wr] by blast
  have "encrypt a rand wr \<lparr>body_bytes = bs, body_err = None\<rparr> kek w = (Inr (), we)"
    unfolding encrypt_def Let_def using kek dek(1) wn(1) pre(1) wd(1) we(1) by (simp add: bindE_def)
  moreover have "out we = out w @ (?hdr @ seal_all a dek pre 0 bs)"
    using we(2) wd(2) pre(3) wn(3) dek(3) by simp
  moreover have "\<exists>v'. decrypt a wr \<lparr>body_bytes = ?hdr @ seal_all a dek pre 0 bs, body_err = None\<rparr> kek v = (Inr (), v')
      \<and> out v' = out v @ bs" for v
    unfolding decrypt_header [OF a kek dek(2) wn(2) pre(2)] by (rule decrypt_seal_all [OF a wr])
  ultimately show ?thesis by blast
qed

section \<open>The text forms of a key\<close>

definition hex_decode :: "string \<Rightarrow> string option" where
  "hex_decode s = (if odd (length s) \<or> \<not> list_all is_hex_digit s then None
     else Some (map (\<lambda>i. char_of (16 * hex_val (s ! (2 * i)) + hex_val (s ! (2 * i + 1)))) [0..<length s div 2]))"

definition b64_val :: "char \<Rightarrow> nat option" where
  "b64_val c = (let n = byte c in
     if 65 \<le> n \<and> n \<le> 90 then Some (n - 65)
     else if 97 \<le> n \<and> n \<le> 122 then Some (n - 71)
     else if 48 \<le> n \<and> n \<le> 57 then Some (n + 4)
     else if c = CHR ''+'' then Some 62 else if c = CHR ''/'' then Some 63 else None)"

text \<open>
  base64.StdEncoding.DecodeString: line ends are passed over, four characters are three bytes,
  and the last four may end in one or two padding characters.
\<close>

fun b64_quads :: "string \<Rightarrow> string option" where
  "b64_quads [] = Some []"
| "b64_quads (a # b # c # d # r) =
     (case (b64_val a, b64_val b) of
        (Some x, Some y) \<Rightarrow>
          if r = [] \<and> d = CHR ''='' then
            (if c = CHR ''='' then Some [char_of ((x * 4 + y div 16) mod 256)]
             else case b64_val c of
               None \<Rightarrow> None
             | Some z \<Rightarrow> Some [char_of ((x * 4 + y div 16) mod 256), char_of ((y * 16 + z div 4) mod 256)])
          else (case (b64_val c, b64_val d) of
             (Some z, Some v) \<Rightarrow> map_option (\<lambda>t. [char_of ((x * 4 + y div 16) mod 256),
                 char_of ((y * 16 + z div 4) mod 256), char_of ((z * 64 + v) mod 256)] @ t) (b64_quads r)
           | _ \<Rightarrow> None)
      | _ \<Rightarrow> None)"
| "b64_quads _ = None"

definition b64_decode :: "string \<Rightarrow> string option" where
  "b64_decode s = b64_quads (filter (\<lambda>c. c \<noteq> CHR 0x0A \<and> c \<noteq> CHR 0x0D) s)"

text \<open>base64.StdEncoding.EncodeToString.\<close>

definition b64_char :: "nat \<Rightarrow> char" where
  "b64_char n = (if n < 26 then char_of (65 + n) else if n < 52 then char_of (71 + n)
     else if n < 62 then char_of (n - 4) else if n = 62 then CHR ''+'' else CHR ''/'')"

fun b64_encode :: "string \<Rightarrow> string" where
  "b64_encode [] = []"
| "b64_encode [a] = [b64_char (byte a div 4), b64_char (byte a mod 4 * 16), CHR ''='', CHR ''='']"
| "b64_encode [a, b] = [b64_char (byte a div 4), b64_char (byte a mod 4 * 16 + byte b div 16),
     b64_char (byte b mod 16 * 4), CHR ''='']"
| "b64_encode (a # b # c # r) = [b64_char (byte a div 4), b64_char (byte a mod 4 * 16 + byte b div 16),
     b64_char (byte b mod 16 * 4 + byte c div 64), b64_char (byte c mod 64)] @ b64_encode r"

lemma byte_char_of: "byte (char_of (n :: nat)) = n mod 256"
  by (simp add: byte_def)

lemma b64_val_char:
  assumes "n < 64" shows "b64_val (b64_char n) = Some n"
proof -
  consider "n < 26" | "26 \<le> n" "n < 52" | "52 \<le> n" "n < 62" | "n = 62" | "n = 63"
    using assms by linarith
  then show ?thesis
    by cases (simp_all add: b64_val_def b64_char_def Let_def byte_char_of, simp_all add: byte_def, linarith)
qed

lemma b64_val_plain: "b64_val c = Some n \<Longrightarrow> c \<noteq> CHR ''='' \<and> c \<noteq> CHR 0x0A \<and> c \<noteq> CHR 0x0D"
  by (auto simp: b64_val_def byte_def Let_def)

lemma b64_char_plain: "n < 64 \<Longrightarrow> b64_char n \<noteq> CHR ''='' \<and> b64_char n \<noteq> CHR 0x0A \<and> b64_char n \<noteq> CHR 0x0D"
  using b64_val_char b64_val_plain by blast

lemma byte_less: "byte c < 256"
  by (simp add: byte_def)

lemma byte_parts:
  "byte a div 4 < 64" "byte a mod 4 * 16 < 64" "byte a mod 4 * 16 + byte b div 16 < 64"
  "byte b mod 16 * 4 < 64" "byte b mod 16 * 4 + byte c div 64 < 64" "byte c mod 64 < 64"
  using byte_less [of a] byte_less [of b] byte_less [of c] by auto

lemma byte_tops: "byte b div 16 div 16 = 0" "byte c div 64 div 4 = 0"
  using byte_less [of b] byte_less [of c] by auto

lemma byte_joins:
  "(byte a div 4 * 4 + byte a mod 4 * 16 div 16) mod 256 = byte a"
  "(byte a div 4 * 4 + (byte a mod 4 * 16 + byte b div 16) div 16) mod 256 = byte a"
  "((byte a mod 4 * 16 + byte b div 16) * 16 + byte b mod 16 * 4 div 4) mod 256 = byte b"
  "((byte a mod 4 * 16 + byte b div 16) * 16 + (byte b mod 16 * 4 + byte c div 64) div 4) mod 256 = byte b"
  "((byte b mod 16 * 4 + byte c div 64) * 64 + byte c mod 64) mod 256 = byte c"
proof -
  have top: "(byte a mod 4 * 16 + byte b div 16) div 16 = byte a mod 4" for a b
    using byte_tops by simp
  have low: "(byte b mod 16 * 4 + byte c div 64) div 4 = byte b mod 16" for b c
    using byte_tops by simp
  have mid: "((x * 16 + byte b div 16) * 16 + byte b mod 16) mod 256 = byte b" for b x
  proof -
    have "(x * 16 + byte b div 16) * 16 + byte b mod 16 = x * 256 + byte b"
      using div_mult_mod_eq [of "byte b" 16] by (simp add: algebra_simps)
    then show ?thesis using byte_less [of b] by simp
  qed
  have last: "((x * 4 + byte c div 64) * 64 + byte c mod 64) mod 256 = byte c" for c x
  proof -
    have "(x * 4 + byte c div 64) * 64 + byte c mod 64 = x * 256 + byte c"
      using div_mult_mod_eq [of "byte c" 64] by (simp add: algebra_simps)
    then show ?thesis using byte_less [of c] by simp
  qed
  show "(byte a div 4 * 4 + byte a mod 4 * 16 div 16) mod 256 = byte a"
    "(byte a div 4 * 4 + (byte a mod 4 * 16 + byte b div 16) div 16) mod 256 = byte a"
    using byte_less [of a] by (simp_all only: top) simp_all
  show "((byte a mod 4 * 16 + byte b div 16) * 16 + byte b mod 16 * 4 div 4) mod 256 = byte b"
    using mid [of "byte a mod 4" b] by simp
  show "((byte a mod 4 * 16 + byte b div 16) * 16 + (byte b mod 16 * 4 + byte c div 64) div 4) mod 256 = byte b"
    unfolding low by (rule mid)
  show "((byte b mod 16 * 4 + byte c div 64) * 64 + byte c mod 64) mod 256 = byte c"
    by (rule last)
qed

lemma char_of_byte: "char_of (byte c) = c"
  by (simp add: byte_def)

lemma b64_quads_encode: "b64_quads (b64_encode s) = Some s"
proof (induction s rule: b64_encode.induct)
  case (4 a b c r)
  then show ?case
    using b64_char_plain [OF byte_parts(6) [of c]]
    by (simp only: b64_encode.simps append_Cons append_Nil b64_quads.simps b64_val_char [OF byte_parts(1)]
        b64_val_char [OF byte_parts(3)] b64_val_char [OF byte_parts(5)] b64_val_char [OF byte_parts(6)]
        option.case byte_joins char_of_byte prod.case if_False simp_thms option.map)
next
  case (2 a)
  show ?case by (simp only: b64_encode.simps b64_quads.simps b64_val_char [OF byte_parts(1)]
        b64_val_char [OF byte_parts(2)] option.case prod.case byte_joins char_of_byte simp_thms if_True)
next
  case (3 a b)
  show ?case using b64_char_plain [OF byte_parts(4) [of b]]
    by (simp only: b64_encode.simps b64_quads.simps b64_val_char [OF byte_parts(1)]
        b64_val_char [OF byte_parts(3)] b64_val_char [OF byte_parts(4)] option.case prod.case
        byte_joins char_of_byte simp_thms if_True if_False)
qed simp

lemma b64_encode_plain: "filter (\<lambda>c. c \<noteq> CHR 0x0A \<and> c \<noteq> CHR 0x0D) (b64_encode s) = b64_encode s"
  by (induction s rule: b64_encode.induct) (simp_all add: b64_char_plain byte_parts)

lemma b64_round_trip: "b64_decode (b64_encode s) = Some s"
  by (simp add: b64_decode_def b64_encode_plain b64_quads_encode)

definition sized_key :: "string option \<Rightarrow> string option" where
  "sized_key k = (case k of Some b \<Rightarrow> if length b = encryption_key_size then Some b else None | None \<Rightarrow> None)"

definition parse_encryption_key :: "string \<Rightarrow> goerr + string" where
  "parse_encryption_key data =
     (let s = trim_space data in
      case sized_key (if length s = 64 then hex_decode s else None) of
        Some k \<Rightarrow> Inr k
      | None \<Rightarrow> (case sized_key (b64_decode s) of
          Some k \<Rightarrow> Inr k
        | None \<Rightarrow> if length data = encryption_key_size then Inr data
            else Inl (new_error ''encryption key must be 32 bytes (64-char hex, base64, or raw)'')))"

lemma parse_encryption_key_size: "parse_encryption_key d = Inr k \<Longrightarrow> length k = encryption_key_size"
  by (auto simp: parse_encryption_key_def sized_key_def Let_def split: option.splits if_splits)

end
