(* ===== verification/Manifest.thy ===== *)
theory Manifest
  imports Refs Dest Crypto "HOL-Library.Countable"
begin

text \<open>
  src/internal/pipeline/manifest.go: the run-manifest, and its JSON document. The document is a
  tree: printing a tree as text, reading it back and writing an instant as RFC 3339 text are the
  parameters of a codec, while which fields the document has, which are left out when empty and
  how they are read back is modelled, as encoding/json does it for the struct tags of the source.
\<close>

section \<open>The data\<close>

definition manifest_schema :: string where "manifest_schema = ''gitdr.manifest/v5''"
definition status_success :: string where "status_success = ''success''"
definition status_failed :: string where "status_failed = ''failed''"
definition status_skipped :: string where "status_skipped = ''skipped''"

definition status_string :: "bool \<Rightarrow> string" where
  "status_string ok = (if ok then status_success else status_failed)"

lemma statuses_differ [simp]:
  "status_success \<noteq> status_failed" "status_success \<noteq> status_skipped" "status_failed \<noteq> status_skipped"
  "status_failed \<noteq> status_success" "status_skipped \<noteq> status_success" "status_skipped \<noteq> status_failed"
  by (simp_all add: status_success_def status_failed_def status_skipped_def)

record artifact_info =
  ai_kind :: string
  ai_key :: string
  ai_size :: int
  ai_sha256 :: string
  ai_until :: time

record repo_entry =
  en_slug :: string
  en_status :: string
  en_error :: string
  en_reason :: string
  en_artifacts :: "artifact_info list"
  en_refs :: "ref_entry list"
  en_copied_at :: "time option"

record tool_info =
  tool_name :: string
  tool_version :: string

record source_info =
  src_type :: string
  src_host :: string

record dest_info =
  di_type :: string
  di_bucket :: string
  di_worm_mode :: string
  di_worm_immutable :: bool
  di_worm_verdict :: string
  di_worm_details :: string
  di_retention_observed :: string

record manifest =
  m_schema :: string
  m_run_id :: string
  m_tool :: tool_info
  m_source :: source_info
  m_destination :: dest_info
  m_started :: time
  m_finished :: time
  m_status :: string
  m_repos :: "repo_entry list"

definition zero_entry :: repo_entry where
  "zero_entry = \<lparr>en_slug = [], en_status = [], en_error = [], en_reason = [], en_artifacts = [],
     en_refs = [], en_copied_at = None\<rparr>"

section \<open>The document\<close>

datatype json = JNull | JBool bool | JNum int | JStr string | JArr "json list" | JObj "(string \<times> json) list"

instance json :: countable
  by countable_datatype

record codec =
  json_print :: "json \<Rightarrow> string"
  json_parse :: "string \<Rightarrow> goerr + json"
  time_text :: "time \<Rightarrow> string"
  time_read :: "string \<Rightarrow> time option"

definition codec_ok :: "codec \<Rightarrow> bool" where
  "codec_ok c \<longleftrightarrow> (\<forall>j. json_parse c (json_print c j) = Inr j) \<and> (\<forall>t. time_read c (time_text c t) = Some t)"

text \<open>\<open>omitempty\<close> on a string and on a slice.\<close>

definition omit_str :: "string \<Rightarrow> string \<Rightarrow> (string \<times> json) list" where
  "omit_str k s = (if s = [] then [] else [(k, JStr s)])"

definition omit_arr :: "string \<Rightarrow> json list \<Rightarrow> (string \<times> json) list" where
  "omit_arr k js = (if js = [] then [] else [(k, JArr js)])"

definition enc_time :: "codec \<Rightarrow> time \<Rightarrow> json" where
  "enc_time c t = JStr (time_text c t)"

definition enc_artifact :: "codec \<Rightarrow> artifact_info \<Rightarrow> json" where
  "enc_artifact c a = JObj
     [(''kind'', JStr (ai_kind a)), (''key'', JStr (ai_key a)), (''size'', JNum (ai_size a)),
      (''sha256'', JStr (ai_sha256 a)), (''retainUntil'', enc_time c (ai_until a))]"

definition enc_ref :: "ref_entry \<Rightarrow> json" where
  "enc_ref r = JObj [(''name'', JStr (re_name r)), (''commit'', JStr (re_commit r))]"

definition enc_entry :: "codec \<Rightarrow> repo_entry \<Rightarrow> json" where
  "enc_entry c e = JObj
     ([(''slug'', JStr (en_slug e)), (''status'', JStr (en_status e))]
      @ omit_str ''error'' (en_error e) @ omit_str ''reason'' (en_reason e)
      @ omit_arr ''artifacts'' (map (enc_artifact c) (en_artifacts e))
      @ omit_arr ''refs'' (map enc_ref (en_refs e))
      @ (case en_copied_at e of None \<Rightarrow> [] | Some t \<Rightarrow> [(''copiedAt'', enc_time c t)]))"

definition enc_dest :: "dest_info \<Rightarrow> json" where
  "enc_dest d = JObj
     ([(''type'', JStr (di_type d)), (''bucket'', JStr (di_bucket d))]
      @ omit_str ''wormMode'' (di_worm_mode d) @ [(''wormImmutable'', JBool (di_worm_immutable d))]
      @ omit_str ''wormVerdict'' (di_worm_verdict d) @ omit_str ''wormDetails'' (di_worm_details d)
      @ omit_str ''retentionObserved'' (di_retention_observed d))"

text \<open>A nil slice without omitempty is written as null.\<close>

definition enc_manifest :: "codec \<Rightarrow> manifest \<Rightarrow> json" where
  "enc_manifest c m = JObj
     [(''schema'', JStr (m_schema m)), (''runId'', JStr (m_run_id m)),
      (''tool'', JObj [(''name'', JStr (tool_name (m_tool m))), (''version'', JStr (tool_version (m_tool m)))]),
      (''source'', JObj [(''type'', JStr (src_type (m_source m))), (''host'', JStr (src_host (m_source m)))]),
      (''destination'', enc_dest (m_destination m)),
      (''startedAt'', enc_time c (m_started m)), (''finishedAt'', enc_time c (m_finished m)),
      (''status'', JStr (m_status m)),
      (''repos'', if m_repos m = [] then JNull else JArr (map (enc_entry c) (m_repos m)))]"

definition canonical :: "codec \<Rightarrow> manifest \<Rightarrow> string" where
  "canonical c m = json_print c (enc_manifest c m)"

subsection \<open>Reading a document back\<close>

text \<open>
  How encoding/json fills a struct: each member of the object in turn, its key matched to a field
  without regard to case, a member no field matches passed over, null leaving a field as it is
  (and making a slice or a pointer nil), and a value of another type an error.
\<close>

definition type_error :: "string \<Rightarrow> goerr" where
  "type_error what = new_error (''json: cannot unmarshal into Go value of type '' @ what)"

definition get_str :: "json \<Rightarrow> string \<Rightarrow> goerr + string" where
  "get_str j old = (case j of JStr s \<Rightarrow> Inr s | JNull \<Rightarrow> Inr old | _ \<Rightarrow> Inl (type_error ''string''))"

definition get_num :: "json \<Rightarrow> int \<Rightarrow> goerr + int" where
  "get_num j old = (case j of JNum n \<Rightarrow> if in_int64 n then Inr n else Inl (type_error ''int64'')
     | JNull \<Rightarrow> Inr old | _ \<Rightarrow> Inl (type_error ''int64''))"

definition get_bool :: "json \<Rightarrow> bool \<Rightarrow> goerr + bool" where
  "get_bool j old = (case j of JBool b \<Rightarrow> Inr b | JNull \<Rightarrow> Inr old | _ \<Rightarrow> Inl (type_error ''bool''))"

definition get_time :: "codec \<Rightarrow> json \<Rightarrow> time \<Rightarrow> goerr + time" where
  "get_time c j old = (case j of
       JStr s \<Rightarrow> (case time_read c s of Some t \<Rightarrow> Inr t | None \<Rightarrow> Inl (new_error (''parsing time '' @ s)))
     | JNull \<Rightarrow> Inr old
     | _ \<Rightarrow> Inl (new_error ''Time.UnmarshalJSON: input is not a JSON string''))"

fun fold_sum :: "('k \<Rightarrow> 'a \<Rightarrow> goerr + 'a) \<Rightarrow> 'k list \<Rightarrow> 'a \<Rightarrow> goerr + 'a" where
  "fold_sum f [] a = Inr a"
| "fold_sum f (k # ks) a = (case f k a of Inl e \<Rightarrow> Inl e | Inr b \<Rightarrow> fold_sum f ks b)"

definition get_obj :: "(string \<times> json \<Rightarrow> 'a \<Rightarrow> goerr + 'a) \<Rightarrow> json \<Rightarrow> 'a \<Rightarrow> goerr + 'a" where
  "get_obj f j old = (case j of JObj kvs \<Rightarrow> fold_sum f kvs old | JNull \<Rightarrow> Inr old | _ \<Rightarrow> Inl (type_error ''struct''))"

fun get_all :: "(json \<Rightarrow> goerr + 'a) \<Rightarrow> json list \<Rightarrow> goerr + 'a list" where
  "get_all f [] = Inr []"
| "get_all f (j # js) = (case f j of Inl e \<Rightarrow> Inl e | Inr x \<Rightarrow> (case get_all f js of Inl e \<Rightarrow> Inl e | Inr xs \<Rightarrow> Inr (x # xs)))"

definition get_arr :: "(json \<Rightarrow> goerr + 'a) \<Rightarrow> json \<Rightarrow> goerr + 'a list" where
  "get_arr f j = (case j of JArr js \<Rightarrow> get_all f js | JNull \<Rightarrow> Inr [] | _ \<Rightarrow> Inl (type_error ''slice''))"

definition set_artifact :: "codec \<Rightarrow> string \<times> json \<Rightarrow> artifact_info \<Rightarrow> goerr + artifact_info" where
  "set_artifact c kv a = (case kv of (k, v) \<Rightarrow>
     if equal_fold k ''kind'' then map_sum id (\<lambda>s. a\<lparr>ai_kind := s\<rparr>) (get_str v (ai_kind a))
     else if equal_fold k ''key'' then map_sum id (\<lambda>s. a\<lparr>ai_key := s\<rparr>) (get_str v (ai_key a))
     else if equal_fold k ''size'' then map_sum id (\<lambda>n. a\<lparr>ai_size := n\<rparr>) (get_num v (ai_size a))
     else if equal_fold k ''sha256'' then map_sum id (\<lambda>s. a\<lparr>ai_sha256 := s\<rparr>) (get_str v (ai_sha256 a))
     else if equal_fold k ''retainUntil'' then map_sum id (\<lambda>t. a\<lparr>ai_until := t\<rparr>) (get_time c v (ai_until a))
     else Inr a)"

definition dec_artifact :: "codec \<Rightarrow> json \<Rightarrow> goerr + artifact_info" where
  "dec_artifact c j = get_obj (set_artifact c) j
     \<lparr>ai_kind = [], ai_key = [], ai_size = 0, ai_sha256 = [], ai_until = time_zero\<rparr>"

definition set_ref :: "string \<times> json \<Rightarrow> ref_entry \<Rightarrow> goerr + ref_entry" where
  "set_ref kv r = (case kv of (k, v) \<Rightarrow>
     if equal_fold k ''name'' then map_sum id (\<lambda>s. r\<lparr>re_name := s\<rparr>) (get_str v (re_name r))
     else if equal_fold k ''commit'' then map_sum id (\<lambda>s. r\<lparr>re_commit := s\<rparr>) (get_str v (re_commit r))
     else Inr r)"

definition dec_ref :: "json \<Rightarrow> goerr + ref_entry" where
  "dec_ref j = get_obj set_ref j \<lparr>re_name = [], re_commit = []\<rparr>"

definition set_entry :: "codec \<Rightarrow> string \<times> json \<Rightarrow> repo_entry \<Rightarrow> goerr + repo_entry" where
  "set_entry c kv e = (case kv of (k, v) \<Rightarrow>
     if equal_fold k ''slug'' then map_sum id (\<lambda>s. e\<lparr>en_slug := s\<rparr>) (get_str v (en_slug e))
     else if equal_fold k ''status'' then map_sum id (\<lambda>s. e\<lparr>en_status := s\<rparr>) (get_str v (en_status e))
     else if equal_fold k ''error'' then map_sum id (\<lambda>s. e\<lparr>en_error := s\<rparr>) (get_str v (en_error e))
     else if equal_fold k ''reason'' then map_sum id (\<lambda>s. e\<lparr>en_reason := s\<rparr>) (get_str v (en_reason e))
     else if equal_fold k ''artifacts'' then map_sum id (\<lambda>s. e\<lparr>en_artifacts := s\<rparr>) (get_arr (dec_artifact c) v)
     else if equal_fold k ''refs'' then map_sum id (\<lambda>s. e\<lparr>en_refs := s\<rparr>) (get_arr dec_ref v)
     else if equal_fold k ''copiedAt''
     then (if v = JNull then Inr (e\<lparr>en_copied_at := None\<rparr>)
           else map_sum id (\<lambda>t. e\<lparr>en_copied_at := Some t\<rparr>) (get_time c v time_zero))
     else Inr e)"

definition dec_entry :: "codec \<Rightarrow> json \<Rightarrow> goerr + repo_entry" where
  "dec_entry c j = get_obj (set_entry c) j zero_entry"

text \<open>Keys that differ without regard to case, for the fields of one struct.\<close>

lemma key_folds:
  "\<not> equal_fold ''key'' ''kind''" "\<not> equal_fold ''size'' ''kind''" "\<not> equal_fold ''size'' ''key''"
  "\<not> equal_fold ''sha256'' ''kind''" "\<not> equal_fold ''sha256'' ''key''" "\<not> equal_fold ''sha256'' ''size''"
  "\<not> equal_fold ''retainUntil'' ''kind''" "\<not> equal_fold ''retainUntil'' ''key''"
  "\<not> equal_fold ''retainUntil'' ''size''" "\<not> equal_fold ''retainUntil'' ''sha256''"
  "\<not> equal_fold ''commit'' ''name''" "\<not> equal_fold ''status'' ''slug''"
  "\<not> equal_fold ''error'' ''slug''" "\<not> equal_fold ''error'' ''status''"
  "\<not> equal_fold ''reason'' ''slug''" "\<not> equal_fold ''reason'' ''status''" "\<not> equal_fold ''reason'' ''error''"
  "\<not> equal_fold ''artifacts'' ''slug''" "\<not> equal_fold ''artifacts'' ''status''"
  "\<not> equal_fold ''artifacts'' ''error''" "\<not> equal_fold ''artifacts'' ''reason''"
  "\<not> equal_fold ''refs'' ''slug''" "\<not> equal_fold ''refs'' ''status''" "\<not> equal_fold ''refs'' ''error''"
  "\<not> equal_fold ''refs'' ''reason''" "\<not> equal_fold ''refs'' ''artifacts''"
  "\<not> equal_fold ''copiedAt'' ''slug''" "\<not> equal_fold ''copiedAt'' ''status''"
  "\<not> equal_fold ''copiedAt'' ''error''" "\<not> equal_fold ''copiedAt'' ''reason''"
  "\<not> equal_fold ''copiedAt'' ''artifacts''" "\<not> equal_fold ''copiedAt'' ''refs''"
  by ((rule equal_fold_length, simp; fail) | code_simp)+

lemma get_time_enc: "codec_ok c \<Longrightarrow> get_time c (enc_time c t) old = Inr t"
  by (simp add: get_time_def enc_time_def codec_ok_def)

lemma get_str_JStr [simp]: "get_str (JStr s) old = Inr s"
  by (simp add: get_str_def)

lemma get_all_map: "\<forall>x \<in> set xs. f (g x) = Inr x \<Longrightarrow> get_all f (map g xs) = Inr xs"
  by (induction xs) simp_all

definition artifact_ok :: "artifact_info \<Rightarrow> bool" where
  "artifact_ok a \<longleftrightarrow> in_int64 (ai_size a)"

lemma dec_enc_artifact: "codec_ok c \<Longrightarrow> artifact_ok a \<Longrightarrow> dec_artifact c (enc_artifact c a) = Inr a"
  by (simp add: dec_artifact_def enc_artifact_def get_obj_def set_artifact_def key_folds get_num_def
      artifact_ok_def get_time_enc)

lemma dec_enc_ref: "dec_ref (enc_ref r) = Inr r"
  by (simp add: dec_ref_def enc_ref_def get_obj_def set_ref_def key_folds)

definition entry_ok :: "repo_entry \<Rightarrow> bool" where
  "entry_ok e \<longleftrightarrow> (\<forall>a \<in> set (en_artifacts e). artifact_ok a)"

lemma fold_sum_append:
  "fold_sum f (xs @ ys) a = (case fold_sum f xs a of Inl e \<Rightarrow> Inl e | Inr b \<Rightarrow> fold_sum f ys b)"
  by (induction xs arbitrary: a) (simp_all split: sum.splits)

lemma enc_time_not_null [simp]: "enc_time c t \<noteq> JNull"
  by (simp add: enc_time_def)

lemma set_entry_omit:
  "fold_sum (set_entry c) (omit_str ''error'' s) e = Inr (if s = [] then e else e\<lparr>en_error := s\<rparr>)"
  "fold_sum (set_entry c) (omit_str ''reason'' s) e = Inr (if s = [] then e else e\<lparr>en_reason := s\<rparr>)"
  by (simp_all add: omit_str_def set_entry_def key_folds)

lemma set_entry_arrays:
  "codec_ok c \<Longrightarrow> \<forall>a \<in> set as. artifact_ok a \<Longrightarrow>
   fold_sum (set_entry c) (omit_arr ''artifacts'' (map (enc_artifact c) as)) e
     = Inr (if as = [] then e else e\<lparr>en_artifacts := as\<rparr>)"
  "fold_sum (set_entry c) (omit_arr ''refs'' (map enc_ref rs)) e = Inr (if rs = [] then e else e\<lparr>en_refs := rs\<rparr>)"
  by (simp_all add: omit_arr_def set_entry_def key_folds get_arr_def get_all_map dec_enc_artifact dec_enc_ref)

lemma dec_enc_entry: "codec_ok c \<Longrightarrow> entry_ok e \<Longrightarrow> dec_entry c (enc_entry c e) = Inr e"
proof -
  assume c: "codec_ok c" and e: "entry_ok e"
  have base: "fold_sum (set_entry c) [(''slug'', JStr (en_slug e)), (''status'', JStr (en_status e))] zero_entry
      = Inr (zero_entry\<lparr>en_slug := en_slug e, en_status := en_status e\<rparr>)"
    by (simp add: set_entry_def key_folds)
  have copied: "set_entry c (''copiedAt'', enc_time c t) x = Inr (x\<lparr>en_copied_at := Some t\<rparr>)" for t x
    by (simp add: set_entry_def key_folds get_time_enc c)
  show ?thesis
    using e unfolding dec_entry_def enc_entry_def get_obj_def json.case fold_sum_append base sum.case set_entry_omit entry_ok_def
    by (cases e) (simp add: set_entry_arrays c copied zero_entry_def split: option.split)
qed

text \<open>The whole manifest.\<close>

definition set_tool :: "string \<times> json \<Rightarrow> tool_info \<Rightarrow> goerr + tool_info" where
  "set_tool kv t = (case kv of (k, v) \<Rightarrow>
     if equal_fold k ''name'' then map_sum id (\<lambda>s. t\<lparr>tool_name := s\<rparr>) (get_str v (tool_name t))
     else if equal_fold k ''version'' then map_sum id (\<lambda>s. t\<lparr>tool_version := s\<rparr>) (get_str v (tool_version t))
     else Inr t)"

definition set_source :: "string \<times> json \<Rightarrow> source_info \<Rightarrow> goerr + source_info" where
  "set_source kv t = (case kv of (k, v) \<Rightarrow>
     if equal_fold k ''type'' then map_sum id (\<lambda>s. t\<lparr>src_type := s\<rparr>) (get_str v (src_type t))
     else if equal_fold k ''host'' then map_sum id (\<lambda>s. t\<lparr>src_host := s\<rparr>) (get_str v (src_host t))
     else Inr t)"

definition set_dest :: "string \<times> json \<Rightarrow> dest_info \<Rightarrow> goerr + dest_info" where
  "set_dest kv d = (case kv of (k, v) \<Rightarrow>
     if equal_fold k ''type'' then map_sum id (\<lambda>s. d\<lparr>di_type := s\<rparr>) (get_str v (di_type d))
     else if equal_fold k ''bucket'' then map_sum id (\<lambda>s. d\<lparr>di_bucket := s\<rparr>) (get_str v (di_bucket d))
     else if equal_fold k ''wormMode'' then map_sum id (\<lambda>s. d\<lparr>di_worm_mode := s\<rparr>) (get_str v (di_worm_mode d))
     else if equal_fold k ''wormImmutable'' then map_sum id (\<lambda>b. d\<lparr>di_worm_immutable := b\<rparr>) (get_bool v (di_worm_immutable d))
     else if equal_fold k ''wormVerdict'' then map_sum id (\<lambda>s. d\<lparr>di_worm_verdict := s\<rparr>) (get_str v (di_worm_verdict d))
     else if equal_fold k ''wormDetails'' then map_sum id (\<lambda>s. d\<lparr>di_worm_details := s\<rparr>) (get_str v (di_worm_details d))
     else if equal_fold k ''retentionObserved''
     then map_sum id (\<lambda>s. d\<lparr>di_retention_observed := s\<rparr>) (get_str v (di_retention_observed d))
     else Inr d)"

definition set_manifest :: "codec \<Rightarrow> string \<times> json \<Rightarrow> manifest \<Rightarrow> goerr + manifest" where
  "set_manifest c kv m = (case kv of (k, v) \<Rightarrow>
     if equal_fold k ''schema'' then map_sum id (\<lambda>s. m\<lparr>m_schema := s\<rparr>) (get_str v (m_schema m))
     else if equal_fold k ''runId'' then map_sum id (\<lambda>s. m\<lparr>m_run_id := s\<rparr>) (get_str v (m_run_id m))
     else if equal_fold k ''tool'' then map_sum id (\<lambda>t. m\<lparr>m_tool := t\<rparr>) (get_obj set_tool v (m_tool m))
     else if equal_fold k ''source'' then map_sum id (\<lambda>t. m\<lparr>m_source := t\<rparr>) (get_obj set_source v (m_source m))
     else if equal_fold k ''destination'' then map_sum id (\<lambda>d. m\<lparr>m_destination := d\<rparr>) (get_obj set_dest v (m_destination m))
     else if equal_fold k ''startedAt'' then map_sum id (\<lambda>t. m\<lparr>m_started := t\<rparr>) (get_time c v (m_started m))
     else if equal_fold k ''finishedAt'' then map_sum id (\<lambda>t. m\<lparr>m_finished := t\<rparr>) (get_time c v (m_finished m))
     else if equal_fold k ''status'' then map_sum id (\<lambda>s. m\<lparr>m_status := s\<rparr>) (get_str v (m_status m))
     else if equal_fold k ''repos'' then map_sum id (\<lambda>es. m\<lparr>m_repos := es\<rparr>) (get_arr (dec_entry c) v)
     else Inr m)"

definition zero_manifest :: manifest where
  "zero_manifest = \<lparr>m_schema = [], m_run_id = [], m_tool = \<lparr>tool_name = [], tool_version = []\<rparr>,
     m_source = \<lparr>src_type = [], src_host = []\<rparr>,
     m_destination = \<lparr>di_type = [], di_bucket = [], di_worm_mode = [], di_worm_immutable = False,
       di_worm_verdict = [], di_worm_details = [], di_retention_observed = []\<rparr>,
     m_started = time_zero, m_finished = time_zero, m_status = [], m_repos = []\<rparr>"

definition dec_manifest :: "codec \<Rightarrow> json \<Rightarrow> goerr + manifest" where
  "dec_manifest c j = get_obj (set_manifest c) j zero_manifest"

definition unmarshal_manifest :: "codec \<Rightarrow> string \<Rightarrow> goerr + manifest" where
  "unmarshal_manifest c raw = (case json_parse c raw of Inl e \<Rightarrow> Inl e | Inr j \<Rightarrow> dec_manifest c j)"

lemma manifest_folds:
  "\<not> equal_fold ''version'' ''name''" "\<not> equal_fold ''host'' ''type''" "\<not> equal_fold ''bucket'' ''type''"
  "\<not> equal_fold ''wormMode'' ''type''" "\<not> equal_fold ''wormMode'' ''bucket''"
  "\<not> equal_fold ''wormImmutable'' ''type''" "\<not> equal_fold ''wormImmutable'' ''bucket''" "\<not> equal_fold ''wormImmutable'' ''wormMode''"
  "\<not> equal_fold ''wormVerdict'' ''type''" "\<not> equal_fold ''wormVerdict'' ''bucket''"
  "\<not> equal_fold ''wormVerdict'' ''wormMode''" "\<not> equal_fold ''wormVerdict'' ''wormImmutable''"
  "\<not> equal_fold ''wormDetails'' ''type''" "\<not> equal_fold ''wormDetails'' ''bucket''"
  "\<not> equal_fold ''wormDetails'' ''wormMode''" "\<not> equal_fold ''wormDetails'' ''wormImmutable''" "\<not> equal_fold ''wormDetails'' ''wormVerdict''"
  "\<not> equal_fold ''retentionObserved'' ''type''" "\<not> equal_fold ''retentionObserved'' ''bucket''"
  "\<not> equal_fold ''retentionObserved'' ''wormMode''" "\<not> equal_fold ''retentionObserved'' ''wormImmutable''"
  "\<not> equal_fold ''retentionObserved'' ''wormVerdict''" "\<not> equal_fold ''retentionObserved'' ''wormDetails''"
  by ((rule equal_fold_length, simp; fail) | code_simp)+

lemma member_folds:
  "\<not> equal_fold ''runId'' ''schema''" "\<not> equal_fold ''tool'' ''schema''" "\<not> equal_fold ''tool'' ''runId''"
  "\<not> equal_fold ''source'' ''schema''" "\<not> equal_fold ''source'' ''runId''" "\<not> equal_fold ''source'' ''tool''"
  "\<not> equal_fold ''destination'' ''schema''" "\<not> equal_fold ''destination'' ''runId''" "\<not> equal_fold ''destination'' ''tool''" "\<not> equal_fold ''destination'' ''source''"
  "\<not> equal_fold ''startedAt'' ''schema''" "\<not> equal_fold ''startedAt'' ''runId''" "\<not> equal_fold ''startedAt'' ''tool''" "\<not> equal_fold ''startedAt'' ''source''" "\<not> equal_fold ''startedAt'' ''destination''"
  "\<not> equal_fold ''finishedAt'' ''schema''" "\<not> equal_fold ''finishedAt'' ''runId''" "\<not> equal_fold ''finishedAt'' ''tool''" "\<not> equal_fold ''finishedAt'' ''source''" "\<not> equal_fold ''finishedAt'' ''destination''" "\<not> equal_fold ''finishedAt'' ''startedAt''"
  "\<not> equal_fold ''status'' ''schema''" "\<not> equal_fold ''status'' ''runId''" "\<not> equal_fold ''status'' ''tool''" "\<not> equal_fold ''status'' ''source''" "\<not> equal_fold ''status'' ''destination''" "\<not> equal_fold ''status'' ''startedAt''" "\<not> equal_fold ''status'' ''finishedAt''"
  "\<not> equal_fold ''repos'' ''schema''" "\<not> equal_fold ''repos'' ''runId''" "\<not> equal_fold ''repos'' ''tool''" "\<not> equal_fold ''repos'' ''source''" "\<not> equal_fold ''repos'' ''destination''" "\<not> equal_fold ''repos'' ''startedAt''" "\<not> equal_fold ''repos'' ''finishedAt''" "\<not> equal_fold ''repos'' ''status''"
  by ((rule equal_fold_length, simp; fail) | code_simp)+

definition manifest_ok :: "manifest \<Rightarrow> bool" where
  "manifest_ok m \<longleftrightarrow> (\<forall>e \<in> set (m_repos m). entry_ok e)"

lemma set_dest_omit:
  "fold_sum set_dest (omit_str ''wormMode'' s) d = Inr (if s = [] then d else d\<lparr>di_worm_mode := s\<rparr>)"
  "fold_sum set_dest (omit_str ''wormVerdict'' s) d = Inr (if s = [] then d else d\<lparr>di_worm_verdict := s\<rparr>)"
  "fold_sum set_dest (omit_str ''wormDetails'' s) d = Inr (if s = [] then d else d\<lparr>di_worm_details := s\<rparr>)"
  "fold_sum set_dest (omit_str ''retentionObserved'' s) d = Inr (if s = [] then d else d\<lparr>di_retention_observed := s\<rparr>)"
  by (simp_all add: omit_str_def set_dest_def manifest_folds)

lemma set_dest_plain:
  "set_dest (''type'', JStr s) d = Inr (d\<lparr>di_type := s\<rparr>)"
  "set_dest (''bucket'', JStr s) d = Inr (d\<lparr>di_bucket := s\<rparr>)"
  "set_dest (''wormImmutable'', JBool b) d = Inr (d\<lparr>di_worm_immutable := b\<rparr>)"
  by (simp_all add: set_dest_def manifest_folds get_bool_def)

lemma dec_enc_dest: "get_obj set_dest (enc_dest d) (m_destination zero_manifest) = Inr d"
  unfolding enc_dest_def get_obj_def json.case
  by (cases d) (simp add: fold_sum_append set_dest_omit set_dest_plain zero_manifest_def)

lemma set_manifest_members:
  "set_manifest c (''schema'', JStr s) m = Inr (m\<lparr>m_schema := s\<rparr>)"
  "set_manifest c (''runId'', JStr s) m = Inr (m\<lparr>m_run_id := s\<rparr>)"
  "set_manifest c (''tool'', j) m = map_sum id (\<lambda>t. m\<lparr>m_tool := t\<rparr>) (get_obj set_tool j (m_tool m))"
  "set_manifest c (''source'', j) m = map_sum id (\<lambda>t. m\<lparr>m_source := t\<rparr>) (get_obj set_source j (m_source m))"
  "set_manifest c (''destination'', j) m = map_sum id (\<lambda>t. m\<lparr>m_destination := t\<rparr>) (get_obj set_dest j (m_destination m))"
  "codec_ok c \<Longrightarrow> set_manifest c (''startedAt'', enc_time c t) m = Inr (m\<lparr>m_started := t\<rparr>)"
  "codec_ok c \<Longrightarrow> set_manifest c (''finishedAt'', enc_time c t) m = Inr (m\<lparr>m_finished := t\<rparr>)"
  "set_manifest c (''status'', JStr s) m = Inr (m\<lparr>m_status := s\<rparr>)"
  "set_manifest c (''repos'', j) m = map_sum id (\<lambda>es. m\<lparr>m_repos := es\<rparr>) (get_arr (dec_entry c) j)"
  by (simp_all add: set_manifest_def member_folds get_time_enc)

lemma dec_enc_manifest: "codec_ok c \<Longrightarrow> manifest_ok m \<Longrightarrow> dec_manifest c (enc_manifest c m) = Inr m"
proof -
  assume c: "codec_ok c" and m: "manifest_ok m"
  have repos: "get_arr (dec_entry c) (if m_repos m = [] then JNull else JArr (map (enc_entry c) (m_repos m)))
      = Inr (m_repos m)"
    using m by (auto simp: get_arr_def manifest_ok_def intro!: get_all_map dec_enc_entry [OF c])
  have tool: "get_obj set_tool (JObj [(''name'', JStr (tool_name t)), (''version'', JStr (tool_version t))]) x = Inr t" for t x
    by (cases t) (simp add: get_obj_def set_tool_def manifest_folds)
  have source: "get_obj set_source (JObj [(''type'', JStr (src_type t)), (''host'', JStr (src_host t))]) x = Inr t" for t x
    by (cases t) (simp add: get_obj_def set_source_def manifest_folds)
  show ?thesis
    unfolding dec_manifest_def enc_manifest_def
    by (subst get_obj_def)
      (simp add: set_manifest_members c repos tool source dec_enc_dest [unfolded zero_manifest_def, simplified] zero_manifest_def)
qed

lemma unmarshal_canonical: "codec_ok c \<Longrightarrow> manifest_ok m \<Longrightarrow> unmarshal_manifest c (canonical c m) = Inr m"
  by (simp add: unmarshal_manifest_def canonical_def dec_enc_manifest) (simp add: codec_ok_def dec_enc_manifest)

end
