(* ===== verification/Source.thy ===== *)
theory Source
  imports Prelude Go_Time
begin

text \<open>
  src/internal/source/source.go: what the pipeline knows of a forge. A source is a record of
  read-only effects; its Git credential is optional, as the optional interface GitAuther is.
\<close>

definition err_transient :: goerr where
  "err_transient = new_error ''transient failure''"

text \<open>The error keeps its message and unwraps to itself and to ErrTransient.\<close>

definition mark_transient :: "goerr option \<Rightarrow> goerr option" where
  "mark_transient e = (case e of None \<Rightarrow> None | Some x \<Rightarrow> Some (GoErr Plain (err_text x) [x, err_transient]))"

lemma transient_marked: "mark_transient (Some e) = Some t \<Longrightarrow> errors_is t err_transient \<and> errors_is t e \<and> err_text t = err_text e"
  by (auto simp: mark_transient_def)

record repo =
  rp_host :: string
  rp_owner :: string
  rp_name :: string
  rp_clone_url :: string
  rp_default_branch :: string
  rp_archived :: bool
  rp_size_kb :: int

definition slug :: "repo \<Rightarrow> string" where
  "slug r = rp_owner r @ ''/'' @ rp_name r"

record repo_filter =
  rf_include :: "string list"
  rf_exclude :: "string list"

record 'w source =
  list_repos :: "repo_filter \<Rightarrow> ('w, repo list) io"
  clone_url :: "repo \<Rightarrow> ('w, string) io"
  fetch_metadata :: "repo \<Rightarrow> ('w, string) io"
  git_auther :: "('w, string) io option"

text \<open>gitAuthHeader of src/internal/pipeline/backup.go.\<close>

definition git_auth_header :: "'w source \<Rightarrow> ('w, string) io" where
  "git_auth_header s = (case git_auther s of Some ga \<Rightarrow> ga | None \<Rightarrow> okE [])"

end
