(* ===== verification/Manifests.thy ===== *)
theory Manifests
  imports Manifest Source
begin

text \<open>
  src/internal/pipeline/manifests.go: where a run files its manifest, which of the stored
  manifests is the newest, and the one loader every reader goes through, which believes a
  manifest only when its signature holds over the bytes it read and its name is its own finish.
\<close>

section \<open>Where a manifest is filed\<close>

definition manifest_suffix :: string where "manifest_suffix = ''.manifest.json''"
definition manifest_schema_prefix :: string where "manifest_schema_prefix = ''gitdr.manifest/''"
definition max_signature_bytes :: int where "max_signature_bytes = 65536"
definition max_manifest_bytes :: int where "max_manifest_bytes = 134217728"
definition max_previous_manifests :: nat where "max_previous_manifests = 10"

text \<open>\<open>^[0-9]{8}T[0-9]{6}Z\.manifest\.json$\<close>\<close>

definition manifest_name :: "string \<Rightarrow> bool" where
  "manifest_name s \<longleftrightarrow> has_suffix manifest_suffix s
     \<and> (let st = take (length s - length manifest_suffix) s in
        length st = 16 \<and> st ! 8 = CHR ''T'' \<and> st ! 15 = CHR ''Z''
        \<and> list_all is_digit (take 8 st) \<and> list_all is_digit (take 6 (drop 9 st)))"

text \<open>How many leading segments two lists share, and the namespace the runs of a list share.\<close>

fun common :: "string list \<Rightarrow> string list \<Rightarrow> string list" where
  "common (x # xs) (y # ys) = (if x = y then x # common xs ys else [])"
| "common _ _ = []"

definition slash :: char where "slash = CHR ''/''"

definition manifest_anchor :: "repo list \<Rightarrow> string" where
  "manifest_anchor repos = (case repos of [] \<Rightarrow> []
     | r # rs \<Rightarrow> join_with ''/'' (foldl (\<lambda>shared q. common shared (split_on slash (rp_owner q)))
                  (split_on slash (rp_owner r)) rs))"

definition manifest_dir :: "repo list \<Rightarrow> string" where
  "manifest_dir repos = (case repos of [] \<Rightarrow> []
     | r # rs \<Rightarrow> path_join [rp_host r, manifest_anchor repos, ''manifests''])"

lemma cut_last_shorter: "cut_last c s = Some (a, b) \<Longrightarrow> length a < length s"
  by (simp add: cut_last_Some)

function namespace_dirs :: "string \<Rightarrow> string \<Rightarrow> string list" where
  "namespace_dirs host ns =
     (if ns = [] then []
      else path_join [host, ns, ''manifests''] #
        (case cut_last slash ns of None \<Rightarrow> [] | Some (a, b) \<Rightarrow> namespace_dirs host a))"
  by pat_completeness auto
termination
  by (relation "measure (\<lambda>(host, ns). length ns)") (auto dest: cut_last_shorter)

declare namespace_dirs.simps [simp del]

definition manifest_search_dirs :: "string \<Rightarrow> string \<Rightarrow> string list" where
  "manifest_search_dirs host owner = namespace_dirs host owner @ [path_join [host, ''manifests'']]"

definition filed_manifests :: "object list \<Rightarrow> string \<Rightarrow> string list" where
  "filed_manifests objs dir = rev (sort (filter (\<lambda>k. path_dir k = dir \<and> manifest_name (path_base k)) (map obj_key objs)))"

definition stamp_of :: "string \<Rightarrow> time option" where
  "stamp_of key = parse_stamp (trim_suffix manifest_suffix (path_base key))"

definition newest_manifest :: "'w destination \<Rightarrow> string \<Rightarrow> time \<Rightarrow> ('w, string) io" where
  "newest_manifest d dir now =
     bindE (mapErrE (wrap_error (''list manifests under '' @ dir @ ''/'')) (list_objects d (dir @ ''/''))) (\<lambda>objs.
       okE (case List.find (\<lambda>key. case stamp_of key of None \<Rightarrow> False | Some at \<Rightarrow> at \<le> now) (filed_manifests objs dir) of
              None \<Rightarrow> [] | Some key \<Rightarrow> key))"

subsection \<open>A restore looks where a run files\<close>

lemma common_prefix: "\<exists>r. xs = common xs ys @ r" "\<exists>r. ys = common xs ys @ r"
  by (induction xs ys rule: common.induct) auto

definition is_prefix :: "'a list \<Rightarrow> 'a list \<Rightarrow> bool" where
  "is_prefix p s \<longleftrightarrow> (\<exists>r. s = p @ r)"

lemma fold_common_prefix:
  "is_prefix (foldl (\<lambda>shared q. common shared (f q)) s qs) s
    \<and> (\<forall>q \<in> set qs. is_prefix (foldl (\<lambda>shared q. common shared (f q)) s qs) (f q))"
proof (induction qs arbitrary: s)
  case Nil
  then show ?case by (simp add: is_prefix_def)
next
  case (Cons q qs)
  have t: "is_prefix a b \<Longrightarrow> is_prefix b c \<Longrightarrow> is_prefix a c" for a b c :: "'b list"
    by (auto simp: is_prefix_def)
  have p: "is_prefix (common s (f q)) s" "is_prefix (common s (f q)) (f q)"
    using common_prefix by (auto simp: is_prefix_def)
  from Cons [of "common s (f q)"] p t show ?case by auto
qed

lemma namespace_dirs_prefixes:
  assumes "p \<noteq> []" and "is_prefix p ss" and "\<forall>s \<in> set ss. plain_seg s"
  shows "path_join [host, join_with ''/'' p, ''manifests''] \<in> set (namespace_dirs host (join_with ''/'' ss))"
  using assms
proof (induction ss rule: rev_induct)
  case Nil
  then show ?case by (simp add: is_prefix_def)
next
  case (snoc x ss)
  have x: "x \<noteq> []" "slash \<notin> set x" using snoc.prems(3) by (auto simp: plain_seg_def slash_def)
  have ne: "join_with ''/'' (ss @ [x]) \<noteq> []"
  proof (cases ss)
    case Nil
    then show ?thesis using x by simp
  next
    case (Cons s ss')
    then have "s \<noteq> []" using snoc.prems(3) by (auto simp: plain_seg_def)
    with Cons show ?thesis by (cases ss') simp_all
  qed
  show ?case
  proof (cases "p = ss @ [x]")
    case True
    then show ?thesis using ne by (subst namespace_dirs.simps) simp
  next
    case False
    then have pre: "is_prefix p ss"
      using snoc.prems(2) by (auto simp: is_prefix_def) (metis append_butlast_last_id append_is_Nil_conv
          butlast_append butlast_snoc)
    with snoc.prems(1) have "ss \<noteq> []" by (auto simp: is_prefix_def)
    then have j: "join_with ''/'' (ss @ [x]) = join_with ''/'' ss @ slash # x"
      by (induction ss rule: induct_list012) (simp_all add: slash_def)
    have "cut_last slash (join_with ''/'' (ss @ [x])) = Some (join_with ''/'' ss, x)"
      using x unfolding j by (simp add: cut_last_Some)
    moreover have "path_join [host, join_with ''/'' p, ''manifests''] \<in> set (namespace_dirs host (join_with ''/'' ss))"
      using snoc pre by simp
    ultimately show ?thesis using ne by (subst namespace_dirs.simps) simp
  qed
qed

lemma join_slash_split: "join_with ''/'' (split_on slash s) = s"
  by (simp add: slash_def)

lemma manifest_dir_searched:
  assumes "r \<in> set repos" and "\<forall>q \<in> set repos. rp_host q = rp_host r \<and> plain_path (rp_owner q)"
  shows "manifest_dir repos \<in> set (manifest_search_dirs (rp_host r) (rp_owner r))"
proof -
  obtain r0 rs where repos: "repos = r0 # rs" using assms(1) by (cases repos) auto
  define p where "p = foldl (\<lambda>shared q. common shared (split_on slash (rp_owner q))) (split_on slash (rp_owner r0)) rs"
  have anchor: "manifest_anchor repos = join_with ''/'' p" by (simp add: manifest_anchor_def repos p_def)
  have dir: "manifest_dir repos = path_join [rp_host r, join_with ''/'' p, ''manifests'']"
    using assms(2) by (simp add: manifest_dir_def repos anchor [unfolded repos])
  have pre: "is_prefix p (split_on slash (rp_owner r))"
    using fold_common_prefix [of "\<lambda>q. split_on slash (rp_owner q)" "split_on slash (rp_owner r0)" rs] assms(1)
    by (auto simp: p_def repos)
  show ?thesis
  proof (cases "p = []")
    case True
    then show ?thesis by (simp add: dir manifest_search_dirs_def path_join_def)
  next
    case False
    have "\<forall>s \<in> set (split_on slash (rp_owner r)). plain_seg s"
      using assms(1,2) by (auto simp: plain_path_def slash_def)
    from namespace_dirs_prefixes [OF False pre this, of "rp_host r"] show ?thesis
      unfolding dir manifest_search_dirs_def join_slash_split by simp
  qed
qed

section \<open>What may be refused\<close>

definition refuse_manifest :: "string \<Rightarrow> goerr" where
  "refuse_manifest s = GoErr ManifestRefused s []"

text \<open>\<open>%.1f\<close> of n / 2^20, which is exact in binary: rounded to tenths, ties to even.\<close>

definition mib :: "int \<Rightarrow> string" where
  "mib n = (if go_mod n 1048576 = 0 then show_int (n div 1048576) @ '' MiB''
     else let q = n * 10 div 1048576; r = n * 10 mod 1048576;
              t = (if 2 * r > 1048576 \<or> 2 * r = 1048576 \<and> odd q then q + 1 else q)
          in show_int (t div 10) @ ''.'' @ show_int (t mod 10) @ '' MiB'')"

definition manifest_too_large :: "string \<Rightarrow> int \<Rightarrow> goerr" where
  "manifest_too_large key n = GoErr (ManifestTooLarge n)
     (if n > 0 then ''manifest '' @ key @ '' is '' @ mib n @ '', larger than the '' @ mib max_manifest_bytes @ '' this engine reads''
      else ''manifest '' @ key @ '' is larger than the '' @ mib max_manifest_bytes @ '' this engine reads'') []"

definition is_too_large :: "goerr \<Rightarrow> bool" where
  "is_too_large e \<longleftrightarrow> errors_as (\<lambda>k. case k of ManifestTooLarge _ \<Rightarrow> True | _ \<Rightarrow> False) e \<noteq> None"

definition oversized :: "string \<Rightarrow> int \<Rightarrow> goerr option" where
  "oversized key n = (if n > max_manifest_bytes then Some (manifest_too_large key n) else None)"

text \<open>The size of a listed object, the last when a key is listed twice, and 0 when it is not.\<close>

definition listed_size :: "object list \<Rightarrow> string \<Rightarrow> int" where
  "listed_size objs key = (case map_of (rev (map (\<lambda>ob. (obj_key ob, obj_size ob)) objs)) key of None \<Rightarrow> 0 | Some n \<Rightarrow> n)"

definition named_finish :: "string \<Rightarrow> string" where
  "named_finish key = (let stamp = trim_suffix manifest_suffix (path_base key) in
     case parse_stamp stamp of Some at \<Rightarrow> format_rfc3339 at | None \<Rightarrow> quote stamp)"

definition check_manifest_head :: "string \<Rightarrow> string \<Rightarrow> time \<Rightarrow> goerr option" where
  "check_manifest_head key schema finished =
     (if \<not> has_prefix manifest_schema_prefix schema
      then Some (refuse_manifest (key @ '' is a '' @ quote schema @ '' document, not a run-manifest: refusing it''))
      else if path_base key \<noteq> format_stamp finished @ manifest_suffix
      then Some (refuse_manifest (key @ '' is named for a run that finished at '' @ named_finish key
             @ '', but it records finishedAt '' @ format_rfc3339 finished
             @ '': it is not the manifest its name says; refusing it''))
      else None)"

section \<open>The loader\<close>

text \<open>
  A public key is what ed25519.Verify does with it: whether a signature over a message holds.
  None is a reader without a key.
\<close>

type_synonym public_key = "(string \<Rightarrow> string \<Rightarrow> bool) option"

definition is_object_too_large :: "goerr \<Rightarrow> bool" where
  "is_object_too_large e \<longleftrightarrow> errors_as (\<lambda>k. case k of ObjectTooLarge _ \<Rightarrow> True | _ \<Rightarrow> False) e \<noteq> None"

definition check_signature :: "(string \<Rightarrow> string \<Rightarrow> bool) \<Rightarrow> string \<Rightarrow> string \<Rightarrow> string \<Rightarrow> goerr + unit" where
  "check_signature verify key raw b64 = (case b64_decode (trim_space b64) of
       None \<Rightarrow> Inl (refuse_manifest (''manifest '' @ key @ '' does not match its signature, which is not base64''))
     | Some sig \<Rightarrow> if verify raw sig then Inr ()
         else Inl (refuse_manifest (''manifest '' @ key @ '' does not match its signature: ed25519 signature verification failed'')))"

definition read_manifest_bytes :: "'w destination \<Rightarrow> public_key \<Rightarrow> string \<Rightarrow> ('w, string) io" where
  "read_manifest_bytes d pub key =
     bindE (mapErrE (\<lambda>e. if is_object_too_large e then manifest_too_large key 0 else wrap_error (''read manifest '' @ key) e)
              (read_capped d key max_manifest_bytes)) (\<lambda>raw.
       case pub of
         None \<Rightarrow> okE raw
       | Some verify \<Rightarrow>
           bindE (mapErrE (wrap_error (''read the signature of manifest '' @ key))
                    (read_capped d (key @ ''.sig'') max_signature_bytes)) (\<lambda>b64.
             bindE (liftE (check_signature verify key raw b64)) (\<lambda>_. okE raw)))"

definition load_manifest :: "codec \<Rightarrow> 'w destination \<Rightarrow> public_key \<Rightarrow> string \<Rightarrow> ('w, manifest) io" where
  "load_manifest c d pub key = bindE (read_manifest_bytes d pub key) (\<lambda>raw.
     bindE (mapErrE (wrap_error (''parse manifest '' @ key)) (liftE (unmarshal_manifest c raw))) (\<lambda>m.
       case check_manifest_head key (m_schema m) (m_finished m) of
         Some e \<Rightarrow> failE e
       | None \<Rightarrow> okE m))"

record manifest_head =
  mh_schema :: string
  mh_run_id :: string
  mh_finished :: time

text \<open>
  decodeManifestStream, on the document's members in order: the head, and the entries handed
  over. The stream is read as a whole before it is decoded; a caller keeps what was handed over
  only when there is no error, so the order of a syntax error and an entry does not show.
\<close>

definition stream_member :: "codec \<Rightarrow> string \<times> json \<Rightarrow> manifest_head \<times> repo_entry list \<Rightarrow> goerr + manifest_head \<times> repo_entry list" where
  "stream_member c kv st = (case kv of (k, v) \<Rightarrow> case st of (h, es) \<Rightarrow>
     if equal_fold k ''repos'' then
       (case v of
          JNull \<Rightarrow> Inr (h, es)
        | JArr js \<Rightarrow> map_sum id (\<lambda>xs. (h, es @ xs)) (get_all (dec_entry c) js)
        | _ \<Rightarrow> Inl (new_error ''repos is not an array''))
     else if equal_fold k ''schema'' then map_sum id (\<lambda>s. (h\<lparr>mh_schema := s\<rparr>, es)) (get_str v (mh_schema h))
     else if equal_fold k ''runId'' then map_sum id (\<lambda>s. (h\<lparr>mh_run_id := s\<rparr>, es)) (get_str v (mh_run_id h))
     else if equal_fold k ''finishedAt'' then map_sum id (\<lambda>t. (h\<lparr>mh_finished := t\<rparr>, es)) (get_time c v (mh_finished h))
     else Inr (h, es))"

definition zero_head :: manifest_head where
  "zero_head = \<lparr>mh_schema = [], mh_run_id = [], mh_finished = time_zero\<rparr>"

definition decode_manifest_stream :: "codec \<Rightarrow> string \<Rightarrow> goerr + manifest_head \<times> repo_entry list" where
  "decode_manifest_stream c raw = (case json_parse c raw of
       Inl e \<Rightarrow> Inl e
     | Inr j \<Rightarrow> (case j of
           JObj kvs \<Rightarrow> fold_sum (stream_member c) kvs (zero_head, [])
         | _ \<Rightarrow> Inl (new_error (''want '' @ quote ''{''))))"

definition read_manifest_entries :: "codec \<Rightarrow> 'w destination \<Rightarrow> public_key \<Rightarrow> string \<Rightarrow> ('w, manifest_head \<times> repo_entry list) io" where
  "read_manifest_entries c d pub key = bindE (read_manifest_bytes d pub key) (\<lambda>raw.
     bindE (mapErrE (wrap_error (''parse manifest '' @ key)) (liftE (decode_manifest_stream c raw))) (\<lambda>(h, es).
       case check_manifest_head key (mh_schema h) (mh_finished h) of
         Some e \<Rightarrow> failE e
       | None \<Rightarrow> okE (h, es)))"

subsection \<open>What a reader believes\<close>

definition head_of :: "manifest \<Rightarrow> manifest_head" where
  "head_of m = \<lparr>mh_schema = m_schema m, mh_run_id = m_run_id m, mh_finished = m_finished m\<rparr>"

text \<open>
  The bytes a reader with a key went by carry a signature under it, and are stored under the
  manifest's key with the signature beside them.
\<close>

lemma read_manifest_bytes_ok:
  assumes "read_manifest_bytes d pub key w = (Inr raw, w')"
  shows "\<exists>rc w1. get_object d key w = (Inr rc, w1) \<and> body_bytes rc = raw
      \<and> int (length raw) \<le> max_manifest_bytes
      \<and> (\<forall>verify. pub = Some verify \<longrightarrow>
          (\<exists>sc sig. get_object d (key @ ''.sig'') w1 = (Inr sc, w')
            \<and> b64_decode (trim_space (body_bytes sc)) = Some sig \<and> verify raw sig))"
proof -
  have big: "0 \<le> max_manifest_bytes" "0 \<le> max_signature_bytes"
    by (simp_all add: max_manifest_bytes_def max_signature_bytes_def)
  obtain r1 w1 where r1: "read_capped d key max_manifest_bytes w = (Inr r1, w1)"
    and k: "(case pub of None \<Rightarrow> okE r1 | Some verify \<Rightarrow>
           bindE (mapErrE (wrap_error (''read the signature of manifest '' @ key))
                    (read_capped d (key @ ''.sig'') max_signature_bytes)) (\<lambda>b64.
             bindE (liftE (check_signature verify key r1 b64)) (\<lambda>_. okE r1))) w1 = (Inr raw, w')"
    using assms unfolding read_manifest_bytes_def by (simp only: bindE_Inr mapErrE_Inr) blast
  from read_capped_Inr [OF big(1) r1] obtain rc where rc: "get_object d key w = (Inr rc, w1)"
    "r1 = body_bytes rc" "int (length r1) \<le> max_manifest_bytes" by blast
  show ?thesis
  proof (cases pub)
    case None
    with k rc show ?thesis by auto
  next
    case (Some verify)
    with k obtain b64 where b: "read_capped d (key @ ''.sig'') max_signature_bytes w1 = (Inr b64, w')"
      and s: "check_signature verify key r1 b64 = Inr ()" and raw: "raw = r1"
      by (auto simp: bindE_Inr)
    from read_capped_Inr [OF big(2) b] obtain sc where "get_object d (key @ ''.sig'') w1 = (Inr sc, w')"
      "b64 = body_bytes sc" by blast
    with s rc raw Some show ?thesis by (auto simp: check_signature_def split: option.splits if_splits)
  qed
qed

lemma load_manifest_ok:
  assumes "load_manifest c d pub key w = (Inr m, w')"
  shows "has_prefix manifest_schema_prefix (m_schema m)"
    and "path_base key = format_stamp (m_finished m) @ manifest_suffix"
    and "\<exists>raw. read_manifest_bytes d pub key w = (Inr raw, w') \<and> unmarshal_manifest c raw = Inr m"
proof -
  obtain raw w1 where r: "read_manifest_bytes d pub key w = (Inr raw, w1)"
    and u: "unmarshal_manifest c raw = Inr m" and h: "check_manifest_head key (m_schema m) (m_finished m) = None"
    and w: "w1 = w'"
    using assms by (auto simp: load_manifest_def bindE_Inr split: option.splits)
  show "\<exists>raw. read_manifest_bytes d pub key w = (Inr raw, w') \<and> unmarshal_manifest c raw = Inr m"
    using r u w by blast
  show "has_prefix manifest_schema_prefix (m_schema m)"
    "path_base key = format_stamp (m_finished m) @ manifest_suffix"
    using h by (auto simp: check_manifest_head_def split: if_splits)
qed

lemma read_manifest_entries_ok:
  assumes "read_manifest_entries c d pub key w = (Inr (h, es), w')"
  shows "has_prefix manifest_schema_prefix (mh_schema h)"
    and "path_base key = format_stamp (mh_finished h) @ manifest_suffix"
    and "\<exists>raw. read_manifest_bytes d pub key w = (Inr raw, w') \<and> decode_manifest_stream c raw = Inr (h, es)"
proof -
  obtain raw w1 where r: "read_manifest_bytes d pub key w = (Inr raw, w1)"
    and u: "decode_manifest_stream c raw = Inr (h, es)" and n: "check_manifest_head key (mh_schema h) (mh_finished h) = None"
    and w: "w1 = w'"
    using assms by (auto simp: read_manifest_entries_def bindE_Inr split: option.splits prod.splits)
  show "\<exists>raw. read_manifest_bytes d pub key w = (Inr raw, w') \<and> decode_manifest_stream c raw = Inr (h, es)"
    using r u w by blast
  show "has_prefix manifest_schema_prefix (mh_schema h)"
    "path_base key = format_stamp (mh_finished h) @ manifest_suffix"
    using n by (auto simp: check_manifest_head_def split: if_splits)
qed

subsection \<open>The stream reader and the whole reader agree\<close>

lemma equal_fold_cong: "equal_fold k a \<Longrightarrow> equal_fold k b = equal_fold a b"
  by (simp add: equal_fold_def)

lemma repos_folds:
  "\<not> equal_fold ''schema'' ''repos''" "\<not> equal_fold ''runId'' ''repos''" "\<not> equal_fold ''finishedAt'' ''repos''"
  "\<not> equal_fold ''tool'' ''repos''" "\<not> equal_fold ''source'' ''repos''" "\<not> equal_fold ''destination'' ''repos''"
  "\<not> equal_fold ''startedAt'' ''repos''" "\<not> equal_fold ''status'' ''repos''"
  by ((rule equal_fold_length, simp; fail) | code_simp)+

lemma head_folds:
  "\<not> equal_fold ''tool'' ''schema''" "\<not> equal_fold ''source'' ''schema''" "\<not> equal_fold ''destination'' ''schema''"
  "\<not> equal_fold ''startedAt'' ''schema''" "\<not> equal_fold ''status'' ''schema''"
  "\<not> equal_fold ''tool'' ''finishedAt''" "\<not> equal_fold ''source'' ''finishedAt''" "\<not> equal_fold ''destination'' ''finishedAt''"
  "\<not> equal_fold ''startedAt'' ''finishedAt''" "\<not> equal_fold ''status'' ''finishedAt''"
  "\<not> equal_fold ''schema'' ''finishedAt''" "\<not> equal_fold ''runId'' ''finishedAt''"
  "\<not> equal_fold ''tool'' ''runId''" "\<not> equal_fold ''source'' ''runId''" "\<not> equal_fold ''destination'' ''runId''"
  "\<not> equal_fold ''startedAt'' ''runId''" "\<not> equal_fold ''status'' ''runId''" "\<not> equal_fold ''schema'' ''runId''"
  by ((rule equal_fold_length, simp; fail) | code_simp)+

lemma map_sum_id_Inr: "map_sum id f r = Inr y \<longleftrightarrow> (\<exists>x. r = Inr x \<and> f x = y)"
  by (cases r) auto

lemma stream_step:
  assumes set: "set_manifest c (k, v) m0 = Inr m1"
    and once: "equal_fold k ''repos'' \<Longrightarrow> m_repos m0 = []"
  shows "stream_member c (k, v) (head_of m0, m_repos m0) = Inr (head_of m1, m_repos m1)"
    and "\<not> equal_fold k ''repos'' \<Longrightarrow> m_repos m1 = m_repos m0"
proof -
  note fold = equal_fold_cong [of k]
  consider "equal_fold k ''schema''" | "equal_fold k ''runId''" | "equal_fold k ''finishedAt''" | "equal_fold k ''repos''"
    | f where "f \<in> {''tool'', ''source'', ''destination'', ''startedAt'', ''status''}" "equal_fold k f"
    | "\<not> equal_fold k ''schema''" "\<not> equal_fold k ''runId''" "\<not> equal_fold k ''finishedAt''" "\<not> equal_fold k ''repos''"
      "\<forall>f \<in> {''tool'', ''source'', ''destination'', ''startedAt'', ''status''}. \<not> equal_fold k f"
    by blast
  then have "stream_member c (k, v) (head_of m0, m_repos m0) = Inr (head_of m1, m_repos m1)
    \<and> (\<not> equal_fold k ''repos'' \<longrightarrow> m_repos m1 = m_repos m0)"
  proof cases
    case 1
    then show ?thesis using set
      by (auto simp: set_manifest_def stream_member_def fold [OF 1] repos_folds map_sum_id_Inr head_of_def)
  next
    case 2
    then show ?thesis using set
      by (auto simp: set_manifest_def stream_member_def fold [OF 2] repos_folds member_folds map_sum_id_Inr head_of_def)
  next
    case 3
    then show ?thesis using set
      by (auto simp: set_manifest_def stream_member_def fold [OF 3] repos_folds member_folds map_sum_id_Inr head_of_def)
  next
    case 4
    then show ?thesis using set once
      by (auto simp: set_manifest_def stream_member_def fold [OF 4] member_folds map_sum_id_Inr head_of_def get_arr_def
          split: json.splits)
  next
    case (5 f)
    then show ?thesis using set
      by (auto simp: set_manifest_def stream_member_def fold [OF 5(2)] repos_folds member_folds head_folds map_sum_id_Inr head_of_def)
  next
    case 6
    then show ?thesis using set by (simp add: set_manifest_def stream_member_def)
  qed
  then show "stream_member c (k, v) (head_of m0, m_repos m0) = Inr (head_of m1, m_repos m1)"
    "\<not> equal_fold k ''repos'' \<Longrightarrow> m_repos m1 = m_repos m0" by auto
qed

definition repos_members :: "(string \<times> json) list \<Rightarrow> nat" where
  "repos_members kvs = length (filter (\<lambda>kv. equal_fold (fst kv) ''repos'') kvs)"

lemma stream_fold:
  "fold_sum (set_manifest c) kvs m0 = Inr m \<Longrightarrow> repos_members kvs \<le> 1 \<Longrightarrow>
   m_repos m0 = [] \<or> repos_members kvs = 0 \<Longrightarrow>
   fold_sum (stream_member c) kvs (head_of m0, m_repos m0) = Inr (head_of m, m_repos m)"
proof (induction kvs arbitrary: m0)
  case (Cons kv kvs)
  obtain k v where kv: "kv = (k, v)" by (cases kv)
  obtain m1 where m1: "set_manifest c (k, v) m0 = Inr m1" and rest: "fold_sum (set_manifest c) kvs m1 = Inr m"
    using Cons.prems(1) kv by (auto split: sum.splits)
  have once: "equal_fold k ''repos'' \<Longrightarrow> m_repos m0 = []"
    using Cons.prems(3) kv by (auto simp: repos_members_def)
  note step = stream_step [OF m1 once]
  have "repos_members kvs \<le> 1" and "m_repos m1 = [] \<or> repos_members kvs = 0"
    using Cons.prems(2,3) step(2) kv by (auto simp: repos_members_def split: if_splits)
  from Cons.IH [OF rest this] show ?case using step(1) kv by simp
qed simp

lemma stream_agrees:
  assumes "json_parse c raw = Inr (JObj kvs)" and "repos_members kvs \<le> 1"
    and "unmarshal_manifest c raw = Inr m"
  shows "decode_manifest_stream c raw = Inr (head_of m, m_repos m)"
proof -
  have "fold_sum (set_manifest c) kvs zero_manifest = Inr m"
    using assms(1,3) by (simp add: unmarshal_manifest_def dec_manifest_def get_obj_def)
  from stream_fold [OF this assms(2)] show ?thesis
    using assms(1) by (simp add: decode_manifest_stream_def zero_manifest_def head_of_def zero_head_def)
qed

end
