(* ===== verification/Search.thy ===== *)
theory Search
  imports Manifests
begin

text \<open>
  src/internal/pipeline/recorded.go and previous.go, with plausibleCopiedAt of backup.go: which
  manifest records a copy made on a date, and what the last runs recorded of each repository. A
  search keeps the listings and the manifests it has read, so it runs over the world paired with
  that memory.
\<close>

section \<open>What an entry records\<close>

definition names_artifact :: "repo_entry \<Rightarrow> string \<Rightarrow> bool" where
  "names_artifact e key \<longleftrightarrow> (\<exists>a \<in> set (en_artifacts e). ai_key a = key)"

definition records_copy :: "repo_entry \<Rightarrow> string \<Rightarrow> string \<Rightarrow> bool" where
  "records_copy e sl key \<longleftrightarrow> en_slug e = sl
     \<and> (en_status e = status_success \<or> en_status e = status_skipped \<and> en_reason e = reason_empty)
     \<and> names_artifact e key"

definition copied_at_of :: "repo_entry \<Rightarrow> time \<Rightarrow> time option" where
  "copied_at_of e finished = (case en_copied_at e of
       Some at \<Rightarrow> Some at
     | None \<Rightarrow> if length (en_refs e) = 0 then None else Some finished)"

definition plausible_copied_at :: "time \<Rightarrow> time \<Rightarrow> time \<Rightarrow> goerr option" where
  "plausible_copied_at copied_at finished now =
     (if copied_at > finished then Some (new_error (''it says the copy was made at '' @ format_rfc3339 copied_at
         @ '', after the manifest itself finished at '' @ format_rfc3339 finished))
      else if copied_at > now then Some (new_error (''it says the copy was made at '' @ format_rfc3339 copied_at
         @ '', which is later than now''))
      else None)"

lemma plausible_iff: "plausible_copied_at c f n = None \<longleftrightarrow> c \<le> f \<and> c \<le> n"
  by (auto simp: plausible_copied_at_def)

section \<open>The search for a copy\<close>

record searched =
  sm_finished :: time
  sm_err :: "goerr option"
  sm_entries :: "(string \<times> repo_entry) list"

record memory =
  mem_listings :: "(string \<times> object list) list"
  mem_loaded :: "(string \<times> searched) list"

definition no_memory :: memory where
  "no_memory = \<lparr>mem_listings = [], mem_loaded = []\<rparr>"

text \<open>A call on the world, made by a search.\<close>

definition on_world :: "('w, 'a) io \<Rightarrow> ('w \<times> memory, 'a) io" where
  "on_world m = (\<lambda>(w, mem). case m w of (r, w') \<Rightarrow> (r, (w', mem)))"

definition search_list :: "'w destination \<Rightarrow> string \<Rightarrow> ('w \<times> memory, object list) io" where
  "search_list d prefix = bindE (readE (\<lambda>(w, mem). map_of (mem_listings mem) prefix)) (\<lambda>known.
     case known of
       Some objs \<Rightarrow> okE objs
     | None \<Rightarrow> bindE (on_world (list_objects d prefix)) (\<lambda>objs. \<lambda>(w, mem).
         (Inr objs, (w, mem\<lparr>mem_listings := (prefix, objs) # mem_listings mem\<rparr>))))"

text \<open>One entry per repository: the first of those the search keeps.\<close>

definition kept_entries :: "(string \<Rightarrow> bool) \<Rightarrow> repo_entry list \<Rightarrow> (string \<times> repo_entry) list" where
  "kept_entries keep es = map (\<lambda>e. (en_slug e, e)) (filter (\<lambda>e. keep (en_slug e)) es)"

definition searched_of :: "(string \<Rightarrow> bool) \<Rightarrow> goerr + manifest_head \<times> repo_entry list \<Rightarrow> searched" where
  "searched_of keep r = (case r of
       Inl e \<Rightarrow> \<lparr>sm_finished = time_zero, sm_err = Some e, sm_entries = []\<rparr>
     | Inr (h, es) \<Rightarrow> \<lparr>sm_finished = mh_finished h, sm_err = None, sm_entries = kept_entries keep es\<rparr>)"

definition search_load :: "codec \<Rightarrow> 'w destination \<Rightarrow> public_key \<Rightarrow> (string \<Rightarrow> bool) \<Rightarrow> string \<Rightarrow> int \<Rightarrow> ('w \<times> memory, searched) io" where
  "search_load c d pub keep key n = bindE (readE (\<lambda>(w, mem). map_of (mem_loaded mem) key)) (\<lambda>known.
     case known of
       Some m \<Rightarrow> okE m
     | None \<Rightarrow>
         bindE (case oversized key n of
                  Some e \<Rightarrow> okE (Inl e)
                | None \<Rightarrow> tryE (on_world (read_manifest_entries c d pub key))) (\<lambda>r.
         \<lambda>(w, mem). let m = searched_of keep r in
           (Inr m, (w, mem\<lparr>mem_loaded := (key, m) # mem_loaded mem\<rparr>))))"

record recorded_copy =
  rcp_key :: string
  rcp_finished :: time
  rcp_entry :: repo_entry

record search_report =
  sr_seen :: nat
  sr_passed :: nat
  sr_too_large :: nat
  sr_largest :: "goerr option"
  sr_named :: "(repo_entry \<times> string) option"

definition empty_report :: search_report where
  "empty_report = \<lparr>sr_seen = 0, sr_passed = 0, sr_too_large = 0, sr_largest = None, sr_named = None\<rparr>"

text \<open>\<open>notAfter.IsZero()\<close> is None.\<close>

definition in_time :: "time option \<Rightarrow> string \<Rightarrow> bool" where
  "in_time not_after key = (case not_after of None \<Rightarrow> True
     | Some t \<Rightarrow> (case stamp_of key of None \<Rightarrow> False | Some at \<Rightarrow> at \<le> t))"

definition count_passed :: "goerr \<Rightarrow> search_report \<Rightarrow> search_report" where
  "count_passed e rep =
     (let rep' = rep\<lparr>sr_passed := sr_passed rep + 1\<rparr> in
      if is_too_large e
      then rep'\<lparr>sr_too_large := sr_too_large rep + 1,
             sr_largest := (if sr_too_large rep = 0 then Some e else sr_largest rep)\<rparr>
      else rep')"

definition judge :: "string \<Rightarrow> string list \<Rightarrow> string \<Rightarrow> searched \<Rightarrow> search_report \<Rightarrow> recorded_copy option \<times> search_report" where
  "judge sl keys key m rep = (case map_of (sm_entries m) sl of
       None \<Rightarrow> (None, rep)
     | Some e \<Rightarrow>
         if \<exists>k \<in> set keys. records_copy e sl k
         then (Some \<lparr>rcp_key = key, rcp_finished = sm_finished m, rcp_entry = e\<rparr>, rep)
         else if sr_named rep = None \<and> (\<exists>k \<in> set keys. names_artifact e k)
         then (None, rep\<lparr>sr_named := Some (e, key)\<rparr>)
         else (None, rep))"

fun find_in_manifests ::
  "codec \<Rightarrow> 'w destination \<Rightarrow> public_key \<Rightarrow> (string \<Rightarrow> bool) \<Rightarrow> object list \<Rightarrow> string \<Rightarrow> string list \<Rightarrow> time option
   \<Rightarrow> string list \<Rightarrow> search_report \<Rightarrow> ('w \<times> memory, recorded_copy option \<times> search_report) io" where
  "find_in_manifests c d pub keep objs sl keys not_after [] rep = okE (None, rep)"
| "find_in_manifests c d pub keep objs sl keys not_after (key # ms) rep =
     (if \<not> in_time not_after key then find_in_manifests c d pub keep objs sl keys not_after ms rep
      else bindE (search_load c d pub keep key (listed_size objs key)) (\<lambda>m.
        let rep1 = rep\<lparr>sr_seen := sr_seen rep + 1\<rparr> in
        case sm_err m of
          Some e \<Rightarrow> find_in_manifests c d pub keep objs sl keys not_after ms (count_passed e rep1)
        | None \<Rightarrow> (case judge sl keys key m rep1 of
              (Some f, rep2) \<Rightarrow> okE (Some f, rep2)
            | (None, rep2) \<Rightarrow> find_in_manifests c d pub keep objs sl keys not_after ms rep2)))"

fun find_in_dirs ::
  "codec \<Rightarrow> 'w destination \<Rightarrow> public_key \<Rightarrow> (string \<Rightarrow> bool) \<Rightarrow> string \<Rightarrow> string list \<Rightarrow> time option
   \<Rightarrow> (string \<times> time) list \<Rightarrow> search_report \<Rightarrow> ('w \<times> memory, recorded_copy option \<times> search_report) io" where
  "find_in_dirs c d pub keep sl keys not_after [] rep = okE (None, rep)"
| "find_in_dirs c d pub keep sl keys not_after ((dir, on) # ps) rep =
     (let prefix = path_join [dir, format_day on] in
      bindE (mapErrE (wrap_error (''list manifests under '' @ prefix)) (search_list d prefix)) (\<lambda>objs.
      bindE (find_in_manifests c d pub keep objs sl keys not_after (filed_manifests objs dir) rep) (\<lambda>(found, rep').
        case found of
          Some f \<Rightarrow> okE (Some f, rep')
        | None \<Rightarrow> find_in_dirs c d pub keep sl keys not_after ps rep')))"

definition search_places :: "string list \<Rightarrow> time \<Rightarrow> (string \<times> time) list" where
  "search_places dirs on = concat (map (\<lambda>dir. [(dir, on), (dir, next_day on)]) dirs)"

definition find_copy ::
  "codec \<Rightarrow> 'w destination \<Rightarrow> public_key \<Rightarrow> (string \<Rightarrow> bool) \<Rightarrow> string list \<Rightarrow> time \<Rightarrow> string \<Rightarrow> string list \<Rightarrow> time option
   \<Rightarrow> ('w \<times> memory, recorded_copy option \<times> search_report) io" where
  "find_copy c d pub keep dirs on sl keys not_after =
     find_in_dirs c d pub keep sl keys not_after (search_places dirs on) empty_report"

subsection \<open>What a search finds\<close>

text \<open>
  Everything a search remembers of a manifest came out of the loader: with a key, out of a
  manifest whose signature held when it was read.
\<close>

definition loaded_by :: "codec \<Rightarrow> 'w destination \<Rightarrow> public_key \<Rightarrow> string \<Rightarrow> searched \<Rightarrow> bool" where
  "loaded_by c d pub key m \<longleftrightarrow> (sm_err m = None \<longrightarrow>
     (\<exists>w w' h es. read_manifest_entries c d pub key w = (Inr (h, es), w')
        \<and> sm_finished m = mh_finished h \<and> snd ` set (sm_entries m) \<subseteq> set es
        \<and> (\<forall>(s, e) \<in> set (sm_entries m). en_slug e = s)))"

definition memory_ok :: "codec \<Rightarrow> 'w destination \<Rightarrow> public_key \<Rightarrow> memory \<Rightarrow> bool" where
  "memory_ok c d pub mem \<longleftrightarrow> (\<forall>(key, m) \<in> set (mem_loaded mem). loaded_by c d pub key m)"

lemma memory_ok_none: "memory_ok c d pub no_memory"
  by (simp add: memory_ok_def no_memory_def)

lemma kept_entries_sub: "snd ` set (kept_entries keep es) \<subseteq> set es"
  "\<forall>(s, e) \<in> set (kept_entries keep es). en_slug e = s"
  by (auto simp: kept_entries_def)

lemma search_list_memory:
  "search_list d prefix (w, mem) = (r, (w', mem')) \<Longrightarrow> mem_loaded mem' = mem_loaded mem"
  by (auto simp: search_list_def on_world_def bindE_def split: option.splits prod.splits sum.splits)

lemma search_load_ok:
  assumes mem: "memory_ok c d pub mem"
    and load: "search_load c d pub keep key n (w, mem) = (r, (w', mem'))"
  shows "memory_ok c d pub mem' \<and> (\<exists>m. r = Inr m \<and> loaded_by c d pub key m)"
proof (cases "map_of (mem_loaded mem) key")
  case (Some m)
  then have "(key, m) \<in> set (mem_loaded mem)" by (rule map_of_SomeD)
  then have "loaded_by c d pub key m" using mem by (auto simp: memory_ok_def)
  then show ?thesis using Some load mem by (auto simp: search_load_def bindE_def)
next
  case None
  obtain rr w1 where rr: "r = Inr (searched_of keep rr)"
    and mem': "mem' = mem\<lparr>mem_loaded := (key, searched_of keep rr) # mem_loaded mem\<rparr>"
    and src: "(\<exists>e. rr = Inl e) \<or> read_manifest_entries c d pub key w = (rr, w1)"
    using load None
    by (auto simp: search_load_def bindE_def tryE_def on_world_def Let_def split: option.splits prod.splits) blast+
  have "loaded_by c d pub key (searched_of keep rr)"
  proof (cases rr)
    case (Inr p)
    obtain h es where p: "p = (h, es)" by (cases p)
    have "read_manifest_entries c d pub key w = (Inr (h, es), w1)" using src Inr p by simp
    then show ?thesis
      using kept_entries_sub [of keep es] by (auto simp: loaded_by_def searched_of_def Inr p)
  qed (simp add: loaded_by_def searched_of_def)
  then show ?thesis using mem rr mem' by (auto simp: memory_ok_def)
qed

text \<open>The copy found: an entry of a manifest the loader believed, filed where a run files it.\<close>

definition found_ok :: "codec \<Rightarrow> 'w destination \<Rightarrow> public_key \<Rightarrow> string list \<Rightarrow> string \<Rightarrow> string list \<Rightarrow> time option \<Rightarrow> recorded_copy \<Rightarrow> bool" where
  "found_ok c d pub dirs sl keys not_after f \<longleftrightarrow>
     (\<exists>k \<in> set keys. records_copy (rcp_entry f) sl k)
     \<and> path_dir (rcp_key f) \<in> set dirs \<and> in_time not_after (rcp_key f)
     \<and> (\<exists>w w' h es. read_manifest_entries c d pub (rcp_key f) w = (Inr (h, es), w')
          \<and> rcp_entry f \<in> set es \<and> rcp_finished f = mh_finished h)"

lemma judge_found:
  assumes "judge sl keys key m rep = (Some f, rep')" and "loaded_by c d pub key m" and "sm_err m = None"
    and "in_time not_after key" and "path_dir key \<in> set dirs"
  shows "found_ok c d pub dirs sl keys not_after f"
proof -
  obtain e where e: "map_of (sm_entries m) sl = Some e" and r: "\<exists>k \<in> set keys. records_copy e sl k"
    and f: "f = \<lparr>rcp_key = key, rcp_finished = sm_finished m, rcp_entry = e\<rparr>"
    using assms(1) by (auto simp: judge_def split: option.splits if_splits)
  from e have "(sl, e) \<in> set (sm_entries m)" by (rule map_of_SomeD)
  then have "e \<in> snd ` set (sm_entries m)" by force
  then show ?thesis using assms r f by (fastforce simp: found_ok_def loaded_by_def)
qed

lemma find_in_manifests_ok:
  assumes "find_in_manifests c d pub keep objs sl keys na ms rep (w, mem) = (Inr (found, rep'), (w', mem'))"
    and "memory_ok c d pub mem" and "\<forall>k \<in> set ms. path_dir k \<in> set dirs"
  shows "memory_ok c d pub mem' \<and> (\<forall>f. found = Some f \<longrightarrow> found_ok c d pub dirs sl keys na f)"
  using assms
proof (induction ms arbitrary: rep w mem)
  case (Cons key ms)
  show ?case
  proof (cases "in_time na key")
    case False
    then have "find_in_manifests c d pub keep objs sl keys na ms rep (w, mem) = (Inr (found, rep'), (w', mem'))"
      using Cons.prems(1) by simp
    then show ?thesis by (rule Cons.IH) (use Cons.prems in auto)
  next
    case True
    let ?rep1 = "rep\<lparr>sr_seen := sr_seen rep + 1\<rparr>"
    obtain m w1 mem1 where load: "search_load c d pub keep key (listed_size objs key) (w, mem) = (Inr m, (w1, mem1))"
      and rest: "(case sm_err m of
          Some e \<Rightarrow> find_in_manifests c d pub keep objs sl keys na ms (count_passed e ?rep1)
        | None \<Rightarrow> (case judge sl keys key m ?rep1 of
              (Some f, rep2) \<Rightarrow> okE (Some f, rep2)
            | (None, rep2) \<Rightarrow> find_in_manifests c d pub keep objs sl keys na ms rep2)) (w1, mem1)
        = (Inr (found, rep'), (w', mem'))"
      using Cons.prems(1) True by (auto simp: bindE_Inr Let_def simp del: One_nat_def add_Suc_right)
    have m1: "memory_ok c d pub mem1" and ld: "loaded_by c d pub key m"
      using search_load_ok [OF Cons.prems(2) load] by auto
    have dirs: "\<forall>k \<in> set ms. path_dir k \<in> set dirs" "path_dir key \<in> set dirs" using Cons.prems(3) by auto
    show ?thesis
    proof (cases "sm_err m")
      case (Some e)
      then have "find_in_manifests c d pub keep objs sl keys na ms (count_passed e ?rep1) (w1, mem1)
          = (Inr (found, rep'), (w', mem'))" using rest by simp
      then show ?thesis by (rule Cons.IH [OF _ m1 dirs(1)])
    next
      case None
      obtain o1 rep2 where j: "judge sl keys key m ?rep1 = (o1, rep2)" by fastforce
      show ?thesis
      proof (cases o1)
        case (Some f)
        then have "found = Some f" "mem' = mem1" using rest None j by auto
        then show ?thesis using judge_found [OF j [unfolded Some] ld None True dirs(2)] m1 by simp
      next
        case o_None: None
        then have "find_in_manifests c d pub keep objs sl keys na ms rep2 (w1, mem1)
            = (Inr (found, rep'), (w', mem'))" using rest None j by simp
        then show ?thesis by (rule Cons.IH [OF _ m1 dirs(1)])
      qed
    qed
  qed
qed simp

lemma filed_in_dir: "k \<in> set (filed_manifests objs dir) \<Longrightarrow> path_dir k = dir"
  by (auto simp: filed_manifests_def)

lemma find_in_dirs_ok:
  assumes "find_in_dirs c d pub keep sl keys na ps rep (w, mem) = (Inr (found, rep'), (w', mem'))"
    and "memory_ok c d pub mem" and "fst ` set ps \<subseteq> set dirs"
  shows "memory_ok c d pub mem' \<and> (\<forall>f. found = Some f \<longrightarrow> found_ok c d pub dirs sl keys na f)"
  using assms
proof (induction ps arbitrary: rep w mem)
  case (Cons p ps)
  obtain dir on where p: "p = (dir, on)" by (cases p)
  let ?prefix = "path_join [dir, format_day on]"
  obtain objs w1 mem1 found1 rep1 w2 mem2 where l: "search_list d ?prefix (w, mem) = (Inr objs, (w1, mem1))"
    and f: "find_in_manifests c d pub keep objs sl keys na (filed_manifests objs dir) rep (w1, mem1) = (Inr (found1, rep1), (w2, mem2))"
    and rest: "(case found1 of Some f \<Rightarrow> okE (Some f, rep1) | None \<Rightarrow> find_in_dirs c d pub keep sl keys na ps rep1) (w2, mem2)
      = (Inr (found, rep'), (w', mem'))"
    using Cons.prems(1) unfolding p by (auto simp: bindE_Inr Let_def)
  have "memory_ok c d pub mem1"
    using Cons.prems(2) search_list_memory [OF l] by (simp add: memory_ok_def)
  moreover have "\<forall>k \<in> set (filed_manifests objs dir). path_dir k \<in> set dirs"
    using Cons.prems(3) filed_in_dir by (fastforce simp: p)
  ultimately have m2: "memory_ok c d pub mem2"
    and ok: "\<forall>f. found1 = Some f \<longrightarrow> found_ok c d pub dirs sl keys na f"
    using find_in_manifests_ok [OF f] by auto
  show ?case
  proof (cases found1)
    case None
    then have "find_in_dirs c d pub keep sl keys na ps rep1 (w2, mem2) = (Inr (found, rep'), (w', mem'))"
      using rest by simp
    then show ?thesis by (rule Cons.IH [OF _ m2]) (use Cons.prems(3) in auto)
  next
    case (Some f1)
    then show ?thesis using ok m2 rest by auto
  qed
qed simp

lemma find_copy_ok:
  assumes "find_copy c d pub keep dirs on sl keys na (w, mem) = (Inr (found, rep), (w', mem'))"
    and "memory_ok c d pub mem"
  shows "memory_ok c d pub mem' \<and> (\<forall>f. found = Some f \<longrightarrow> found_ok c d pub dirs sl keys na f)"
proof (rule find_in_dirs_ok [OF assms(1) [unfolded find_copy_def] assms(2)])
  show "fst ` set (search_places dirs on) \<subseteq> set dirs" by (auto simp: search_places_def)
qed

section \<open>What the last runs recorded\<close>

record previous_copy =
  pc_refs :: refs
  pc_copied_at :: time

definition previous_of :: "time \<Rightarrow> manifest_head \<Rightarrow> repo_entry \<Rightarrow> previous_copy option" where
  "previous_of now h e =
     (if en_status e = status_failed \<or> length (en_refs e) = 0 then None
      else let copied_at = (case en_copied_at e of Some at \<Rightarrow> at | None \<Rightarrow> mh_finished h) in
        if plausible_copied_at copied_at (mh_finished h) now \<noteq> None then None
        else Some \<lparr>pc_refs = entries_to_refs (en_refs e), pc_copied_at = copied_at\<rparr>)"

text \<open>The entries of one manifest that decide a repository that is still undecided.\<close>

definition deciding :: "string list option \<Rightarrow> string list \<Rightarrow> repo_entry \<Rightarrow> bool" where
  "deciding selected decided e \<longleftrightarrow> \<not> (en_slug e \<in> set decided \<or> (case selected of None \<Rightarrow> False | Some s \<Rightarrow> en_slug e \<notin> set s))
     \<and> \<not> (en_status e = status_failed \<and> length (en_artifacts e) = 0)"

fun decide_entries :: "time \<Rightarrow> manifest_head \<Rightarrow> repo_entry list \<Rightarrow> string list \<Rightarrow> (string \<times> previous_copy) list
    \<Rightarrow> string list \<times> (string \<times> previous_copy) list" where
  "decide_entries now h [] decided out = (decided, out)"
| "decide_entries now h (e # es) decided out =
     (if en_slug e \<in> set decided then decide_entries now h es decided out
      else decide_entries now h es (en_slug e # decided)
        (case previous_of now h e of None \<Rightarrow> out | Some c \<Rightarrow> (en_slug e, c) # out))"

text \<open>
  The walk over the manifests of a directory, newest first. \<open>clock\<close> reads the time: once for the
  walk, and again for the copies of each manifest.
\<close>

fun previous_walk ::
  "codec \<Rightarrow> 'w destination \<Rightarrow> public_key \<Rightarrow> ('w \<Rightarrow> time) \<Rightarrow> duration \<Rightarrow> object list \<Rightarrow> string list option \<Rightarrow> time
   \<Rightarrow> string list \<Rightarrow> nat \<Rightarrow> string list \<Rightarrow> (string \<times> previous_copy) list \<Rightarrow> ('w, (string \<times> previous_copy) list) io" where
  "previous_walk c d pub clock bound objs selected now [] reads decided out = okE out"
| "previous_walk c d pub clock bound objs selected now (key # keys) reads decided out =
     (case stamp_of key of
        None \<Rightarrow> previous_walk c d pub clock bound objs selected now keys reads decided out
      | Some finished \<Rightarrow>
          if finished > now then previous_walk c d pub clock bound objs selected now keys reads decided out
          else if time_sub now finished \<ge> bound \<or> reads = max_previous_manifests then okE out
          else case oversized key (listed_size objs key) of
            Some e \<Rightarrow> previous_walk c d pub clock bound objs selected now keys (reads + 1) decided out
          | None \<Rightarrow>
              bindE (tryE (read_manifest_entries c d pub key)) (\<lambda>r. case r of
                Inl e \<Rightarrow> previous_walk c d pub clock bound objs selected now keys (reads + 1) decided out
              | Inr (h, es) \<Rightarrow> bindE (readE clock) (\<lambda>t.
                  case decide_entries t h (filter (deciding selected decided) es) decided out of
                    (decided', out') \<Rightarrow>
                      if (case selected of None \<Rightarrow> False | Some s \<Rightarrow> length decided' = length s) then okE out'
                      else previous_walk c d pub clock bound objs selected now keys (reads + 1) decided' out')))"

definition load_previous ::
  "codec \<Rightarrow> 'w destination \<Rightarrow> public_key \<Rightarrow> ('w \<Rightarrow> time) \<Rightarrow> duration \<Rightarrow> string \<Rightarrow> string list option
   \<Rightarrow> ('w, (string \<times> previous_copy) list) io" where
  "load_previous c d pub clock bound dir selected =
     (if pub = None then okE []
      else bindE (readE clock) (\<lambda>now.
           bindE (tryE (list_objects d (dir @ ''/''))) (\<lambda>r. case r of
             Inl e \<Rightarrow> okE []
           | Inr objs \<Rightarrow> previous_walk c d pub clock bound objs selected now (filed_manifests objs dir) 0 [] [])))"

text \<open>currentRefs: a source that does not answer has not stayed the same.\<close>

definition current_refs :: "'w machine \<Rightarrow> 'w source \<Rightarrow> repo \<Rightarrow> ('w, refs) io" where
  "current_refs m src r =
     bindE (tryE (bindE (clone_url src r) (\<lambda>url.
                  bindE (git_auth_header src) (\<lambda>auth. ls_remote m url auth)))) (\<lambda>res.
       case res of Inl e \<Rightarrow> okE [] | Inr refs \<Rightarrow> okE refs)"

subsection \<open>A copy relied on was recorded in a manifest that was believed\<close>

definition copy_believed :: "codec \<Rightarrow> 'w destination \<Rightarrow> public_key \<Rightarrow> string \<Rightarrow> previous_copy \<Rightarrow> bool" where
  "copy_believed c d pub sl pc \<longleftrightarrow>
     (\<exists>key w w' h es e t. read_manifest_entries c d pub key w = (Inr (h, es), w') \<and> e \<in> set es \<and> en_slug e = sl
        \<and> en_status e \<noteq> status_failed \<and> en_refs e \<noteq> [] \<and> pc_refs pc = entries_to_refs (en_refs e)
        \<and> copied_at_of e (mh_finished h) = Some (pc_copied_at pc)
        \<and> pc_copied_at pc \<le> mh_finished h \<and> pc_copied_at pc \<le> t)"

lemma previous_of_Some:
  "previous_of now h e = Some pc \<Longrightarrow> en_status e \<noteq> status_failed \<and> en_refs e \<noteq> []
    \<and> pc_refs pc = entries_to_refs (en_refs e) \<and> copied_at_of e (mh_finished h) = Some (pc_copied_at pc)
    \<and> pc_copied_at pc \<le> mh_finished h \<and> pc_copied_at pc \<le> now"
  using plausible_iff [of "case en_copied_at e of None \<Rightarrow> mh_finished h | Some at \<Rightarrow> at" "mh_finished h" now]
  by (auto simp: previous_of_def copied_at_of_def Let_def split: if_splits option.splits)

lemma decide_entries_believed:
  assumes "decide_entries now h es decided out = (decided', out')"
    and "read_manifest_entries c d pub key w = (Inr (h, es0), w')" and "set es \<subseteq> set es0"
    and "\<forall>(s, pc) \<in> set out. copy_believed c d pub s pc"
  shows "\<forall>(s, pc) \<in> set out'. copy_believed c d pub s pc"
  using assms
proof (induction es arbitrary: decided out)
  case (Cons e es)
  have "copy_believed c d pub (en_slug e) pc" if "previous_of now h e = Some pc" for pc
    unfolding copy_believed_def
    using previous_of_Some [OF that] Cons.prems(2,3) by (intro exI conjI; fastforce)
  then have "\<forall>(s, pc) \<in> set (case previous_of now h e of None \<Rightarrow> out | Some c \<Rightarrow> (en_slug e, c) # out). copy_believed c d pub s pc"
    using Cons.prems(4) by (auto split: option.splits)
  then show ?case using Cons by (auto split: if_splits)
qed simp

lemma previous_walk_believed:
  assumes "previous_walk c d pub clock bound objs selected now keys reads decided out w = (Inr res, w')"
    and "\<forall>(s, pc) \<in> set out. copy_believed c d pub s pc"
  shows "\<forall>(s, pc) \<in> set res. copy_believed c d pub s pc"
  using assms
proof (induction keys arbitrary: reads decided out w)
  case (Cons key keys)
  show ?case
  proof (cases "stamp_of key")
    case None
    with Cons show ?thesis by simp
  next
    case (Some finished)
    consider "finished > now" | "\<not> finished > now" "time_sub now finished \<ge> bound \<or> reads = max_previous_manifests"
      | e where "\<not> finished > now" "\<not> (time_sub now finished \<ge> bound \<or> reads = max_previous_manifests)"
          "oversized key (listed_size objs key) = Some e"
      | "\<not> finished > now" "\<not> (time_sub now finished \<ge> bound \<or> reads = max_previous_manifests)"
          "oversized key (listed_size objs key) = None"
      by (cases "oversized key (listed_size objs key)") auto
    then show ?thesis
    proof cases
      case 1
      with Cons Some show ?thesis by simp
    next
      case 2
      with Cons Some show ?thesis by auto
    next
      case (3 e)
      with Cons Some show ?thesis by auto
    next
      case 4
      obtain r w1 where r: "read_manifest_entries c d pub key w = (r, w1)" by fastforce
      show ?thesis
      proof (cases r)
        case (Inl e)
        then show ?thesis using Cons Some 4 r by (auto simp: bindE_def tryE_def)
      next
        case (Inr p)
        obtain h es where p: "p = (h, es)" by (cases p)
        obtain dec' out' where de: "decide_entries (clock w1) h (filter (deciding selected decided) es) decided out = (dec', out')"
          by fastforce
        have out': "\<forall>(s, pc) \<in> set out'. copy_believed c d pub s pc"
          by (rule decide_entries_believed [OF de r [unfolded Inr p]]) (use Cons.prems(2) in auto)
        have "(if (case selected of None \<Rightarrow> False | Some s \<Rightarrow> length dec' = length s) then okE out'
            else previous_walk c d pub clock bound objs selected now keys (reads + 1) dec' out') w1 = (Inr res, w')"
          using Cons.prems(1) Some 4 r Inr p de by (simp add: bindE_def tryE_def)
        then show ?thesis
          using out' Cons.IH [of "reads + 1" dec' out' w1] by (auto split: if_splits)
      qed
    qed
  qed
qed simp

lemma load_previous_believed:
  assumes "load_previous c d pub clock bound dir selected w = (Inr res, w')"
  shows "\<forall>(s, pc) \<in> set res. copy_believed c d pub s pc"
proof (cases "pub = None \<or> (\<exists>e. fst (list_objects d (dir @ ''/'') w) = Inl e)")
  case True
  then show ?thesis using assms
    by (cases "list_objects d (dir @ ''/'') w") (auto simp: load_previous_def bindE_def tryE_def split: if_splits)
next
  case False
  then obtain objs w1 where "list_objects d (dir @ ''/'') w = (Inr objs, w1)"
    by (metis old.sum.exhaust prod.collapse)
  with False assms have "previous_walk c d pub clock bound objs selected (clock w) (filed_manifests objs dir) 0 [] [] w1 = (Inr res, w')"
    by (auto simp: load_previous_def bindE_def tryE_def)
  then show ?thesis by (rule previous_walk_believed) simp
qed

end
