(* ===== verification/Archive.thy ===== *)
theory Archive
  imports Gitexec Dest
begin

text \<open>
  src/internal/pipeline/archive.go and lfspointers.go: archiving a directory as a tar file,
  unpacking one, and reading a restored tree for LFS pointers. A directory on disk is a tree
  whose entries are in the order of their names, as os.ReadDir gives them. The tar format itself
  (archive/tar) is a pair of parameters between entries and bytes.
\<close>

section \<open>Files on disk\<close>

datatype node =
    File string
  | Dir "(string \<times> node) list"
  | Other                      \<comment> \<open>a symbolic link, a device, a socket\<close>
  | Broken goerr               \<comment> \<open>an entry that cannot be read\<close>

datatype tar_entry =
    TarDir string
  | TarFile string string
  | TarOther string string     \<comment> \<open>name and type\<close>

text \<open>
  The scratch disk: opening and reading a file, writing one, removing one or a whole tree,
  reading a tree (None when there is nothing there), and the two operations of an os.Root, which
  refuse any name that resolves outside the directory it is anchored at.
\<close>

record 'w workspace = "'w machine" +
  open_file :: "string \<Rightarrow> ('w, body) io"
  write_file :: "string \<Rightarrow> string \<Rightarrow> ('w, unit) io"
  append_file :: "string \<Rightarrow> string \<Rightarrow> ('w, unit) io"
  remove_file :: "string \<Rightarrow> ('w, unit) io"
  remove_tree :: "string \<Rightarrow> ('w, unit) io"
  read_tree :: "string \<Rightarrow> 'w \<Rightarrow> node option"
  mkdir_all :: "string \<Rightarrow> ('w, unit) io"
  root_mkdir :: "string \<Rightarrow> string \<Rightarrow> ('w, unit) io"
  root_write :: "string \<Rightarrow> string \<Rightarrow> string \<Rightarrow> ('w, unit) io"
  print_tar :: "tar_entry list \<Rightarrow> string"
  read_tar :: "string \<Rightarrow> tar_entry list \<times> goerr option"

text \<open>\<open>filepath.Join(dir, name)\<close> of a clean directory and a plain name.\<close>

definition file_join :: "string \<Rightarrow> string \<Rightarrow> string" where
  "file_join dir name = path_join [dir, name]"

definition rel_join :: "string \<Rightarrow> string \<Rightarrow> string" where
  "rel_join rel name = (if rel = [] then name else rel @ ''/'' @ name)"

section \<open>Writing an archive\<close>

text \<open>
  One step of the walk and the walk over the entries of a directory, in order: the context is
  asked before each entry, what is neither a directory nor a regular file is left out, and with
  \<open>remove_each\<close> a file is removed once it is in the archive.
\<close>

fun tar_node :: "'w workspace \<Rightarrow> ('w \<Rightarrow> goerr option) \<Rightarrow> bool \<Rightarrow> string \<Rightarrow> string \<Rightarrow> node \<Rightarrow> ('w, tar_entry list) io"
  and tar_children :: "'w workspace \<Rightarrow> ('w \<Rightarrow> goerr option) \<Rightarrow> bool \<Rightarrow> string \<Rightarrow> string \<Rightarrow> (string \<times> node) list \<Rightarrow> ('w, tar_entry list) io" where
  "tar_node ws ctx rm src rel (File s) = bindE (readE ctx) (\<lambda>e. case e of
       Some x \<Rightarrow> failE x
     | None \<Rightarrow> bindE (open_file ws (file_join src rel)) (\<lambda>b. case body_err b of
           Some x \<Rightarrow> failE x
         | None \<Rightarrow> if rm then bindE (remove_file ws (file_join src rel)) (\<lambda>_. okE [TarFile rel (body_bytes b)])
                   else okE [TarFile rel (body_bytes b)]))"
| "tar_node ws ctx rm src rel (Dir cs) = bindE (readE ctx) (\<lambda>e. case e of
       Some x \<Rightarrow> failE x
     | None \<Rightarrow> bindE (tar_children ws ctx rm src rel cs) (\<lambda>es.
         okE ((if rel = [] then [] else [TarDir (rel @ ''/'')]) @ es)))"
| "tar_node ws ctx rm src rel Other = bindE (readE ctx) (\<lambda>e. case e of Some x \<Rightarrow> failE x | None \<Rightarrow> okE [])"
| "tar_node ws ctx rm src rel (Broken x) = failE x"
| "tar_children ws ctx rm src rel [] = okE []"
| "tar_children ws ctx rm src rel ((n, t) # cs) =
     bindE (tar_node ws ctx rm src (rel_join rel n) t) (\<lambda>es.
     bindE (tar_children ws ctx rm src rel cs) (\<lambda>es'. okE (es @ es')))"

definition write_tar :: "'w workspace \<Rightarrow> ('w \<Rightarrow> goerr option) \<Rightarrow> string \<Rightarrow> string \<Rightarrow> bool \<Rightarrow> ('w, unit) io" where
  "write_tar ws ctx src dst rm =
     bindE (mapErrE (wrap_error (''tar create '' @ quote dst)) (write_file ws dst [])) (\<lambda>_.
     bindE (readE (read_tree ws src)) (\<lambda>t.
     bindE (mapErrE (wrap_error (''tar '' @ quote src))
              (case t of None \<Rightarrow> failE (new_error (''lstat '' @ src @ '': no such file or directory''))
                       | Some n \<Rightarrow> tar_node ws ctx rm src [] n)) (\<lambda>es.
       append_file ws dst (print_tar ws es))))"

definition archive_lfs :: "'w workspace \<Rightarrow> ('w \<Rightarrow> goerr option) \<Rightarrow> string \<Rightarrow> string \<Rightarrow> ('w, unit) io" where
  "archive_lfs ws ctx src dst = write_tar ws ctx src dst True"

section \<open>Unpacking an archive\<close>

definition max_tar_entry_depth :: nat where "max_tar_entry_depth = 32"

definition tar_entry_path :: "string \<Rightarrow> goerr + string" where
  "tar_entry_path raw = (let name = path_clean raw in
     if has_prefix ''/'' name then Inl (new_error (''tar entry is absolute: '' @ quote raw))
     else if name = ''..'' \<or> has_prefix ''../'' name then Inl (new_error (''tar entry escapes destination: '' @ quote raw))
     else if length (filter (\<lambda>c. c = CHR ''/'') name) + 1 > max_tar_entry_depth
     then Inl (new_error (''tar entry is '' @ show_nat (length (filter (\<lambda>c. c = CHR ''/'') name) + 1)
            @ '' path components deep, more than the '' @ show_nat max_tar_entry_depth @ '' a gitdr archive can hold: ''
            @ quote (if length raw > 100 then take 100 raw @ ''...'' else raw)))
     else Inr name)"

definition entry_name :: "tar_entry \<Rightarrow> string" where
  "entry_name e = (case e of TarDir n \<Rightarrow> n | TarFile n b \<Rightarrow> n | TarOther n t \<Rightarrow> n)"

text \<open>The loop over the archive's entries, with the operations of the root it writes through.\<close>

fun extract_entries :: "(string \<Rightarrow> ('s, unit) io) \<Rightarrow> (string \<Rightarrow> string \<Rightarrow> ('s, unit) io) \<Rightarrow> tar_entry list \<Rightarrow> ('s, unit) io" where
  "extract_entries mk wr [] = okE ()"
| "extract_entries mk wr (e # es) = bindE (liftE (tar_entry_path (entry_name e))) (\<lambda>name.
     if name = ''.'' then extract_entries mk wr es
     else case e of
         TarDir n \<Rightarrow> bindE (mk name) (\<lambda>_. extract_entries mk wr es)
       | TarFile n b \<Rightarrow>
           bindE (if path_dir name \<noteq> ''.'' then mk (path_dir name) else okE ()) (\<lambda>_.
           bindE (wr name b) (\<lambda>_. extract_entries mk wr es))
       | TarOther n t \<Rightarrow> failE (new_error (''tar entry '' @ quote n @ '' has unsupported type '' @ [CHR 0x27] @ t @ [CHR 0x27])))"

definition extract_tar_file :: "'w workspace \<Rightarrow> string \<Rightarrow> string \<Rightarrow> ('w, unit) io" where
  "extract_tar_file ws src dst = bindE (open_file ws src) (\<lambda>b.
     bindE (mkdir_all ws dst) (\<lambda>_.
       case read_tar ws (body_bytes b) of (es, err) \<Rightarrow>
         bindE (extract_entries (root_mkdir ws dst) (root_write ws dst) es) (\<lambda>_.
           case err of None \<Rightarrow> okE () | Some e \<Rightarrow> failE (wrap_error ''tar read'' e))))"

section \<open>Reading a tree\<close>

fun count_node :: "node \<Rightarrow> nat" and count_children :: "(string \<times> node) list \<Rightarrow> nat" where
  "count_node (File s) = 1"
| "count_node (Dir cs) = count_children cs"
| "count_node Other = 0"
| "count_node (Broken e) = 0"
| "count_children [] = 0"
| "count_children ((n, t) # cs) = count_node t + count_children cs"

definition count_files :: "'w workspace \<Rightarrow> string \<Rightarrow> 'w \<Rightarrow> nat" where
  "count_files ws dir w = (case read_tree ws dir w of None \<Rightarrow> 0 | Some t \<Rightarrow> count_node t)"

fun node_has_file :: "node \<Rightarrow> bool" and children_have_file :: "(string \<times> node) list \<Rightarrow> bool" where
  "node_has_file (File s) = True"
| "node_has_file (Dir cs) = children_have_file cs"
| "node_has_file Other = False"
| "node_has_file (Broken e) = False"
| "children_have_file [] = False"
| "children_have_file ((n, t) # cs) = (node_has_file t \<or> children_have_file cs)"

definition dir_has_files :: "'w workspace \<Rightarrow> string \<Rightarrow> 'w \<Rightarrow> bool" where
  "dir_has_files ws dir w = (case read_tree ws dir w of None \<Rightarrow> False | Some t \<Rightarrow> node_has_file t)"

lemma has_file_count: "node_has_file t \<longleftrightarrow> 0 < count_node t" "children_have_file cs \<longleftrightarrow> 0 < count_children cs"
  by (induction t and cs rule: count_node_count_children.induct) auto

definition is_dir :: "node \<Rightarrow> bool" where
  "is_dir t = (case t of Dir cs \<Rightarrow> True | _ \<Rightarrow> False)"

fun remove_each :: "'w workspace \<Rightarrow> string \<Rightarrow> string list \<Rightarrow> ('w, unit) io" where
  "remove_each ws dir [] = okE ()"
| "remove_each ws dir (n # ns) = bindE (remove_tree ws (file_join dir n)) (\<lambda>_. remove_each ws dir ns)"

definition keep_only_objects :: "'w workspace \<Rightarrow> string \<Rightarrow> ('w, unit) io" where
  "keep_only_objects ws dir = bindE (readE (read_tree ws dir)) (\<lambda>t. case t of
       None \<Rightarrow> okE ()
     | Some (Dir cs) \<Rightarrow> remove_each ws dir (map fst (filter (\<lambda>(n, t). \<not> (n = ''objects'' \<and> is_dir t)) cs))
     | Some (Broken e) \<Rightarrow> failE e
     | Some _ \<Rightarrow> failE (new_error (''readdirent '' @ dir @ '': not a directory'')))"

definition lfs_pointer_limit :: nat where "lfs_pointer_limit = 1024"

definition lfs_pointer_lines :: "string list" where
  "lfs_pointer_lines = [''version https://git-lfs.github.com/spec/v1'', ''version https://hawser.github.com/spec/v1'']"

definition is_pointer :: "string \<Rightarrow> bool" where
  "is_pointer b \<longleftrightarrow> length b < lfs_pointer_limit \<and> (\<exists>l \<in> set lfs_pointer_lines. has_prefix l b)"

text \<open>The walk over a restored tree; the .git directory of its root is not entered.\<close>

fun pointers_node :: "('w \<Rightarrow> goerr option) \<Rightarrow> string \<Rightarrow> node \<Rightarrow> ('w, string list) io"
  and pointers_children :: "('w \<Rightarrow> goerr option) \<Rightarrow> string \<Rightarrow> (string \<times> node) list \<Rightarrow> ('w, string list) io" where
  "pointers_node ctx rel (File s) = bindE (readE ctx) (\<lambda>e. case e of Some x \<Rightarrow> failE x
     | None \<Rightarrow> okE (if rel = ''.git'' then [] else if is_pointer s then [rel] else []))"
| "pointers_node ctx rel (Dir cs) = bindE (readE ctx) (\<lambda>e. case e of Some x \<Rightarrow> failE x
     | None \<Rightarrow> if rel = ''.git'' then okE [] else pointers_children ctx rel cs)"
| "pointers_node ctx rel Other = bindE (readE ctx) (\<lambda>e. case e of Some x \<Rightarrow> failE x | None \<Rightarrow> okE [])"
| "pointers_node ctx rel (Broken x) = failE x"
| "pointers_children ctx rel [] = okE []"
| "pointers_children ctx rel ((n, t) # cs) = bindE (pointers_node ctx (rel_join rel n) t) (\<lambda>ps.
     bindE (pointers_children ctx rel cs) (\<lambda>qs. okE (ps @ qs)))"

definition lfs_pointers :: "'w workspace \<Rightarrow> ('w \<Rightarrow> goerr option) \<Rightarrow> string \<Rightarrow> ('w, string list) io" where
  "lfs_pointers ws ctx root = mapErrE (wrap_error ''read the restored tree back'')
     (bindE (readE (read_tree ws root)) (\<lambda>t. case t of
          None \<Rightarrow> failE (new_error (''lstat '' @ root @ '': no such file or directory''))
        | Some n \<Rightarrow> pointers_node ctx [] n))"

section \<open>No entry escapes\<close>

text \<open>What is left of a relative path once it is clean: leading dot-dots, then plain segments.\<close>

definition cleaned :: "string list \<Rightarrow> bool" where
  "cleaned ss \<longleftrightarrow> (\<exists>k ps. ss = replicate k ''..'' @ ps \<and> (\<forall>p \<in> set ps. plain_seg p))"

lemma cleaned_snoc: "cleaned ss \<Longrightarrow> plain_seg s \<Longrightarrow> cleaned (ss @ [s])"
proof -
  assume "cleaned ss" and s: "plain_seg s"
  then obtain k ps where "ss = replicate k ''..'' @ ps" "\<forall>p \<in> set ps. plain_seg p"
    unfolding cleaned_def by blast
  then show ?thesis
    using s unfolding cleaned_def by (intro exI [of _ k] exI [of _ "ps @ [s]"]) auto
qed

lemma cleaned_dots: "(\<forall>s \<in> set ss. s = ''..'') \<Longrightarrow> cleaned ss"
proof -
  assume "\<forall>s \<in> set ss. s = ''..''"
  then have "ss = replicate (length ss) ''..''" by (metis replicate_length_same)
  then show ?thesis unfolding cleaned_def by (metis append_Nil2 empty_iff list.set(1))
qed

lemma dots_not_plain: "\<not> plain_seg ''..''"
  by (simp add: plain_seg_def)

lemma cleaned_last_dots: "cleaned (ss @ [''..'']) \<Longrightarrow> \<forall>s \<in> set ss. s = ''..''"
proof -
  assume "cleaned (ss @ [''..''])"
  then obtain k ps where e: "ss @ [''..''] = replicate k ''..'' @ ps" and p: "\<forall>p \<in> set ps. plain_seg p"
    unfolding cleaned_def by blast
  have "ps = []"
  proof (rule ccontr)
    assume "ps \<noteq> []"
    then have "last ps = ''..''" using e by (metis last_appendR last_snoc)
    then show False using p \<open>ps \<noteq> []\<close> dots_not_plain by (metis last_in_set)
  qed
  then have "set (ss @ [''..'']) \<subseteq> {''..''}" using e by (auto simp: set_replicate_conv_if split: if_splits)
  then show ?thesis by auto
qed

lemma cleaned_butlast: "cleaned (ss @ [s]) \<Longrightarrow> s \<noteq> ''..'' \<Longrightarrow> cleaned ss"
proof -
  assume c: "cleaned (ss @ [s])" and s: "s \<noteq> ''..''"
  then obtain k ps where e: "ss @ [s] = replicate k ''..'' @ ps" and p: "\<forall>p \<in> set ps. plain_seg p"
    unfolding cleaned_def by blast
  show ?thesis
  proof (cases ps rule: rev_cases)
    case Nil
    then have "s \<in> set (replicate k ''..'')" using e by (metis append_Nil2 in_set_conv_decomp)
    then show ?thesis using s by (simp add: set_replicate_conv_if split: if_splits)
  next
    case (snoc qs q)
    then have "ss = replicate k ''..'' @ qs" using e by (metis append.assoc butlast_snoc)
    then show ?thesis using p snoc unfolding cleaned_def by auto
  qed
qed

lemma clean_segs_cleaned:
  "\<forall>s \<in> set ss. CHR ''/'' \<notin> set s \<Longrightarrow> cleaned (rev acc) \<Longrightarrow> cleaned (clean_segs False acc ss)"
proof (induction False acc ss rule: clean_segs.induct)
  case (2 acc s ss)
  have noslash: "\<forall>s \<in> set ss. CHR ''/'' \<notin> set s" using 2 by simp
  consider "s = [] \<or> s = ''.''" | "s = ''..''" "acc = []" | t ts where "s = ''..''" "acc = t # ts" "t = ''..''"
    | t ts where "s = ''..''" "acc = t # ts" "t \<noteq> ''..''" | "plain_seg s"
    using 2(6) unfolding plain_seg_def by (cases acc) auto
  then show ?case
  proof cases
    case 1
    then have "clean_segs False acc (s # ss) = clean_segs False acc ss" by auto
    then show ?thesis using 2 1 noslash by metis
  next
    case h: 2
    then have "clean_segs False acc (s # ss) = clean_segs False [s] ss" by simp
    moreover have "cleaned (rev [s])" using cleaned_dots [of "[s]"] h by simp
    ultimately show ?thesis using 2(2) h noslash by simp
  next
    case (3 t ts)
    then have "clean_segs False acc (s # ss) = clean_segs False (s # acc) ss" by simp
    moreover have "cleaned (rev (s # acc))"
    proof (rule cleaned_dots)
      have "\<forall>x \<in> set (rev ts). x = ''..''" using 2(7) 3 by (intro cleaned_last_dots) simp
      then show "\<forall>x \<in> set (rev (s # acc)). x = ''..''" using 3 by auto
    qed
    ultimately show ?thesis using 2(3) 3 noslash by simp
  next
    case (4 t ts)
    then have "clean_segs False acc (s # ss) = clean_segs False ts ss" by simp
    moreover have "cleaned (rev ts)" using 2(7) 4 by (intro cleaned_butlast [of "rev ts" t]) simp_all
    ultimately show ?thesis using 2(4) 4 noslash by simp
  next
    case 5
    then have ne: "s \<noteq> []" "s \<noteq> ''.''" "s \<noteq> ''..''" by (auto simp: plain_seg_def)
    then have "clean_segs False acc (s # ss) = clean_segs False (s # acc) ss" by simp
    moreover have "cleaned (rev (s # acc))" using cleaned_snoc [OF 2(7) 5] by simp
    ultimately show ?thesis using 2(5) ne noslash by simp
  qed
qed simp

lemma tar_entry_path_contained:
  assumes "tar_entry_path raw = Inr name"
  shows "name = ''.'' \<or> plain_path name \<and> length (split_on (CHR ''/'') name) \<le> max_tar_entry_depth"
proof (cases "name = ''.''")
  case False
  have name: "name = path_clean raw" and abs: "\<not> has_prefix ''/'' name"
    and dots: "name \<noteq> ''..''" "\<not> has_prefix ''../'' name"
    and depth: "length (filter (\<lambda>c. c = CHR ''/'') name) + 1 \<le> max_tar_entry_depth"
    using assms by (auto simp: tar_entry_path_def Let_def split: if_splits)
  have rel: "\<not> has_prefix ''/'' raw"
  proof
    assume r: "has_prefix ''/'' raw"
    then have "raw \<noteq> []" by (auto simp: has_prefix_def)
    with r have "has_prefix ''/'' (path_clean raw)" by (simp add: path_clean_def Let_def has_prefix_def)
    with abs name show False by simp
  qed
  define ss where "ss = clean_segs False [] (split_on (CHR ''/'') raw)"
  have ne: "ss \<noteq> []" and j: "name = join_with ''/'' ss"
    using name rel False by (auto simp: path_clean_def ss_def Let_def split: if_splits)
  have "cleaned ss"
    unfolding ss_def by (rule clean_segs_cleaned) (auto simp: split_on_parts cleaned_def)
  then obtain k ps where kp: "ss = replicate k ''..'' @ ps" and plain: "\<forall>p \<in> set ps. plain_seg p"
    unfolding cleaned_def by blast
  have "k = 0"
  proof (rule ccontr)
    assume "k \<noteq> 0"
    then obtain rest where "ss = ''..'' # rest" using kp by (cases k) auto
    then show False using j dots by (cases rest) (auto simp: has_prefix_def)
  qed
  then have pl: "\<forall>p \<in> set ss. plain_seg p" using kp plain by simp
  have sp: "split_on (CHR ''/'') name = ss"
    unfolding j by (rule split_join) (use ne pl in \<open>auto simp: plain_seg_def\<close>)
  have count: "length (split_on c s) = length (filter (\<lambda>x. x = c) s) + 1" for c s
    by (induction s) (auto split: list.splits)
  show ?thesis
    using pl sp depth count [of "CHR ''/''" name] by (simp add: plain_path_def)
qed simp

section \<open>An archive unpacks to the tree it was made from\<close>

text \<open>
  The operations of a root on a tree: MkdirAll and writing a file whose directory exists. A name
  that is taken by something else is an error.
\<close>

definition err_not_dir :: goerr where "err_not_dir = new_error ''not a directory''"

fun tree_mkdir :: "string list \<Rightarrow> node \<Rightarrow> goerr + node" where
  "tree_mkdir [] (Dir cs) = Inr (Dir cs)"
| "tree_mkdir (s # ss) (Dir cs) = (case map_of cs s of
       None \<Rightarrow> (case tree_mkdir ss (Dir []) of Inl e \<Rightarrow> Inl e | Inr t \<Rightarrow> Inr (Dir (cs @ [(s, t)])))
     | Some c \<Rightarrow> (case tree_mkdir ss c of Inl e \<Rightarrow> Inl e | Inr t \<Rightarrow> Inr (Dir (AList.update s t cs))))"
| "tree_mkdir ss t = Inl err_not_dir"

fun tree_write :: "string list \<Rightarrow> string \<Rightarrow> node \<Rightarrow> goerr + node" where
  "tree_write [s] b (Dir cs) = (case map_of cs s of
       None \<Rightarrow> Inr (Dir (cs @ [(s, File b)]))
     | Some (File x) \<Rightarrow> Inr (Dir (AList.update s (File b) cs))
     | Some c \<Rightarrow> Inl err_not_dir)"
| "tree_write (s # t # ss) b (Dir cs) = (case map_of cs s of
       None \<Rightarrow> Inl err_not_dir
     | Some c \<Rightarrow> (case tree_write (t # ss) b c of Inl e \<Rightarrow> Inl e | Inr u \<Rightarrow> Inr (Dir (AList.update s u cs))))"
| "tree_write ss b t = Inl err_not_dir"

definition tree_step :: "(node \<Rightarrow> goerr + node) \<Rightarrow> (node, unit) io" where
  "tree_step f = (\<lambda>t. case f t of Inl e \<Rightarrow> (Inl e, t) | Inr t' \<Rightarrow> (Inr (), t'))"

definition segs :: "string \<Rightarrow> string list" where
  "segs p = split_on (CHR ''/'') p"

definition unpack :: "tar_entry list \<Rightarrow> (node, unit) io" where
  "unpack = extract_entries (\<lambda>n. tree_step (tree_mkdir (segs n))) (\<lambda>n b. tree_step (tree_write (segs n) b))"

text \<open>The entries the walk writes for a tree that can be read.\<close>

fun entries_node :: "string \<Rightarrow> node \<Rightarrow> tar_entry list" and entries_children :: "string \<Rightarrow> (string \<times> node) list \<Rightarrow> tar_entry list" where
  "entries_node rel (File s) = [TarFile rel s]"
| "entries_node rel (Dir cs) = (if rel = [] then [] else [TarDir (rel @ ''/'')]) @ entries_children rel cs"
| "entries_node rel Other = []"
| "entries_node rel (Broken e) = []"
| "entries_children rel [] = []"
| "entries_children rel ((n, t) # cs) = entries_node (rel_join rel n) t @ entries_children rel cs"

text \<open>
  A tree of directories and regular files with plain, distinct names, no deeper than an archive
  may be: what git-lfs keeps under lfs/objects.
\<close>

fun tree_ok :: "nat \<Rightarrow> node \<Rightarrow> bool" and children_ok :: "nat \<Rightarrow> (string \<times> node) list \<Rightarrow> bool" where
  "tree_ok d (File s) = True"
| "tree_ok d (Dir cs) = (distinct (map fst cs) \<and> children_ok d cs)"
| "tree_ok d Other = False"
| "tree_ok d (Broken e) = False"
| "children_ok d [] = True"
| "children_ok d ((n, t) # cs) = (plain_seg n \<and> 0 < d \<and> tree_ok (d - 1) t \<and> children_ok d cs)"

fun node_at :: "string list \<Rightarrow> node \<Rightarrow> node option" where
  "node_at [] t = Some t"
| "node_at (s # ss) (Dir cs) = (case map_of cs s of None \<Rightarrow> None | Some c \<Rightarrow> node_at ss c)"
| "node_at ss t = None"

fun set_at :: "string list \<Rightarrow> node \<Rightarrow> node \<Rightarrow> node" where
  "set_at [] n t = n"
| "set_at (s # ss) n (Dir cs) = (case map_of cs s of None \<Rightarrow> Dir cs | Some c \<Rightarrow> Dir (AList.update s (set_at ss n c) cs))"
| "set_at ss n t = t"

lemma update_same: "map_of cs s = Some c \<Longrightarrow> AList.update s c cs = cs"
  by (induction cs) (auto split: if_splits)

lemma update_append: "map_of cs s = None \<Longrightarrow> AList.update s y (cs @ [(s, x)]) = cs @ [(s, y)]"
  by (induction cs) (auto split: if_splits)

lemma update_twice: "AList.update s x (AList.update s y cs) = AList.update s x cs"
  by (induction cs) auto

lemma map_of_update: "map_of (AList.update s x cs) s = Some x"
  by (simp add: update_conv')

lemma set_at_at: "node_at p t = Some x \<Longrightarrow> set_at p x t = t"
  by (induction p t rule: node_at.induct) (auto split: option.splits simp: update_same)

lemma node_at_set: "node_at p t = Some x \<Longrightarrow> node_at p (set_at p n t) = Some n"
  by (induction p t rule: node_at.induct) (auto split: option.splits simp: map_of_update)

lemma set_at_set: "node_at p t = Some x \<Longrightarrow> set_at p m (set_at p n t) = set_at p m t"
  by (induction p t rule: node_at.induct) (auto split: option.splits simp: map_of_update update_twice)

lemma node_at_child:
  "node_at p t = Some x \<Longrightarrow> map_of cs s = None \<Longrightarrow> node_at (p @ [s]) (set_at p (Dir (cs @ [(s, c)])) t) = Some c"
  by (induction p t rule: node_at.induct) (auto split: option.splits simp: map_of_update map_add_def)

lemma set_at_child:
  "node_at p t = Some x \<Longrightarrow> map_of cs s = None \<Longrightarrow>
   set_at (p @ [s]) y (set_at p (Dir (cs @ [(s, c)])) t) = set_at p (Dir (cs @ [(s, y)])) t"
  by (induction p t rule: node_at.induct)
    (auto split: option.splits simp: map_of_update update_twice update_append map_add_def)

lemma tree_mkdir_child:
  "node_at p t = Some (Dir cs) \<Longrightarrow> map_of cs s = None \<Longrightarrow>
   tree_mkdir (p @ [s]) t = Inr (set_at p (Dir (cs @ [(s, Dir [])])) t)"
  by (induction p t rule: node_at.induct) (auto split: option.splits)

lemma tree_mkdir_there: "node_at p t = Some (Dir cs) \<Longrightarrow> tree_mkdir p t = Inr t"
proof (induction p t rule: node_at.induct)
  case (1 t)
  then show ?case by simp
next
  case (2 s ss cs')
  then show ?case by (auto split: option.splits simp: update_same)
qed simp_all

lemma tree_write_child:
  "node_at p t = Some (Dir cs) \<Longrightarrow> map_of cs s = None \<Longrightarrow>
   tree_write (p @ [s]) b t = Inr (set_at p (Dir (cs @ [(s, File b)])) t)"
proof (induction p t rule: node_at.induct)
  case (1 t)
  then show ?case by simp
next
  case (2 q qs cs')
  then obtain c where c: "map_of cs' q = Some c" "node_at qs c = Some (Dir cs)" by (auto split: option.splits)
  have "tree_write (qs @ [s]) b c = Inr (set_at qs (Dir (cs @ [(s, File b)])) c)"
    using 2 c by simp
  then show ?case using c by (cases qs) simp_all
qed simp_all

lemma extract_append: "extract_entries mk wr (es @ es') = bindE (extract_entries mk wr es) (\<lambda>_. extract_entries mk wr es')"
proof (induction es)
  case (Cons e es)
  then show ?case
    by (cases e) (auto simp: bindE_def fun_eq_iff split: sum.splits prod.splits)
qed (simp only: extract_entries.simps bindE_ok append.simps)

definition path_of :: "string list \<Rightarrow> string" where
  "path_of p = join_with ''/'' p"

definition all_plain :: "string list \<Rightarrow> bool" where
  "all_plain p \<longleftrightarrow> (\<forall>s \<in> set p. plain_seg s)"

lemma segs_path_of: "all_plain p \<Longrightarrow> p \<noteq> [] \<Longrightarrow> segs (path_of p) = p"
  unfolding segs_def path_of_def by (rule split_join) (auto simp: all_plain_def plain_seg_def)

lemma path_of_plain: "all_plain p \<Longrightarrow> p \<noteq> [] \<Longrightarrow> plain_path (path_of p)"
  using segs_path_of [of p] by (simp add: plain_path_def segs_def all_plain_def)

lemma path_of_snoc: "p \<noteq> [] \<Longrightarrow> path_of (p @ [s]) = path_of p @ ''/'' @ s"
  unfolding path_of_def by (induction p rule: induct_list012) simp_all

lemma rel_join_path: "all_plain p \<Longrightarrow> rel_join (path_of p) s = path_of (p @ [s])"
proof (cases "p = []")
  case False
  assume "all_plain p"
  then have "path_of p \<noteq> []" using path_of_plain False plain_path_nonempty by blast
  then show ?thesis using False by (simp add: rel_join_def path_of_snoc)
qed (simp add: rel_join_def path_of_def)

lemma plain_no_dots: "plain_path p \<Longrightarrow> p \<noteq> ''..'' \<and> \<not> has_prefix ''../'' p \<and> p \<noteq> ''.''"
proof -
  assume p: "plain_path p"
  have one: "\<not> plain_path ''..''" "\<not> plain_path ''.''"
    by (simp_all add: plain_path_def plain_seg_def)
  have "\<not> plain_path (''..'' @ ''/'' @ r)" for r
    using one(1) by (simp add: plain_path_append del: append.simps)
  then show ?thesis using p one by (auto simp: has_prefix_iff)
qed

lemma split_count: "length (split_on c s) = length (filter (\<lambda>x. x = c) s) + 1"
  by (induction s) (auto split: list.splits)

lemma entry_path_plain:
  assumes "path_clean raw = path_of p" and "all_plain p" and "p \<noteq> []" and "length p \<le> max_tar_entry_depth"
  shows "tar_entry_path raw = Inr (path_of p)"
proof -
  have pl: "plain_path (path_of p)" using assms by (intro path_of_plain)
  have "length (filter (\<lambda>c. c = CHR ''/'') (path_of p)) + 1 = length p"
    using split_count [of "CHR ''/''" "path_of p"] segs_path_of [OF assms(2,3)] by (simp add: segs_def)
  then show ?thesis
    using assms plain_no_dots [OF pl] plain_path_not_rooted [OF pl] by (simp add: tar_entry_path_def Let_def)
qed

lemma path_dir_of:
  assumes "all_plain p" and "plain_seg s"
  shows "path_dir (path_of (p @ [s])) = (if p = [] then ''.'' else path_of p)"
proof (cases "p = []")
  case True
  have "CHR ''/'' \<notin> set s" using assms(2) by (simp add: plain_seg_def)
  then show ?thesis by (simp add: True path_of_def path_dir_def split_on_no_sep)
next
  case False
  have "path_dir (path_of p @ ''/'' @ s) = path_of p"
    by (rule path_dir_plain) (use assms False in \<open>auto simp: path_of_plain plain_seg_def\<close>)
  then show ?thesis using False by (simp add: path_of_snoc)
qed

lemma unpack_file:
  assumes p: "all_plain p" "plain_seg s" "length p < max_tar_entry_depth"
    and t: "node_at p t = Some (Dir cs)" "map_of cs s = None"
  shows "unpack [TarFile (path_of (p @ [s])) b] t = (Inr (), set_at p (Dir (cs @ [(s, File b)])) t)"
proof -
  have ps: "all_plain (p @ [s])" "p @ [s] \<noteq> []" using p by (auto simp: all_plain_def)
  have e: "tar_entry_path (path_of (p @ [s])) = Inr (path_of (p @ [s]))"
    by (rule entry_path_plain) (use ps p path_of_plain path_clean_plain in auto)
  have nd: "path_of (p @ [s]) \<noteq> ''.''" using plain_no_dots [OF path_of_plain [OF ps]] by simp
  have mk: "tree_mkdir (segs (path_dir (path_of (p @ [s])))) t = Inr t" if "path_dir (path_of (p @ [s])) \<noteq> ''.''"
  proof -
    have ne: "p \<noteq> []" and dir: "path_dir (path_of (p @ [s])) = path_of p"
      using that path_dir_of [OF p(1,2)] by (auto split: if_splits)
    then show ?thesis by (simp add: segs_path_of [OF p(1) ne] tree_mkdir_there [OF t(1)])
  qed
  show ?thesis
    unfolding unpack_def using e nd mk
    by (simp add: entry_name_def bindE_def segs_path_of [OF ps] tree_step_def tree_write_child [OF t])
qed

lemma unpack_dir:
  assumes p: "all_plain p" "plain_seg s" "length p < max_tar_entry_depth"
    and t: "node_at p t = Some (Dir cs)" "map_of cs s = None"
  shows "unpack [TarDir (path_of (p @ [s]) @ ''/'')] t = (Inr (), set_at p (Dir (cs @ [(s, Dir [])])) t)"
proof -
  have ps: "all_plain (p @ [s])" "p @ [s] \<noteq> []" using p by (auto simp: all_plain_def)
  have e: "tar_entry_path (path_of (p @ [s]) @ ''/'') = Inr (path_of (p @ [s]))"
    by (rule entry_path_plain) (use ps p path_of_plain path_clean_trailing in auto)
  have nd: "path_of (p @ [s]) \<noteq> ''.''" using plain_no_dots [OF path_of_plain [OF ps]] by simp
  show ?thesis
    unfolding unpack_def using e nd
    by (simp add: entry_name_def bindE_def segs_path_of [OF ps] tree_step_def tree_mkdir_child [OF t])
qed

lemma unpack_append: "unpack (es @ es') t = (case unpack es t of (Inl e, t') \<Rightarrow> (Inl e, t') | (Inr x, t') \<Rightarrow> unpack es' t')"
  by (simp add: unpack_def extract_append bindE_def split: prod.splits sum.splits)

lemma unpack_tree:
  "tree_ok d n \<Longrightarrow> all_plain p \<Longrightarrow> plain_seg s \<Longrightarrow> length p + d < max_tar_entry_depth \<Longrightarrow>
   node_at p t = Some (Dir cs0) \<Longrightarrow> map_of cs0 s = None \<Longrightarrow>
   unpack (entries_node (path_of (p @ [s])) n) t = (Inr (), set_at p (Dir (cs0 @ [(s, n)])) t)"
  "children_ok d cs \<Longrightarrow> distinct (map fst (cs0 @ cs)) \<Longrightarrow> all_plain p \<Longrightarrow> length p + d \<le> max_tar_entry_depth \<Longrightarrow>
   node_at p t = Some (Dir cs0) \<Longrightarrow>
   unpack (entries_children (path_of p) cs) t = (Inr (), set_at p (Dir (cs0 @ cs)) t)"
proof (induction d n and d cs arbitrary: p s t cs0 and p t cs0 rule: tree_ok_children_ok.induct)
  case (1 d b)
  then show ?case using unpack_file [of p s t cs0 b] by simp
next
  case (2 d cs)
  have ps: "all_plain (p @ [s])" using 2(3,4) by (auto simp: all_plain_def)
  have ne: "path_of (p @ [s]) \<noteq> []" using path_of_plain [OF ps] plain_path_nonempty by simp
  let ?t1 = "set_at p (Dir (cs0 @ [(s, Dir [])])) t"
  have dir: "unpack [TarDir (path_of (p @ [s]) @ ''/'')] t = (Inr (), ?t1)"
    by (rule unpack_dir) (use 2 in auto)
  have at: "node_at (p @ [s]) ?t1 = Some (Dir [])" by (rule node_at_child [OF 2(6,7)])
  have "unpack (entries_children (path_of (p @ [s])) cs) ?t1 = (Inr (), set_at (p @ [s]) (Dir ([] @ cs)) ?t1)"
    by (rule 2(1)) (use 2 ps at in auto)
  then have rest: "unpack (entries_children (path_of (p @ [s])) cs) ?t1 = (Inr (), set_at p (Dir (cs0 @ [(s, Dir cs)])) t)"
    using set_at_child [OF 2(6,7)] by simp
  show ?case
    using ne unpack_append [of "[TarDir (path_of (p @ [s]) @ ''/'')]" "entries_children (path_of (p @ [s])) cs" t]
    by (simp add: dir rest del: unpack_append)
next
  case (5 d)
  then show ?case by (simp add: unpack_def set_at_at)
next
  case (6 d n c cs)
  have n: "map_of cs0 n = None" using 6(4) by (auto simp: map_of_eq_None_iff)
  let ?t1 = "set_at p (Dir (cs0 @ [(n, c)])) t"
  have one: "unpack (entries_node (path_of (p @ [n])) c) t = (Inr (), ?t1)"
    by (rule 6(1)) (use 6 n in auto)
  have at: "node_at p ?t1 = Some (Dir (cs0 @ [(n, c)]))" by (rule node_at_set [OF 6(7)])
  have "unpack (entries_children (path_of p) cs) ?t1 = (Inr (), set_at p (Dir ((cs0 @ [(n, c)]) @ cs)) ?t1)"
    by (rule 6(2)) (use 6 at in auto)
  then have rest: "unpack (entries_children (path_of p) cs) ?t1 = (Inr (), set_at p (Dir (cs0 @ (n, c) # cs)) t)"
    using set_at_set [OF 6(7)] by simp
  show ?case
    using 6(5) by (simp add: rel_join_path unpack_append one rest)
qed simp_all

text \<open>The walk, on a machine whose files are the tree's, writes those entries.\<close>

lemma unpack_archive:
  assumes "tree_ok max_tar_entry_depth (Dir cs)"
  shows "unpack (entries_node [] (Dir cs)) (Dir []) = (Inr (), Dir cs)"
  using unpack_tree(2) [of max_tar_entry_depth cs "[]" "[]" "Dir []"] assms
  by (simp add: path_of_def all_plain_def)

definition disk_gives :: "'w workspace \<Rightarrow> string \<Rightarrow> tar_entry list \<Rightarrow> bool" where
  "disk_gives ws src es \<longleftrightarrow> (\<forall>n b. TarFile n b \<in> set es \<longrightarrow>
     (\<forall>w. \<exists>w'. open_file ws (file_join src n) w = (Inr \<lparr>body_bytes = b, body_err = None\<rparr>, w'))
     \<and> (\<forall>w. \<exists>w'. remove_file ws (file_join src n) w = (Inr (), w')))"

lemma disk_gives_append: "disk_gives ws src (xs @ ys) \<longleftrightarrow> disk_gives ws src xs \<and> disk_gives ws src ys"
  by (auto simp: disk_gives_def)

lemma tar_node_entries:
  "disk_gives ws src (entries_node rel t) \<Longrightarrow> tree_ok d t \<Longrightarrow>
   \<exists>w'. tar_node ws (\<lambda>_. None) rm src rel t w = (Inr (entries_node rel t), w')"
  "disk_gives ws src (entries_children rel cs) \<Longrightarrow> children_ok d cs \<Longrightarrow>
   \<exists>w'. tar_children ws (\<lambda>_. None) rm src rel cs w = (Inr (entries_children rel cs), w')"
proof (induction rel t and rel cs arbitrary: d w and d w rule: entries_node_entries_children.induct)
  case (1 rel s)
  then obtain w1 where "open_file ws (file_join src rel) w = (Inr \<lparr>body_bytes = s, body_err = None\<rparr>, w1)"
    by (fastforce simp: disk_gives_def)
  moreover obtain w2 where "remove_file ws (file_join src rel) w1 = (Inr (), w2)"
    using 1 by (fastforce simp: disk_gives_def)
  ultimately show ?case by (simp add: bindE_def)
next
  case (2 rel cs)
  then have "disk_gives ws src (entries_children rel cs)" and "children_ok d cs"
    by (auto simp: disk_gives_append)
  then obtain w1 where "tar_children ws (\<lambda>_. None) rm src rel cs w = (Inr (entries_children rel cs), w1)"
    using 2 by blast
  then show ?case by (simp add: bindE_def)
next
  case (6 rel n t cs)
  then have d: "disk_gives ws src (entries_node (rel_join rel n) t)" "disk_gives ws src (entries_children rel cs)"
    and ok: "tree_ok (d - 1) t" "children_ok d cs"
    by (auto simp: disk_gives_append)
  obtain w1 where w1: "tar_node ws (\<lambda>_. None) rm src (rel_join rel n) t w = (Inr (entries_node (rel_join rel n) t), w1)"
    using 6(1) [OF d(1) ok(1)] by blast
  obtain w2 where "tar_children ws (\<lambda>_. None) rm src rel cs w1 = (Inr (entries_children rel cs), w2)"
    using 6(2) [OF d(2) ok(2)] by blast
  with w1 show ?case by (simp add: bindE_def)
qed simp_all

end
