(* ===== verification/Config.thy ===== *)
theory Config
  imports Dest "HOL-Library.AList"
begin

text \<open>
  src/internal/config/config.go: the configuration, its defaults, the overrides from the
  environment, its validation, and which GitHub credential a run uses. Reading the YAML file is
  not modelled: a file's effect is the configuration the overrides start from. A file of a key
  is read through a parameter.
\<close>

section \<open>The configuration\<close>

record github_config =
  gh_app_id :: int
  gh_installation_id :: int
  gh_key_path :: string
  gh_key :: string
  gh_token_path :: string
  gh_max_wait :: duration

record source_config =
  sc_type :: string
  sc_base_url :: string
  sc_repo :: string
  sc_include :: "string list"
  sc_exclude :: "string list"
  sc_github :: github_config
  sc_gitlab_token :: string

record s3_config =
  s3_bucket :: string
  s3_region :: string
  s3_endpoint :: string
  s3_path_style :: bool
  s3_threshold :: int
  s3_part_size :: int

record azure_config =
  az_account :: string
  az_container :: string
  az_endpoint :: string
  az_connection :: string
  az_subscription :: string
  az_group :: string

record destination_config =
  dc_type :: string
  dc_s3 :: s3_config
  dc_gcs_bucket :: string
  dc_gcs_endpoint :: string
  dc_azure :: azure_config
  dc_mode :: string
  dc_days :: int

record backup_config =
  bc_concurrency :: int
  bc_resume :: bool
  bc_lfs :: bool
  bc_recopy :: "string list"

record manifest_config =
  mc_key_path :: string
  mc_public_path :: string
  mc_key :: string

record config =
  cf_source :: source_config
  cf_destination :: destination_config
  cf_backup :: backup_config
  cf_manifest :: manifest_config
  cf_textfile :: string
  cf_encrypt :: bool
  cf_encryption_key :: string
  cf_worm_require :: bool
  cf_log_level :: string
  cf_log_format :: string

definition default_config :: config where
  "default_config =
     \<lparr>cf_source = \<lparr>sc_type = ''github'', sc_base_url = [], sc_repo = [], sc_include = [], sc_exclude = [],
        sc_github = \<lparr>gh_app_id = 0, gh_installation_id = 0, gh_key_path = [], gh_key = [], gh_token_path = [],
          gh_max_wait = 0\<rparr>, sc_gitlab_token = []\<rparr>,
      cf_destination = \<lparr>dc_type = ''s3'',
        dc_s3 = \<lparr>s3_bucket = [], s3_region = [], s3_endpoint = [], s3_path_style = False, s3_threshold = 0, s3_part_size = 0\<rparr>,
        dc_gcs_bucket = [], dc_gcs_endpoint = [],
        dc_azure = \<lparr>az_account = [], az_container = [], az_endpoint = [], az_connection = [], az_subscription = [], az_group = []\<rparr>,
        dc_mode = ''COMPLIANCE'', dc_days = 30\<rparr>,
      cf_backup = \<lparr>bc_concurrency = 4, bc_resume = True, bc_lfs = True, bc_recopy = []\<rparr>,
      cf_manifest = \<lparr>mc_key_path = [], mc_public_path = [], mc_key = []\<rparr>,
      cf_textfile = [], cf_encrypt = False, cf_encryption_key = [], cf_worm_require = False,
      cf_log_level = ''info'', cf_log_format = ''json''\<rparr>"

section \<open>Parsing values\<close>

definition split_list :: "string \<Rightarrow> string list" where
  "split_list s = filter (\<lambda>i. i \<noteq> []) (map trim_space (split_on (CHR '','') s))"

text \<open>\<open>strconv.ParseInt(s, 10, 64)\<close>\<close>

definition parse_int64 :: "string \<Rightarrow> int option" where
  "parse_int64 s = (let (neg, ds) = (case s of
         c # cs \<Rightarrow> if c = CHR ''-'' then (True, cs) else if c = CHR ''+'' then (False, cs) else (False, s)
       | [] \<Rightarrow> (False, []))
     in if ds = [] \<or> \<not> list_all is_digit ds then None
        else let n = (if neg then - num ds else num ds) in if in_int64 n then Some n else None)"

definition parse_bool :: "string \<Rightarrow> bool option" where
  "parse_bool s =
     (if s \<in> set [''1'', ''t'', ''T'', ''TRUE'', ''true'', ''True''] then Some True
      else if s \<in> set [''0'', ''f'', ''F'', ''FALSE'', ''false'', ''False''] then Some False
      else None)"

text \<open>
  \<open>time.ParseDuration\<close>: an optional sign, then numbers with a unit each. A fraction of a unit is
  cut to whole nanoseconds.
\<close>

definition duration_unit :: "string \<Rightarrow> int option" where
  "duration_unit u = map_of
     [(''ns'', 1), (''us'', 1000), ([CHR 0xC2, CHR 0xB5, CHR ''s''], 1000), ([CHR 0xCE, CHR 0xBC, CHR ''s''], 1000),
      (''ms'', 1000000), (''s'', second), (''m'', minute), (''h'', hour)] u"

definition fraction :: "string \<Rightarrow> string \<times> string" where
  "fraction r = (case r of
       c # cs \<Rightarrow> if c = CHR ''.'' then (takeWhile is_digit cs, dropWhile is_digit cs) else ([], r)
     | [] \<Rightarrow> ([], []))"

definition unit_byte :: "char \<Rightarrow> bool" where
  "unit_byte c \<longleftrightarrow> c \<noteq> CHR ''.'' \<and> \<not> is_digit c"

definition duration_part :: "string \<Rightarrow> (int \<times> string) option" where
  "duration_part s = (let whole = takeWhile is_digit s; (frac, r) = fraction (dropWhile is_digit s);
       u = takeWhile unit_byte r
     in if whole = [] \<and> frac = [] \<or> u = [] then None
        else case duration_unit u of
          None \<Rightarrow> None
        | Some k \<Rightarrow> Some (num whole * k + num frac * k div 10 ^ length frac, dropWhile unit_byte r))"

lemma fraction_shorter: "fraction r = (f, r') \<Longrightarrow> length r' \<le> length r"
  by (auto simp: fraction_def length_dropWhile_le le_SucI split: list.splits if_splits)

lemma duration_part_shorter:
  assumes "duration_part s = Some (v, rest)"
  shows "length rest < length s"
proof -
  obtain f r where fr: "fraction (dropWhile is_digit s) = (f, r)" by fastforce
  have u: "takeWhile unit_byte r \<noteq> []" and rest: "rest = dropWhile unit_byte r"
    using assms fr by (auto simp: duration_part_def Let_def split: if_splits option.splits)
  have "length (takeWhile unit_byte r) + length (dropWhile unit_byte r) = length r"
    by (metis length_append takeWhile_dropWhile_id)
  with u rest have "length rest < length r" by (cases "takeWhile unit_byte r") simp_all
  also have "length r \<le> length (dropWhile is_digit s)" using fr by (rule fraction_shorter)
  also have "\<dots> \<le> length s" by (rule length_dropWhile_le)
  finally show ?thesis .
qed

function parse_units :: "string \<Rightarrow> int \<Rightarrow> int option" where
  "parse_units s acc =
     (if s = [] then Some acc
      else case duration_part s of
        None \<Rightarrow> None
      | Some (v, rest) \<Rightarrow> if acc + v > 2 ^ 63 then None else parse_units rest (acc + v))"
  by pat_completeness auto
termination
  by (relation "measure (\<lambda>(s, acc). length s)") (auto dest: duration_part_shorter)

declare parse_units.simps [simp del]

definition parse_duration :: "string \<Rightarrow> duration option" where
  "parse_duration s = (let (neg, r) = (case s of
         c # cs \<Rightarrow> if c = CHR ''-'' then (True, cs) else if c = CHR ''+'' then (False, cs) else (False, s)
       | [] \<Rightarrow> (False, []))
     in if r = ''0'' then Some 0
        else if r = [] then None
        else case parse_units r 0 of
          None \<Rightarrow> None
        | Some d \<Rightarrow> if neg then Some (- d) else if d > 2 ^ 63 - 1 then None else Some d)"

section \<open>Overrides from the environment\<close>

type_synonym vars = "(string \<times> string) list"

definition lookup_env :: "vars \<Rightarrow> string \<Rightarrow> string option" where
  "lookup_env env key = map_of env (''GITDR_'' @ key)"

definition env_str :: "vars \<Rightarrow> string \<Rightarrow> string \<Rightarrow> string" where
  "env_str env key old = (case lookup_env env key of Some v \<Rightarrow> v | None \<Rightarrow> old)"

definition env_with :: "(string \<Rightarrow> 'a option) \<Rightarrow> vars \<Rightarrow> string \<Rightarrow> 'a \<Rightarrow> 'a" where
  "env_with parse env key old = (case lookup_env env key of
       None \<Rightarrow> old
     | Some v \<Rightarrow> (case parse (trim_space v) of Some n \<Rightarrow> n | None \<Rightarrow> old))"

definition env_int :: "vars \<Rightarrow> string \<Rightarrow> int \<Rightarrow> int" where
  "env_int = env_with parse_int64"

definition env_duration :: "vars \<Rightarrow> string \<Rightarrow> duration \<Rightarrow> duration" where
  "env_duration = env_with parse_duration"

definition env_bool :: "vars \<Rightarrow> string \<Rightarrow> bool \<Rightarrow> bool" where
  "env_bool = env_with parse_bool"

definition env_list :: "vars \<Rightarrow> string \<Rightarrow> string list \<Rightarrow> string list" where
  "env_list env key old = (case lookup_env env key of Some v \<Rightarrow> split_list v | None \<Rightarrow> old)"

text \<open>The secrets, which leave the environment once they are read.\<close>

definition secret_keys :: "string list" where
  "secret_keys = [''GITHUB_APP_PRIVATE_KEY'', ''GITLAB_TOKEN'', ''DESTINATION_AZURE_CONNECTIONSTRING'',
     ''MANIFEST_SIGNING_KEY'', ''ENCRYPTION_KEY'']"

definition unset_env :: "string \<Rightarrow> vars \<Rightarrow> vars" where
  "unset_env key env = AList.delete (''GITDR_'' @ key) env"

definition env_secret :: "string \<Rightarrow> vars \<Rightarrow> string \<Rightarrow> string \<times> vars" where
  "env_secret key env old = (case lookup_env env key of
       Some v \<Rightarrow> (v, unset_env key env)
     | None \<Rightarrow> (old, env))"

definition apply_source_env :: "vars \<Rightarrow> source_config \<Rightarrow> source_config" where
  "apply_source_env env s =
     s\<lparr>sc_type := env_str env ''SOURCE_TYPE'' (sc_type s),
       sc_base_url := env_str env ''SOURCE_BASEURL'' (sc_base_url s),
       sc_repo := env_str env ''SOURCE_REPO'' (sc_repo s),
       sc_github := (let g = sc_github s in
         g\<lparr>gh_app_id := env_int env ''SOURCE_GITHUB_APPID'' (gh_app_id g),
           gh_installation_id := env_int env ''SOURCE_GITHUB_INSTALLATIONID'' (gh_installation_id g),
           gh_key_path := env_str env ''SOURCE_GITHUB_PRIVATEKEYPATH'' (gh_key_path g),
           gh_token_path := env_str env ''SOURCE_GITHUB_TOKENPATH'' (gh_token_path g),
           gh_max_wait := env_duration env ''SOURCE_GITHUB_MAXRATELIMITWAIT'' (gh_max_wait g)\<rparr>)\<rparr>"

definition apply_destination_env :: "vars \<Rightarrow> destination_config \<Rightarrow> destination_config" where
  "apply_destination_env env d =
     d\<lparr>dc_type := env_str env ''DESTINATION_TYPE'' (dc_type d),
       dc_s3 := (let s = dc_s3 d in
         s\<lparr>s3_bucket := env_str env ''DESTINATION_S3_BUCKET'' (s3_bucket s),
           s3_region := env_str env ''DESTINATION_S3_REGION'' (s3_region s),
           s3_endpoint := env_str env ''DESTINATION_S3_ENDPOINT'' (s3_endpoint s),
           s3_path_style := env_bool env ''DESTINATION_S3_USEPATHSTYLE'' (s3_path_style s),
           s3_threshold := env_int env ''DESTINATION_S3_MULTIPARTTHRESHOLD'' (s3_threshold s),
           s3_part_size := env_int env ''DESTINATION_S3_PARTSIZE'' (s3_part_size s)\<rparr>),
       dc_gcs_bucket := env_str env ''DESTINATION_GCS_BUCKET'' (dc_gcs_bucket d),
       dc_gcs_endpoint := env_str env ''DESTINATION_GCS_ENDPOINT'' (dc_gcs_endpoint d),
       dc_azure := (let a = dc_azure d in
         a\<lparr>az_account := env_str env ''DESTINATION_AZURE_ACCOUNT'' (az_account a),
           az_container := env_str env ''DESTINATION_AZURE_CONTAINER'' (az_container a),
           az_endpoint := env_str env ''DESTINATION_AZURE_ENDPOINT'' (az_endpoint a),
           az_subscription := env_str env ''DESTINATION_AZURE_SUBSCRIPTIONID'' (az_subscription a),
           az_group := env_str env ''DESTINATION_AZURE_RESOURCEGROUP'' (az_group a)\<rparr>),
       dc_mode := env_str env ''DESTINATION_RETENTION_MODE'' (dc_mode d),
       dc_days := env_int env ''DESTINATION_RETENTION_DAYS'' (dc_days d)\<rparr>"

definition apply_env_overrides :: "vars \<Rightarrow> config \<Rightarrow> config \<times> vars" where
  "apply_env_overrides env c =
     (let s = apply_source_env env (cf_source c);
          (key, env1) = env_secret ''GITHUB_APP_PRIVATE_KEY'' env (gh_key (sc_github s));
          (token, env2) = env_secret ''GITLAB_TOKEN'' env1 (sc_gitlab_token s);
          d = apply_destination_env env2 (cf_destination c);
          (conn, env3) = env_secret ''DESTINATION_AZURE_CONNECTIONSTRING'' env2 (az_connection (dc_azure d));
          b = cf_backup c; m = cf_manifest c;
          (sign, env4) = env_secret ''MANIFEST_SIGNING_KEY'' env3 (mc_key m);
          (enc, env5) = env_secret ''ENCRYPTION_KEY'' env4 (cf_encryption_key c)
      in (c\<lparr>cf_source := s\<lparr>sc_github := (sc_github s)\<lparr>gh_key := key\<rparr>, sc_gitlab_token := token\<rparr>,
            cf_destination := d\<lparr>dc_azure := (dc_azure d)\<lparr>az_connection := conn\<rparr>\<rparr>,
            cf_backup := b\<lparr>bc_concurrency := env_int env ''BACKUP_CONCURRENCY'' (bc_concurrency b),
              bc_resume := env_bool env ''BACKUP_RESUME'' (bc_resume b),
              bc_lfs := env_bool env ''BACKUP_LFS'' (bc_lfs b),
              bc_recopy := env_list env ''BACKUP_RECOPY'' (bc_recopy b)\<rparr>,
            cf_manifest := m\<lparr>mc_key_path := env_str env ''MANIFEST_SIGNINGKEYPATH'' (mc_key_path m),
              mc_public_path := env_str env ''MANIFEST_PUBLICKEYPATH'' (mc_public_path m), mc_key := sign\<rparr>,
            cf_textfile := env_str env ''METRICS_TEXTFILEPATH'' (cf_textfile c),
            cf_encrypt := env_bool env ''ENCRYPTION_ENABLED'' (cf_encrypt c),
            cf_encryption_key := enc,
            cf_worm_require := env_bool env ''WORM_REQUIRE'' (cf_worm_require c),
            cf_log_level := env_str env ''LOG_LEVEL'' (cf_log_level c),
            cf_log_format := env_str env ''LOG_FORMAT'' (cf_log_format c)\<rparr>, env5))"

lemma env_secret_gone:
  "env_secret key env old = (v, env') \<Longrightarrow> lookup_env env' key = None"
  by (auto simp: env_secret_def unset_env_def lookup_env_def delete_conv' split: option.splits)

lemma env_secret_others:
  "env_secret key env old = (v, env') \<Longrightarrow> lookup_env env k = None \<Longrightarrow> lookup_env env' k = None"
  by (auto simp: env_secret_def unset_env_def lookup_env_def delete_conv' split: option.splits)

lemma secrets_leave_env:
  assumes "apply_env_overrides env c = (c', env')" and "k \<in> set secret_keys"
  shows "lookup_env env' k = None"
proof -
  obtain v1 e1 v2 e2 v3 e3 v4 e4 v5 where
    s: "env_secret ''GITHUB_APP_PRIVATE_KEY'' env (gh_key (sc_github (apply_source_env env (cf_source c)))) = (v1, e1)"
       "env_secret ''GITLAB_TOKEN'' e1 (sc_gitlab_token (apply_source_env env (cf_source c))) = (v2, e2)"
       "env_secret ''DESTINATION_AZURE_CONNECTIONSTRING'' e2 (az_connection (dc_azure (apply_destination_env e2 (cf_destination c)))) = (v3, e3)"
       "env_secret ''MANIFEST_SIGNING_KEY'' e3 (mc_key (cf_manifest c)) = (v4, e4)"
       "env_secret ''ENCRYPTION_KEY'' e4 (cf_encryption_key c) = (v5, env')"
    using assms(1) by (simp add: apply_env_overrides_def Let_def split: prod.splits)
  note g = env_secret_gone and ot = env_secret_others
  have "lookup_env env' ''GITHUB_APP_PRIVATE_KEY'' = None"
    by (rule ot [OF s(5)], rule ot [OF s(4)], rule ot [OF s(3)], rule ot [OF s(2)], rule g [OF s(1)])
  moreover have "lookup_env env' ''GITLAB_TOKEN'' = None"
    by (rule ot [OF s(5)], rule ot [OF s(4)], rule ot [OF s(3)], rule g [OF s(2)])
  moreover have "lookup_env env' ''DESTINATION_AZURE_CONNECTIONSTRING'' = None"
    by (rule ot [OF s(5)], rule ot [OF s(4)], rule g [OF s(3)])
  moreover have "lookup_env env' ''MANIFEST_SIGNING_KEY'' = None"
    by (rule ot [OF s(5)], rule g [OF s(4)])
  moreover have "lookup_env env' ''ENCRYPTION_KEY'' = None"
    by (rule g [OF s(5)])
  ultimately have "list_all (\<lambda>k. lookup_env env' k = None) secret_keys"
    by (simp only: secret_keys_def list.pred_inject simp_thms)
  then show ?thesis using assms(2) by (simp add: list_all_iff)
qed

section \<open>Validation\<close>

definition min_s3_part_size :: int where "min_s3_part_size = 5242880"
definition max_s3_part_size :: int where "max_s3_part_size = 5368709120"

definition bad_part_setting :: "string \<Rightarrow> int \<Rightarrow> goerr option" where
  "bad_part_setting name v = (if v \<noteq> 0 \<and> (v < min_s3_part_size \<or> v > max_s3_part_size)
     then Some (new_error (''destination.s3.'' @ name @ '' '' @ show_int v @ '' must be 0 or between '' @ show_int min_s3_part_size
            @ '' (5 MiB) and '' @ show_int max_s3_part_size @ '' (5 GiB) bytes'')) else None)"

text \<open>\<open>^[a-z0-9]{3,24}$\<close>\<close>

definition azure_account :: "string \<Rightarrow> bool" where
  "azure_account a \<longleftrightarrow> 3 \<le> length a \<and> length a \<le> 24
     \<and> list_all (\<lambda>c. is_num c \<or> 97 \<le> byte c \<and> byte c \<le> 122) a"

definition first_err :: "goerr option \<Rightarrow> goerr option \<Rightarrow> goerr option" where
  "first_err a b = (case a of None \<Rightarrow> b | Some e \<Rightarrow> Some e)"

definition retention_mode_ok :: "string \<Rightarrow> bool" where
  "retention_mode_ok m \<longleftrightarrow> to_upper (trim_space m) \<in> set [''COMPLIANCE'', ''GOVERNANCE'']"

text \<open>The two part settings are ranged over as a map, in either order; the model takes one.\<close>

definition validate_store :: "destination_config \<Rightarrow> goerr option" where
  "validate_store d =
     (if dc_type d = ''s3'' then
        (if trim_space (s3_bucket (dc_s3 d)) = [] then Some (new_error ''destination.s3.bucket is required'')
         else first_err (bad_part_setting ''multipartThreshold'' (s3_threshold (dc_s3 d)))
                (bad_part_setting ''partSize'' (s3_part_size (dc_s3 d))))
      else if dc_type d = ''gcs'' then
        (if trim_space (dc_gcs_bucket d) = [] then Some (new_error ''destination.gcs.bucket is required'') else None)
      else if dc_type d = ''azure'' then
        (if trim_space (az_container (dc_azure d)) = [] then Some (new_error ''destination.azure.container is required'')
         else if az_account (dc_azure d) \<noteq> [] \<and> \<not> azure_account (az_account (dc_azure d))
         then Some (new_error ''destination.azure.account must be a storage account name: 3 to 24 lowercase letters and digits'')
         else None)
      else Some (new_error (''destination.type '' @ quote (dc_type d) @ '' unsupported (s3 | gcs | azure)'')))"

definition validate_destination :: "config \<Rightarrow> goerr option" where
  "validate_destination c = (let d = cf_destination c in
     first_err (validate_store d)
       (if \<not> retention_mode_ok (dc_mode d)
        then Some (new_error (''destination.retention.mode '' @ quote (dc_mode d) @ '' must be COMPLIANCE or GOVERNANCE''))
        else if dc_days d \<le> 0
        then Some (new_error (''destination.retention.days must be > 0 (got '' @ show_int (dc_days d) @ '')''))
        else if gh_max_wait (sc_github (cf_source c)) < 0
        then Some (new_error ''source.github.maxRateLimitWait must not be negative'')
        else None))"

definition validate :: "config \<Rightarrow> goerr option" where
  "validate c =
     (if sc_type (cf_source c) = ''github'' \<or> sc_type (cf_source c) = ''gitlab'' then validate_destination c
      else Some (new_error (''source.type '' @ quote (sc_type (cf_source c)) @ '' unsupported (github | gitlab)'')))"

section \<open>Loading\<close>

text \<open>\<open>Load\<close>: the file fills in the defaults, the environment overrides them, and its secrets are taken out of it.\<close>

definition load_config :: "(string \<Rightarrow> ('w, string) io) \<Rightarrow> (string \<Rightarrow> config \<Rightarrow> goerr + config) \<Rightarrow> string \<Rightarrow> vars \<Rightarrow> ('w, config \<times> vars) io" where
  "load_config read_file yaml path env =
     bindE (if path = [] then okE default_config
            else bindE (mapErrE (wrap_error (''read config '' @ quote path)) (read_file path)) (\<lambda>b.
              liftE (map_sum (wrap_error (''parse config '' @ quote path)) id (yaml b default_config)))) (\<lambda>c.
     okE (apply_env_overrides env c))"

section \<open>Credentials and keys\<close>

definition err_both_credentials :: goerr where
  "err_both_credentials = new_error ''source.github: both a token file (source.github.tokenPath) and an App private key (GITDR_GITHUB_APP_PRIVATE_KEY or source.github.privateKeyPath) are set; set exactly one''"

definition err_no_credential :: goerr where
  "err_no_credential = new_error ''no GitHub App private key: set GITDR_GITHUB_APP_PRIVATE_KEY or source.github.privateKeyPath, or set source.github.tokenPath to a file holding an installation token''"

definition github_token_file :: "config \<Rightarrow> goerr + string" where
  "github_token_file c = (let g = sc_github (cf_source c);
       token_path = trim_space (gh_token_path g);
       app_key = trim_space (gh_key g) \<noteq> [] \<or> trim_space (gh_key_path g) \<noteq> []
     in if token_path \<noteq> [] \<and> app_key then Inl err_both_credentials
        else if token_path \<noteq> [] then Inr token_path
        else if app_key then Inr []
        else Inl err_no_credential)"

text \<open>A key from the environment, or from the file the path names.\<close>

definition resolve_key :: "(string \<Rightarrow> ('w, string) io) \<Rightarrow> string \<Rightarrow> string \<Rightarrow> string \<Rightarrow> goerr \<Rightarrow> ('w, string) io" where
  "resolve_key read_file key path what none =
     (if key \<noteq> [] then okE key
      else let p = trim_space path in
        if p \<noteq> [] then mapErrE (wrap_error what) (read_file p) else failE none)"

definition resolve_github_key :: "(string \<Rightarrow> ('w, string) io) \<Rightarrow> config \<Rightarrow> ('w, string) io" where
  "resolve_github_key rf c = (let g = sc_github (cf_source c) in
     resolve_key rf (gh_key g) (gh_key_path g) ''read github app private key'' err_no_credential)"

definition resolve_signing_key :: "(string \<Rightarrow> ('w, string) io) \<Rightarrow> config \<Rightarrow> ('w, string) io" where
  "resolve_signing_key rf c = (let m = cf_manifest c in
     resolve_key rf (mc_key m) (mc_key_path m) ''read manifest signing key''
       (new_error ''no manifest signing key: set GITDR_MANIFEST_SIGNING_KEY or manifest.signingKeyPath''))"

definition resolve_public_key :: "(string \<Rightarrow> ('w, string) io) \<Rightarrow> config \<Rightarrow> ('w, string) io" where
  "resolve_public_key rf c = resolve_key rf [] (mc_public_path (cf_manifest c)) ''read manifest public key''
     (new_error ''no manifest public key: set manifest.publicKeyPath'')"

definition encryption_key_material :: "config \<Rightarrow> goerr + string option" where
  "encryption_key_material c =
     (if \<not> cf_encrypt c then Inr None
      else if cf_encryption_key c = [] then Inl (new_error ''encryption enabled but GITDR_ENCRYPTION_KEY is not set'')
      else Inr (Some (cf_encryption_key c)))"

lemma validate_destination_ok:
  assumes "validate_destination c = None"
  shows "retention_mode_ok (dc_mode (cf_destination c))" and "0 < dc_days (cf_destination c)"
    and "0 \<le> gh_max_wait (sc_github (cf_source c))" and "validate_store (cf_destination c) = None"
  using assms by (auto simp: validate_destination_def first_err_def Let_def split: option.splits if_splits)

lemma validate_store_s3:
  "validate_store d = None \<Longrightarrow> dc_type d = ''s3'' \<Longrightarrow>
   trim_space (s3_bucket (dc_s3 d)) \<noteq> []
   \<and> (\<forall>v \<in> {s3_threshold (dc_s3 d), s3_part_size (dc_s3 d)}. v = 0 \<or> min_s3_part_size \<le> v \<and> v \<le> max_s3_part_size)"
  by (auto simp: validate_store_def first_err_def bad_part_setting_def split: if_splits option.splits)

end
