(* ===== verification/Backup.thy ===== *)
theory Backup
  imports Search Archive Config
begin

text \<open>
  src/internal/pipeline/backup.go: one run of a backup. \<open>backup_repo\<close> is one repository, staged
  whole before anything is written and then uploaded; \<open>resumed\<close> and \<open>backup_one\<close> decide whether it
  is copied at all; \<open>backup_run\<close> is the run, from the immutability check to the signed manifest.
  The run's context is read from the world (\<open>bk_ctx\<close>, its error once it is done, and \<open>bk_cause\<close>);
  \<open>bk_dst\<close> is the destination as it is called on that context and \<open>bk_final\<close> the same destination
  called on the context the manifest is written on, which a stop does not cancel. Log lines are
  left out. Repositories are run here one after another, as a concurrency of one
  does; how several in flight are started, waited for and settled is the theory FanOut.
\<close>

section \<open>The run\<close>

record 'w backup_deps =
  bk_cfg :: config
  bk_src :: "'w source"
  bk_dst :: "'w destination"
  bk_final :: "'w destination"
  bk_ws :: "'w workspace"
  bk_codec :: codec
  bk_sign :: "string \<Rightarrow> string"
  bk_verify :: "string \<Rightarrow> string \<Rightarrow> bool"
  bk_sha :: "string \<Rightarrow> string"
  bk_aead :: aead
  bk_rand :: "nat \<Rightarrow> ('w, string) io"
  bk_enc_key :: "string option"
  bk_tool :: string
  bk_clock :: "'w \<Rightarrow> time"
  bk_ctx :: "'w \<Rightarrow> goerr option"
  bk_cause :: "'w \<Rightarrow> goerr"
  bk_sleep :: "duration \<Rightarrow> ('w, unit) io"
  bk_require_worm :: bool
  bk_lfs_fuel :: nat

text \<open>What a run has found out: the fields of backupRun it sets on its way.\<close>

record run_state =
  rs_worm :: worm_status
  rs_date :: string
  rs_selected :: "string list"
  rs_recopy :: "string list"
  rs_previous :: "(string \<times> previous_copy) list"

definition git :: "'w backup_deps \<Rightarrow> 'w machine" where
  "git r = machine.truncate (bk_ws r)"

section \<open>What has been written so far\<close>

type_synonym progress = "(string \<times> artifact_info) list"

definition wrote :: "artifact_info \<Rightarrow> progress \<Rightarrow> progress" where
  "wrote a p = AList.update (ai_kind a) a p"

definition written :: "progress \<Rightarrow> artifact_info list" where
  "written p = List.map_filter (map_of p) [''bundle'', ''meta'', ''sha256'', ''lfs'']"

definition failed_entry :: "string \<Rightarrow> goerr \<Rightarrow> repo_entry" where
  "failed_entry sl e = zero_entry\<lparr>en_slug := sl, en_status := status_failed, en_error := err_text e\<rparr>"

section \<open>Retention\<close>

definition retention_window :: "config \<Rightarrow> worm_status \<Rightarrow> duration" where
  "retention_window c st = (let window = days_duration (dc_days (cf_destination c)); held = ws_period st in
     if held > 0 \<and> (window \<le> 0 \<or> held < window) then held else window)"

definition run_retention :: "config \<Rightarrow> time \<Rightarrow> retention" where
  "run_retention c now =
     \<lparr>ret_mode = to_upper (trim_space (dc_mode (cf_destination c))),
      ret_until = time_add now (days_duration (dc_days (cf_destination c)))\<rparr>"

section \<open>Retries\<close>

fun retry :: "('w \<Rightarrow> goerr option) \<Rightarrow> (duration \<Rightarrow> ('w, unit) io) \<Rightarrow> nat \<Rightarrow> duration \<Rightarrow> ('w, unit) io \<Rightarrow> ('w, unit) io" where
  "retry cx sl 0 base m = okE ()"
| "retry cx sl (Suc n) base m = bindE (tryE m) (\<lambda>r. case r of
       Inr _ \<Rightarrow> okE ()
     | Inl e \<Rightarrow> bindE (readE cx) (\<lambda>c. case c of
           Some ce \<Rightarrow> failE ce
         | None \<Rightarrow> if n = 0 then failE e
             else bindE (sl base) (\<lambda>_. retry cx sl n (2 * base) m)))"

section \<open>Staging\<close>

record staged =
  st_kind :: string
  st_key :: string
  st_path :: string
  st_data :: string
  st_size :: int
  st_sha :: string

definition staged_file :: "string \<Rightarrow> string \<Rightarrow> string \<Rightarrow> staged" where
  "staged_file kind key p = \<lparr>st_kind = kind, st_key = key, st_path = p, st_data = [], st_size = 0, st_sha = []\<rparr>"

text \<open>crypto.EncryptFile and crypto.SHA256File, whose reads stop with the context.\<close>

definition ctx_body :: "goerr option \<Rightarrow> body \<Rightarrow> body" where
  "ctx_body done b = (case done of None \<Rightarrow> b | Some e \<Rightarrow> \<lparr>body_bytes = [], body_err = Some e\<rparr>)"

definition encrypt_file :: "'w backup_deps \<Rightarrow> string \<Rightarrow> string \<Rightarrow> string \<Rightarrow> ('w, unit) io" where
  "encrypt_file r p out key = bindE (open_file (bk_ws r) p) (\<lambda>b.
     bindE (write_file (bk_ws r) out []) (\<lambda>_.
     bindE (readE (bk_ctx r)) (\<lambda>d.
       encrypt (bk_aead r) (bk_rand r) (append_file (bk_ws r) out) (ctx_body d b) key)))"

definition sha256_file :: "'w backup_deps \<Rightarrow> string \<Rightarrow> ('w, string \<times> int) io" where
  "sha256_file r p = bindE (mapErrE (wrap_error (''sha256 open '' @ quote p)) (open_file (bk_ws r) p)) (\<lambda>b0.
     bindE (readE (bk_ctx r)) (\<lambda>d. let b = ctx_body d b0 in
       case body_err b of
         Some e \<Rightarrow> failE (wrap_error ''sha256'' e)
       | None \<Rightarrow> okE (bk_sha r (body_bytes b), int (length (body_bytes b)))))"

definition stage_file :: "'w backup_deps \<Rightarrow> staged \<Rightarrow> ('w, staged) io" where
  "stage_file r a =
     bindE (case bk_enc_key r of
              None \<Rightarrow> okE (st_path a)
            | Some k \<Rightarrow> let enc = st_path a @ ''.enc'' in
                bindE (mapErrE (wrap_error ''encrypt'') (encrypt_file r (st_path a) enc k)) (\<lambda>_.
                bindE (tryE (remove_file (bk_ws r) (st_path a))) (\<lambda>_. okE enc))) (\<lambda>p.
     bindE (sha256_file r p) (\<lambda>(h, n). okE (a\<lparr>st_path := p, st_sha := h, st_size := n\<rparr>)))"

fun stage_files :: "'w backup_deps \<Rightarrow> staged list \<Rightarrow> ('w, staged list) io" where
  "stage_files r [] = okE []"
| "stage_files r (a # as) = bindE (stage_file r a) (\<lambda>b. bindE (stage_files r as) (\<lambda>bs. okE (b # bs)))"

text \<open>The same over a buffer in memory, which the world is paired with while it is written.\<close>

definition encrypt_bytes :: "'w backup_deps \<Rightarrow> string \<Rightarrow> string \<Rightarrow> ('w, string) io" where
  "encrypt_bytes r plain key = (\<lambda>w.
     case encrypt (bk_aead r)
            (\<lambda>n (v, buf). case bk_rand r n v of (x, v') \<Rightarrow> (x, (v', buf)))
            (\<lambda>p (v, buf). (Inr (), (v, buf @ p)))
            \<lparr>body_bytes = plain, body_err = None\<rparr> key (w, []) of
       (Inl e, (w', buf)) \<Rightarrow> (Inl e, w')
     | (Inr _, (w', buf)) \<Rightarrow> (Inr buf, w'))"

definition stage_bytes :: "'w backup_deps \<Rightarrow> string \<Rightarrow> string \<Rightarrow> string \<Rightarrow> ('w, staged) io" where
  "stage_bytes r kind key plain =
     bindE (case bk_enc_key r of
              None \<Rightarrow> okE plain
            | Some k \<Rightarrow> mapErrE (wrap_error ''encrypt'') (encrypt_bytes r plain k)) (\<lambda>stored.
     okE \<lparr>st_kind = kind, st_key = key, st_path = [], st_data = stored,
          st_size = int (length stored), st_sha = bk_sha r stored\<rparr>)"

text \<open>
  The LFS fetch: again after a failure for as long as each attempt adds objects. The fuel bounds
  the attempts; \<open>fetch_lfs_ends\<close> shows how much is enough.
\<close>

definition err_fuel :: goerr where "err_fuel = new_error ''out of fuel''"

fun fetch_lfs :: "'w backup_deps \<Rightarrow> string \<Rightarrow> string \<Rightarrow> nat \<Rightarrow> nat \<Rightarrow> nat \<Rightarrow> ('w, unit) io" where
  "fetch_lfs r mirror url 0 attempt had = failE err_fuel"
| "fetch_lfs r mirror url (Suc fuel) attempt had =
     bindE (mapErrE (wrap_error ''lfs fetch: source auth'') (git_auth_header (bk_src r))) (\<lambda>auth.
     bindE (tryE (lfs_fetch_all (git r) mirror url auth)) (\<lambda>res. case res of
       Inr _ \<Rightarrow> okE ()
     | Inl e \<Rightarrow>
         bindE (readE (count_files (bk_ws r) (file_join (file_join mirror ''lfs'') ''objects''))) (\<lambda>has.
         bindE (readE (bk_ctx r)) (\<lambda>c.
           if c \<noteq> None then failE (wrap_error ''lfs fetch'' e)
           else if has > had then fetch_lfs r mirror url fuel (attempt + 1) has
           else if attempt = 1 then failE (wrap_error ''lfs fetch'' e)
           else failE (wrap_error (''lfs fetch: attempt '' @ show_nat attempt @ '' fetched no object, so it is not run again (''
                  @ show_nat had @ '' fetched before it)'') e)))))"

definition stage_lfs :: "'w backup_deps \<Rightarrow> repo \<Rightarrow> string \<Rightarrow> string \<Rightarrow> string \<Rightarrow> string \<Rightarrow> ('w, staged list) io" where
  "stage_lfs r repo tmp mirror url key =
     (let lfs_dir = file_join mirror ''lfs'' in
      bindE (readE (count_files (bk_ws r) (file_join lfs_dir ''objects''))) (\<lambda>had.
      bindE (fetch_lfs r mirror url (bk_lfs_fuel r) 1 had) (\<lambda>_.
      bindE (mapErrE (wrap_error ''lfs: keep only the objects'') (keep_only_objects (bk_ws r) lfs_dir)) (\<lambda>_.
      bindE (readE (dir_has_files (bk_ws r) lfs_dir)) (\<lambda>any.
        if any then
          let tar = file_join tmp (rp_name repo @ ''.lfs.tar'') in
          bindE (archive_lfs (bk_ws r) (bk_ctx r) lfs_dir tar) (\<lambda>_. okE [staged_file ''lfs'' key tar])
        else okE [])))))"

definition clone_attempt :: "'w backup_deps \<Rightarrow> string \<Rightarrow> string \<Rightarrow> ('w, unit) io" where
  "clone_attempt r url mirror = bindE (\<lambda>w. (Inr (), remove_all (bk_ws r) mirror w)) (\<lambda>_.
     bindE (mapErrE (wrap_error ''source auth'') (git_auth_header (bk_src r))) (\<lambda>auth.
       clone_mirror (git r) url mirror auth))"

definition artifact_key :: "repo \<Rightarrow> string \<Rightarrow> string \<Rightarrow> string" where
  "artifact_key repo date suffix =
     path_join [path_join [rp_host repo, rp_owner repo, rp_name repo, date], rp_name repo @ suffix]"

text \<open>
  Everything that reads the source or can fail locally, in the code's order. What comes back is
  whether the repository has refs, the artifacts to upload in the order they are uploaded, the
  metadata's failure when it is one the code is stored in spite of, and the refs of the copy.
\<close>

record staging =
  sg_has_refs :: bool
  sg_artifacts :: "staged list"
  sg_meta_err :: "goerr option"
  sg_copied :: refs

definition finish_staging :: "'w backup_deps \<Rightarrow> repo \<Rightarrow> (string \<Rightarrow> string) \<Rightarrow> bool \<Rightarrow> goerr + string
    \<Rightarrow> refs \<Rightarrow> staged list \<Rightarrow> ('w, staging) io" where
  "finish_staging r repo key refs meta copied to_stage =
     bindE (stage_files r to_stage) (\<lambda>files.
     bindE (case meta of
              Inl e \<Rightarrow> okE []
            | Inr m \<Rightarrow> bindE (stage_bytes r ''meta'' (key ''.meta.json'') m) (\<lambda>a. okE [a])) (\<lambda>metas.
     let sorted = sort_key (\<lambda>a. - st_size a) (files @ metas);
         bundle_sha = (case filter (\<lambda>a. st_kind a = ''bundle'') files of [] \<Rightarrow> [] | bs \<Rightarrow> st_sha (last bs));
         line = bundle_sha @ ''  '' @ rp_name repo @ ''.bundle'' @ [newline] in
     bindE (if refs then bindE (stage_bytes r ''sha256'' (key ''.sha256'') line) (\<lambda>a. okE [a]) else okE []) (\<lambda>sums.
     okE \<lparr>sg_has_refs = refs, sg_artifacts = sorted @ sums,
          sg_meta_err = (case meta of Inl e \<Rightarrow> Some e | Inr _ \<Rightarrow> None), sg_copied = copied\<rparr>)))"

definition stage_repo :: "'w backup_deps \<Rightarrow> string \<Rightarrow> repo \<Rightarrow> refs \<Rightarrow> string \<Rightarrow> ('w, staging) io" where
  "stage_repo r date repo advertised tmp =
     (let mirror = file_join tmp (rp_name repo @ ''.git'');
          bundle = file_join tmp (rp_name repo @ ''.bundle'');
          key = artifact_key repo date in
      bindE (mapErrE (wrap_error ''clone url'') (clone_url (bk_src r) repo)) (\<lambda>url.
      bindE (tryE (fetch_metadata (bk_src r) repo)) (\<lambda>meta.
      bindE (readE (bk_ctx r)) (\<lambda>c.
      bindE (case meta of
               Inl e \<Rightarrow> if errors_is e err_transient \<or> c \<noteq> None then failE (wrap_error ''metadata'' e) else okE ()
             | Inr _ \<Rightarrow> okE ()) (\<lambda>_.
      bindE (retry (bk_ctx r) (bk_sleep r) 3 second (clone_attempt r url mirror)) (\<lambda>_.
      bindE (mapErrE (wrap_error ''read the clone's refs'') (mirror_refs (git r) mirror)) (\<lambda>copied.
      bindE (clone_holds (git_auth_header (bk_src r)) (\<lambda>h. ls_remote (git r) url h) advertised copied) (\<lambda>_.
      bindE (mapErrE (wrap_error ''check refs'') (has_refs (git r) mirror)) (\<lambda>refs.
      bindE (readE (lfs_available (git r))) (\<lambda>lfs.
      bindE (if refs \<and> bc_lfs (cf_backup (bk_cfg r)) \<and> lfs
             then stage_lfs r repo tmp mirror url (key ''.lfs.tar'') else okE []) (\<lambda>lfs_files.
      bindE (if refs then bindE (bundle_all (git r) mirror bundle) (\<lambda>_.
                          bindE (bundle_holds (git r) bundle copied) (\<lambda>_.
                          okE [staged_file ''bundle'' (key ''.bundle'') bundle]))
             else okE []) (\<lambda>bundles.
      bindE (mapErrE (wrap_error ''remove the mirror'') (remove_tree (bk_ws r) mirror)) (\<lambda>_.
        finish_staging r repo key refs meta copied (lfs_files @ bundles))))))))))))))"

section \<open>Uploading\<close>

definition put_staged :: "'w backup_deps \<Rightarrow> retention \<Rightarrow> staged \<Rightarrow> ('w, put_result) io" where
  "put_staged r ret a =
     (if st_path a = []
      then put_immutable (bk_dst r) (st_key a) \<lparr>body_bytes = st_data a, body_err = None\<rparr> (st_size a) ret
      else bindE (open_file (bk_ws r) (st_path a)) (\<lambda>b. put_immutable (bk_dst r) (st_key a) b (st_size a) ret))"

definition artifact_of :: "string \<Rightarrow> put_result \<Rightarrow> string \<Rightarrow> artifact_info" where
  "artifact_of kind p h = \<lparr>ai_kind = kind, ai_key = pr_key p, ai_size = pr_size p, ai_sha256 = h, ai_until = pr_until p\<rparr>"

text \<open>Every upload in order, up to the first that fails: what was written, and that error.\<close>

fun upload_all :: "'w backup_deps \<Rightarrow> retention \<Rightarrow> staged list \<Rightarrow> progress \<Rightarrow> ('w, progress \<times> goerr option) io" where
  "upload_all r ret [] p = okE (p, None)"
| "upload_all r ret (a # as) p = bindE (tryE (put_staged r ret a)) (\<lambda>res. case res of
       Inl e \<Rightarrow> okE (p, Some e)
     | Inr x \<Rightarrow> upload_all r ret as (wrote (artifact_of (st_kind a) x (st_sha a)) p))"

definition finish_entry :: "string \<Rightarrow> staging \<Rightarrow> progress \<times> goerr option \<Rightarrow> repo_entry \<times> refs option" where
  "finish_entry sl sg up = (case up of (p, err) \<Rightarrow>
     let base = (if sg_has_refs sg then zero_entry\<lparr>en_slug := sl, en_status := status_success\<rparr>
                 else zero_entry\<lparr>en_slug := sl, en_status := status_skipped, en_reason := reason_empty\<rparr>);
         fail = (\<lambda>e. (base\<lparr>en_status := status_failed, en_error := err_text e, en_reason := [],
                       en_artifacts := written p\<rparr>, None))
     in case err of
          Some e \<Rightarrow> fail e
        | None \<Rightarrow> (case sg_meta_err sg of
              Some e \<Rightarrow> fail (wrap_error ''metadata'' e)
            | None \<Rightarrow> (base\<lparr>en_artifacts := written p\<rparr>, Some (sg_copied sg))))"

definition backup_repo :: "'w backup_deps \<Rightarrow> string \<Rightarrow> retention \<Rightarrow> repo \<Rightarrow> refs \<Rightarrow> ('w, repo_entry \<times> refs option) io" where
  "backup_repo r date ret repo advertised =
     bindE (tryE (mkdir_temp (bk_ws r) ''gitdr-backup-'')) (\<lambda>t. case t of
       Inl e \<Rightarrow> okE (failed_entry (slug repo) (wrap_error ''tempdir'' e), None)
     | Inr tmp \<Rightarrow> deferE (remove_all (bk_ws r) tmp)
         (bindE (tryE (stage_repo r date repo advertised tmp)) (\<lambda>s. case s of
            Inl e \<Rightarrow> okE (failed_entry (slug repo) e, None)
          | Inr sg \<Rightarrow> bindE (upload_all r ret (sg_artifacts sg) []) (\<lambda>up. okE (finish_entry (slug repo) sg up)))))"

section \<open>Resuming a date\<close>

definition artifact_keys :: "string \<Rightarrow> string \<Rightarrow> string \<Rightarrow> string \<Rightarrow> string \<times> string \<times> string" where
  "artifact_keys host owner name date = (let prefix = path_join [host, owner, name, date] in
     (path_join [prefix, name @ ''.bundle''], path_join [prefix, name @ ''.sha256''],
      path_join [prefix, name @ ''.lfs.tar'']))"

definition base_names :: "string list \<Rightarrow> string list" where
  "base_names keys = map path_base keys"

definition opt_time :: "time \<Rightarrow> time option" where
  "opt_time t = (if is_zero t then None else Some t)"

text \<open>
  Every refusal leaves the date spent. \<open>next\<close> is the day after, as the error names it.
\<close>

definition spent :: "string \<Rightarrow> string \<Rightarrow> string \<Rightarrow> string \<Rightarrow> repo_entry" where
  "spent sl nxt what detail = failed_entry sl (new_error (what @ '' ('' @ detail
     @ ''); its keys are create-only, so the next copy is on '' @ nxt))"

definition incomplete :: "string \<Rightarrow> string \<Rightarrow> string \<Rightarrow> string \<Rightarrow> repo_entry" where
  "incomplete sl date nxt detail = spent sl nxt (''an incomplete copy for '' @ date @ '' exists'') detail"

definition foreign_to :: "string \<Rightarrow> object \<Rightarrow> bool" where
  "foreign_to date ob \<longleftrightarrow> is_zero (obj_modified ob) \<or> format_date (obj_modified ob) \<noteq> date"

definition foreign_detail :: "string \<Rightarrow> object \<Rightarrow> string" where
  "foreign_detail date ob = obj_key ob @ '' is filed under the date ''
     @ (if is_zero (obj_modified ob) then ''and the destination does not say when it was written''
        else ''and the destination wrote it at '' @ format_rfc3339 (obj_modified ob))"

definition not_found_detail :: "string list \<Rightarrow> search_report \<Rightarrow> string" where
  "not_found_detail stored rep = (case sr_named rep of
       None \<Rightarrow> ''no manifest records '' @ join_with '', '' (base_names stored) @ '' as a copy''
     | Some (e, m) \<Rightarrow> m @ '' records it as '' @ en_status e)"

text \<open>What the copy found says of the keys under the date, and the entry that carries it on.\<close>

definition resume_from :: "string \<Rightarrow> string \<Rightarrow> string \<Rightarrow> string list \<Rightarrow> recorded_copy \<Rightarrow> time \<Rightarrow> repo_entry" where
  "resume_from sl date nxt stored f now =
     (let listed = map ai_key (en_artifacts (rcp_entry f)) in
      case List.find (\<lambda>k. k \<notin> set stored) listed of
        Some k \<Rightarrow> incomplete sl date nxt (rcp_key f @ '' records '' @ k @ '', and the destination does not have it'')
      | None \<Rightarrow> (case List.find (\<lambda>k. k \<notin> set listed) stored of
          Some k \<Rightarrow> incomplete sl date nxt (k @ '' is under the date, and '' @ rcp_key f @ '' does not record it'')
        | None \<Rightarrow>
            let at = copied_at_of (rcp_entry f) (rcp_finished f) in
            case (case at of None \<Rightarrow> None | Some t \<Rightarrow> plausible_copied_at t (rcp_finished f) now) of
              Some e \<Rightarrow> spent sl nxt (''the manifest that records the copy for '' @ date @ '' cannot be believed'')
                          (rcp_key f @ '': '' @ err_text e)
            | None \<Rightarrow> zero_entry\<lparr>en_slug := sl, en_status := status_skipped, en_reason := reason_resume,
                        en_refs := en_refs (rcp_entry f), en_copied_at := at\<rparr>))"

text \<open>What is filed directly under the date of a repository, in key order.\<close>

definition date_dir :: "run_state \<Rightarrow> repo \<Rightarrow> string" where
  "date_dir st q = path_join [rp_host q, rp_owner q, rp_name q, rs_date st]"

definition filed_under :: "string \<Rightarrow> object list \<Rightarrow> object list" where
  "filed_under dir objs = filter (\<lambda>ob. path_dir (obj_key ob) = dir) (sort_key obj_key objs)"

text \<open>The copy a manifest records under the date, looked for under the two keys a copy has.\<close>

definition resume_keys :: "run_state \<Rightarrow> repo \<Rightarrow> string list" where
  "resume_keys st q = [fst (artifact_keys (rp_host q) (rp_owner q) (rp_name q) (rs_date st)),
     path_join [date_dir st q, rp_name q @ ''.meta.json'']]"

definition resume_copy :: "'w backup_deps \<Rightarrow> run_state \<Rightarrow> repo \<Rightarrow> time \<Rightarrow> string list \<Rightarrow> ('w \<times> memory, repo_entry) io" where
  "resume_copy r st q on stored =
     (let sl = slug q; date = rs_date st; nxt = format_date (next_day on) in
      bindE (on_world (readE (bk_clock r))) (\<lambda>now.
      bindE (tryE (find_copy (bk_codec r) (bk_dst r) (Some (bk_verify r)) (\<lambda>s. s \<in> set (rs_selected st))
                    (manifest_search_dirs (rp_host q) (rp_owner q)) on sl (resume_keys st q) (opt_time now))) (\<lambda>res.
        case res of
          Inl e \<Rightarrow> okE (failed_entry sl (wrap_error (''a copy for '' @ date
                     @ '' exists, and finding the manifest that records it failed'') e))
        | Inr (None, rep) \<Rightarrow> okE (incomplete sl date nxt (not_found_detail stored rep))
        | Inr (Some f, rep) \<Rightarrow> bindE (on_world (readE (bk_clock r))) (\<lambda>now'.
            okE (resume_from sl date nxt stored f now')))))"

definition resume_date :: "'w backup_deps \<Rightarrow> run_state \<Rightarrow> repo \<Rightarrow> object list \<Rightarrow> ('w \<times> memory, repo_entry) io" where
  "resume_date r st q here =
     (let sl = slug q; date = rs_date st in
      case parse_date date of
        None \<Rightarrow> okE (failed_entry sl (wrap_error (''the run's date '' @ quote date) (new_error ''cannot parse'')))
      | Some on \<Rightarrow> (case filter (foreign_to date) here of
            ob # _ \<Rightarrow> okE (spent sl (format_date (next_day on)) (''an object under '' @ date @ '' was not written that day'')
                              (foreign_detail date ob))
          | [] \<Rightarrow> resume_copy r st q on (map obj_key here)))"

definition resumed :: "'w backup_deps \<Rightarrow> run_state \<Rightarrow> repo \<Rightarrow> ('w \<times> memory, repo_entry option) io" where
  "resumed r st q =
     bindE (tryE (on_world (list_objects (bk_dst r) (date_dir st q @ ''/'')))) (\<lambda>listing. case listing of
        Inl e \<Rightarrow> okE None
      | Inr objs \<Rightarrow> let here = filed_under (date_dir st q) objs in
          if here = [] then okE None else bindE (resume_date r st q here) (\<lambda>e. okE (Some e)))"

section \<open>One repository of a run\<close>

definition unchanged_entry :: "string \<Rightarrow> string \<Rightarrow> previous_copy \<Rightarrow> repo_entry" where
  "unchanged_entry sl reason p = zero_entry\<lparr>en_slug := sl, en_status := status_skipped, en_reason := reason,
     en_refs := refs_to_entries (pc_refs p), en_copied_at := Some (pc_copied_at p)\<rparr>"

definition no_skip :: unchanged_decision where
  "no_skip = \<lparr>ud_skip = False, ud_reason = []\<rparr>"

text \<open>The skip of a repository that has not moved, if there is one.\<close>

definition unchanged_skip :: "'w backup_deps \<Rightarrow> run_state \<Rightarrow> string \<Rightarrow> refs \<Rightarrow> time \<Rightarrow> repo_entry option" where
  "unchanged_skip r st sl current now = (case map_of (rs_previous st) sl of
       None \<Rightarrow> None
     | Some p \<Rightarrow>
         let d = decide_unchanged (pc_refs p) current (pc_copied_at p) now (retention_window (bk_cfg r) (rs_worm st));
             d' = (if ud_skip d \<and> sl \<in> set (rs_recopy st) then no_skip else d)
         in if ud_skip d' then Some (unchanged_entry sl (ud_reason d') p) else None)"

definition copied_entry :: "repo_entry \<Rightarrow> refs option \<Rightarrow> time \<Rightarrow> repo_entry" where
  "copied_entry e copied now =
     (if en_status e = status_success
      then e\<lparr>en_refs := refs_to_entries (case copied of None \<Rightarrow> [] | Some refs \<Rightarrow> refs), en_copied_at := Some now\<rparr>
      else e)"

definition backup_one :: "'w backup_deps \<Rightarrow> run_state \<Rightarrow> retention \<Rightarrow> repo \<Rightarrow> ('w \<times> memory, repo_entry) io" where
  "backup_one r st ret repo =
     bindE (if bc_resume (cf_backup (bk_cfg r)) then resumed r st repo else okE None) (\<lambda>done. case done of
       Some e \<Rightarrow> okE e
     | None \<Rightarrow> on_world (
         bindE (current_refs (git r) (bk_src r) repo) (\<lambda>current.
         bindE (readE (bk_clock r)) (\<lambda>now.
         case unchanged_skip r st (slug repo) current now of
           Some e \<Rightarrow> okE e
         | None \<Rightarrow>
             bindE (backup_repo r (rs_date st) ret repo current) (\<lambda>(e, copied).
             bindE (readE (bk_clock r)) (\<lambda>fin. okE (copied_entry e copied fin)))))))"

end
