(* ===== verification/Run.thy ===== *)
theory Run
  imports Backup
begin

text \<open>
  src/internal/pipeline/backup.go: the run around its repositories. The immutability check, the
  selection, what of the destination's retention is looked at, and the signed manifest the run
  files. \<open>fan_out\<close> runs the repositories one after another, as a concurrency of one does; several
  in flight are the theory FanOut.
\<close>

section \<open>Before any repository\<close>

definition worm_check :: "'w backup_deps \<Rightarrow> ('w, worm_status) io" where
  "worm_check r = bindE (tryE (verify_worm (bk_dst r))) (\<lambda>res. case res of
       Inl e \<Rightarrow> if bk_require_worm r then failE (wrap_error ''worm preflight'' e)
         else okE \<lparr>ws_period = 0, ws_verdict = VerdictUnknown, ws_mode = [],
                ws_details = ''could not verify immutability'', ws_refusal = None\<rparr>
     | Inr st \<Rightarrow>
         if (case ws_refusal st of None \<Rightarrow> False | Some e \<Rightarrow> errors_is e err_no_such_bucket)
         then failE (GoErr Plain (''destination: '' @ err_text (the (ws_refusal st)) @ ''; nothing was copied'')
                       [the (ws_refusal st)])
         else if immutable (ws_verdict st) then okE st
         else if bk_require_worm r
         then failE (new_error (''destination is not WORM-immutable ('' @ ws_details st
                @ ''): refusing because worm.require is set''))
         else okE st)"

definition select_repos :: "'w backup_deps \<Rightarrow> ('w, repo list) io" where
  "select_repos r = (let sc = cf_source (bk_cfg r); selector = trim_space (sc_repo sc);
       flt = \<lparr>rf_include = (if selector \<noteq> [] then [selector] else sc_include sc), rf_exclude = sc_exclude sc\<rparr> in
     bindE (mapErrE (wrap_error ''enumerate repos'') (list_repos (bk_src r) flt)) (\<lambda>repos.
       if repos = [] then failE (new_error ''no repositories matched the filter'') else okE repos))"

definition named_for_recopy :: "string list \<Rightarrow> string list \<Rightarrow> string list" where
  "named_for_recopy recopy selected =
     remdups (filter (\<lambda>n. n \<noteq> [] \<and> n \<in> set selected) (map trim_space recopy))"

section \<open>The repositories\<close>

definition stopped_before :: string where
  "stopped_before = ''stopped before it finished''"

definition not_started :: "goerr \<Rightarrow> repo \<Rightarrow> repo_entry" where
  "not_started cause repo = failed_entry (slug repo) (wrap_error stopped_before cause)"

definition after_stop :: "goerr option \<Rightarrow> repo_entry \<Rightarrow> repo_entry" where
  "after_stop done e = (if en_status e = status_failed \<and> done \<noteq> None
     then e\<lparr>en_error := stopped_before @ '': '' @ en_error e\<rparr> else e)"

fun fan_out :: "'w backup_deps \<Rightarrow> run_state \<Rightarrow> retention \<Rightarrow> repo list \<Rightarrow> ('w \<times> memory, repo_entry list) io" where
  "fan_out r st ret [] = okE []"
| "fan_out r st ret (p # ps) = bindE (on_world (readE (bk_ctx r))) (\<lambda>done.
     if done \<noteq> None then bindE (on_world (readE (bk_cause r))) (\<lambda>cause. okE (map (not_started cause) (p # ps)))
     else bindE (backup_one r st ret p) (\<lambda>e.
          bindE (on_world (readE (bk_ctx r))) (\<lambda>done'.
          bindE (fan_out r st ret ps) (\<lambda>es. okE (after_stop done' e # es)))))"

section \<open>What landed\<close>

fun extreme :: "(artifact_info \<Rightarrow> artifact_info \<Rightarrow> bool) \<Rightarrow> artifact_info list \<Rightarrow> artifact_info option \<Rightarrow> artifact_info option" where
  "extreme better [] best = best"
| "extreme better (a # as) best = extreme better as (case best of
       None \<Rightarrow> Some a
     | Some b \<Rightarrow> if better a b then Some a else Some b)"

definition retention_samples :: "repo_entry list \<Rightarrow> string list" where
  "retention_samples entries = (let as = concat (map en_artifacts entries) in
     case (extreme (\<lambda>a b. ai_size a < ai_size b) as None, extreme (\<lambda>a b. ai_size a > ai_size b) as None) of
       (Some s, Some l) \<Rightarrow> if ai_key s = ai_key l then [ai_key s] else [ai_key s, ai_key l]
     | _ \<Rightarrow> [])"

fun observe_keys :: "(string \<Rightarrow> ('w, retention_observation \<times> time) io) \<Rightarrow> string list
    \<Rightarrow> retention_observation \<Rightarrow> ('w, retention_observation) io" where
  "observe_keys f [] ob = okE ob"
| "observe_keys f (k # ks) ob = bindE (tryE (f k)) (\<lambda>res.
     observe_keys f ks (case (case res of Inl _ \<Rightarrow> RetentionNotChecked | Inr (got, until) \<Rightarrow> got) of
         RetentionPresent \<Rightarrow> ob
       | RetentionAbsent \<Rightarrow> RetentionAbsent
       | RetentionNotChecked \<Rightarrow> if ob = RetentionPresent then RetentionNotChecked else ob))"

definition observe_run :: "'w destination \<Rightarrow> worm_status \<Rightarrow> repo_entry list \<Rightarrow> ('w, retention_observation \<times> worm_verdict) io" where
  "observe_run d ws entries =
     (let verdict = ws_verdict ws; keys = retention_samples entries in
      if \<not> immutable verdict then okE (RetentionNotChecked, verdict)
      else case observe_retention d of
        None \<Rightarrow> okE (RetentionNotChecked, verdict)
      | Some f \<Rightarrow>
          if keys = [] then okE (RetentionNotChecked, verdict)
          else bindE (observe_keys f keys RetentionPresent) (\<lambda>ob.
               okE (ob, if ob = RetentionAbsent then VerdictNotImmutable else verdict)))"

section \<open>The manifest\<close>

definition dest_info_of :: "config \<Rightarrow> worm_status \<Rightarrow> retention \<Rightarrow> worm_verdict \<Rightarrow> retention_observation \<Rightarrow> dest_info" where
  "dest_info_of c ws ret verdict ob = (let dc = cf_destination c; s3 = dc_type dc = ''s3'' in
     \<lparr>di_type = dc_type dc,
      di_bucket = (if s3 then s3_bucket (dc_s3 dc) else if dc_type dc = ''gcs'' then dc_gcs_bucket dc
        else if dc_type dc = ''azure'' then az_container (dc_azure dc) else []),
      di_worm_mode = (if s3 then ret_mode ret else []),
      di_worm_immutable = immutable verdict, di_worm_verdict = verdict_wire verdict,
      di_worm_details = ws_details ws, di_retention_observed = observation_string ob\<rparr>)"

text \<open>The random bytes of a run id; a read that fails leaves them zero.\<close>

definition new_run_id :: "(nat \<Rightarrow> ('w, string) io) \<Rightarrow> time \<Rightarrow> ('w, string) io" where
  "new_run_id rand t = bindE (tryE (rand 6)) (\<lambda>res.
     okE (format_stamp t @ ''-'' @ hex_encode (case res of Inl _ \<Rightarrow> replicate 6 (CHR 0x00) | Inr b \<Rightarrow> b)))"

definition manifest_key :: "string \<Rightarrow> time \<Rightarrow> string" where
  "manifest_key dir finished = path_join [dir, format_stamp finished @ manifest_suffix]"

definition upload_manifest :: "'w backup_deps \<Rightarrow> manifest \<Rightarrow> string \<Rightarrow> retention \<Rightarrow> ('w, string) io" where
  "upload_manifest r m dir ret =
     (let canon = canonical (bk_codec r) m; sig = b64_encode (bk_sign r canon); key = manifest_key dir (m_finished m) in
      bindE (mapErrE (wrap_error ''upload manifest'')
               (put_immutable (bk_final r) key \<lparr>body_bytes = canon, body_err = None\<rparr> (int (length canon)) ret)) (\<lambda>_.
      bindE (mapErrE (wrap_error ''upload signature'')
               (put_immutable (bk_final r) (key @ ''.sig'') \<lparr>body_bytes = sig, body_err = None\<rparr> (int (length sig)) ret)) (\<lambda>_.
      okE key)))"

section \<open>The run\<close>

definition with_memory :: "('w \<times> memory, 'a) io \<Rightarrow> ('w, 'a) io" where
  "with_memory m = (\<lambda>w. case m (w, no_memory) of (res, (w', mem)) \<Rightarrow> (res, w'))"

definition run_ok :: "repo_entry list \<Rightarrow> bool" where
  "run_ok entries \<longleftrightarrow> (\<forall>e \<in> set entries. en_status e \<noteq> status_failed)"

definition retention_of :: "config \<Rightarrow> worm_status \<Rightarrow> time \<Rightarrow> retention" where
  "retention_of c ws now = (if immutable (ws_verdict ws) then run_retention c now else no_retention)"

text \<open>
  What a run returns beside its error, if it has one: the manifest and the key it was filed under.
\<close>

record backup_result =
  br_manifest :: manifest
  br_key :: string

text \<open>The run up to its entries: \<open>begin_run\<close> fixes everything a repository is judged by.\<close>

definition begin_run :: "'w backup_deps \<Rightarrow> time \<Rightarrow> ('w, repo list \<times> run_state \<times> retention) io" where
  "begin_run r started =
     bindE (worm_check r) (\<lambda>ws.
     bindE (select_repos r) (\<lambda>repos.
     bindE (mapErrE (wrap_error ''source auth'') (git_auth_header (bk_src r))) (\<lambda>_.
     bindE (readE (bk_clock r)) (\<lambda>now.
     let selected = remdups (map slug repos) in
     bindE (load_previous (bk_codec r) (bk_dst r) (Some (bk_verify r)) (bk_clock r)
              (refresh_bound (retention_window (bk_cfg r) ws)) (manifest_dir repos) (Some selected)) (\<lambda>prev.
     okE (repos,
          \<lparr>rs_worm = ws, rs_date = format_date started, rs_selected = selected,
           rs_recopy = named_for_recopy (bc_recopy (cf_backup (bk_cfg r))) selected, rs_previous = prev\<rparr>,
          retention_of (bk_cfg r) ws now))))))"

definition end_run :: "'w backup_deps \<Rightarrow> time \<Rightarrow> repo list \<Rightarrow> run_state \<Rightarrow> retention \<Rightarrow> repo_entry list
    \<Rightarrow> ('w, backup_result \<times> goerr option) io" where
  "end_run r started repos st ret entries =
     bindE (observe_run (bk_final r) (rs_worm st) entries) (\<lambda>(ob, verdict).
     if bk_require_worm r \<and> ob = RetentionAbsent
     then failE (new_error (''worm: the destination accepted this run and applied no retention to it: '' @ ws_details (rs_worm st)))
     else bindE (new_run_id (bk_rand r) started) (\<lambda>run_id.
          bindE (readE (bk_clock r)) (\<lambda>finished.
          let m = \<lparr>m_schema = manifest_schema, m_run_id = run_id,
                   m_tool = \<lparr>tool_name = ''gitdr'', tool_version = bk_tool r\<rparr>,
                   m_source = \<lparr>src_type = sc_type (cf_source (bk_cfg r)), src_host = rp_host (hd repos)\<rparr>,
                   m_destination = dest_info_of (bk_cfg r) (rs_worm st) ret verdict ob,
                   m_started = started, m_finished = finished, m_status = status_string (run_ok entries), m_repos = entries\<rparr> in
          bindE (tryE (upload_manifest r m (manifest_dir repos) ret)) (\<lambda>res. case res of
            Inl e \<Rightarrow> okE (\<lparr>br_manifest = m, br_key = []\<rparr>, Some (wrap_error ''manifest'' e))
          | Inr key \<Rightarrow> okE (\<lparr>br_manifest = m, br_key = key\<rparr>,
              if run_ok entries then None else Some (new_error ''backup completed with failures''))))))"

definition backup_run :: "'w backup_deps \<Rightarrow> ('w, backup_result \<times> goerr option) io" where
  "backup_run r =
     bindE (readE (bk_clock r)) (\<lambda>started.
     bindE (begin_run r started) (\<lambda>(repos, st, ret).
     bindE (with_memory (fan_out r st ret repos)) (\<lambda>entries.
       end_run r started repos st ret entries)))"

definition backup :: "'w backup_deps \<Rightarrow> (string \<Rightarrow> string) option \<Rightarrow> ('w, backup_result \<times> goerr option) io" where
  "backup r key = (case key of
       None \<Rightarrow> failE (new_error ''backup: manifest signing key is required'')
     | Some sign \<Rightarrow> backup_run (r\<lparr>bk_sign := sign\<rparr>))"

end
