(* ===== verification/Frame.thy ===== *)
theory Frame
  imports Run
begin

text \<open>
  What a run does to the destination, whatever happens in it. The scratch disk, Git, the source,
  the random generator and the pause between retries leave the stored objects alone
  (\<open>run_frame\<close>); with the create-only contract of the destination (\<open>stored_run\<close>) a run therefore
  only ever adds objects, stages a repository without writing any, and every artifact its entries
  list is stored with the size and checksum the manifest signs.
\<close>

section \<open>Effects that keep a relation\<close>

definition disk_steps :: "('w \<Rightarrow> 'w \<Rightarrow> bool) \<Rightarrow> 'w workspace \<Rightarrow> bool" where
  "disk_steps R ws \<longleftrightarrow>
     (\<forall>p. steps_in R (open_file ws p)) \<and> (\<forall>p b. steps_in R (write_file ws p b))
     \<and> (\<forall>p b. steps_in R (append_file ws p b)) \<and> (\<forall>p. steps_in R (remove_file ws p))
     \<and> (\<forall>p. steps_in R (remove_tree ws p)) \<and> (\<forall>p. steps_in R (mkdir_all ws p))
     \<and> (\<forall>d p. steps_in R (root_mkdir ws d p)) \<and> (\<forall>d p b. steps_in R (root_write ws d p b))"

definition source_steps :: "('w \<Rightarrow> 'w \<Rightarrow> bool) \<Rightarrow> 'w source \<Rightarrow> bool" where
  "source_steps R s \<longleftrightarrow>
     (\<forall>f. steps_in R (list_repos s f)) \<and> (\<forall>p. steps_in R (clone_url s p))
     \<and> (\<forall>p. steps_in R (fetch_metadata s p))
     \<and> (case git_auther s of None \<Rightarrow> True | Some ga \<Rightarrow> steps_in R ga)"

context world_order
begin

lemma steps_let: "steps_in R (f x) \<Longrightarrow> steps_in R (Let x f)"
  by simp

lemma steps_encrypt_chunks:
  assumes wr: "\<And>b. steps_in R (wr b)"
  shows "steps_in R (encrypt_chunks a wr dek pre n src)"
proof (induction "length (body_bytes src)" arbitrary: n src rule: less_induct)
  case less
  show ?case
  proof (cases "read_full enc_chunk src")
    case (Inl e)
    then show ?thesis by (subst encrypt_chunks.simps) (simp add: steps_fail)
  next
    case (Inr q)
    obtain p rest final where q: "q = (p, rest, final)" by (cases q)
    have "\<not> final \<Longrightarrow> steps_in R (encrypt_chunks a wr dek pre m rest)" for m
      using read_full_shorter [of enc_chunk src p rest] Inr q by (intro less) (simp add: enc_chunk_def)
    then show ?thesis
      by (subst encrypt_chunks.simps) (auto simp: Inr q intro!: steps_bind wr steps_ok)
  qed
qed

lemma steps_encrypt:
  assumes "\<And>n. steps_in R (rand n)" and "\<And>b. steps_in R (wr b)"
  shows "steps_in R (encrypt a rand wr src kek)"
  unfolding encrypt_def Let_def using assms by (intro steps_rules steps_encrypt_chunks)

lemma steps_retry:
  assumes "\<And>d. steps_in R (sl d)" and "steps_in R m"
  shows "steps_in R (retry cx sl n base m)"
  by (induction n arbitrary: base) (auto intro!: steps_rules assms simp: sum.case_distrib)

lemma steps_tar:
  assumes disk: "disk_steps R ws"
  shows "steps_in R (tar_node ws ctx rm src rel t)" and "steps_in R (tar_children ws ctx rm src rel cs)"
proof (induction rel t and rel cs rule: entries_node_entries_children.induct)
qed (simp_all only: tar_node.simps tar_children.simps;
      intro steps_rules; use disk in \<open>simp add: disk_steps_def\<close>)+

lemma steps_archive:
  assumes "disk_steps R ws"
  shows "steps_in R (archive_lfs ws ctx src dst)"
  unfolding archive_lfs_def write_tar_def
  using assms steps_tar [OF assms] by (intro steps_rules) (simp_all add: disk_steps_def)

lemma steps_remove_each: "disk_steps R ws \<Longrightarrow> steps_in R (remove_each ws d ns)"
  by (induction ns) (auto intro!: steps_rules simp: disk_steps_def)

lemma steps_keep_objects: "disk_steps R ws \<Longrightarrow> steps_in R (keep_only_objects ws d)"
  unfolding keep_only_objects_def
  by (intro steps_rules) (auto split: node.splits intro!: steps_rules steps_remove_each)

lemma steps_auth: "source_steps R s \<Longrightarrow> steps_in R (git_auth_header s)"
  by (simp add: git_auth_header_def source_steps_def steps_ok split: option.splits)

end

section \<open>A run leaves the stored objects alone\<close>

locale run_frame = git_frame R "git r" for R :: "'w \<Rightarrow> 'w \<Rightarrow> bool" and r :: "'w backup_deps" +
  assumes disk: "disk_steps R (bk_ws r)"
    and source: "source_steps R (bk_src r)"
    and rand: "steps_in R (bk_rand r n)"
    and sleep: "steps_in R (bk_sleep r t)"
begin

lemma steps_encrypt_file: "steps_in R (encrypt_file r p out key)"
  unfolding encrypt_file_def using disk rand
  by (intro steps_rules steps_encrypt) (simp_all add: disk_steps_def)

lemma steps_sha256_file: "steps_in R (sha256_file r p)"
  unfolding sha256_file_def Let_def using disk
  by (intro steps_rules) (simp_all add: disk_steps_def)

lemma steps_stage_file: "steps_in R (stage_file r a)"
  unfolding stage_file_def Let_def using disk
  by (intro steps_rules steps_encrypt_file steps_sha256_file) (simp_all add: disk_steps_def)

lemma steps_stage_files: "steps_in R (stage_files r as)"
  by (induction as) (auto intro!: steps_rules steps_stage_file simp del: okE_apply)

lemma encrypt_bytes_steps: "steps_in R (encrypt_bytes r plain key)"
proof -
  have sim: "world_order (\<lambda>(v, b) (v', b'). R v v')" for R' :: "'w \<times> string \<Rightarrow> 'w \<times> string \<Rightarrow> bool"
    by unfold_locales (auto intro: refl trans)
  have "steps_in (\<lambda>(v, b) (v', b'). R v v')
      (encrypt (bk_aead r) (\<lambda>n (v, buf). case bk_rand r n v of (x, v') \<Rightarrow> (x, (v', buf)))
        (\<lambda>p (v, buf). (Inr (), (v, buf @ p))) src k)" for src k
    using rand by (intro world_order.steps_encrypt [OF sim])
      (auto simp: steps_in_def refl split: prod.splits, metis snd_conv)
  then show ?thesis
    unfolding encrypt_bytes_def steps_in_def
    by (auto split: prod.splits sum.splits) (metis (mono_tags, lifting) case_prod_conv snd_conv)+
qed

lemma steps_stage_bytes: "steps_in R (stage_bytes r kind key plain)"
  unfolding stage_bytes_def by (intro steps_rules encrypt_bytes_steps)

lemma steps_fetch_lfs: "steps_in R (fetch_lfs r mirror url fuel attempt had)"
  by (induction fuel arbitrary: attempt had)
    (auto intro!: steps_rules steps_methods steps_auth source)

lemma steps_stage_lfs: "steps_in R (stage_lfs r repo tmp mirror url key)"
  unfolding stage_lfs_def Let_def
  by (intro steps_rules steps_fetch_lfs steps_keep_objects steps_archive disk)

lemma remove_all_step: "R w (remove_all (bk_ws r) p w)"
  using machine by (simp add: machine_steps_def git_def machine.defs)

lemma steps_clone_attempt: "steps_in R (clone_attempt r url mirror)"
  unfolding clone_attempt_def
  by (intro steps_rules steps_methods steps_auth source) (simp add: steps_in_def remove_all_step)

lemma steps_clone_holds: "steps_in R (clone_holds (git_auth_header (bk_src r)) (\<lambda>h. ls_remote (git r) url h) a c)"
  unfolding clone_holds_def Let_def by (intro steps_rules steps_methods steps_auth source)

lemma steps_bundle_holds: "steps_in R (bundle_holds (git r) b c)"
  unfolding bundle_holds_def Let_def by (intro steps_rules steps_methods)

lemma steps_finish_staging: "steps_in R (finish_staging r repo key refs meta copied fs)"
  unfolding finish_staging_def Let_def
  by (intro steps_rules steps_stage_files steps_stage_bytes)

lemma steps_stage_repo: "steps_in R (stage_repo r date repo adv tmp)"
  unfolding stage_repo_def Let_def using source disk
  by (intro steps_rules steps_retry steps_clone_attempt steps_methods steps_clone_holds
      steps_bundle_holds steps_stage_lfs steps_finish_staging sleep)
    (simp_all add: source_steps_def disk_steps_def)

lemma steps_current_refs: "steps_in R (current_refs (git r) (bk_src r) repo)"
  unfolding current_refs_def using source
  by (intro steps_rules steps_methods steps_auth) (simp_all add: source_steps_def)

end

section \<open>Reading manifests leaves the stored objects alone\<close>

definition reads_steps :: "('w \<Rightarrow> 'w \<Rightarrow> bool) \<Rightarrow> 'w destination \<Rightarrow> bool" where
  "reads_steps R d \<longleftrightarrow> (\<forall>k. steps_in R (get_object d k)) \<and> (\<forall>p. steps_in R (list_objects d p))
     \<and> steps_in R (verify_worm d)
     \<and> (case observe_retention d of None \<Rightarrow> True | Some f \<Rightarrow> \<forall>k. steps_in R (f k))"

text \<open>A relation on worlds, on worlds paired with a search's memory.\<close>

definition paired :: "('w \<Rightarrow> 'w \<Rightarrow> bool) \<Rightarrow> 'w \<times> 'm \<Rightarrow> 'w \<times> 'm \<Rightarrow> bool" where
  "paired R p q \<longleftrightarrow> R (fst p) (fst q)"

context world_order
begin

lemma paired_order: "world_order (paired R)"
  by unfold_locales (auto simp: paired_def intro: refl trans)

lemmas paired_rules = world_order.steps_rules [OF paired_order]

lemma steps_on_world: "steps_in R m \<Longrightarrow> steps_in (paired R) (on_world m)"
  by (auto simp: steps_in_def paired_def on_world_def split: prod.splits) (metis snd_conv)

lemma steps_memory: "steps_in (paired R) (\<lambda>(w, mem). (f w mem, (w, g w mem)))"
  by (auto simp: steps_in_def paired_def refl)

lemma steps_with_memory: "steps_in (paired R) m \<Longrightarrow> steps_in R (with_memory m)"
  by (auto simp: steps_in_def paired_def with_memory_def split: prod.splits) (metis fst_conv snd_conv)

lemma steps_read_bytes: "reads_steps R d \<Longrightarrow> steps_in R (read_manifest_bytes d pub key)"
  unfolding read_manifest_bytes_def read_capped_def Let_def
  by (intro steps_rules) (simp_all add: reads_steps_def)

lemma steps_read_entries: "reads_steps R d \<Longrightarrow> steps_in R (read_manifest_entries c d pub key)"
  unfolding read_manifest_entries_def by (intro steps_rules steps_read_bytes)

lemma steps_load_manifest: "reads_steps R d \<Longrightarrow> steps_in R (load_manifest c d pub key)"
  unfolding load_manifest_def by (intro steps_rules steps_read_bytes)

lemma steps_search_list: "reads_steps R d \<Longrightarrow> steps_in (paired R) (search_list d prefix)"
  unfolding search_list_def
  by (intro paired_rules steps_on_world steps_memory) (simp_all add: reads_steps_def)

lemma steps_search_load: "reads_steps R d \<Longrightarrow> steps_in (paired R) (search_load c d pub keep key n)"
  unfolding search_load_def Let_def
  by (intro paired_rules steps_on_world steps_memory steps_read_entries)

lemma steps_find_in_manifests:
  "reads_steps R d \<Longrightarrow> steps_in (paired R) (find_in_manifests c d pub keep objs sl keys na ms rep)"
  by (induction ms arbitrary: rep)
    (simp_all only: find_in_manifests.simps Let_def, (intro paired_rules steps_search_load; simp)+)

lemma steps_find_in_dirs:
  "reads_steps R d \<Longrightarrow> steps_in (paired R) (find_in_dirs c d pub keep sl keys na ps rep)"
proof (induction ps arbitrary: rep)
  case (Cons p ps)
  obtain dir on where p: "p = (dir, on)" by (cases p)
  show ?case unfolding p find_in_dirs.simps Let_def
    by (intro paired_rules steps_search_list steps_find_in_manifests Cons)
qed (simp only: find_in_dirs.simps paired_rules)

lemma steps_find_copy: "reads_steps R d \<Longrightarrow> steps_in (paired R) (find_copy c d pub keep dirs on sl keys na)"
  unfolding find_copy_def by (rule steps_find_in_dirs)

lemma steps_previous_walk:
  "reads_steps R d \<Longrightarrow> steps_in R (previous_walk c d pub clock bound objs selected now keys reads decided out)"
  by (induction keys arbitrary: reads decided out)
    (simp_all only: previous_walk.simps, (intro steps_rules steps_read_entries; simp)+)

lemma steps_load_previous: "reads_steps R d \<Longrightarrow> steps_in R (load_previous c d pub clock bound dir selected)"
  unfolding load_previous_def
  by (intro steps_rules steps_previous_walk) (simp_all add: reads_steps_def)

end

section \<open>A run only adds\<close>

locale stored_run = run_frame "same_on objs" r + dst: create_only "bk_dst r" objs + fin: create_only "bk_final r" objs
  for objs :: "'w \<Rightarrow> (string \<rightharpoonup> string)" and r :: "'w backup_deps"
begin

lemma reads: "reads_steps (grows_on objs) (bk_dst r)" "reads_steps (grows_on objs) (bk_final r)"
  using dst.reads_grow fin.reads_grow by (auto simp: reads_steps_def split: option.splits)

lemma stage_repo_same: "steps_in (same_on objs) (stage_repo r date repo adv tmp)"
  by (rule steps_stage_repo)

lemma put_staged_grows: "steps_in (grows_on objs) (put_staged r ret a)"
  unfolding put_staged_def using disk
  by (intro grows.steps_rules dst.put_grows steps_same_grows) (simp_all add: disk_steps_def)

lemma upload_all_grows: "steps_in (grows_on objs) (upload_all r ret as p)"
  by (induction as arbitrary: p)
    (simp_all only: upload_all.simps, (intro grows.steps_rules put_staged_grows; simp)+)

lemma backup_repo_grows: "steps_in (grows_on objs) (backup_repo r date ret repo adv)"
proof -
  have "steps_in (grows_on objs) (mkdir_temp (bk_ws r) p)" for p
    using machine by (intro steps_same_grows) (simp add: machine_steps_def git_def machine.defs)
  moreover have "grows_on objs w (remove_all (bk_ws r) p w)" for w p
    using remove_all_step by (intro same_grows)
  ultimately show ?thesis
    unfolding backup_repo_def
    by (intro grows.steps_rules grows.steps_defer upload_all_grows steps_same_grows [OF steps_stage_repo])
qed

lemma resumed_grows: "steps_in (paired (grows_on objs)) (resumed r st repo)"
  unfolding resumed_def resume_date_def resume_copy_def Let_def
  by (intro grows.paired_rules grows.steps_on_world grows.steps_read grows.steps_find_copy reads)
    (use reads in \<open>simp_all add: reads_steps_def\<close>)

lemma backup_one_grows: "steps_in (paired (grows_on objs)) (backup_one r st ret repo)"
  unfolding backup_one_def
  by (intro grows.paired_rules resumed_grows grows.steps_on_world grows.steps_rules
      steps_same_grows [OF steps_current_refs] backup_repo_grows)

lemma fan_out_grows: "steps_in (paired (grows_on objs)) (fan_out r st ret ps)"
  by (induction ps)
    (simp_all only: fan_out.simps, (intro grows.paired_rules backup_one_grows grows.steps_on_world grows.steps_read; simp)+)

lemma begin_run_grows: "steps_in (grows_on objs) (begin_run r started)"
proof -
  have "steps_in (grows_on objs) (list_repos (bk_src r) f)" for f
    using source by (intro steps_same_grows) (simp add: source_steps_def)
  then show ?thesis
    unfolding begin_run_def worm_check_def select_repos_def Let_def
    by (intro grows.steps_rules grows.steps_load_previous reads steps_same_grows [OF steps_auth [OF source]])
      (use reads in \<open>simp_all add: reads_steps_def\<close>)
qed

lemma observe_keys_grows: "(\<And>k. steps_in (grows_on objs) (f k)) \<Longrightarrow> steps_in (grows_on objs) (observe_keys f ks ob)"
  by (induction ks arbitrary: ob) (simp_all only: observe_keys.simps, (intro grows.steps_rules; simp)+)

lemma observe_run_grows: "steps_in (grows_on objs) (observe_run (bk_final r) ws es)"
proof (cases "observe_retention (bk_final r)")
  case None
  then show ?thesis unfolding observe_run_def Let_def by (simp add: grows.steps_ok del: okE_apply)
next
  case (Some f)
  then have "steps_in (grows_on objs) (f k)" for k using reads(2) by (simp add: reads_steps_def)
  then show ?thesis
    unfolding observe_run_def Let_def Some option.case by (intro grows.steps_rules observe_keys_grows)
qed

lemma upload_manifest_grows: "steps_in (grows_on objs) (upload_manifest r m dir ret)"
  unfolding upload_manifest_def Let_def by (intro grows.steps_rules fin.put_grows)

lemma end_run_grows: "steps_in (grows_on objs) (end_run r started repos st ret entries)"
  unfolding end_run_def new_run_id_def Let_def
  by (intro grows.steps_rules observe_run_grows upload_manifest_grows steps_same_grows [OF rand])

lemma backup_run_grows: "steps_in (grows_on objs) (backup_run r)"
  unfolding backup_run_def
  by (intro grows.steps_rules begin_run_grows grows.steps_with_memory fan_out_grows end_run_grows)

end

end
