(* ===== verification/Stored.thy ===== *)
theory Stored
  imports Frame
begin

text \<open>
  What a manifest lists is stored. With a scratch disk whose files change only where they are
  written (\<open>checked_run\<close>), every artifact that an entry of a run lists is in the destination under
  its key, and its size and checksum are those of the stored bytes, at the end of the run as much
  as when it was written.
\<close>

definition stored_artifact :: "(string \<Rightarrow> string) \<Rightarrow> (string \<rightharpoonup> string) \<Rightarrow> artifact_info \<Rightarrow> bool" where
  "stored_artifact sha store a \<longleftrightarrow>
     (\<exists>bs. store (ai_key a) = Some bs \<and> ai_sha256 a = sha bs \<and> ai_size a = int (length bs))"

definition entry_stored :: "(string \<Rightarrow> string) \<Rightarrow> (string \<rightharpoonup> string) \<Rightarrow> repo_entry \<Rightarrow> bool" where
  "entry_stored sha store e \<longleftrightarrow> (\<forall>a \<in> set (en_artifacts e). stored_artifact sha store a)"

definition all_stored :: "(string \<Rightarrow> string) \<Rightarrow> (string \<rightharpoonup> string) \<Rightarrow> repo_entry list \<Rightarrow> bool" where
  "all_stored sha s es \<longleftrightarrow> (\<forall>e \<in> set es. entry_stored sha s e)"

lemma stored_artifact_mono: "stored_artifact sha s a \<Longrightarrow> s \<subseteq>\<^sub>m s' \<Longrightarrow> stored_artifact sha s' a"
  by (force simp: stored_artifact_def map_le_def)

lemma entry_stored_mono: "entry_stored sha s e \<Longrightarrow> s \<subseteq>\<^sub>m s' \<Longrightarrow> entry_stored sha s' e"
  by (auto simp: entry_stored_def intro: stored_artifact_mono)

section \<open>What every successful return has\<close>

definition ensures :: "('a \<Rightarrow> 'w \<Rightarrow> bool) \<Rightarrow> ('w, 'a) io \<Rightarrow> bool" where
  "ensures P m \<longleftrightarrow> (\<forall>w x w'. m w = (Inr x, w') \<longrightarrow> P x w')"

lemma ensuresD: "ensures P m \<Longrightarrow> m w = (Inr x, w') \<Longrightarrow> P x w'"
  by (auto simp: ensures_def)

lemma ensures_fail: "ensures P (failE e)"
  by (simp add: ensures_def)

lemma ensures_bind: "(\<And>x. ensures P (f x)) \<Longrightarrow> ensures P (bindE m f)"
  by (fastforce simp: ensures_def bindE_Inr)

lemma ensures_bind_with:
  "ensures (\<lambda>x w. Q x) m \<Longrightarrow> (\<And>x. Q x \<Longrightarrow> ensures P (f x)) \<Longrightarrow> ensures P (bindE m f)"
  by (fastforce simp: ensures_def bindE_Inr)

lemma ensures_ok: "(\<And>w. P x w) \<Longrightarrow> ensures P (okE x)"
  by (simp add: ensures_def)

lemma ensures_if: "ensures P a \<Longrightarrow> ensures P b \<Longrightarrow> ensures P (if c then a else b)"
  by simp

lemma ensures_sum:
  "(\<And>e. ensures P (f e)) \<Longrightarrow> (\<And>x. ensures P (g x)) \<Longrightarrow> ensures P (case x of Inl e \<Rightarrow> f e | Inr y \<Rightarrow> g y)"
  by (cases x) simp_all

lemma ensures_option:
  "ensures P f \<Longrightarrow> (\<And>x. ensures P (g x)) \<Longrightarrow> ensures P (case x of None \<Rightarrow> f | Some y \<Rightarrow> g y)"
  by (cases x) simp_all

lemma ensures_list:
  "ensures P f \<Longrightarrow> (\<And>y ys. ensures P (g y ys)) \<Longrightarrow> ensures P (case x of [] \<Rightarrow> f | y # ys \<Rightarrow> g y ys)"
  by (cases x) simp_all

lemma ensures_prod: "(\<And>a b. ensures P (f a b)) \<Longrightarrow> ensures P (case x of (a, b) \<Rightarrow> f a b)"
  by (cases x) simp

lemmas ensures_rules = ensures_fail ensures_ok ensures_bind ensures_if ensures_sum ensures_option
  ensures_list ensures_prod

section \<open>Staged files\<close>

definition staged_ok :: "(string \<Rightarrow> string) \<Rightarrow> (string \<rightharpoonup> string) \<Rightarrow> staged \<Rightarrow> bool" where
  "staged_ok sha disk a \<longleftrightarrow>
     (\<exists>bs. (if st_path a = [] then st_data a = bs else disk (st_path a) = Some bs)
        \<and> st_sha a = sha bs \<and> st_size a = int (length bs))"

text \<open>The files that staging one file writes and removes.\<close>

definition touched :: "staged \<Rightarrow> string set" where
  "touched a = {st_path a, st_path a @ ''.enc''}"

locale checked_run = stored_run objs r for objs :: "'w \<Rightarrow> (string \<rightharpoonup> string)" and r :: "'w backup_deps" +
  fixes files :: "'w \<Rightarrow> (string \<rightharpoonup> string)"
  assumes open_gives: "open_file (bk_ws r) p w = (Inr b, w') \<Longrightarrow>
      \<exists>bs t. files w p = Some bs \<and> bs = body_bytes b @ t \<and> (body_err b = None \<longrightarrow> t = [])"
    and open_same: "steps_in (same_on files) (open_file (bk_ws r) p)"
    and write_only: "steps_in (except_on files {p}) (write_file (bk_ws r) p c)"
      "steps_in (except_on files {p}) (append_file (bk_ws r) p c)"
      "steps_in (except_on files {p}) (remove_file (bk_ws r) p)"
    and rand_same: "steps_in (same_on files) (bk_rand r n)"
    and put_same: "steps_in (same_on files) (put_immutable (bk_dst r) k b m ret)"
    and segment_names: "list_repos (bk_src r) f w = (Inr ps, w') \<Longrightarrow> q \<in> set ps \<Longrightarrow> CHR ''/'' \<notin> set (rp_name q)"
begin

lemma sha256_file_ok:
  assumes "sha256_file r p w = (Inr (h, n), w')"
  shows "\<exists>bs. files w' p = Some bs \<and> h = bk_sha r bs \<and> n = int (length bs)"
proof -
  obtain b where o1: "open_file (bk_ws r) p w = (Inr b, w')" and e: "body_err b = None"
    and h: "h = bk_sha r (body_bytes b)" "n = int (length (body_bytes b))"
    using assms by (auto simp: sha256_file_def bindE_Inr Let_def ctx_body_def split: option.splits)
  show ?thesis using open_gives [OF o1] same_D [OF open_same o1] e h by auto
qed

lemma encrypt_file_outside: "steps_in (except_on files {out}) (encrypt_file r p out k)"
  unfolding encrypt_file_def
  by (intro outside.steps_rules outside.steps_encrypt steps_same_outside [OF open_same]
      steps_same_outside [OF rand_same] write_only)

lemma stage_file_outside: "steps_in (except_on files (touched a)) (stage_file r a)"
proof -
  have "steps_in (except_on files (touched a)) (encrypt_file r (st_path a) (st_path a @ ''.enc'') k)" for k
    by (rule steps_outside_mono [OF encrypt_file_outside]) (simp add: touched_def)
  moreover have "steps_in (except_on files (touched a)) (remove_file (bk_ws r) (st_path a))"
    by (rule steps_outside_mono [OF write_only(3)]) (simp add: touched_def)
  moreover have "steps_in (except_on files (touched a)) (sha256_file r p)" for p
    unfolding sha256_file_def Let_def
    by (intro outside.steps_rules steps_same_outside [OF open_same])
  ultimately show ?thesis
    unfolding stage_file_def Let_def by (intro outside.steps_rules)
qed

lemma stage_file_ok:
  assumes "stage_file r a w = (Inr b, w')" and "st_path a \<noteq> []"
  shows "staged_ok (bk_sha r) (files w') b \<and> st_path b \<in> touched a"
proof -
  obtain p w1 h n where s: "sha256_file r p w1 = (Inr (h, n), w')" and p: "p \<in> touched a"
    and b: "b = a\<lparr>st_path := p, st_sha := h, st_size := n\<rparr>"
    using assms(1) by (auto simp: stage_file_def bindE_Inr Let_def touched_def split: option.splits)
  have "p \<noteq> []" using p assms(2) by (auto simp: touched_def)
  then show ?thesis using sha256_file_ok [OF s] p b by (auto simp: staged_ok_def)
qed

lemma stage_files_outside: "steps_in (except_on files (\<Union> (touched ` set as))) (stage_files r as)"
proof (induction as)
  case (Cons a as)
  have "steps_in (except_on files (\<Union> (touched ` set (a # as)))) (stage_file r a)"
    by (rule steps_outside_mono [OF stage_file_outside]) simp
  moreover have "steps_in (except_on files (\<Union> (touched ` set (a # as)))) (stage_files r as)"
    by (rule steps_outside_mono [OF Cons]) auto
  ultimately show ?case unfolding stage_files.simps by (intro outside.steps_rules)
qed (simp add: outside.steps_ok del: okE_apply)

lemma stage_files_ok:
  assumes "stage_files r as w = (Inr bs, w')" and "\<forall>a \<in> set as. st_path a \<noteq> []"
    and "sorted_wrt (\<lambda>a b. touched a \<inter> touched b = {}) as"
  shows "\<forall>b \<in> set bs. staged_ok (bk_sha r) (files w') b"
  using assms
proof (induction as arbitrary: w bs)
  case (Cons a as)
  obtain b w1 bs' where one: "stage_file r a w = (Inr b, w1)" and rest: "stage_files r as w1 = (Inr bs', w')"
    and bs: "bs = b # bs'"
    using Cons.prems(1) by (auto simp: bindE_Inr)
  have ok: "staged_ok (bk_sha r) (files w1) b" and p: "st_path b \<in> touched a"
    using stage_file_ok [OF one] Cons.prems(2) by auto
  have "st_path b \<notin> \<Union> (touched ` set as)" using p Cons.prems(3) by auto
  then have "files w' (st_path b) = files w1 (st_path b)"
    by (rule outside_D [OF stage_files_outside rest])
  with ok have "staged_ok (bk_sha r) (files w') b" by (auto simp: staged_ok_def)
  then show ?case using Cons.IH [OF rest] Cons.prems(2,3) bs by auto
qed simp

lemma stage_bytes_same: "steps_in (same_on files) (stage_bytes r kind key plain)"
proof -
  have order: "world_order (\<lambda>(v, b :: string) (v', b'). same_on files v v')"
    by unfold_locales (auto simp: same_on_def)
  have "steps_in (\<lambda>(v, b) (v', b'). same_on files v v')
      (encrypt (bk_aead r) (\<lambda>n (v, buf). case bk_rand r n v of (x, v') \<Rightarrow> (x, (v', buf)))
        (\<lambda>p (v, buf). (Inr (), (v, buf @ p))) src k)" for src k
    using rand_same by (intro world_order.steps_encrypt [OF order])
      (auto simp: steps_in_def same_on_def split: prod.splits, metis snd_conv)
  then have "steps_in (same_on files) (encrypt_bytes r plain k)" for k
    unfolding encrypt_bytes_def steps_in_def
    by (auto split: prod.splits sum.splits) (metis (mono_tags, lifting) case_prod_conv snd_conv)+
  then show ?thesis unfolding stage_bytes_def by (intro same.steps_rules)
qed

lemma stage_bytes_ok: "stage_bytes r kind key plain w = (Inr a, w') \<Longrightarrow> staged_ok (bk_sha r) disk a"
  by (auto simp: stage_bytes_def bindE_Inr staged_ok_def)

lemma staged_ok_same: "staged_ok sha (files w) a \<Longrightarrow> same_on files w w' \<Longrightarrow> staged_ok sha (files w') a"
  by (simp add: same_on_def)

lemma finish_staging_ok:
  assumes "\<forall>a \<in> set fs. st_path a \<noteq> []" and "sorted_wrt (\<lambda>a b. touched a \<inter> touched b = {}) fs"
  shows "ensures (\<lambda>sg w. \<forall>a \<in> set (sg_artifacts sg). staged_ok (bk_sha r) (files w) a)
    (finish_staging r repo key refs meta copied fs)"
  unfolding ensures_def
proof (intro allI impI)
  fix w sg w'
  assume run: "finish_staging r repo key refs meta copied fs w = (Inr sg, w')"
  let ?M = "case meta of Inl e \<Rightarrow> okE [] | Inr m \<Rightarrow> bindE (stage_bytes r ''meta'' (key ''.meta.json'') m) (\<lambda>a. okE [a])"
  let ?S = "\<lambda>line. if refs then bindE (stage_bytes r ''sha256'' (key ''.sha256'') line) (\<lambda>a. okE [a]) else okE []"
  obtain bs w1 ms w2 line ss where f: "stage_files r fs w = (Inr bs, w1)" and m: "?M w1 = (Inr ms, w2)"
    and s: "?S line w2 = (Inr ss, w')" and sg: "sg_artifacts sg = sort_key (\<lambda>a. - st_size a) (bs @ ms) @ ss"
    using run unfolding finish_staging_def Let_def by (elim bindE_InrE) (force elim: bindE_InrE)
  have arts: "set (sg_artifacts sg) = set bs \<union> set ms \<union> set ss" unfolding sg by simp
  have "same_on files w1 w2"
    by (rule steps_inD [where m = ?M, OF _ m]) (intro same.steps_rules stage_bytes_same)
  then have bs: "\<forall>b \<in> set bs. staged_ok (bk_sha r) (files w2) b"
    using stage_files_ok [OF f assms] staged_ok_same by blast
  have ms: "\<forall>b \<in> set ms. staged_ok (bk_sha r) disk b" for disk
    using m stage_bytes_ok by (auto simp: bindE_Inr split: sum.splits)
  have "same_on files w2 w'"
    by (rule steps_inD [where m = "?S line", OF _ s]) (intro same.steps_rules stage_bytes_same)
  moreover have "\<forall>b \<in> set ss. staged_ok (bk_sha r) disk b" for disk
    using s stage_bytes_ok by (auto simp: bindE_Inr split: if_splits)
  ultimately show "\<forall>a \<in> set (sg_artifacts sg). staged_ok (bk_sha r) (files w') a"
    using bs ms staged_ok_same arts by blast
qed

lemma stage_lfs_result:
  "ensures (\<lambda>fs w. fs = [] \<or> fs = [staged_file ''lfs'' key (file_join tmp (rp_name repo @ ''.lfs.tar''))])
    (stage_lfs r repo tmp mirror url key)"
  unfolding stage_lfs_def Let_def by (intro ensures_bind) (simp add: ensures_def bindE_Inr)

lemma bundle_result:
  "ensures (\<lambda>fs w. fs = [] \<or> fs = [staged_file ''bundle'' k p])
    (if c then bindE m (\<lambda>_. bindE (m' :: ('w, unit) io) (\<lambda>_. okE [staged_file ''bundle'' k p])) else okE [])"
  by (auto simp: ensures_def bindE_Inr)

lemma staged_paths:
  assumes "CHR ''/'' \<notin> set n"
    and "fs = [] \<or> fs = [staged_file ''lfs'' k (file_join tmp (n @ ''.lfs.tar''))]"
    and "gs = [] \<or> gs = [staged_file ''bundle'' k' (file_join tmp (n @ ''.bundle''))]"
  shows "(\<forall>a \<in> set (fs @ gs). st_path a \<noteq> []) \<and> sorted_wrt (\<lambda>a b. touched a \<inter> touched b = {}) (fs @ gs)"
proof -
  obtain x where x: "\<And>f. plain_seg f \<Longrightarrow> file_join tmp f = x @ f"
    using path_join_seg [of tmp] by (auto simp: file_join_def)
  have "plain_seg (n @ ''.lfs.tar'')" "plain_seg (n @ ''.bundle'')"
    using assms(1) by (auto simp: plain_seg_def)
  then have j: "file_join tmp (n @ ''.lfs.tar'') = x @ n @ ''.lfs.tar''"
    "file_join tmp (n @ ''.bundle'') = x @ n @ ''.bundle''" using x by simp_all
  show ?thesis
    using assms(2,3) unfolding j by (elim disjE) (simp_all add: staged_file_def touched_def)
qed

lemma stage_repo_ok:
  assumes "CHR ''/'' \<notin> set (rp_name repo)"
  shows "ensures (\<lambda>sg w. \<forall>a \<in> set (sg_artifacts sg). staged_ok (bk_sha r) (files w) a) (stage_repo r date repo adv tmp)"
proof -
  let ?lfs = "staged_file ''lfs'' (artifact_key repo date ''.lfs.tar'') (file_join tmp (rp_name repo @ ''.lfs.tar''))"
  have lfs: "ensures (\<lambda>fs w. fs = [] \<or> fs = [?lfs])
      (if c then stage_lfs r repo tmp mirror url (artifact_key repo date ''.lfs.tar'') else okE [])" for c mirror url
    using stage_lfs_result by (simp add: ensures_def)
  show ?thesis
    unfolding stage_repo_def Let_def
    by (rule ensures_bind_with [OF lfs] ensures_bind_with [OF bundle_result] ensures_bind
        | (rule finish_staging_ok; use staged_paths [OF assms] in blast))+
qed

subsection \<open>Uploads\<close>

lemma put_staged_stored:
  assumes "put_staged r ret a w = (Inr x, w')" and "staged_ok (bk_sha r) (files w) a"
  shows "stored_artifact (bk_sha r) (objs w') (artifact_of kind x (st_sha a))"
proof -
  obtain bs where bs: "if st_path a = [] then st_data a = bs else files w (st_path a) = Some bs"
    "st_sha a = bk_sha r bs" "st_size a = int (length bs)"
    using assms(2) by (auto simp: staged_ok_def)
  obtain b w1 where put: "put_immutable (bk_dst r) (st_key a) b (st_size a) ret w1 = (Inr x, w')"
    and pre: "\<exists>t. bs = body_bytes b @ t"
  proof (cases "st_path a = []")
    case True
    then show thesis using assms(1) bs(1) that by (auto simp: put_staged_def)
  next
    case False
    then obtain b w1 where o1: "open_file (bk_ws r) (st_path a) w = (Inr b, w1)"
      and p: "put_immutable (bk_dst r) (st_key a) b (st_size a) ret w1 = (Inr x, w')"
      using assms(1) by (auto simp: put_staged_def bindE_Inr)
    show thesis using that [OF p] open_gives [OF o1] bs(1) False by auto
  qed
  have st: "objs w' (st_key a) = Some (body_bytes b)" "int (length (body_bytes b)) = st_size a"
    and named: "pr_key x = st_key a" "pr_size x = st_size a"
    using dst.put_stores [OF put] by simp_all
  obtain t where t: "bs = body_bytes b @ t" using pre by blast
  then have "t = []" using st(2) bs(3) by simp
  then have "body_bytes b = bs" using t by simp
  then show ?thesis
    unfolding stored_artifact_def artifact_of_def using st named bs(2) by simp
qed

lemma put_staged_files: "steps_in (same_on files) (put_staged r ret a)"
  unfolding put_staged_def by (intro same.steps_rules put_same open_same)

lemma wrote_set: "snd ` set (wrote a p) \<subseteq> insert a (snd ` set p)"
proof -
  have "snd ` set (AList.update k v p) \<subseteq> insert v (snd ` set p)" for k :: string and v p
    by (induction p) auto
  then show ?thesis by (simp add: wrote_def)
qed

lemma upload_all_stored:
  assumes "upload_all r ret as p w = (Inr (p', err), w')"
    and "\<forall>a \<in> set as. staged_ok (bk_sha r) (files w) a"
    and "\<forall>a \<in> snd ` set p. stored_artifact (bk_sha r) (objs w) a"
  shows "\<forall>a \<in> snd ` set p'. stored_artifact (bk_sha r) (objs w') a"
  using assms
proof (induction as arbitrary: p w)
  case (Cons a as)
  obtain x w1 where put: "put_staged r ret a w = (x, w1)" by fastforce
  have grow: "objs w \<subseteq>\<^sub>m objs w1"
    using steps_inD [OF put_staged_grows put] by (simp add: grows_on_def)
  have kept: "\<forall>b \<in> snd ` set p. stored_artifact (bk_sha r) (objs w1) b"
    using Cons.prems(3) grow stored_artifact_mono by blast
  show ?case
  proof (cases x)
    case (Inl e)
    then have "p' = p" "w' = w1" using Cons.prems(1) put by (auto simp: bindE_def tryE_def)
    then show ?thesis using kept by simp
  next
    case (Inr y)
    let ?p1 = "wrote (artifact_of (st_kind a) y (st_sha a)) p"
    have run: "upload_all r ret as ?p1 w1 = (Inr (p', err), w')"
      using Cons.prems(1) put Inr by (simp add: bindE_def tryE_def)
    have "stored_artifact (bk_sha r) (objs w1) (artifact_of (st_kind a) y (st_sha a))"
      by (rule put_staged_stored [OF put [unfolded Inr]]) (use Cons.prems(2) in simp)
    then have "\<forall>b \<in> snd ` set ?p1. stored_artifact (bk_sha r) (objs w1) b"
      using kept wrote_set [of "artifact_of (st_kind a) y (st_sha a)" p] by (intro ballI) (drule subsetD, assumption, auto)
    moreover have "\<forall>b \<in> set as. staged_ok (bk_sha r) (files w1) b"
      using Cons.prems(2) same_D [OF put_staged_files put] by simp
    ultimately show ?thesis by (intro Cons.IH [OF run])
  qed
qed simp

lemma written_set: "set (written p) \<subseteq> snd ` set p"
proof -
  have "set (List.map_filter (map_of p) ks) \<subseteq> snd ` set p" for ks
    by (induction ks) (auto simp: map_filter_simps split: option.splits dest!: map_of_SomeD, force)
  then show ?thesis by (simp add: written_def del: map_filter_simps)
qed

lemma finish_entry_artifacts:
  "finish_entry sl sg (p, err) = (e, c) \<Longrightarrow> set (en_artifacts e) \<subseteq> snd ` set p"
  using written_set [of p] by (auto simp: finish_entry_def Let_def split: option.splits)

lemma failed_entry_stored: "entry_stored sha s (failed_entry sl e)"
  by (simp add: entry_stored_def failed_entry_def zero_entry_def)

lemma backup_repo_stored:
  assumes name: "CHR ''/'' \<notin> set (rp_name repo)"
    and run: "backup_repo r date ret repo adv w = (Inr (e, c), w')"
  shows "entry_stored (bk_sha r) (objs w') e"
proof (cases "mkdir_temp (bk_ws r) ''gitdr-backup-'' w")
  case (Pair t w1)
  show ?thesis
  proof (cases t)
    case (Inl x)
    then have "e = failed_entry (slug repo) (wrap_error ''tempdir'' x)"
      using run Pair by (simp add: backup_repo_def bindE_def tryE_def)
    then show ?thesis by (simp add: failed_entry_stored)
  next
    case (Inr tmp)
    obtain s w2 where st: "stage_repo r date repo adv tmp w1 = (s, w2)" by fastforce
    show ?thesis
    proof (cases s)
      case (Inl x)
      then have "e = failed_entry (slug repo) x"
        using run Pair Inr st by (simp add: backup_repo_def bindE_def tryE_def deferE_def)
      then show ?thesis by (simp add: failed_entry_stored)
    next
      case s: (Inr sg)
      obtain u w3 where up: "upload_all r ret (sg_artifacts sg) [] w2 = (u, w3)" by fastforce
      obtain p err where u: "u = Inr (p, err)" and fin: "finish_entry (slug repo) sg (p, err) = (e, c)"
        and w': "w' = remove_all (bk_ws r) tmp w3"
        using run Pair Inr st s up
        by (auto simp: backup_repo_def bindE_def tryE_def deferE_def split: sum.splits)
      have "\<forall>a \<in> set (sg_artifacts sg). staged_ok (bk_sha r) (files w2) a"
        by (rule ensuresD [OF stage_repo_ok [OF name] st [unfolded s]])
      then have "\<forall>a \<in> snd ` set p. stored_artifact (bk_sha r) (objs w3) a"
        by (rule upload_all_stored [OF up [unfolded u]]) simp
      moreover have "objs w' = objs w3"
        using remove_all_step [of w3 tmp] w' by (simp add: same_on_def)
      ultimately show ?thesis using finish_entry_artifacts [OF fin] by (auto simp: entry_stored_def)
    qed
  qed
qed

subsection \<open>A run\<close>

lemma no_artifacts [simp]:
  "en_artifacts (failed_entry sl x) = []" "en_artifacts (spent sl nxt what detail) = []"
  "en_artifacts (incomplete sl date nxt detail) = []" "en_artifacts (unchanged_entry sl reason p) = []"
  by (simp_all add: failed_entry_def spent_def incomplete_def unchanged_entry_def zero_entry_def)

lemma resume_no_artifacts [simp]: "en_artifacts (resume_from sl date nxt st f now) = []"
  unfolding resume_from_def Let_def by (simp add: zero_entry_def split: option.split)

lemma resume_date_lists_nothing: "ensures (\<lambda>e w. en_artifacts e = []) (resume_date r st q here)"
  unfolding resume_date_def resume_copy_def Let_def by (intro ensures_rules) simp_all

lemma resumed_lists_nothing: "ensures (\<lambda>oe w. \<forall>e. oe = Some e \<longrightarrow> en_artifacts e = []) (resumed r st q)"
  unfolding resumed_def Let_def
  by (rule ensures_bind, intro ensures_sum ensures_if ensures_ok ensures_bind_with [OF resume_date_lists_nothing])
    simp_all

lemma copied_entry_artifacts [simp]: "en_artifacts (copied_entry e c t) = en_artifacts e"
  by (simp add: copied_entry_def)

lemma after_stop_artifacts [simp]: "en_artifacts (after_stop d e) = en_artifacts e"
  by (simp add: after_stop_def)

lemma unchanged_skip_artifacts: "unchanged_skip r st sl cur now = Some e \<Longrightarrow> en_artifacts e = []"
  by (auto simp: unchanged_skip_def Let_def split: option.splits if_splits)

lemma entry_stored_none: "en_artifacts e = [] \<Longrightarrow> entry_stored sha s e"
  by (simp add: entry_stored_def)

lemma ensures_on_world: "ensures P m \<Longrightarrow> ensures (\<lambda>x w. P x (fst w)) (on_world m)"
  by (auto simp: ensures_def on_world_def split: prod.splits)

lemma copy_stored:
  assumes "CHR ''/'' \<notin> set (rp_name repo)"
  shows "ensures (\<lambda>e w. entry_stored (bk_sha r) (objs w) e)
    (bindE (backup_repo r date ret repo cur) (\<lambda>(e, copied). bindE (readE (bk_clock r)) (\<lambda>fin. okE (copied_entry e copied fin))))"
  unfolding ensures_def
  by (auto simp: bindE_Inr entry_stored_def dest!: backup_repo_stored [OF assms])

lemma backup_one_stored:
  assumes "CHR ''/'' \<notin> set (rp_name repo)"
  shows "ensures (\<lambda>e w. entry_stored (bk_sha r) (objs (fst w)) e) (backup_one r st ret repo)"
proof -
  let ?P = "\<lambda>e w. entry_stored (bk_sha r) (objs (fst w)) e"
  let ?copy = "bindE (current_refs (git r) (bk_src r) repo) (\<lambda>current. bindE (readE (bk_clock r)) (\<lambda>now.
      case unchanged_skip r st (slug repo) current now of Some e \<Rightarrow> okE e
      | None \<Rightarrow> bindE (backup_repo r (rs_date st) ret repo current) (\<lambda>(e, copied).
          bindE (readE (bk_clock r)) (\<lambda>fin. okE (copied_entry e copied fin)))))"
  have "ensures (\<lambda>e w. entry_stored (bk_sha r) (objs w) e) (case unchanged_skip r st (slug repo) current now of Some e \<Rightarrow> okE e
      | None \<Rightarrow> bindE (backup_repo r (rs_date st) ret repo current) (\<lambda>(e, copied).
          bindE (readE (bk_clock r)) (\<lambda>fin. okE (copied_entry e copied fin))))" for current now
  proof (cases "unchanged_skip r st (slug repo) current now")
    case None
    then show ?thesis using copy_stored [OF assms] by simp
  next
    case (Some e)
    then have "entry_stored (bk_sha r) s e" for s by (intro entry_stored_none unchanged_skip_artifacts)
    then show ?thesis unfolding Some option.case by (intro ensures_ok)
  qed
  then have copy: "ensures ?P (on_world ?copy)"
    by (intro ensures_on_world ensures_bind)
  have "ensures (\<lambda>oe w. \<forall>e. oe = Some e \<longrightarrow> en_artifacts e = [])
      (if bc_resume (cf_backup (bk_cfg r)) then resumed r st repo else okE None)"
    using resumed_lists_nothing by (intro ensures_if ensures_ok) simp_all
  then show ?thesis
    unfolding backup_one_def
    by (rule ensures_bind_with)
      (use copy in \<open>auto intro!: ensures_ok intro: entry_stored_none simp del: okE_apply split: option.split\<close>)
qed

lemma fan_out_stored:
  assumes "\<forall>q \<in> set ps. CHR ''/'' \<notin> set (rp_name q)"
  shows "ensures (\<lambda>es w. all_stored (bk_sha r) (objs (fst w)) es) (fan_out r st ret ps)"
  using assms
proof (induction ps)
  case Nil
  show ?case by (simp add: ensures_def all_stored_def)
next
  case (Cons q ps)
  show ?case
    unfolding ensures_def
  proof (intro allI impI)
    fix w es w'
    assume run: "fan_out r st ret (q # ps) w = (Inr es, w')"
    show "all_stored (bk_sha r) (objs (fst w')) es"
    proof (cases "bk_ctx r (fst w)")
      case (Some x)
      then have "\<forall>e \<in> set es. en_artifacts e = []"
        using run by (cases w) (auto simp: bindE_Inr on_world_def not_started_def)
      then show ?thesis by (simp add: all_stored_def entry_stored_none)
    next
      case None
      then obtain e w1 d es' where one: "backup_one r st ret q w = (Inr e, w1)"
        and rest: "fan_out r st ret ps w1 = (Inr es', w')" and es: "es = after_stop d e # es'"
        using run by (cases w) (auto simp: bindE_Inr on_world_def split: prod.splits)
      have "entry_stored (bk_sha r) (objs (fst w1)) e"
        using ensuresD [OF backup_one_stored one] Cons.prems by simp
      moreover have "objs (fst w1) \<subseteq>\<^sub>m objs (fst w')"
        using steps_inD [OF fan_out_grows rest] by (simp add: paired_def grows_on_def)
      ultimately have "entry_stored (bk_sha r) (objs (fst w')) e" by (rule entry_stored_mono)
      moreover have "all_stored (bk_sha r) (objs (fst w')) es'"
        using ensuresD [OF Cons.IH rest] Cons.prems by simp
      ultimately show ?thesis by (simp add: all_stored_def entry_stored_def es)
    qed
  qed
qed

lemma begin_run_names: "ensures (\<lambda>(repos, st, ret) w. \<forall>q \<in> set repos. CHR ''/'' \<notin> set (rp_name q)) (begin_run r started)"
proof -
  have "ensures (\<lambda>repos w. \<forall>q \<in> set repos. CHR ''/'' \<notin> set (rp_name q)) (select_repos r)"
    using segment_names by (fastforce simp: ensures_def select_repos_def Let_def bindE_Inr split: if_splits)
  then show ?thesis
    unfolding begin_run_def Let_def
    by (intro ensures_bind [where m = "worm_check r"], elim ensures_bind_with, intro ensures_rules) simp
qed

lemma end_run_entries: "ensures (\<lambda>(res, err) w. m_repos (br_manifest res) = es) (end_run r started repos st ret es)"
  unfolding end_run_def Let_def by (intro ensures_rules) simp_all

lemma run_stored:
  assumes "backup_run r w = (Inr (res, err), w')"
  shows "all_stored (bk_sha r) (objs w') (m_repos (br_manifest res))"
proof -
  obtain repos st ret w1 es w2 where b: "begin_run r (bk_clock r w) w = (Inr (repos, st, ret), w1)"
    and f: "with_memory (fan_out r st ret repos) w1 = (Inr es, w2)"
    and e: "end_run r (bk_clock r w) repos st ret es w2 = (Inr (res, err), w')"
    using assms by (auto simp: backup_run_def bindE_Inr)
  obtain mem where f': "fan_out r st ret repos (w1, no_memory) = (Inr es, (w2, mem))"
    using f by (auto simp: with_memory_def split: prod.splits)
  have "all_stored (bk_sha r) (objs w2) es"
    using ensuresD [OF fan_out_stored f'] ensuresD [OF begin_run_names b] by simp
  moreover have "objs w2 \<subseteq>\<^sub>m objs w'"
    using steps_inD [OF end_run_grows e] by (simp add: grows_on_def)
  ultimately have "all_stored (bk_sha r) (objs w') es"
    by (auto simp: all_stored_def intro: entry_stored_mono)
  then show ?thesis using ensuresD [OF end_run_entries e] by simp
qed

end

end
