(* ===== verification/Lab.thy ===== *)
theory Lab
  imports Stored
begin

text \<open>
  A world the development's contracts hold in: a bucket that stores what it is given once, a
  scratch disk, a forge with one repository that has one branch, and a Git whose commands succeed. The contracts of the other theories are interpreted on it,
  and the concrete runs of the witnesses take place in it.
\<close>

record lab =
  lab_store :: "(string \<times> string) list"
  lab_files :: "string \<rightharpoonup> string"

definition lab_objs :: "lab \<Rightarrow> (string \<rightharpoonup> string)" where
  "lab_objs w = map_of (lab_store w)"

definition lab_put :: "string \<Rightarrow> body \<Rightarrow> int \<Rightarrow> retention \<Rightarrow> (lab, put_result) io" where
  "lab_put k b n ret = (\<lambda>w.
     if lab_objs w k \<noteq> None then (Inl (new_error ''it exists''), w)
     else if body_err b \<noteq> None \<or> int (length (body_bytes b)) \<noteq> n then (Inl (new_error ''short body''), w)
     else (Inr \<lparr>pr_key = k, pr_etag = [], pr_version = [], pr_size = n, pr_sha256 = [], pr_until = ret_until ret,
             pr_mode = ret_mode ret\<rparr>, w\<lparr>lab_store := (k, body_bytes b) # lab_store w\<rparr>))"

definition lab_destination :: "worm_verdict \<Rightarrow> lab destination" where
  "lab_destination v =
     \<lparr>verify_worm = okE \<lparr>ws_period = 0, ws_verdict = v, ws_mode = [], ws_details = [], ws_refusal = None\<rparr>,
      put_immutable = lab_put,
      list_objects = (\<lambda>pre. readE (\<lambda>w. map (\<lambda>(k, b). \<lparr>obj_key = k, obj_size = int (length b), obj_modified = 1750000000 * second\<rparr>)
                        (filter (\<lambda>(k, b). has_prefix pre k) (lab_store w)))),
      get_object = (\<lambda>k w. case lab_objs w k of
          None \<Rightarrow> (Inl (new_error ''no such key''), w)
        | Some b \<Rightarrow> (Inr \<lparr>body_bytes = b, body_err = None\<rparr>, w)),
      observe_retention = Some (\<lambda>k. okE (RetentionPresent, 0))\<rparr>"

interpretation lab_store: create_only "lab_destination v" lab_objs for v
proof unfold_locales
  fix k b n r and w w' :: lab and x k' p pre os f
  show "steps_in (grows_on lab_objs) (put_immutable (lab_destination v) k b n r)"
    by (auto simp: lab_destination_def lab_put_def steps_in_def grows_on_def lab_objs_def map_le_def dom_def)
  show "put_immutable (lab_destination v) k b n r w = (x, w') \<Longrightarrow> k' \<noteq> k \<Longrightarrow> lab_objs w' k' = lab_objs w k'"
    by (auto simp: lab_destination_def lab_put_def lab_objs_def split: if_splits)
  show "put_immutable (lab_destination v) k b n r w = (Inr p, w') \<Longrightarrow>
      lab_objs w' k = Some (body_bytes b) \<and> int (length (body_bytes b)) = n
      \<and> pr_key p = k \<and> pr_size p = n"
    by (auto simp: lab_destination_def lab_put_def lab_objs_def split: if_splits)
  show "steps_in (same_on lab_objs) (verify_worm (lab_destination v))"
    "steps_in (same_on lab_objs) (list_objects (lab_destination v) pre)"
    by (simp_all add: lab_destination_def same.steps_rules del: okE_apply)
  show "steps_in (same_on lab_objs) (get_object (lab_destination v) k)"
    by (auto simp: lab_destination_def steps_in_def same_on_def split: option.splits)
  show "\<exists>bs t. lab_objs w k = Some bs \<and> bs = body_bytes b' @ t \<and> (body_err b' = None \<longrightarrow> t = [])"
    if "get_object (lab_destination v) k w = (Inr b', w')" for b'
    using that by (auto simp: lab_destination_def split: option.splits)
  show "list_objects (lab_destination v) pre w = (Inr os, w') \<Longrightarrow>
      obj_key ` set os = {k \<in> dom (lab_objs w). has_prefix pre k}"
    by (force simp: lab_destination_def lab_objs_def dom_map_of_conv_image_fst image_iff)
  show "observe_retention (lab_destination v) = Some f \<Longrightarrow> steps_in (same_on lab_objs) (f k)"
    by (auto simp: lab_destination_def same.steps_ok simp del: okE_apply)
qed

section \<open>The machine\<close>

text \<open>What the commands of a Git with one branch print.\<close>

definition lab_git_says :: "string list \<Rightarrow> string" where
  "lab_git_says a = (if a = [] then []
     else if hd a = ''rev-parse'' then ''0a''
     else if hd a = ''for-each-ref'' then ''0a refs/heads/main''
     else if hd a = ''ls-remote'' then ''0a'' @ [tab] @ ''HEAD'' @ [newline] @ ''0a'' @ [tab] @ ''refs/heads/main''
     else if hd a = ''bundle'' then ''0a refs/heads/main'' @ [newline] @ ''0a HEAD''
     else [])"

definition lab_workspace :: "lab workspace" where
  "lab_workspace =
     \<lparr>environ = [],
      start_git = (\<lambda>d e a w. (\<lparr>run_error = None, run_stdout = lab_git_says a, run_stderr = []\<rparr>,
        if take 2 a = [''bundle'', ''create''] then w\<lparr>lab_files := (lab_files w)(a ! 2 \<mapsto> ''bundle bytes'')\<rparr> else w)),
      mkdir_temp = (\<lambda>p. okE (''/tmp/'' @ p)), remove_all = (\<lambda>p w. w),
      abs_path = okE, look_path = (\<lambda>p w. False),
      open_file = (\<lambda>p w. case lab_files w p of
          None \<Rightarrow> (Inl (new_error ''no such file''), w)
        | Some b \<Rightarrow> (Inr \<lparr>body_bytes = b, body_err = None\<rparr>, w)),
      write_file = (\<lambda>p b w. (Inr (), w\<lparr>lab_files := (lab_files w)(p \<mapsto> b)\<rparr>)),
      append_file = (\<lambda>p b w. (Inr (), w\<lparr>lab_files := (lab_files w)(p \<mapsto> (case lab_files w p of None \<Rightarrow> [] | Some a \<Rightarrow> a) @ b)\<rparr>)),
      remove_file = (\<lambda>p w. (Inr (), w\<lparr>lab_files := (lab_files w)(p := None)\<rparr>)),
      remove_tree = (\<lambda>p. okE ()), read_tree = (\<lambda>p w. None), mkdir_all = (\<lambda>p. okE ()),
      root_mkdir = (\<lambda>d p. okE ()), root_write = (\<lambda>d p b. okE ()),
      print_tar = (\<lambda>es. []), read_tar = (\<lambda>b. ([], None))\<rparr>"

definition lab_repo :: repo where
  "lab_repo = \<lparr>rp_host = ''h'', rp_owner = ''o'', rp_name = ''r'', rp_clone_url = ''u'', rp_default_branch = [],
     rp_archived = False, rp_size_kb = 0\<rparr>"

definition lab_source :: "lab source" where
  "lab_source = \<lparr>list_repos = (\<lambda>f. okE [lab_repo]), clone_url = (\<lambda>p. okE ''https://h/o/r''),
     fetch_metadata = (\<lambda>p. okE ''{}''), git_auther = None\<rparr>"

text \<open>A codec that reads back what it wrote, and a box that opens to what was sealed in it.\<close>

definition lab_codec :: codec where
  "lab_codec = \<lparr>json_print = (\<lambda>j. replicate (to_nat j) CHR ''x''), json_parse = (\<lambda>s. Inr (from_nat (length s))),
     time_text = (\<lambda>t. replicate (to_nat t) CHR ''x''), time_read = (\<lambda>s. Some (from_nat (length s)))\<rparr>"

lemma lab_codec_ok: "codec_ok lab_codec"
  by (simp add: codec_ok_def lab_codec_def)

definition lab_tag :: "string \<Rightarrow> string" where
  "lab_tag n = take enc_tag (n @ replicate enc_tag (CHR 0x00))"

definition lab_aead :: aead where
  "lab_aead = \<lparr>seal = (\<lambda>k n p. p @ lab_tag n),
     open_box = (\<lambda>k n c. let m = length c - enc_tag in
       if drop m c = lab_tag n then Some (take m c) else None)\<rparr>"

lemma length_lab_tag [simp]: "length (lab_tag n) = enc_tag"
  by (simp add: lab_tag_def)

lemma lab_aead_opens: "aead_opens lab_aead"
  by (simp add: aead_opens_def lab_aead_def Let_def)

lemma lab_aead_authentic: "aead_authentic lab_aead"
  by (auto simp: aead_authentic_def lab_aead_def Let_def split: if_splits) (metis append_take_drop_id)

text \<open>A writer that collects, and a generator of zeros.\<close>

definition collect :: "string \<Rightarrow> (string, unit) io" where
  "collect p = (\<lambda>w. (Inr (), w @ p))"

definition zeros :: "nat \<Rightarrow> ('w, string) io" where
  "zeros n = okE (replicate n (CHR 0x00))"

lemma collect_appends: "appends collect (\<lambda>w. w)"
  by (simp add: appends_def collect_def)

lemma zeros_random: "gives_random zeros out"
  by (simp add: gives_random_def zeros_def)

definition lab_deps :: "worm_verdict \<Rightarrow> codec \<Rightarrow> string option \<Rightarrow> lab backup_deps" where
  "lab_deps v c ek = \<lparr>bk_cfg = default_config, bk_src = lab_source, bk_dst = lab_destination v, bk_final = lab_destination v,
     bk_ws = lab_workspace, bk_codec = c, bk_sign = (\<lambda>m. ''signed''), bk_verify = (\<lambda>m s. s = ''signed''),
     bk_sha = (\<lambda>b. hex_encode (take 32 b)), bk_aead = lab_aead, bk_rand = zeros,
     bk_enc_key = ek, bk_tool = ''test'', bk_clock = (\<lambda>w. 1750000000 * second), bk_ctx = (\<lambda>w. None),
     bk_cause = (\<lambda>w. new_error ''stopped''), bk_sleep = (\<lambda>d. okE ()), bk_require_worm = False, bk_lfs_fuel = 1\<rparr>"

lemma lab_git: "git (lab_deps v c ek) = machine.truncate lab_workspace"
  by (simp add: git_def lab_deps_def)

interpretation lab_git: git_frame "same_on lab_objs" "git (lab_deps v c ek)" for v c ek
  by unfold_locales (simp add: machine_steps_def lab_git lab_workspace_def machine.defs steps_in_def same_on_def lab_objs_def)

interpretation lab_frame: run_frame "same_on lab_objs" "lab_deps v c ek" for v c ek
  by unfold_locales
    (auto simp: disk_steps_def source_steps_def lab_deps_def lab_workspace_def lab_source_def zeros_def steps_in_def same_on_def
      lab_objs_def split: option.splits)

interpretation lab_stored: stored_run lab_objs "lab_deps v c ek" for v c ek
  unfolding stored_run_def
  using lab_frame.run_frame_axioms lab_store.create_only_axioms by (simp add: lab_deps_def)

interpretation lab_run: checked_run lab_objs "lab_deps v c ek" lab_files for v c ek
  by unfold_locales
    (auto simp: lab_deps_def lab_workspace_def lab_source_def lab_destination_def lab_put_def lab_repo_def zeros_def steps_in_def
      same_on_def except_on_def split: option.splits if_splits)

end
