(* ===== verification/Total.thy ===== *)
theory Total
  imports Stored
begin

section \<open>Every selected repository gets its entry\<close>

text \<open>A call that cannot fail, and what every return of it has.\<close>

definition returns :: "('a \<Rightarrow> bool) \<Rightarrow> ('w, 'a) io \<Rightarrow> bool" where
  "returns P m \<longleftrightarrow> (\<forall>w. \<exists>x w'. m w = (Inr x, w') \<and> P x)"

lemma returnsD: "returns P m \<Longrightarrow> \<exists>x w'. m w = (Inr x, w') \<and> P x"
  by (simp add: returns_def)

lemma returns_ok: "P x \<Longrightarrow> returns P (okE x)"
  by (simp add: returns_def)

lemma returns_read: "returns (\<lambda>x. True) (readE f)"
  by (simp add: returns_def)

lemma returns_try: "returns (\<lambda>x. True) (tryE m)"
  by (simp add: returns_def tryE_apply)

lemma returns_bind: "returns Q m \<Longrightarrow> (\<And>x. Q x \<Longrightarrow> returns P (f x)) \<Longrightarrow> returns P (bindE m f)"
  unfolding returns_def bindE_def by (metis (mono_tags, lifting) case_prod_conv sum.case(2))

lemma returns_defer: "returns P m \<Longrightarrow> returns P (deferE g m)"
  unfolding returns_def deferE_def by (metis (mono_tags, lifting) case_prod_conv)

lemma returns_on_world: "returns P m \<Longrightarrow> returns P (on_world m)"
  unfolding returns_def on_world_def by (auto split: prod.splits) (metis Pair_inject)

lemma returns_with_memory: "returns P m \<Longrightarrow> returns P (with_memory m)"
  unfolding returns_def with_memory_def by (auto split: prod.splits) (metis Pair_inject surj_pair)

lemma returns_sum:
  "(\<And>e. returns P (f e)) \<Longrightarrow> (\<And>x. returns P (g x)) \<Longrightarrow> returns P (case x of Inl e \<Rightarrow> f e | Inr y \<Rightarrow> g y)"
  by (cases x) simp_all

lemma returns_option:
  "returns P f \<Longrightarrow> (\<And>x. returns P (g x)) \<Longrightarrow> returns P (case x of None \<Rightarrow> f | Some y \<Rightarrow> g y)"
  by (cases x) simp_all

lemma returns_list:
  "returns P f \<Longrightarrow> (\<And>y ys. returns P (g y ys)) \<Longrightarrow> returns P (case x of [] \<Rightarrow> f | y # ys \<Rightarrow> g y ys)"
  by (cases x) simp_all

lemma returns_prod: "(\<And>a b. returns P (f a b)) \<Longrightarrow> returns P (case x of (a, b) \<Rightarrow> f a b)"
  by (cases x) simp

lemma returns_if: "returns P a \<Longrightarrow> returns P b \<Longrightarrow> returns P (if c then a else b)"
  by simp

lemmas returns_cases = returns_if returns_sum returns_option returns_list returns_prod

lemma returns_try_bind: "(\<And>x. returns P (f x)) \<Longrightarrow> returns P (bindE (tryE m) f)"
  by (rule returns_bind [OF returns_try])

lemma returns_read_bind: "(\<And>x. returns P (f x)) \<Longrightarrow> returns P (bindE (readE g) f)"
  by (rule returns_bind [OF returns_read])

lemma returns_ask_bind: "(\<And>x. returns P (f x)) \<Longrightarrow> returns P (bindE (on_world (readE g)) f)"
  by (rule returns_bind [OF returns_on_world [OF returns_read]])

lemmas returns_rules = returns_cases returns_try_bind returns_read_bind returns_ask_bind returns_ok returns_defer

subsection \<open>The slug of an entry\<close>

lemma entry_slugs [simp]:
  "en_slug (failed_entry sl x) = sl" "en_slug (spent sl nxt what detail) = sl"
  "en_slug (incomplete sl date nxt detail) = sl" "en_slug (unchanged_entry sl reason p) = sl"
  "en_slug (copied_entry e c t) = en_slug e" "en_slug (after_stop d e) = en_slug e"
  "en_slug (not_started x q) = slug q"
  by (simp_all add: failed_entry_def spent_def incomplete_def unchanged_entry_def copied_entry_def after_stop_def not_started_def)

lemma resume_slug [simp]: "en_slug (resume_from sl date nxt st f now) = sl"
  unfolding resume_from_def Let_def by (simp split: option.split)

lemma finish_entry_slug: "en_slug (fst (finish_entry sl sg up)) = sl"
  by (cases up) (simp add: finish_entry_def Let_def split: option.split)

lemma upload_all_returns: "returns (\<lambda>x. True) (upload_all r ret as p)"
  by (induction as arbitrary: p)
    (simp_all only: upload_all.simps, (intro returns_rules | assumption | simp)+)

lemma backup_repo_returns: "returns (\<lambda>(e, c). en_slug e = slug repo) (backup_repo r date ret repo adv)"
  unfolding backup_repo_def
  by (intro returns_rules returns_bind [OF upload_all_returns])
    (simp_all add: finish_entry_slug case_prod_beta)

lemma resume_date_returns: "returns (\<lambda>e. en_slug e = slug q) (resume_date r st q here)"
  unfolding resume_date_def resume_copy_def Let_def by (intro returns_rules) simp_all

lemma resumed_returns: "returns (\<lambda>oe. \<forall>e. oe = Some e \<longrightarrow> en_slug e = slug q) (resumed r st q)"
  unfolding resumed_def Let_def
  by (rule returns_try_bind, intro returns_sum returns_if returns_ok returns_bind [OF resume_date_returns])
    simp_all

lemma current_refs_returns: "returns (\<lambda>x. True) (current_refs m s q)"
  unfolding current_refs_def by (intro returns_rules) simp_all

lemma unchanged_skip_slug: "unchanged_skip r st sl cur now = Some e \<Longrightarrow> en_slug e = sl"
  by (auto simp: unchanged_skip_def Let_def split: option.splits if_splits)

lemma backup_one_returns: "returns (\<lambda>e. en_slug e = slug repo) (backup_one r st ret repo)"
proof -
  have skip: "returns (\<lambda>e. en_slug e = slug repo) (case unchanged_skip r st (slug repo) current now of
      Some e \<Rightarrow> okE e
    | None \<Rightarrow> bindE (backup_repo r (rs_date st) ret repo current) (\<lambda>(e, copied).
        bindE (readE (bk_clock r)) (\<lambda>fin. okE (copied_entry e copied fin))))" for current now
  proof (cases "unchanged_skip r st (slug repo) current now")
    case None
    show ?thesis unfolding None option.case
      by (rule returns_bind [OF backup_repo_returns]) (auto intro!: returns_rules simp del: okE_apply)
  next
    case (Some e)
    then show ?thesis by (simp add: returns_ok unchanged_skip_slug del: okE_apply)
  qed
  have "returns (\<lambda>oe. \<forall>e. oe = Some e \<longrightarrow> en_slug e = slug repo)
      (if bc_resume (cf_backup (bk_cfg r)) then resumed r st repo else okE None)"
    by (intro returns_if resumed_returns returns_ok) simp
  then show ?thesis
    unfolding backup_one_def
  proof (rule returns_bind)
    fix oe :: "repo_entry option" assume "\<forall>e. oe = Some e \<longrightarrow> en_slug e = slug repo"
    then show "returns (\<lambda>e. en_slug e = slug repo) (case oe of None \<Rightarrow> on_world (
         bindE (current_refs (git r) (bk_src r) repo) (\<lambda>current.
         bindE (readE (bk_clock r)) (\<lambda>now.
         case unchanged_skip r st (slug repo) current now of
           Some e \<Rightarrow> okE e
         | None \<Rightarrow>
             bindE (backup_repo r (rs_date st) ret repo current) (\<lambda>(e, copied).
             bindE (readE (bk_clock r)) (\<lambda>fin. okE (copied_entry e copied fin)))))) | Some e \<Rightarrow> okE e)"
      by (cases oe) (auto intro!: returns_on_world returns_bind [OF current_refs_returns] returns_read_bind skip
          returns_ok simp del: okE_apply)
  qed
qed

lemma fan_out_returns: "returns (\<lambda>es. map en_slug es = map slug ps) (fan_out r st ret ps)"
proof (induction ps)
  case (Cons q ps)
  show ?case
    unfolding fan_out.simps
    by (intro returns_if returns_ask_bind returns_bind [OF backup_one_returns] returns_bind [OF Cons] returns_ok) simp_all
qed (simp add: returns_ok del: okE_apply)

section \<open>The end of a run\<close>

lemma observe_keys_returns: "returns (\<lambda>x. True) (observe_keys f ks ob)"
  by (induction ks arbitrary: ob) (simp_all only: observe_keys.simps, (intro returns_rules; simp)+)

lemma observe_run_returns: "returns (\<lambda>x. True) (observe_run d ws es)"
  unfolding observe_run_def Let_def
  by (intro returns_rules returns_bind [OF observe_keys_returns]) simp_all

lemma new_run_id_returns: "returns (\<lambda>x. True) (new_run_id g t)"
  unfolding new_run_id_def by (intro returns_rules) simp_all

text \<open>
  Once its repositories are settled, only a destination that was required to be immutable and is
  seen not to be keeps a run from returning its manifest.
\<close>

lemma end_run_returns:
  assumes "\<not> bk_require_worm r"
  shows "returns (\<lambda>(res, err). m_repos (br_manifest res) = es) (end_run r started repos st ret es)"
proof -
  have off: "bk_require_worm r = False" using assms by simp
  show ?thesis
    unfolding end_run_def Let_def off simp_thms if_False
    by (intro returns_bind [OF observe_run_returns] returns_bind [OF new_run_id_returns] returns_rules) simp_all
qed

end
