(* ===== verification/Run_Facts.thy ===== *)
theory Run_Facts
  imports Total
begin

text \<open>
  What a run promises of itself: it fails closed when immutability is required and not shown, what
  its manifest claims of the destination is never more than the destination said, a repository is
  skipped only over a copy that is still good, a date is resumed only when it is complete, and the
  LFS fetch ends.
\<close>

section \<open>Immutability\<close>

lemma worm_check_Inr:
  assumes "worm_check r w = (Inr ws, w')"
  shows "verify_worm (bk_dst r) w = (Inr ws, w') \<and> (bk_require_worm r \<longrightarrow> immutable (ws_verdict ws))
    \<or> \<not> bk_require_worm r \<and> \<not> immutable (ws_verdict ws)"
proof (cases "verify_worm (bk_dst r) w")
  case (Pair x w1)
  show ?thesis
  proof (cases x)
    case (Inl e)
    with Pair assms show ?thesis
      by (auto simp: worm_check_def bindE_def tryE_def immutable_def split: if_splits)
  next
    case (Inr st)
    with Pair assms show ?thesis by (simp add: worm_check_def bindE_def tryE_def split: if_splits)
  qed
qed

lemma worm_check_verdict:
  "worm_check r w = (Inr ws, w') \<Longrightarrow> immutable (ws_verdict ws) \<Longrightarrow> verify_worm (bk_dst r) w = (Inr ws, w')"
  by (drule worm_check_Inr) auto

lemma begin_run_worm:
  assumes "begin_run r started w = (Inr (repos, st, ret), w')"
  shows "\<exists>w1. worm_check r w = (Inr (rs_worm st), w1)"
  using assms by (auto simp: begin_run_def bindE_Inr Let_def)

lemma worm_check_fails:
  assumes "bk_require_worm r" and "\<forall>ws. fst (verify_worm (bk_dst r) w) = Inr ws \<longrightarrow> \<not> immutable (ws_verdict ws)"
  shows "\<exists>e. worm_check r w = (Inl e, snd (verify_worm (bk_dst r) w))"
proof (cases "verify_worm (bk_dst r) w")
  case (Pair x w1)
  then show ?thesis
    using assms by (cases x) (simp_all add: worm_check_def bindE_def tryE_def)
qed

lemma run_fails_closed:
  assumes "bk_require_worm r" and "\<forall>ws. fst (verify_worm (bk_dst r) w) = Inr ws \<longrightarrow> \<not> immutable (ws_verdict ws)"
  shows "\<exists>e. backup_run r w = (Inl e, snd (verify_worm (bk_dst r) w))"
  using worm_check_fails [OF assms] by (auto simp: backup_run_def begin_run_def bindE_def)

section \<open>What the manifest claims\<close>

lemma observe_run_lowers:
  assumes "observe_run d ws es w = (Inr (ob, v), w')"
  shows "immutable v \<longrightarrow> immutable (ws_verdict ws) \<and> ob \<noteq> RetentionAbsent"
    and "ob = RetentionAbsent \<longrightarrow> v = VerdictNotImmutable" and "ob \<noteq> RetentionAbsent \<longrightarrow> v = ws_verdict ws"
  using assms
  by (auto simp: observe_run_def Let_def immutable_def bindE_Inr split: if_splits option.splits)

lemma observe_keys_present:
  "observe_keys f ks ob w = (Inr RetentionPresent, w') \<Longrightarrow>
   ob = RetentionPresent \<and> (\<forall>k \<in> set ks. \<exists>w1 t. fst (f k w1) = Inr (RetentionPresent, t))"
proof (induction ks arbitrary: ob w)
  case (Cons k ks)
  obtain x w1 where x: "f k w = (x, w1)" by fastforce
  let ?got = "case x of Inl e \<Rightarrow> RetentionNotChecked | Inr (got, until) \<Rightarrow> got"
  let ?ob = "case ?got of RetentionPresent \<Rightarrow> ob | RetentionAbsent \<Rightarrow> RetentionAbsent
      | RetentionNotChecked \<Rightarrow> if ob = RetentionPresent then RetentionNotChecked else ob"
  have "observe_keys f ks ?ob w1 = (Inr RetentionPresent, w')"
    using Cons.prems x by (simp add: bindE_def tryE_def)
  note ih = Cons.IH [OF this]
  then have "?got = RetentionPresent" "ob = RetentionPresent"
    by (auto split: retention_observation.splits if_splits sum.splits)
  then obtain t where "x = Inr (RetentionPresent, t)" by (auto split: sum.splits)
  then have "fst (f k w) = Inr (RetentionPresent, t)" using x by simp
  with ih \<open>ob = RetentionPresent\<close> show ?case by auto
qed simp

lemma end_run_result:
  assumes "end_run r started repos st ret es w = (Inr (res, err), w')"
  shows "\<exists>x w1. upload_manifest r (br_manifest res) (manifest_dir repos) ret w1 = (x, w')
    \<and> m_repos (br_manifest res) = es \<and> m_status (br_manifest res) = status_string (run_ok es)
    \<and> (case x of Inl e \<Rightarrow> br_key res = [] \<and> err \<noteq> None
       | Inr k \<Rightarrow> br_key res = k \<and> (err = None \<longleftrightarrow> run_ok es))"
    and "\<exists>ob v w1. observe_run (bk_final r) (rs_worm st) es w = (Inr (ob, v), w1)
      \<and> m_destination (br_manifest res) = dest_info_of (bk_cfg r) (rs_worm st) ret v ob"
proof -
  let ?file = "\<lambda>m x. case x of Inl e \<Rightarrow> okE (\<lparr>br_manifest = m, br_key = []\<rparr>, Some (wrap_error ''manifest'' e))
          | Inr key \<Rightarrow> okE (\<lparr>br_manifest = m, br_key = key\<rparr>,
              if run_ok es then None else Some (new_error ''backup completed with failures''))"
  let ?m = "\<lambda>run_id finished ob v. \<lparr>m_schema = manifest_schema, m_run_id = run_id,
      m_tool = \<lparr>tool_name = ''gitdr'', tool_version = bk_tool r\<rparr>,
      m_source = \<lparr>src_type = sc_type (cf_source (bk_cfg r)), src_host = rp_host (hd repos)\<rparr>,
      m_destination = dest_info_of (bk_cfg r) (rs_worm st) ret v ob,
      m_started = started, m_finished = finished, m_status = status_string (run_ok es), m_repos = es\<rparr>"
  obtain ob v w1 where o1: "observe_run (bk_final r) (rs_worm st) es w = (Inr (ob, v), w1)"
    and rest: "bindE (new_run_id (bk_rand r) started) (\<lambda>run_id. bindE (readE (bk_clock r)) (\<lambda>finished.
      bindE (tryE (upload_manifest r (?m run_id finished ob v) (manifest_dir repos) ret)) (?file (?m run_id finished ob v)))) w1
      = (Inr (res, err), w')"
    using assms unfolding end_run_def Let_def
    by (elim bindE_InrE) (auto split: prod.splits if_splits simp del: okE_apply)
  obtain run_id finished x w2 w3 where t: "tryE (upload_manifest r (?m run_id finished ob v) (manifest_dir repos) ret) w2 = (Inr x, w3)"
    and out: "?file (?m run_id finished ob v) x w3 = (Inr (res, err), w')"
    using rest by (elim bindE_InrE) blast
  have "w3 = w'" using out by (cases x) auto
  then have up: "upload_manifest r (?m run_id finished ob v) (manifest_dir repos) ret w2 = (x, w')"
    using t by (auto simp: tryE_def split: prod.splits)
  have m: "br_manifest res = ?m run_id finished ob v" using out by (cases x) auto
  show "\<exists>ob v w1. observe_run (bk_final r) (rs_worm st) es w = (Inr (ob, v), w1)
      \<and> m_destination (br_manifest res) = dest_info_of (bk_cfg r) (rs_worm st) ret v ob"
    using o1 m by auto
  show "\<exists>x w1. upload_manifest r (br_manifest res) (manifest_dir repos) ret w1 = (x, w')
    \<and> m_repos (br_manifest res) = es \<and> m_status (br_manifest res) = status_string (run_ok es)
    \<and> (case x of Inl e \<Rightarrow> br_key res = [] \<and> err \<noteq> None
       | Inr k \<Rightarrow> br_key res = k \<and> (err = None \<longleftrightarrow> run_ok es))"
    using up out m by (cases x) auto
qed

lemma end_run_claims:
  assumes "end_run r started repos st ret es w = (Inr (res, err), w')"
    and "di_worm_immutable (m_destination (br_manifest res))"
  shows "immutable (ws_verdict (rs_worm st)) \<and> di_retention_observed (m_destination (br_manifest res)) \<noteq> ''absent''"
proof -
  obtain ob v w1 where o1: "observe_run (bk_final r) (rs_worm st) es w = (Inr (ob, v), w1)"
    and d: "m_destination (br_manifest res) = dest_info_of (bk_cfg r) (rs_worm st) ret v ob"
    using end_run_result(2) [OF assms(1)] by blast
  have "immutable v" using assms(2) unfolding d by (simp add: dest_info_of_def Let_def)
  then show ?thesis using observe_run_lowers(1) [OF o1] unfolding d
    by (cases ob) (simp_all add: dest_info_of_def Let_def observation_string_def)
qed

lemma run_claims:
  assumes "backup_run r w = (Inr (res, err), w')"
    and "di_worm_immutable (m_destination (br_manifest res))"
  shows "\<exists>ws w1. verify_worm (bk_dst r) w = (Inr ws, w1) \<and> immutable (ws_verdict ws)
    \<and> di_retention_observed (m_destination (br_manifest res)) \<noteq> ''absent''"
proof -
  obtain repos st ret w1 es w2 where b: "begin_run r (bk_clock r w) w = (Inr (repos, st, ret), w1)"
    and e: "end_run r (bk_clock r w) repos st ret es w2 = (Inr (res, err), w')"
    using assms(1) by (auto simp: backup_run_def bindE_Inr)
  note claims = end_run_claims [OF e assms(2)]
  obtain w3 where "worm_check r w = (Inr (rs_worm st), w3)" using begin_run_worm [OF b] by blast
  from worm_check_verdict [OF this] claims show ?thesis by blast
qed

section \<open>A run that reports success\<close>

lemma end_run_filed:
  assumes "end_run r started repos st ret es w = (Inr (res, err), w')" and "br_key res \<noteq> []"
  shows "\<exists>w1. upload_manifest r (br_manifest res) (manifest_dir repos) ret w1 = (Inr (br_key res), w')"
proof -
  obtain x w1 where "upload_manifest r (br_manifest res) (manifest_dir repos) ret w1 = (x, w')"
    and "case x of Inl e \<Rightarrow> br_key res = [] | Inr k \<Rightarrow> br_key res = k"
    using end_run_result(1) [OF assms(1)] by (fastforce split: sum.splits)
  then show ?thesis using assms(2) by (cases x) auto
qed

lemma end_run_success:
  assumes "end_run r started repos st ret es w = (Inr (res, None), w')"
  shows "run_ok es \<and> (\<exists>w1. upload_manifest r (br_manifest res) (manifest_dir repos) ret w1 = (Inr (br_key res), w'))"
proof -
  obtain x w1 where "upload_manifest r (br_manifest res) (manifest_dir repos) ret w1 = (x, w')"
    and "case x of Inl e \<Rightarrow> False | Inr k \<Rightarrow> br_key res = k \<and> run_ok es"
    using end_run_result(1) [OF assms] by (fastforce split: sum.splits)
  then show ?thesis by (cases x) auto
qed

section \<open>A repository that is skipped\<close>

lemma unchanged_skip_safe:
  assumes "unchanged_skip r st sl cur now = Some e"
  shows "\<exists>p. map_of (rs_previous st) sl = Some p \<and> e = unchanged_entry sl (en_reason e) p
    \<and> pc_refs p \<noteq> [] \<and> same_refs (pc_refs p) cur \<and> sl \<notin> set (rs_recopy st)
    \<and> pc_copied_at p \<le> now
    \<and> now - pc_copied_at p < refresh_bound (retention_window (bk_cfg r) (rs_worm st))"
proof -
  obtain p where p: "map_of (rs_previous st) sl = Some p"
    and skip: "ud_skip (decide_unchanged (pc_refs p) cur (pc_copied_at p) now (retention_window (bk_cfg r) (rs_worm st)))"
    and named: "sl \<notin> set (rs_recopy st)" and e: "\<exists>reason. e = unchanged_entry sl reason p"
    using assms by (auto simp: unchanged_skip_def Let_def no_skip_def split: option.splits if_splits)
  from e have "e = unchanged_entry sl (en_reason e) p" by (auto simp: unchanged_entry_def)
  then show ?thesis using p named decide_skip [OF skip] by blast
qed

lemma begin_run_previous:
  assumes "begin_run r started w = (Inr (repos, st, ret), w')"
  shows "\<forall>(sl, pc) \<in> set (rs_previous st). copy_believed (bk_codec r) (bk_dst r) (Some (bk_verify r)) sl pc"
proof -
  obtain b d s w1 w2 where
    "load_previous (bk_codec r) (bk_dst r) (Some (bk_verify r)) (bk_clock r) b d s w1 = (Inr (rs_previous st), w2)"
    using assms by (auto simp: begin_run_def bindE_Inr Let_def)
  then show ?thesis by (rule load_previous_believed)
qed

section \<open>A date that is resumed\<close>

lemma resume_from_skips:
  assumes "en_status (resume_from sl date nxt stored f now) = status_skipped"
  shows "ai_key ` set (en_artifacts (rcp_entry f)) = set stored"
    and "resume_from sl date nxt stored f now = zero_entry\<lparr>en_slug := sl, en_status := status_skipped,
      en_reason := reason_resume, en_refs := en_refs (rcp_entry f), en_copied_at := copied_at_of (rcp_entry f) (rcp_finished f)\<rparr>"
    and "\<forall>t. copied_at_of (rcp_entry f) (rcp_finished f) = Some t \<longrightarrow> t \<le> rcp_finished f \<and> t \<le> now"
proof -
  let ?listed = "map ai_key (en_artifacts (rcp_entry f))"
  have bad: "en_status (incomplete sl date nxt x) \<noteq> status_skipped" "en_status (spent sl nxt x y) \<noteq> status_skipped" for x y
    by (simp_all add: incomplete_def spent_def failed_entry_def)
  have miss: "List.find (\<lambda>k. k \<notin> set stored) ?listed = None"
    using assms bad(1) by (auto simp: resume_from_def Let_def split: option.splits)
  have more: "List.find (\<lambda>k. k \<notin> set ?listed) stored = None"
    using assms bad(1) miss by (auto simp: resume_from_def Let_def split: option.splits)
  have good: "(case copied_at_of (rcp_entry f) (rcp_finished f) of None \<Rightarrow> None
      | Some t \<Rightarrow> plausible_copied_at t (rcp_finished f) now) = None"
    using assms bad(2) miss more by (auto simp: resume_from_def Let_def split: option.splits)
  show "ai_key ` set (en_artifacts (rcp_entry f)) = set stored"
    using miss more by (auto simp: find_None_iff)
  show "resume_from sl date nxt stored f now = zero_entry\<lparr>en_slug := sl, en_status := status_skipped,
      en_reason := reason_resume, en_refs := en_refs (rcp_entry f), en_copied_at := copied_at_of (rcp_entry f) (rcp_finished f)\<rparr>"
    using miss more good by (simp add: resume_from_def Let_def)
  show "\<forall>t. copied_at_of (rcp_entry f) (rcp_finished f) = Some t \<longrightarrow> t \<le> rcp_finished f \<and> t \<le> now"
    using good by (simp add: plausible_iff split: option.splits)
qed

lemma resume_copy_skip:
  assumes run: "resume_copy r st q on stored (w, mem) = (Inr e, (w', mem'))"
    and skip: "en_status e = status_skipped" and mem: "memory_ok (bk_codec r) (bk_dst r) (Some (bk_verify r)) mem"
  shows "\<exists>f na. ai_key ` set (en_artifacts (rcp_entry f)) = set stored
    \<and> found_ok (bk_codec r) (bk_dst r) (Some (bk_verify r)) (manifest_search_dirs (rp_host q) (rp_owner q)) (slug q)
        (resume_keys st q) na f
    \<and> e = zero_entry\<lparr>en_slug := slug q, en_status := status_skipped, en_reason := reason_resume,
        en_refs := en_refs (rcp_entry f), en_copied_at := copied_at_of (rcp_entry f) (rcp_finished f)\<rparr>"
proof -
  have bad: "en_status (failed_entry s x) \<noteq> status_skipped" "en_status (incomplete s d n y) \<noteq> status_skipped" for s d n x y
    by (simp_all add: incomplete_def spent_def failed_entry_def)
  let ?dirs = "manifest_search_dirs (rp_host q) (rp_owner q)"
  obtain res w2 mem2 where fc: "find_copy (bk_codec r) (bk_dst r) (Some (bk_verify r)) (\<lambda>s. s \<in> set (rs_selected st))
      ?dirs on (slug q) (resume_keys st q) (opt_time (bk_clock r w)) (w, mem) = (res, (w2, mem2))" by (metis prod.collapse)
  obtain f rep where res: "res = Inr (Some f, rep)"
    using run fc skip bad
    by (cases res) (auto simp: resume_copy_def Let_def bindE_def tryE_def on_world_def split: option.splits)
  have e: "e = resume_from (slug q) (rs_date st) (format_date (next_day on)) stored f (bk_clock r w2)"
    using run fc res by (auto simp: resume_copy_def Let_def bindE_def tryE_def on_world_def)
  note rf = resume_from_skips [OF skip [unfolded e]]
  have "found_ok (bk_codec r) (bk_dst r) (Some (bk_verify r)) ?dirs (slug q) (resume_keys st q) (opt_time (bk_clock r w)) f"
    using find_copy_ok [OF fc [unfolded res] mem] by blast
  then show ?thesis using rf(1) rf(2) [folded e] by blast
qed

lemma resumed_skip:
  assumes run: "resumed r st q (w, mem) = (Inr (Some e), (w', mem'))"
    and skip: "en_status e = status_skipped" and mem: "memory_ok (bk_codec r) (bk_dst r) (Some (bk_verify r)) mem"
  shows "\<exists>objs w1 f na. list_objects (bk_dst r) (date_dir st q @ ''/'') w = (Inr objs, w1)
    \<and> ai_key ` set (en_artifacts (rcp_entry f)) = obj_key ` set (filed_under (date_dir st q) objs)
    \<and> (\<forall>ob \<in> set (filed_under (date_dir st q) objs). \<not> foreign_to (rs_date st) ob)
    \<and> found_ok (bk_codec r) (bk_dst r) (Some (bk_verify r)) (manifest_search_dirs (rp_host q) (rp_owner q)) (slug q)
        (resume_keys st q) na f
    \<and> e = zero_entry\<lparr>en_slug := slug q, en_status := status_skipped, en_reason := reason_resume,
        en_refs := en_refs (rcp_entry f), en_copied_at := copied_at_of (rcp_entry f) (rcp_finished f)\<rparr>"
proof -
  have bad: "en_status (failed_entry s x) \<noteq> status_skipped" "en_status (spent s n y z) \<noteq> status_skipped" for s n x y z
    by (simp_all add: spent_def failed_entry_def)
  obtain objs w1 where l: "list_objects (bk_dst r) (date_dir st q @ ''/'') w = (Inr objs, w1)"
    and rd: "resume_date r st q (filed_under (date_dir st q) objs) (w1, mem) = (Inr e, (w', mem'))"
    using run by (auto simp: resumed_def Let_def bindE_Inr tryE_def on_world_def
      simp del: okE_apply split: prod.splits sum.splits if_splits) (auto simp: okE_def)
  let ?here = "filed_under (date_dir st q) objs"
  obtain "on" where p: "parse_date (rs_date st) = Some on"
    using rd skip bad(1) by (auto simp: resume_date_def Let_def split: option.splits)
  have own: "filter (foreign_to (rs_date st)) ?here = []"
    using rd p skip bad(2) by (auto simp: resume_date_def Let_def split: list.splits)
  then have rc: "resume_copy r st q on (map obj_key ?here) (w1, mem) = (Inr e, (w', mem'))"
    using rd p by (simp add: resume_date_def)
  obtain f na where f: "ai_key ` set (en_artifacts (rcp_entry f)) = set (map obj_key ?here)"
    "found_ok (bk_codec r) (bk_dst r) (Some (bk_verify r)) (manifest_search_dirs (rp_host q) (rp_owner q)) (slug q)
        (resume_keys st q) na f"
    "e = zero_entry\<lparr>en_slug := slug q, en_status := status_skipped, en_reason := reason_resume,
        en_refs := en_refs (rcp_entry f), en_copied_at := copied_at_of (rcp_entry f) (rcp_finished f)\<rparr>"
    using resume_copy_skip [OF rc skip mem] by blast
  have fk: "ai_key ` set (en_artifacts (rcp_entry f)) = obj_key ` set ?here" using f(1) by simp
  have "\<forall>ob \<in> set ?here. \<not> foreign_to (rs_date st) ob"
    using own by (simp add: filter_empty_conv)
  with l f(2,3) fk show ?thesis by blast
qed

section \<open>Largest first, and the sidecar last\<close>

lemma staging_order:
  assumes "finish_staging r repo key refs meta copied fs w = (Inr sg, w')"
  shows "\<exists>xs ys. sg_artifacts sg = xs @ ys \<and> sorted_wrt (\<lambda>a b. st_size b \<le> st_size a) xs
    \<and> length ys = (if refs then 1 else 0) \<and> (\<forall>a \<in> set ys. st_kind a = ''sha256'')"
proof -
  let ?S = "\<lambda>line. if refs then bindE (stage_bytes r ''sha256'' (key ''.sha256'') line) (\<lambda>a. okE [a]) else okE []"
  obtain bs w1 ms w2 line ss where s: "?S line w2 = (Inr ss, w')"
    and sg: "sg_artifacts sg = sort_key (\<lambda>a. - st_size a) (bs @ ms) @ ss"
    using assms unfolding finish_staging_def Let_def by (elim bindE_InrE) (force elim: bindE_InrE)
  have "sorted (map (\<lambda>a. - st_size a) (sort_key (\<lambda>a. - st_size a) (bs @ ms)))" by simp
  then have "sorted_wrt (\<lambda>a b. st_size b \<le> st_size a) (sort_key (\<lambda>a. - st_size a) (bs @ ms))"
    by (simp add: sorted_map)
  moreover have "length ss = (if refs then 1 else 0) \<and> (\<forall>a \<in> set ss. st_kind a = ''sha256'')"
    using s by (auto simp: bindE_Inr stage_bytes_def split: if_splits)
  ultimately show ?thesis using sg by blast
qed

section \<open>The LFS fetch ends\<close>

lemma wrap_not_fuel: "wrap_error (CHR ''l'' # s) e \<noteq> err_fuel"
  by (simp add: wrap_error_def err_fuel_def new_error_def)

lemma fetch_lfs_ends:
  assumes "\<forall>w. count_files (bk_ws r) (file_join (file_join mirror ''lfs'') ''objects'') w \<le> n"
    and "had \<le> n" and "n < fuel + had"
  shows "fst (fetch_lfs r mirror url fuel attempt had w) \<noteq> Inl err_fuel"
  using assms(2,3)
proof (induction fuel arbitrary: attempt had w)
  case (Suc fuel)
  let ?count = "count_files (bk_ws r) (file_join (file_join mirror ''lfs'') ''objects'')"
  obtain a w1 where auth: "git_auth_header (bk_src r) w = (a, w1)" by fastforce
  show ?case
  proof (cases a)
    case (Inl e)
    then show ?thesis using auth by (simp add: bindE_def mapErrE_def wrap_not_fuel)
  next
    case a: (Inr h)
    obtain x w2 where fetch: "lfs_fetch_all (git r) mirror url h w1 = (x, w2)" by fastforce
    show ?thesis
    proof (cases x)
      case (Inr u)
      then show ?thesis using auth a fetch by (simp add: bindE_def mapErrE_def tryE_def)
    next
      case x: (Inl e)
      have step: "fetch_lfs r mirror url (Suc fuel) attempt had w =
          (if bk_ctx r w2 \<noteq> None then failE (wrap_error ''lfs fetch'' e)
           else if ?count w2 > had then fetch_lfs r mirror url fuel (attempt + 1) (?count w2)
           else if attempt = 1 then failE (wrap_error ''lfs fetch'' e)
           else failE (wrap_error (''lfs fetch: attempt '' @ show_nat attempt @ '' fetched no object, so it is not run again (''
                  @ show_nat had @ '' fetched before it)'') e)) w2"
        using auth a fetch x by (simp add: bindE_def mapErrE_def tryE_def)
      have "fst (fetch_lfs r mirror url fuel (attempt + 1) (?count w2) w2) \<noteq> Inl err_fuel" if "?count w2 > had"
      proof -
        have "?count w2 \<le> n" using assms(1) by blast
        moreover have "n < fuel + ?count w2" using that Suc.prems(2) by linarith
        ultimately show ?thesis by (rule Suc.IH)
      qed
      then show ?thesis unfolding step by (simp add: wrap_not_fuel)
    qed
  qed
qed simp

end
