(* ===== verification/Filed.thy ===== *)
theory Filed
  imports Run_Facts
begin

text \<open>
  What a run files can be read back: the manifest under the key a run returns loads, with the run's
  public key, as the manifest that was signed.
\<close>

section \<open>The name of a manifest\<close>

lemma digits_no_slash: "list_all is_digit s \<Longrightarrow> CHR ''/'' \<notin> set s"
  by (auto simp: list_all_iff is_digit_def)

lemma stamp_no_slash: "stamp_year t \<Longrightarrow> CHR ''/'' \<notin> set (format_stamp t)"
proof -
  assume "stamp_year t"
  moreover obtain y m d where "civil (day_of t) = (y, m, d)" by (metis prod.exhaust)
  ultimately show ?thesis
    by (simp add: stamp_shape digits_no_slash)
qed

lemma manifest_name_seg: "stamp_year t \<Longrightarrow> plain_seg (format_stamp t @ manifest_suffix)"
  using stamp_no_slash [of t] stamp_length [of t] by (auto simp: plain_seg_def manifest_suffix_def)

lemma manifest_key_base: "stamp_year t \<Longrightarrow> path_base (manifest_key dir t) = format_stamp t @ manifest_suffix"
  by (simp add: manifest_key_def path_base_join manifest_name_seg)

section \<open>The signature file\<close>

lemma b64_char_graphic: "n < 64 \<Longrightarrow> graphic (b64_char n)"
  by (auto simp: b64_char_def graphic_def byte_char_of) (simp_all add: byte_def)

lemma sextets: "byte a div 4 < 64" "byte a mod 4 * 16 + byte b div 16 < 64" "byte a mod 16 * 4 + byte b div 64 < 64"
  "byte a mod 64 < 64" "byte a mod 4 * 16 < 64" "byte a mod 16 * 4 < 64"
proof -
  have "byte a < 256" "byte b < 256" by (rule byte_less)+
  then have "byte b div 16 < 16" "byte b div 64 < 4" "byte a div 4 < 64" by simp_all
  moreover have "byte a mod 4 < 4" "byte a mod 16 < 16" by simp_all
  ultimately show "byte a div 4 < 64" "byte a mod 4 * 16 + byte b div 16 < 64" "byte a mod 16 * 4 + byte b div 64 < 64"
    "byte a mod 64 < 64" "byte a mod 4 * 16 < 64" "byte a mod 16 * 4 < 64" by linarith+
qed

lemma graphic_pad: "graphic (CHR ''='')"
  by (simp add: graphic_def byte_def)

lemma b64_encode_graphic: "\<forall>c \<in> set (b64_encode s). graphic c"
  by (induction s rule: b64_encode.induct) (simp_all add: b64_char_graphic sextets graphic_pad)

lemma trim_b64: "trim_space (b64_encode s) = b64_encode s"
  by (cases "b64_encode s = []") (simp_all add: trim_space_word word_def b64_encode_graphic)


section \<open>Reading it back\<close>

text \<open>
  A destination that gives a stored object whole, as Get does of an object when nothing fails.
\<close>

definition answers :: "'w destination \<Rightarrow> ('w \<Rightarrow> (string \<rightharpoonup> string)) \<Rightarrow> bool" where
  "answers d objs \<longleftrightarrow> (\<forall>w k bs. objs w k = Some bs \<longrightarrow>
     (\<exists>w'. get_object d k w = (Inr \<lparr>body_bytes = bs, body_err = None\<rparr>, w') \<and> objs w' = objs w))"

lemma read_capped_whole:
  assumes "answers d objs" and "objs w k = Some bs" and "int (length bs) \<le> limit"
  shows "\<exists>w'. read_capped d k limit w = (Inr bs, w') \<and> objs w' = objs w"
proof -
  obtain w' where g: "get_object d k w = (Inr \<lparr>body_bytes = bs, body_err = None\<rparr>, w')" and same: "objs w' = objs w"
    using assms(1,2) unfolding answers_def by blast
  have "length bs \<le> nat (limit + 1)" using assms(3) by linarith
  then show ?thesis using g same assms(3) by (auto simp: read_capped_def bindE_def Let_def)
qed

lemma stored_manifest_loads:
  assumes get: "answers d objs"
    and raw: "objs w key = Some raw" "int (length raw) \<le> max_manifest_bytes"
    and sig: "objs w (key @ ''.sig'') = Some (b64_encode sig)" "int (length (b64_encode sig)) \<le> max_signature_bytes"
    and holds: "verify raw sig" and m: "unmarshal_manifest c raw = Inr m"
    and head: "check_manifest_head key (m_schema m) (m_finished m) = None"
  shows "\<exists>w'. load_manifest c d (Some verify) key w = (Inr m, w')"
proof -
  obtain w1 where r1: "read_capped d key max_manifest_bytes w = (Inr raw, w1)" and o1: "objs w1 = objs w"
    using read_capped_whole [OF get raw] by blast
  obtain w2 where r2: "read_capped d (key @ ''.sig'') max_signature_bytes w1 = (Inr (b64_encode sig), w2)"
    using read_capped_whole [OF get] sig o1 by metis
  have "check_signature verify key raw (b64_encode sig) = Inr ()"
    using holds by (simp add: check_signature_def trim_b64 b64_round_trip)
  then show ?thesis
    using r1 r2 m head by (simp add: load_manifest_def read_manifest_bytes_def bindE_def mapErrE_def)
qed

lemma manifest_key_name:
  "stamp_year (m_finished m) \<Longrightarrow> m_schema m = manifest_schema \<Longrightarrow>
   check_manifest_head (manifest_key dir (m_finished m)) (m_schema m) (m_finished m) = None"
  by (simp add: check_manifest_head_def manifest_key_base manifest_schema_def manifest_schema_prefix_def has_prefix_def)

lemma uploaded_manifest_stored:
  assumes "create_only (bk_final r) objs" and "upload_manifest r m dir ret w = (Inr key, w')"
  shows "key = manifest_key dir (m_finished m)" and "objs w' key = Some (canonical (bk_codec r) m)"
    and "objs w' (key @ ''.sig'') = Some (b64_encode (bk_sign r (canonical (bk_codec r) m)))"
proof -
  let ?k = "manifest_key dir (m_finished m)"
  obtain p w1 q where p1: "put_immutable (bk_final r) ?k \<lparr>body_bytes = canonical (bk_codec r) m, body_err = None\<rparr>
       (int (length (canonical (bk_codec r) m))) ret w = (Inr p, w1)"
    and p2: "put_immutable (bk_final r) (?k @ ''.sig'') \<lparr>body_bytes = b64_encode (bk_sign r (canonical (bk_codec r) m)), body_err = None\<rparr>
       (int (length (b64_encode (bk_sign r (canonical (bk_codec r) m))))) ret w1 = (Inr q, w')"
    and k: "key = ?k"
    using assms(2) by (auto simp: upload_manifest_def Let_def bindE_Inr mapErrE_Inr)
  show "key = ?k" by (rule k)
  show "objs w' (key @ ''.sig'') = Some (b64_encode (bk_sign r (canonical (bk_codec r) m)))"
    "objs w' key = Some (canonical (bk_codec r) m)"
    using create_only.put_result_stored [OF assms(1) p2] create_only.put_result_stored [OF assms(1) p1] k by simp_all
qed


lemma filed_manifest_loads:
  assumes "create_only (bk_final r) objs" and get: "answers d objs" and c: "codec_ok (bk_codec r)"
    and holds: "\<forall>x. bk_verify r x (bk_sign r x)"
    and up: "upload_manifest r m dir ret w = (Inr key, w')"
    and m: "manifest_ok m" "m_schema m = manifest_schema" "stamp_year (m_finished m)"
    and size: "int (length (canonical (bk_codec r) m)) \<le> max_manifest_bytes"
      "int (length (b64_encode (bk_sign r (canonical (bk_codec r) m)))) \<le> max_signature_bytes"
  shows "\<exists>w''. load_manifest (bk_codec r) d (Some (bk_verify r)) key w' = (Inr m, w'')"
proof (rule stored_manifest_loads [OF get])
  note stored = uploaded_manifest_stored [OF assms(1) up]
  show "objs w' key = Some (canonical (bk_codec r) m)"
    "objs w' (key @ ''.sig'') = Some (b64_encode (bk_sign r (canonical (bk_codec r) m)))"
    by (rule stored(2), rule stored(3))
  show "unmarshal_manifest (bk_codec r) (canonical (bk_codec r) m) = Inr m" by (rule unmarshal_canonical [OF c m(1)])
  show "check_manifest_head key (m_schema m) (m_finished m) = None"
    unfolding stored(1) by (rule manifest_key_name [OF m(3,2)])
qed (use size holds in simp_all)

end
