(* ===== verification/Lab_Run.thy ===== *)
theory Lab_Run
  imports Lab Filed
begin

text \<open>
  A run in the world of the theory Lab: from an empty bucket it always comes back with a signed
  manifest, so what is stated of every run that returns is stated of at least this one.
\<close>

definition lab_start :: lab where
  "lab_start = \<lparr>lab_store = [], lab_files = (\<lambda>p. None)\<rparr>"

lemma lab_worm_check:
  "worm_check (lab_deps v c ek) w = (Inr \<lparr>ws_period = 0, ws_verdict = v, ws_mode = [], ws_details = [], ws_refusal = None\<rparr>, w)"
  by (simp add: worm_check_def lab_deps_def lab_destination_def bindE_def tryE_def)

lemma lab_select: "select_repos (lab_deps v c ek) w = (Inr [lab_repo], w)"
  by (simp add: select_repos_def lab_deps_def lab_source_def bindE_def mapErrE_def Let_def)

lemma lab_list_start: "list_objects (bk_dst (lab_deps v c ek)) p lab_start = (Inr [], lab_start)"
  by (simp add: lab_deps_def lab_destination_def lab_start_def)

lemma lab_previous_start:
  "load_previous c (bk_dst (lab_deps v c ek)) pub clock b dir sel lab_start = (Inr [], lab_start)"
  using lab_list_start [of v c ek]
  by (simp add: load_previous_def bindE_def tryE_def filed_manifests_def)

lemma lab_begin:
  "\<exists>st ret. begin_run (lab_deps v c ek) t lab_start = (Inr ([lab_repo], st, ret), lab_start) \<and> ws_verdict (rs_worm st) = v"
proof -
  have "git_auth_header (bk_src (lab_deps v c ek)) w = (Inr [], w)" for w
    by (simp add: lab_deps_def lab_source_def git_auth_header_def)
  moreover have "bk_codec (lab_deps v c ek) = c" by (simp add: lab_deps_def)
  ultimately show ?thesis
    by (simp add: begin_run_def bindE_def mapErrE_def lab_worm_check lab_select lab_previous_start Let_def)
qed

lemma lab_run:
  "\<exists>res err w'. backup_run (lab_deps v c ek) lab_start = (Inr (res, err), w')"
proof -
  obtain st ret where b: "begin_run (lab_deps v c ek) (bk_clock (lab_deps v c ek) lab_start) lab_start = (Inr ([lab_repo], st, ret), lab_start)"
    using lab_begin [where ek = ek and c = c and v = v] by blast
  have "returns (\<lambda>es. map en_slug es = map slug [lab_repo]) (with_memory (fan_out (lab_deps v c ek) st ret [lab_repo]))"
    by (intro returns_with_memory fan_out_returns)
  then obtain es w1 where f: "with_memory (fan_out (lab_deps v c ek) st ret [lab_repo]) lab_start = (Inr es, w1)"
    by (blast dest: returnsD)
  have "\<not> bk_require_worm (lab_deps v c ek)" by (simp add: lab_deps_def)
  from end_run_returns [OF this] obtain res err w'
    where "end_run (lab_deps v c ek) (bk_clock (lab_deps v c ek) lab_start) [lab_repo] st ret es w1 = (Inr (res, err), w')"
    by (fast dest: returnsD)
  then show ?thesis by (simp add: backup_run_def bindE_def b f del: fan_out.simps)
qed

text \<open>Its destination applies what it is asked, so its manifest claims what the destination said.\<close>

lemma lab_observe_keys: "observe_keys (\<lambda>k. okE (RetentionPresent, 0)) ks ob w = (Inr ob, w)"
  by (induction ks arbitrary: ob w) (simp_all add: bindE_def tryE_def)

lemma lab_observe: "\<exists>ob. observe_run (bk_final (lab_deps v c ek)) ws es w = (Inr (ob, ws_verdict ws), w)"
  by (auto simp: observe_run_def Let_def lab_deps_def lab_destination_def bindE_def lab_observe_keys)

lemma lab_run_claims:
  "\<exists>res err w'. backup_run (lab_deps v c ek) lab_start = (Inr (res, err), w')
     \<and> (di_worm_immutable (m_destination (br_manifest res)) \<longleftrightarrow> immutable v)"
proof -
  obtain res err w' where run: "backup_run (lab_deps v c ek) lab_start = (Inr (res, err), w')"
    using lab_run by blast
  obtain repos st ret w1 es w2 where
    b: "begin_run (lab_deps v c ek) (bk_clock (lab_deps v c ek) lab_start) lab_start = (Inr (repos, st, ret), w1)"
    and e: "end_run (lab_deps v c ek) (bk_clock (lab_deps v c ek) lab_start) repos st ret es w2 = (Inr (res, err), w')"
    using run by (auto simp: backup_run_def bindE_Inr)
  have st: "ws_verdict (rs_worm st) = v"
    using lab_begin [of v c ek "bk_clock (lab_deps v c ek) lab_start"] b by auto
  obtain ob v' w3 where "observe_run (bk_final (lab_deps v c ek)) (rs_worm st) es w2 = (Inr (ob, v'), w3)"
    and d: "m_destination (br_manifest res) = dest_info_of (bk_cfg (lab_deps v c ek)) (rs_worm st) ret v' ob"
    using end_run_result(2) [OF e] by blast
  moreover obtain ob' where "observe_run (bk_final (lab_deps v c ek)) (rs_worm st) es w2 = (Inr (ob', v), w2)"
    using lab_observe [of v c ek "rs_worm st" es w2] st by auto
  ultimately have "v' = v" by simp
  then show ?thesis using run d by (auto simp: dest_info_of_def Let_def)
qed

text \<open>With nothing to list, its manifest and its signature go to two new keys.\<close>

text \<open>Runs from left to right: what follows a call is left alone until the call has returned.\<close>

lemma bindE_frozen: "bindE m f = bindE m f"
  by (rule refl)

lemma tryE_frozen: "tryE m = tryE m"
  by (rule refl)

lemmas frozen = bindE_frozen tryE_frozen

lemma bindE_step: "bindE m f w = (case m w of (x, w') \<Rightarrow> case x of Inl e \<Rightarrow> (Inl e, w') | Inr y \<Rightarrow> f y w')"
  by (simp add: bindE_def)

lemma lab_upload:
  "\<exists>w'. upload_manifest (lab_deps v c ek) m dir ret lab_start = (Inr (manifest_key dir (m_finished m)), w')"
  by (simp add: upload_manifest_def Let_def bindE_def mapErrE_def lab_deps_def lab_destination_def lab_put_def
      lab_start_def lab_objs_def)

lemma lab_end_empty:
  "\<exists>res w'. end_run (lab_deps v c ek) t ps st ret [] lab_start = (Inr (res, None), w')"
proof -
  let ?r = "lab_deps v c ek"
  obtain ob where o1: "observe_run (bk_final ?r) (rs_worm st) [] lab_start = (Inr (ob, ws_verdict (rs_worm st)), lab_start)"
    using lab_observe by blast
  have off: "bk_require_worm ?r = False" by (simp add: lab_deps_def)
  have id: "new_run_id (bk_rand ?r) t lab_start = (Inr (format_stamp t @ ''-'' @ hex_encode (replicate 6 (CHR 0x00))), lab_start)"
    by (simp add: new_run_id_def lab_deps_def zeros_def bindE_def tryE_def)
  show ?thesis
    using lab_upload [of v c ek "\<lparr>m_schema = manifest_schema, m_run_id = format_stamp t @ ''-'' @ hex_encode (replicate 6 (CHR 0x00)),
                   m_tool = \<lparr>tool_name = ''gitdr'', tool_version = bk_tool ?r\<rparr>,
                   m_source = \<lparr>src_type = sc_type (cf_source (bk_cfg ?r)), src_host = rp_host (hd ps)\<rparr>,
                   m_destination = dest_info_of (bk_cfg ?r) (rs_worm st) ret (ws_verdict (rs_worm st)) ob,
                   m_started = t, m_finished = bk_clock ?r lab_start, m_status = status_string (run_ok []), m_repos = []\<rparr>"
       "manifest_dir ps" ret]
    by (auto simp: end_run_def Let_def bindE_step tryE_apply o1 id off run_ok_def cong: frozen)
qed

section \<open>A bucket with a run in it\<close>

text \<open>A codec that reads one document, and the bucket of a run that copied the repository.\<close>

definition tiny_codec :: "json \<Rightarrow> codec" where
  "tiny_codec j = \<lparr>json_print = (\<lambda>j. []), json_parse = (\<lambda>s. Inr j), time_text = (\<lambda>t. []),
     time_read = (\<lambda>s. Some (1749999000 * second))\<rparr>"

definition old_manifest :: json where
  "old_manifest = JObj [(''schema'', JStr ''gitdr.manifest/v2''), (''finishedAt'', JStr ''t''),
     (''repos'', JArr [JObj [(''slug'', JStr ''o/r''), (''status'', JStr ''success''),
       (''artifacts'', JArr [JObj [(''kind'', JStr ''bundle''), (''key'', JStr ''h/o/r/2025-06-15/r.bundle'')]]),
       (''refs'', JArr [JObj [(''name'', JStr ''refs/heads/main''), (''commit'', JStr ''0a'')]])]])]"

definition old_entry :: repo_entry where
  "old_entry = zero_entry\<lparr>en_slug := ''o/r'', en_status := ''success'',
     en_artifacts := [\<lparr>ai_kind = ''bundle'', ai_key = ''h/o/r/2025-06-15/r.bundle'', ai_size = 0, ai_sha256 = [], ai_until = time_zero\<rparr>],
     en_refs := [\<lparr>re_name = ''refs/heads/main'', re_commit = ''0a''\<rparr>]\<rparr>"

definition old_head :: manifest_head where
  "old_head = \<lparr>mh_schema = ''gitdr.manifest/v2'', mh_run_id = [], mh_finished = 1749999000 * second\<rparr>"

definition old_key :: string where
  "old_key = ''h/o/manifests/20250615T145000Z.manifest.json''"

definition old_signature :: string where
  "old_signature = b64_encode ''signed''"

definition lab_filed :: lab where
  "lab_filed = \<lparr>lab_store = [(''h/o/r/2025-06-15/r.bundle'', ''bundle bytes''), (old_key, ''m''),
     (old_key @ ''.sig'', old_signature)], lab_files = (\<lambda>p. None)\<rparr>"

lemma lab_get:
  "get_object (lab_destination v) k w = (case lab_objs w k of None \<Rightarrow> (Inl (new_error ''no such key''), w)
     | Some b \<Rightarrow> (Inr \<lparr>body_bytes = b, body_err = None\<rparr>, w))"
  by (simp add: lab_destination_def)

lemma lab_filed_objs: "lab_objs lab_filed old_key = Some ''m''" "lab_objs lab_filed (old_key @ ''.sig'') = Some (old_signature)"
  by (simp_all add: lab_objs_def lab_filed_def old_key_def)

lemma old_decodes: "decode_manifest_stream (tiny_codec old_manifest) raw = Inr (old_head, [old_entry])"
  by code_simp

lemma old_head_fits: "check_manifest_head old_key (mh_schema old_head) (mh_finished old_head) = None"
  by code_simp

lemma old_signed: "check_signature (\<lambda>m s. s = ''signed'') old_key ''m'' (old_signature) = Inr ()"
  by code_simp

lemma signed_size: "length (old_signature) < 100"
  by code_simp

lemma lab_read_old:
  "read_manifest_entries (tiny_codec old_manifest) (lab_destination v) (Some (\<lambda>m s. s = ''signed'')) old_key lab_filed
    = (Inr (old_head, [old_entry]), lab_filed)"
  using signed_size
  by (simp add: read_manifest_entries_def read_manifest_bytes_def read_capped_def bindE_step mapErrE_def lab_get lab_filed_objs
      max_manifest_bytes_def max_signature_bytes_def old_signed old_decodes old_head_fits Let_def cong: frozen)


definition old_listing :: "object list" where
  "old_listing = [\<lparr>obj_key = old_key, obj_size = 1, obj_modified = 1750000000 * second\<rparr>, \<lparr>obj_key = old_key @ ''.sig'', obj_size = 8, obj_modified = 1750000000 * second\<rparr>]"

lemma old_signature_size: "length old_signature = 8"
  by code_simp

lemma lab_filed_lists:
  "list_objects (lab_destination v) (''h/o/manifests/'') lab_filed = (Inr old_listing, lab_filed)"
  "list_objects (lab_destination v) (''h/o/r/2025-06-15/'') lab_filed =
     (Inr [\<lparr>obj_key = ''h/o/r/2025-06-15/r.bundle'', obj_size = 12, obj_modified = 1750000000 * second\<rparr>], lab_filed)"
  by (simp_all add: lab_destination_def lab_filed_def old_key_def has_prefix_def old_listing_def old_signature_size)

definition old_copy :: previous_copy where
  "old_copy = \<lparr>pc_refs = [(''refs/heads/main'', ''0a'')], pc_copied_at = 1749999000 * second\<rparr>"

lemma old_pure:
  "filed_manifests old_listing ''h/o/manifests'' = [old_key]"
  "stamp_of old_key = Some (1749999000 * second)" "listed_size old_listing old_key = 1"
  "oversized old_key 1 = None"
  "deciding (Some [''o/r'']) [] old_entry" "en_slug old_entry = ''o/r''"
  "previous_of 1750000000000000000 old_head old_entry = Some old_copy"
  "\<not> refresh_bound (30 * day) \<le> time_sub 1750000000000000000 1749999000000000000" "max_previous_manifests \<noteq> 0"
  by code_simp+

lemma lab_previous_old:
  "load_previous (tiny_codec old_manifest) (lab_destination v) (Some (\<lambda>m s. s = ''signed'')) (\<lambda>w. 1750000000 * second)
     (refresh_bound (30 * day)) (''h/o/manifests'') (Some [''o/r'']) lab_filed
   = (Inr [(''o/r'', old_copy)], lab_filed)"
  by (simp add: load_previous_def bindE_step tryE_apply lab_filed_lists lab_read_old old_pure second_def cong: frozen)


lemma lab_begin_old:
  "\<exists>st ret. begin_run (lab_deps v (tiny_codec old_manifest) ek) t lab_filed = (Inr ([lab_repo], st, ret), lab_filed)
     \<and> rs_previous st = [(''o/r'', old_copy)] \<and> rs_recopy st = [] \<and> ws_period (rs_worm st) = 0"
proof -
  let ?r = "lab_deps v (tiny_codec old_manifest) ek"
  have "git_auth_header (bk_src ?r) w = (Inr [], w)" for w
    by (simp add: lab_deps_def lab_source_def git_auth_header_def)
  moreover have "bk_codec ?r = tiny_codec old_manifest" "bk_dst ?r = lab_destination v" "bk_verify ?r = (\<lambda>m s. s = ''signed'')"
    "bk_clock ?r = (\<lambda>w. 1750000000 * second)" "bk_cfg ?r = default_config" by (simp_all add: lab_deps_def)
  moreover have "manifest_dir [lab_repo] = ''h/o/manifests''" "slug lab_repo = ''o/r''" by code_simp+
  moreover have "retention_window default_config \<lparr>ws_period = 0, ws_verdict = v, ws_mode = [], ws_details = [], ws_refusal = None\<rparr> = 30 * day"
    by code_simp
  moreover have "named_for_recopy (bc_recopy (cf_backup default_config)) [''o/r''] = []" by code_simp
  ultimately show ?thesis
    by (simp add: begin_run_def bindE_step mapErrE_def lab_worm_check lab_select lab_previous_old Let_def cong: frozen)
qed

lemma old_unchanged:
  "rs_previous st = [(''o/r'', old_copy)] \<Longrightarrow> rs_recopy st = [] \<Longrightarrow> ws_period (rs_worm st) = 0 \<Longrightarrow>
   \<exists>e. unchanged_skip (lab_deps v c ek) st ''o/r'' [(''refs/heads/main'', ''0a'')] (1750000000 * second) = Some e"
proof -
  have skip: "ud_skip (decide_unchanged (pc_refs old_copy) [(''refs/heads/main'', ''0a'')] (pc_copied_at old_copy) (1750000000 * second) (30 * day))"
    by code_simp
  assume "rs_previous st = [(''o/r'', old_copy)]" "rs_recopy st = []" "ws_period (rs_worm st) = 0"
  moreover from this have "retention_window (bk_cfg (lab_deps v c ek)) (rs_worm st) = 30 * day"
    by (simp add: retention_window_def lab_deps_def default_config_def days_duration_exact)
  ultimately show ?thesis using skip by (simp add: unchanged_skip_def Let_def)
qed

definition old_state :: run_state where
  "old_state = \<lparr>rs_worm = \<lparr>ws_period = 0, ws_verdict = VerdictImmutable, ws_mode = [], ws_details = [], ws_refusal = None\<rparr>,
     rs_date = ''2025-06-15'', rs_selected = [''o/r''], rs_recopy = [], rs_previous = []\<rparr>"

lemma old_state_fields: "rs_date old_state = ''2025-06-15''" "rs_previous old_state = []"
  by (simp_all add: old_state_def)

definition old_found :: recorded_copy where
  "old_found = \<lparr>rcp_key = old_key, rcp_finished = 1749999000 * second, rcp_entry = old_entry\<rparr>"

definition old_searched :: searched where
  "old_searched = \<lparr>sm_finished = 1749999000 * second, sm_err = None, sm_entries = [(''o/r'', old_entry)]\<rparr>"

lemma old_search_pure:
  "search_places (manifest_search_dirs ''h'' ''o'') (1749945600 * second) =
    (''h/o/manifests'', 1749945600 * second) # tl (search_places (manifest_search_dirs ''h'' ''o'') (1749945600 * second))"
  "path_join [''h/o/manifests'', format_day (1749945600 * second)] = ''h/o/manifests/20250615''"
  "in_time (Some (1750000000 * second)) old_key"
  "searched_of (\<lambda>s. s = ''o/r'') (Inr (old_head, [old_entry])) = old_searched"
  "sm_err old_searched = None"
  "judge ''o/r'' (resume_keys old_state lab_repo) old_key old_searched (empty_report\<lparr>sr_seen := Suc (sr_seen empty_report)\<rparr>)
    = (Some old_found, empty_report\<lparr>sr_seen := Suc 0\<rparr>)"
  "parse_date ''2025-06-15'' = Some (1749945600 * second)"
  "date_dir old_state lab_repo = ''h/o/r/2025-06-15''"
  by code_simp+


lemma lab_list_day:
  "list_objects (lab_destination v) (''h/o/manifests/20250615'') lab_filed = (Inr old_listing, lab_filed)"
  by (simp add: lab_destination_def lab_filed_def old_key_def has_prefix_def old_listing_def old_signature_size)

lemma lab_search_old:
  "\<exists>rep mem. find_copy (tiny_codec old_manifest) (lab_destination v) (Some (\<lambda>m s. s = ''signed'')) (\<lambda>s. s \<in> {''o/r''})
     (manifest_search_dirs ''h'' ''o'') (1749945600 * second) (''o/r'') (resume_keys old_state lab_repo)
     (Some (1750000000 * second)) (lab_filed, no_memory)
   = (Inr (Some old_found, rep), (lab_filed, mem))"
  unfolding find_copy_def
  by (subst old_search_pure(1), simp only: find_in_dirs.simps)
    (simp add: bindE_step mapErrE_def search_list_def on_world_def no_memory_def lab_list_day Let_def
    old_pure(1) search_load_def old_pure(3,4) old_search_pure(2-6) tryE_apply lab_read_old cong: frozen)

lemma old_resume_pure:
  "filed_under ''h/o/r/2025-06-15'' [\<lparr>obj_key = ''h/o/r/2025-06-15/r.bundle'', obj_size = 12, obj_modified = 1750000000 * second\<rparr>]
    = [\<lparr>obj_key = ''h/o/r/2025-06-15/r.bundle'', obj_size = 12, obj_modified = 1750000000 * second\<rparr>]"
  "\<not> foreign_to ''2025-06-15'' \<lparr>obj_key = ''h/o/r/2025-06-15/r.bundle'', obj_size = 12, obj_modified = 1750000000 * second\<rparr>"
  "en_status (resume_from ''o/r'' ''2025-06-15'' nxt [''h/o/r/2025-06-15/r.bundle''] old_found (1750000000 * second)) = status_skipped"
  "rp_host lab_repo = ''h''" "rp_owner lab_repo = ''o''" "slug lab_repo = ''o/r''"  "opt_time (1750000000 * second) = Some (1750000000 * second)"
  "rs_date old_state = ''2025-06-15''" "rs_selected old_state = [''o/r'']"
  by code_simp+

lemma lab_resumed:
  "\<exists>e mem. resumed (lab_deps v (tiny_codec old_manifest) ek) old_state lab_repo (lab_filed, no_memory)
     = (Inr (Some e), (lab_filed, mem)) \<and> en_status e = status_skipped"
proof -
  let ?r = "lab_deps v (tiny_codec old_manifest) ek"
  have r: "bk_codec ?r = tiny_codec old_manifest" "bk_dst ?r = lab_destination v" "bk_verify ?r = (\<lambda>m s. s = ''signed'')"
    "bk_clock ?r = (\<lambda>w. 1750000000 * second)" by (simp_all add: lab_deps_def)
  obtain rep mem where f: "find_copy (tiny_codec old_manifest) (lab_destination v) (Some (\<lambda>m s. s = ''signed'')) (\<lambda>s. s = ''o/r'')
     (manifest_search_dirs ''h'' ''o'') (1749945600 * second) (''o/r'') (resume_keys old_state lab_repo)
     (Some (1750000000 * second)) (lab_filed, no_memory)
   = (Inr (Some old_found, rep), (lab_filed, mem))" using lab_search_old [of v] by auto
  show ?thesis
    by (simp add: resumed_def resume_date_def resume_copy_def bindE_step tryE_apply on_world_def Let_def r old_resume_pure
      old_search_pure(7-) lab_filed_lists f cong: frozen)
qed

definition old_run :: manifest where
  "old_run = zero_manifest\<lparr>m_schema := ''gitdr.manifest/v2'', m_finished := 1749999000 * second, m_repos := [old_entry]\<rparr>"

lemma old_unmarshals: "unmarshal_manifest (tiny_codec old_manifest) raw = Inr old_run"
  by code_simp

lemma old_run_fits: "check_manifest_head old_key (m_schema old_run) (m_finished old_run) = None"
  by code_simp

lemma lab_read_bytes:
  "read_manifest_bytes (lab_destination v) (Some (\<lambda>m s. s = ''signed'')) old_key lab_filed = (Inr ''m'', lab_filed)"
  using signed_size
  by (simp add: read_manifest_bytes_def read_capped_def bindE_step mapErrE_def lab_get lab_filed_objs
      max_manifest_bytes_def max_signature_bytes_def old_signed Let_def cong: frozen)

lemma lab_load_old:
  "load_manifest (tiny_codec old_manifest) (lab_destination v) (Some (\<lambda>m s. s = ''signed'')) old_key lab_filed
    = (Inr old_run, lab_filed)"
  by (simp add: load_manifest_def bindE_step mapErrE_def lab_read_bytes old_unmarshals old_run_fits cong: frozen)

section \<open>A whole run\<close>

lemma lab_says:
  "git_output_cfg (git (lab_deps v c ek)) d cfg a w = (Inr (lab_git_says a),
      if take 2 a = [''bundle'', ''create''] then w\<lparr>lab_files := (lab_files w)(a ! 2 \<mapsto> ''bundle bytes'')\<rparr> else w)"
  "git_run (git (lab_deps v c ek)) d cfg a w = (Inr (),
      if take 2 a = [''bundle'', ''create''] then w\<lparr>lab_files := (lab_files w)(a ! 2 \<mapsto> ''bundle bytes'')\<rparr> else w)"
  by (simp_all add: git_output_cfg_def git_run_def command_def lab_git lab_workspace_def machine.defs)

definition lab_refs :: refs where
  "lab_refs = [(''refs/heads/main'', ''0a''), (''HEAD'', ''0a'')]"

definition remote_refs :: refs where
  "remote_refs = [(''HEAD'', ''0a''), (''refs/heads/main'', ''0a'')]"

lemma lab_parses:
  "map_sum id ref_map (read_lines read_remote_line (split_on newline (lab_git_says [''ls-remote'', ''--'', u]))) = Inr remote_refs"
  "map_sum id ref_map (read_lines (read_oid_name x) (split_on newline (lab_git_says [''for-each-ref'', y]))) = Inr [(''refs/heads/main'', ''0a'')]"
  "parse_bundle_heads (lab_git_says [''bundle'', ''list-heads'', z]) = Inr [\<lparr>bref_name = ''refs/heads/main'', bref_oid = ''0a''\<rparr>, \<lparr>bref_name = ''HEAD'', bref_oid = ''0a''\<rparr>]"
  "trim_space (lab_git_says [''for-each-ref'', y, z]) \<noteq> []"
  by (simp only: lab_git_says_def list.sel simp_thms if_False; code_simp)+

lemma lab_remove: "remove_all (git (lab_deps v c ek)) p w = w" "remove_all lab_workspace p w = w"
  "mkdir_temp (git (lab_deps v c ek)) p w = (Inr (''/tmp/'' @ p), w)" "abs_path (git (lab_deps v c ek)) p w = (Inr p, w)"
  "look_path (git (lab_deps v c ek)) p w = False"
  by (simp_all add: lab_git lab_workspace_def machine.defs)

lemma lab_head: "head_ref (git (lab_deps v c ek)) d w = (Inr (''0a'', True), w)"
proof -
  have "trim_space ''0a'' = ''0a''" by code_simp
  then show ?thesis by (simp add: head_ref_def bindE_step tryE_apply git_output_def lab_says lab_git_says_def cong: frozen)
qed

lemma lab_ls_remote: "ls_remote (git (lab_deps v c ek)) u h w = (Inr remote_refs, w)"
  by (simp add: ls_remote_def bindE_step mapErrE_def lab_says lab_parses cong: frozen)

lemma lab_mirror_refs: "mirror_refs (git (lab_deps v c ek)) d w = (Inr lab_refs, w)"
proof -
  have "is_hex ''0a''" by code_simp
  then show ?thesis
    by (simp add: mirror_refs_def list_refs_def git_output_def bindE_step mapErrE_def lab_says lab_parses lab_head lab_refs_def
        cong: frozen)
qed

lemma lab_heads: "bundle_heads (git (lab_deps v c ek)) p w =
    (Inr [\<lparr>bref_name = ''refs/heads/main'', bref_oid = ''0a''\<rparr>, \<lparr>bref_name = ''HEAD'', bref_oid = ''0a''\<rparr>], w)"
  by (simp add: bundle_heads_def with_scratch_repo_def git_output_def bindE_step mapErrE_def deferE_def lab_says lab_parses lab_remove
      cong: frozen)

lemma lab_bundle_holds: "bundle_holds (git (lab_deps v c ek)) p lab_refs w = (Inr (), w)"
proof -
  have "same_refs lab_refs (ref_map (map (\<lambda>h. (bref_name h, bref_oid h))
    [\<lparr>bref_name = ''refs/heads/main'', bref_oid = ''0a''\<rparr>, \<lparr>bref_name = ''HEAD'', bref_oid = ''0a''\<rparr>]))" by code_simp
  then show ?thesis by (simp add: bundle_holds_def bindE_step mapErrE_def lab_heads Let_def cong: frozen)
qed

lemma lab_clone_holds: "clone_holds auth ask remote_refs lab_refs w = (Inr (), w)"
proof -
  have "lacking remote_refs lab_refs = []" by code_simp
  then show ?thesis by (simp add: clone_holds_def)
qed

lemma lab_bundle: "bundle_all (git (lab_deps v c ek)) d p w = (Inr (), w\<lparr>lab_files := (lab_files w)(p \<mapsto> ''bundle bytes'')\<rparr>)"
  by (simp add: bundle_all_def bindE_step lab_head lab_says cong: frozen)

lemma lab_current: "current_refs (git (lab_deps v c ek)) lab_source q w = (Inr remote_refs, w)"
  by (simp add: current_refs_def bindE_step tryE_apply git_auth_header_def lab_source_def lab_ls_remote cong: frozen)

text \<open>What the repository's staging leaves: its bundle, its metadata and its sidecar.\<close>

definition lab_sums :: "string" where
  "lab_sums = hex_encode (take 32 ''bundle bytes'') @ ''  '' @ ''r.bundle'' @ [newline]"

definition lab_staging :: staging where
  "lab_staging = \<lparr>sg_has_refs = True, sg_artifacts =
     [\<lparr>st_kind = ''bundle'', st_key = ''h/o/r/2025-06-15/r.bundle'', st_path = ''/tmp/gitdr-backup-/r.bundle'', st_data = [],
        st_size = 12, st_sha = hex_encode (take 32 ''bundle bytes'')\<rparr>,
      \<lparr>st_kind = ''meta'', st_key = ''h/o/r/2025-06-15/r.meta.json'', st_path = [], st_data = ''{}'',
        st_size = 2, st_sha = hex_encode ''{}''\<rparr>,
      \<lparr>st_kind = ''sha256'', st_key = ''h/o/r/2025-06-15/r.sha256'', st_path = [], st_data = lab_sums,
        st_size = int (length lab_sums), st_sha = hex_encode (take 32 lab_sums)\<rparr>],
     sg_meta_err = None, sg_copied = lab_refs\<rparr>"

lemma lab_paths: "artifact_key lab_repo ''2025-06-15'' ''.bundle'' = ''h/o/r/2025-06-15/r.bundle''"
  "artifact_key lab_repo ''2025-06-15'' ''.meta.json'' = ''h/o/r/2025-06-15/r.meta.json''"
  "artifact_key lab_repo ''2025-06-15'' ''.sha256'' = ''h/o/r/2025-06-15/r.sha256''"
  "file_join ''/tmp/gitdr-backup-'' ''r.bundle'' = ''/tmp/gitdr-backup-/r.bundle''"
  by code_simp+

lemma lab_stage:
  "stage_repo (lab_deps v c None) ''2025-06-15'' lab_repo remote_refs ''/tmp/gitdr-backup-'' w =
     (Inr lab_staging, w\<lparr>lab_files := (lab_files w)(''/tmp/gitdr-backup-/r.bundle'' \<mapsto> ''bundle bytes'')\<rparr>)"
proof -
  let ?r = "lab_deps v c None"
  have r: "bk_src ?r = lab_source" "bk_ctx ?r = (\<lambda>w. None)" "bk_ws ?r = lab_workspace" "bk_enc_key ?r = None" "bk_sha ?r = (\<lambda>b. hex_encode (take 32 b))"
     "bc_lfs (cf_backup (bk_cfg ?r))"
    by (simp_all add: lab_deps_def default_config_def)
  have src: "clone_url lab_source lab_repo w = (Inr ''https://h/o/r'', w)" "fetch_metadata lab_source lab_repo w = (Inr ''{}'', w)"
     "git_auth_header lab_source w = (Inr [], w)" for w
    by (simp_all add: lab_source_def git_auth_header_def)
  have ws: "open_file lab_workspace p w = (case lab_files w p of
          None \<Rightarrow> (Inl (new_error ''no such file''), w)
        | Some b \<Rightarrow> (Inr \<lparr>body_bytes = b, body_err = None\<rparr>, w))" "remove_tree lab_workspace p w = (Inr (), w)" for p w
    by (simp_all add: lab_workspace_def)
  have nm: "rp_name lab_repo = ''r''" by (simp add: lab_repo_def)
  show ?thesis
    by (simp add: stage_repo_def finish_staging_def clone_attempt_def clone_mirror_def has_refs_def git_output_def retry.simps numeral_3_eq_3
      stage_file_def sha256_file_def ctx_body_def stage_bytes_def staged_file_def lfs_available_def
      bindE_step tryE_apply mapErrE_def Let_def r src ws nm
      lab_says lab_parses lab_remove lab_ls_remote lab_mirror_refs lab_clone_holds lab_bundle_holds lab_bundle lab_paths
      lab_staging_def lab_sums_def  cong: frozen)
qed

definition lab_done :: lab where
  "lab_done = \<lparr>lab_store = [(''h/o/r/2025-06-15/r.sha256'', lab_sums), (''h/o/r/2025-06-15/r.meta.json'', ''{}''),
     (''h/o/r/2025-06-15/r.bundle'', ''bundle bytes'')],
     lab_files = (\<lambda>p. None)(''/tmp/gitdr-backup-/r.bundle'' \<mapsto> ''bundle bytes'')\<rparr>"

definition lab_entry :: "retention \<Rightarrow> repo_entry" where
  "lab_entry ret = zero_entry\<lparr>en_slug := ''o/r'', en_status := status_success,
     en_artifacts := [\<lparr>ai_kind = ''bundle'', ai_key = ''h/o/r/2025-06-15/r.bundle'', ai_size = 12,
         ai_sha256 = hex_encode (take 32 ''bundle bytes''), ai_until = ret_until ret\<rparr>,
       \<lparr>ai_kind = ''meta'', ai_key = ''h/o/r/2025-06-15/r.meta.json'', ai_size = 2, ai_sha256 = hex_encode ''{}'', ai_until = ret_until ret\<rparr>,
       \<lparr>ai_kind = ''sha256'', ai_key = ''h/o/r/2025-06-15/r.sha256'', ai_size = int (length lab_sums),
         ai_sha256 = hex_encode (take 32 lab_sums), ai_until = ret_until ret\<rparr>]\<rparr>"

lemma lab_copy:
  "backup_repo (lab_deps v c None) ''2025-06-15'' ret lab_repo remote_refs lab_start = (Inr (lab_entry ret, Some lab_refs), lab_done)"
proof -
  let ?r = "lab_deps v c None"
  have r: "bk_ws ?r = lab_workspace" "put_immutable (bk_dst ?r) = lab_put" "mkdir_temp lab_workspace p w = (Inr (''/tmp/'' @ p), w)" for p w
    by (simp_all add: lab_deps_def lab_destination_def lab_workspace_def)
  have ws: "open_file lab_workspace p w = (case lab_files w p of
          None \<Rightarrow> (Inl (new_error ''no such file''), w)
        | Some b \<Rightarrow> (Inr \<lparr>body_bytes = b, body_err = None\<rparr>, w))" for p w
    by (simp add: lab_workspace_def)
  have sl: "slug lab_repo = ''o/r''" by code_simp
  show ?thesis
    by (simp add: backup_repo_def bindE_step tryE_apply deferE_def mapErrE_def r lab_remove lab_stage lab_staging_def
        put_staged_def ws artifact_of_def wrote_def written_def map_filter_simps finish_entry_def Let_def sl lab_entry_def lab_done_def
        lab_put_def lab_objs_def lab_start_def
        cong: frozen)
qed

lemma lab_begin_date:
  "\<exists>st ret. begin_run (lab_deps v c ek) (1750000000 * second) lab_start = (Inr ([lab_repo], st, ret), lab_start)
     \<and> rs_date st = ''2025-06-15'' \<and> rs_previous st = []"
proof -
  have "git_auth_header (bk_src (lab_deps v c ek)) w = (Inr [], w)" for w
    by (simp add: lab_deps_def lab_source_def git_auth_header_def)
  moreover have "bk_codec (lab_deps v c ek) = c" by (simp add: lab_deps_def)
  moreover have "format_date (1750000000 * second) = ''2025-06-15''" by code_simp
  ultimately show ?thesis
    by (simp add: begin_run_def bindE_step mapErrE_def lab_worm_check lab_select lab_previous_start Let_def cong: frozen)
qed

definition lab_filed_entry :: "retention \<Rightarrow> repo_entry" where
  "lab_filed_entry ret = copied_entry (lab_entry ret) (Some lab_refs) (1750000000 * second)"

lemma lab_fan_out:
  assumes "rs_date st = ''2025-06-15''" and "rs_previous st = []"
  shows "fan_out (lab_deps v c None) st ret [lab_repo] (lab_start, no_memory) = (Inr [lab_filed_entry ret], (lab_done, no_memory))"
proof -
  let ?r = "lab_deps v c None"
  have "bk_ctx ?r = (\<lambda>w. None)" "bk_clock ?r = (\<lambda>w. 1750000000 * second)" "bk_src ?r = lab_source" by (simp_all add: lab_deps_def)
  moreover have "after_stop None e = e" for e by (simp add: after_stop_def)
  moreover have "filed_under d [] = []" for d by (simp add: filed_under_def)
  moreover have "unchanged_skip ?r st sl cur now = None" for sl cur now using assms by (simp add: unchanged_skip_def)
  ultimately show ?thesis
    by (simp add: backup_one_def resumed_def bindE_step tryE_apply on_world_def lab_list_start Let_def lab_current lab_copy
      assms lab_filed_entry_def cong: frozen)
qed

lemma lab_end_done:
  "\<exists>res w'. end_run (lab_deps v c None) t [lab_repo] st ret [lab_filed_entry ret] lab_done = (Inr (res, None), w')"
proof -
  let ?r = "lab_deps v c None"
  obtain ob where o1: "observe_run (bk_final ?r) (rs_worm st) [lab_filed_entry ret] lab_done = (Inr (ob, ws_verdict (rs_worm st)), lab_done)"
    using lab_observe by blast
  have off: "bk_require_worm ?r = False" by (simp add: lab_deps_def)
  have id: "new_run_id (bk_rand ?r) t lab_done = (Inr (format_stamp t @ ''-'' @ hex_encode (replicate 6 (CHR 0x00))), lab_done)"
    by (simp add: new_run_id_def lab_deps_def zeros_def bindE_def tryE_def)
  have ok: "run_ok [lab_filed_entry ret]" by (simp add: run_ok_def lab_filed_entry_def copied_entry_def lab_entry_def)
  have key: "manifest_key (manifest_dir [lab_repo]) (1750000000 * second) = ''h/o/manifests/20250615T150640Z.manifest.json''"
    by code_simp
  have fin: "bk_clock ?r = (\<lambda>w. 1750000000 * second)" "bk_final ?r = lab_destination v" by (simp_all add: lab_deps_def)
  have up: "\<exists>w'. upload_manifest ?r m (manifest_dir [lab_repo]) ret lab_done = (Inr (manifest_key (manifest_dir [lab_repo]) (m_finished m)), w')"
    if "m_finished m = 1750000000 * second" for m
    using that by (simp add: upload_manifest_def Let_def bindE_step mapErrE_def key fin lab_destination_def lab_put_def lab_done_def lab_objs_def cong: frozen)
  have o2: "observe_run (lab_destination v) (rs_worm st) [lab_filed_entry ret] lab_done = (Inr (ob, ws_verdict (rs_worm st)), lab_done)"
    using o1 fin(2) by simp
  show ?thesis
    using up [of "\<lparr>m_schema = manifest_schema, m_run_id = format_stamp t @ ''-'' @ hex_encode (replicate 6 (CHR 0x00)),
                   m_tool = \<lparr>tool_name = ''gitdr'', tool_version = bk_tool ?r\<rparr>,
                   m_source = \<lparr>src_type = sc_type (cf_source (bk_cfg ?r)), src_host = rp_host (hd [lab_repo])\<rparr>,
                   m_destination = dest_info_of (bk_cfg ?r) (rs_worm st) ret (ws_verdict (rs_worm st)) ob,
                   m_started = t, m_finished = 1750000000 * second, m_status = status_string (run_ok [lab_filed_entry ret]), m_repos = [lab_filed_entry ret]\<rparr>"]
    by (auto simp: end_run_def Let_def bindE_step tryE_apply o2 id off ok fin cong: frozen)
qed

lemma lab_whole_run:
  "\<exists>res ret w'. backup_run (lab_deps v c None) lab_start = (Inr (res, None), w')
     \<and> m_repos (br_manifest res) = [lab_filed_entry ret]"
proof -
  let ?r = "lab_deps v c None"
  have clock: "bk_clock ?r = (\<lambda>w. 1750000000 * second)" by (simp add: lab_deps_def)
  obtain st ret where b: "begin_run ?r (1750000000 * second) lab_start = (Inr ([lab_repo], st, ret), lab_start)"
    and st: "rs_date st = ''2025-06-15''" "rs_previous st = []"
    using lab_begin_date by blast
  have f: "with_memory (fan_out ?r st ret [lab_repo]) lab_start = (Inr [lab_filed_entry ret], lab_done)"
    using lab_fan_out [OF st] by (simp add: with_memory_def del: fan_out.simps)
  obtain res w' where e: "end_run ?r (1750000000 * second) [lab_repo] st ret [lab_filed_entry ret] lab_done = (Inr (res, None), w')"
    using lab_end_done by blast
  have "backup_run ?r lab_start = (Inr (res, None), w')"
    by (simp add: backup_run_def bindE_step clock b f e del: fan_out.simps cong: frozen)
  moreover have "m_repos (br_manifest res) = [lab_filed_entry ret]" using end_run_result(1) [OF e] by blast
  ultimately show ?thesis by blast
qed

text \<open>A codec that reads back what it wrote, with a short form for one document.\<close>

definition short_codec :: "json \<Rightarrow> codec" where
  "short_codec j = lab_codec\<lparr>json_print := (\<lambda>i. if i = j then ''m'' else replicate (to_nat i + 2) CHR ''x''),
     json_parse := (\<lambda>s. if s = ''m'' then Inr j else Inr (from_nat (length s - 2)))\<rparr>"

lemma short_codec_ok: "codec_ok (short_codec j)"
  by (auto simp: codec_ok_def short_codec_def lab_codec_def numeral_2_eq_2)

definition small_manifest :: manifest where
  "small_manifest = zero_manifest\<lparr>m_schema := manifest_schema, m_finished := 1750000000 * second\<rparr>"

lemma short_enc: "enc_manifest (short_codec j) = enc_manifest lab_codec"
proof -
  have t: "enc_time (short_codec j) = enc_time lab_codec" by (simp add: fun_eq_iff enc_time_def short_codec_def)
  have a: "enc_artifact (short_codec j) = enc_artifact lab_codec" by (simp add: fun_eq_iff enc_artifact_def t)
  have e: "enc_entry (short_codec j) = enc_entry lab_codec" by (simp add: fun_eq_iff enc_entry_def t a split: option.split)
  show ?thesis by (simp add: fun_eq_iff enc_manifest_def t e)
qed

lemma short_print: "canonical (short_codec (enc_manifest lab_codec m)) m = ''m''"
  unfolding canonical_def short_enc by (simp add: short_codec_def)

lemma lab_answers: "answers (lab_destination v) lab_objs"
  by (auto simp: answers_def lab_get)

section \<open>A whole run, and its manifest written out\<close>

definition lab_run_manifest :: manifest where
  "lab_run_manifest = \<lparr>m_schema = manifest_schema, m_run_id = ''20250615T150640Z-000000000000'',
     m_tool = \<lparr>tool_name = ''gitdr'', tool_version = ''test''\<rparr>,
     m_source = \<lparr>src_type = sc_type (cf_source default_config), src_host = ''h''\<rparr>,
     m_destination = dest_info_of default_config \<lparr>ws_period = 0, ws_verdict = VerdictNotImmutable, ws_mode = [], ws_details = [], ws_refusal = None\<rparr>
       no_retention VerdictNotImmutable RetentionNotChecked,
     m_started = 1750000000 * second, m_finished = 1750000000 * second, m_status = ''success'', m_repos = [lab_filed_entry no_retention]\<rparr>"

definition lab_run_key :: string where
  "lab_run_key = ''h/o/manifests/20250615T150640Z.manifest.json''"

lemma lab_plain_run:
  "\<exists>w'. backup_run (lab_deps VerdictNotImmutable c None) lab_start = (Inr (\<lparr>br_manifest = lab_run_manifest, br_key = lab_run_key\<rparr>, None), w')"
proof -
  let ?r = "lab_deps VerdictNotImmutable c None"
  have clock: "bk_clock ?r = (\<lambda>w. 1750000000 * second)" "bk_final ?r = lab_destination VerdictNotImmutable" "bk_require_worm ?r = False"
    "bk_cfg ?r = default_config" "bk_tool ?r = ''test''" by (simp_all add: lab_deps_def)
  have auth: "git_auth_header (bk_src ?r) w = (Inr [], w)" for w
    by (simp add: lab_deps_def lab_source_def git_auth_header_def)
  have codec: "bk_codec ?r = c" by (simp add: lab_deps_def)
  have date: "format_date (1750000000 * second) = ''2025-06-15''" by code_simp
  obtain st where b: "begin_run ?r (1750000000 * second) lab_start = (Inr ([lab_repo], st, no_retention), lab_start)"
    and st: "rs_date st = ''2025-06-15''" "rs_previous st = []"
    "rs_worm st = \<lparr>ws_period = 0, ws_verdict = VerdictNotImmutable, ws_mode = [], ws_details = [], ws_refusal = None\<rparr>"
    using auth codec date
    by (simp add: begin_run_def bindE_step mapErrE_def lab_worm_check lab_select lab_previous_start Let_def retention_of_def immutable_def cong: frozen)
  have f: "with_memory (fan_out ?r st no_retention [lab_repo]) lab_start = (Inr [lab_filed_entry no_retention], lab_done)"
    using lab_fan_out [OF st(1,2)] by (simp add: with_memory_def del: fan_out.simps)
  have ob: "observe_run (lab_destination VerdictNotImmutable) (rs_worm st) es w = (Inr (RetentionNotChecked, VerdictNotImmutable), w)" for es w
    by (simp add: observe_run_def Let_def st(3) immutable_def)
  have id: "new_run_id (bk_rand ?r) (1750000000 * second) w = (Inr ''20250615T150640Z-000000000000'', w)" for w
  proof -
    have "format_stamp (1750000000 * second) @ ''-'' @ hex_encode (replicate 6 (CHR 0x00)) = ''20250615T150640Z-000000000000''" by code_simp
    then show ?thesis by (simp add: new_run_id_def lab_deps_def zeros_def bindE_def tryE_def)
  qed
  have ok: "run_ok [lab_filed_entry no_retention]" by (simp add: run_ok_def lab_filed_entry_def copied_entry_def lab_entry_def)
  have fin: "m_finished lab_run_manifest = 1750000000 * second" by (simp add: lab_run_manifest_def)
  have key: "manifest_key (manifest_dir [lab_repo]) (1750000000 * second) = lab_run_key" by code_simp
  obtain w' where up: "upload_manifest ?r lab_run_manifest (manifest_dir [lab_repo]) no_retention lab_done = (Inr lab_run_key, w')"
    by (simp add: upload_manifest_def Let_def bindE_step mapErrE_def fin key clock lab_destination_def lab_put_def lab_done_def lab_objs_def
        lab_run_key_def cong: frozen)
  have m: "\<lparr>m_schema = manifest_schema, m_run_id = ''20250615T150640Z-000000000000'', m_tool = \<lparr>tool_name = ''gitdr'', tool_version = ''test''\<rparr>,
      m_source = \<lparr>src_type = sc_type (cf_source default_config), src_host = rp_host (hd [lab_repo])\<rparr>,
      m_destination = dest_info_of default_config (rs_worm st) no_retention VerdictNotImmutable RetentionNotChecked,
      m_started = 1750000000 * second, m_finished = 1750000000 * second, m_status = status_string True,
      m_repos = [lab_filed_entry no_retention]\<rparr> = lab_run_manifest"
    by (simp add: lab_run_manifest_def st(3) lab_repo_def status_string_def status_success_def)
  have "end_run ?r (1750000000 * second) [lab_repo] st no_retention [lab_filed_entry no_retention] lab_done
      = (Inr (\<lparr>br_manifest = lab_run_manifest, br_key = lab_run_key\<rparr>, None), w')"
    using up unfolding m [symmetric] by (simp add: end_run_def Let_def bindE_step tryE_apply ob id ok clock cong: frozen)
  then show ?thesis
    by (simp add: backup_run_def bindE_step clock b f del: fan_out.simps cong: frozen)
qed

end
