(* ===== verification/Restore.thy ===== *)
theory Restore
  imports Frame
begin

text \<open>
  src/internal/pipeline/restore.go: restoring one repository from its bundle. A restore first
  chooses what it will hold the artifacts to, from the signed manifest when there is a public key;
  then it fetches the bundle and checks it, clones it and compares the clone with what the bundle
  declares, and restores the LFS objects the manifest records. It ends with what it checked, in
  words. Log lines are left out.
\<close>

section \<open>A restore's inputs\<close>

text \<open>
  The public key is its bytes, under which \<open>re_verify\<close> checks a signature. The context is read
  from the world.
\<close>

record 'w restore_deps =
  re_dst :: "'w destination"
  re_ws :: "'w workspace"
  re_enc_key :: "string option"
  re_key :: "string option"
  re_verify :: "string \<Rightarrow> string \<Rightarrow> string \<Rightarrow> bool"
  re_codec :: codec
  re_sha :: "string \<Rightarrow> string"
  re_aead :: aead
  re_ctx :: "'w \<Rightarrow> goerr option"

definition re_pub :: "'w restore_deps \<Rightarrow> public_key" where
  "re_pub r = map_option (re_verify r) (re_key r)"

definition re_git :: "'w restore_deps \<Rightarrow> 'w machine" where
  "re_git r = machine.truncate (re_ws r)"

text \<open>The checksums the signed manifest records for one restore, and the key it was verified with.\<close>

record restore_checks =
  rk_manifest :: string
  rk_bundle :: string
  rk_lfs :: string
  rk_pub :: string

record restore_request =
  rq_manifest :: string
  rq_host :: string
  rq_owner :: string
  rq_name :: string
  rq_date :: string
  rq_out :: string
  rq_verified :: "restore_checks option"

record restore_result =
  rr_bundle :: string
  rr_sha :: string
  rr_out :: string
  rr_verified :: bool
  rr_verification :: string
  rr_refs :: ref_comparison

definition request_slug :: "restore_request \<Rightarrow> string" where
  "request_slug q = rq_owner q @ ''/'' @ rq_name q"

section \<open>What the manifest records\<close>

definition record_sum :: "string \<Rightarrow> string \<Rightarrow> restore_checks \<Rightarrow> artifact_info \<Rightarrow> restore_checks" where
  "record_sum bundle_key lfs_key c a =
     (if ai_key a = bundle_key then c\<lparr>rk_bundle := ai_sha256 a\<rparr>
      else if ai_key a = lfs_key then c\<lparr>rk_lfs := ai_sha256 a\<rparr>
      else c)"

definition recorded_checks :: "string \<Rightarrow> string \<Rightarrow> repo_entry \<Rightarrow> string \<Rightarrow> string \<Rightarrow> restore_checks" where
  "recorded_checks mkey pub e bundle_key lfs_key =
     foldl (record_sum bundle_key lfs_key) \<lparr>rk_manifest = mkey, rk_bundle = [], rk_lfs = [], rk_pub = pub\<rparr> (en_artifacts e)"

text \<open>Why an entry holds no copy, in the words of an error.\<close>

definition no_copy_reason :: "repo_entry \<Rightarrow> string" where
  "no_copy_reason e = (let why = (if en_reason e = [] then en_error e else en_reason e) in
     if why = [] then [] else '' ('' @ why @ '')'')"

text \<open>{host}/{owner}/{name}/{date}/{file}, read from the end: the owner can be several segments.\<close>

definition split_artifact_key :: "string \<Rightarrow> (string \<times> string \<times> string \<times> string) option" where
  "split_artifact_key key = (let parts = split_on (CHR ''/'') key; n = length parts in
     if n < 5 then None
     else Some (parts ! 0, join_with ''/'' (drop 1 (take (n - 3) parts)), parts ! (n - 3), parts ! (n - 2)))"

definition checks_from_entry :: "string \<Rightarrow> string \<Rightarrow> string \<Rightarrow> restore_request \<Rightarrow> repo_entry \<Rightarrow> goerr + restore_request \<times> restore_checks" where
  "checks_from_entry key pub sl q e =
     (if en_status e \<noteq> status_success
      then Inl (new_error (''the manifest '' @ key @ '' records '' @ quote sl @ '' as '' @ en_status e @ no_copy_reason e
        @ '', so this run holds no copy of it to restore: a copy is recorded by the manifest of the run that made it''))
      else case List.find (\<lambda>a. ai_kind a = ''bundle'') (en_artifacts e) of
        None \<Rightarrow> Inl (new_error (''the manifest '' @ key @ '' records '' @ quote sl
          @ '' as copied and names no bundle for it, so there is nothing to restore''))
      | Some a \<Rightarrow>
          let bad = new_error (''the manifest '' @ key @ '' records the bundle of '' @ quote sl @ '' at '' @ ai_key a
                @ '', which is not a key gitdr writes: refusing it'') in
          (case split_artifact_key (ai_key a) of
             None \<Rightarrow> Inl bad
           | Some (host, owner, name, date) \<Rightarrow>
               (case artifact_keys host owner name date of (bundle_key, sidecar, lfs_key) \<Rightarrow>
                  if bundle_key \<noteq> ai_key a then Inl bad
                  else Inr (q\<lparr>rq_host := host, rq_owner := owner, rq_name := name, rq_date := date\<rparr>,
                            recorded_checks key pub e bundle_key lfs_key))))"

definition checks_from_manifest :: "'w restore_deps \<Rightarrow> restore_request \<Rightarrow> ('w, restore_request \<times> restore_checks) io" where
  "checks_from_manifest r q = (let key = rq_manifest q; sl = request_slug q in
     case re_key r of
       None \<Rightarrow> failE (new_error (''restore from '' @ key
         @ '' needs the public key: a manifest is read only once its signature holds; set manifest.publicKeyPath''))
     | Some pub \<Rightarrow>
         if rq_host q \<noteq> [] \<or> rq_date q \<noteq> []
         then failE (new_error (''restore from '' @ key @ '': the host and date come from the manifest, and this request gives its own''))
         else bindE (load_manifest (re_codec r) (re_dst r) (re_pub r) key) (\<lambda>m.
           case List.find (\<lambda>e. en_slug e = sl) (m_repos m) of
             None \<Rightarrow> failE (new_error (''the manifest '' @ key @ '' records no repository '' @ quote sl))
           | Some e \<Rightarrow> liftE (checks_from_entry key pub sl q e)))"

text \<open>The search by date: the error says what was looked through and why it was passed over.\<close>

definition not_recorded :: "string \<Rightarrow> string list \<Rightarrow> time \<Rightarrow> string \<Rightarrow> search_report \<Rightarrow> goerr" where
  "not_recorded sl dirs date bundle_key rep =
     (let searched = ''manifests that finished on '' @ format_date date @ '' or '' @ format_date (next_day date)
            @ '', under '' @ join_with ''/, '' dirs @ ''/'' in
      case sr_named rep of
        Some (e, key) \<Rightarrow> new_error (''no signed manifest records '' @ bundle_key @ '' as a copy: '' @ key @ '' records '' @ quote sl
          @ '' as '' @ en_status e @ no_copy_reason e
          @ '', so that run holds no copy of it to restore. A copy is recorded by the manifest of the run that finished it'')
      | None \<Rightarrow>
          if sr_too_large rep > 0
          then new_error (''no signed manifest this engine can read records '' @ bundle_key @ '': '' @ show_nat (sr_too_large rep) @ '' of the ''
            @ show_nat (sr_seen rep) @ '' '' @ searched @ '' are larger than the '' @ mib max_manifest_bytes
            @ '' it reads, as the warnings above say; '' @ (case sr_largest rep of None \<Rightarrow> ''<nil>'' | Some e \<Rightarrow> err_text e)
            @ ''. -manifest refuses it for the same reason. Without manifest.publicKeyPath, restore checks the bundle against its unsigned sha256 sidecar instead'')
          else if sr_passed rep > 0
          then new_error (''no signed manifest records '' @ bundle_key @ '': '' @ show_nat (sr_passed rep) @ '' of the ''
            @ show_nat (sr_seen rep) @ '' '' @ searched
            @ '' did not verify with the configured public key or could not be used, as the warnings above say. If the signing key was rotated, point manifest.publicKeyPath at the key that signed this backup; otherwise pass -manifest <key>, the manifestKey the backup printed'')
          else new_error (''no signed manifest records '' @ bundle_key @ '': looked through '' @ show_nat (sr_seen rep) @ '' '' @ searched
            @ ''. The manifest of a run that finished more than a day after the copy, or one an engine older than v0.1.20 filed under another namespace, is reached only by its key: pass -manifest <key>, the manifestKey the backup printed''))"

definition find_restore_checks :: "'w restore_deps \<Rightarrow> string \<Rightarrow> restore_request \<Rightarrow> ('w, restore_checks) io" where
  "find_restore_checks r pub q = (case parse_date (rq_date q) of
       None \<Rightarrow> failE (new_error (''restore: the date '' @ quote (rq_date q) @ '' is not in the form YYYY-MM-DD''))
     | Some date \<Rightarrow>
         (case artifact_keys (rq_host q) (rq_owner q) (rq_name q) (rq_date q) of (bundle_key, sidecar, lfs_key) \<Rightarrow>
            let dirs = manifest_search_dirs (rq_host q) (rq_owner q); sl = request_slug q in
            bindE (with_memory (find_copy (re_codec r) (re_dst r) (re_pub r) (\<lambda>s. s = sl) dirs date sl [bundle_key] None))
              (\<lambda>(found, rep). case found of
                 Some f \<Rightarrow> okE (recorded_checks (rcp_key f) pub (rcp_entry f) bundle_key lfs_key)
               | None \<Rightarrow> failE (not_recorded sl dirs date bundle_key rep))))"

text \<open>What this restore is held to: a caller's word, the named manifest, the one the search finds, or none.\<close>

definition choose_checks :: "'w restore_deps \<Rightarrow> restore_request \<Rightarrow> ('w, restore_request \<times> restore_checks option) io" where
  "choose_checks r q = (case rq_verified q of
       Some c \<Rightarrow> if re_key r \<noteq> Some (rk_pub c)
         then failE (new_error (''restore: '' @ rk_manifest c @ '' was not verified with this restore's public key''))
         else okE (q, Some c)
     | None \<Rightarrow>
         if rq_manifest q \<noteq> []
         then bindE (checks_from_manifest r q) (\<lambda>(q', c). okE (q', Some c))
         else (case re_key r of
             Some pub \<Rightarrow> bindE (find_restore_checks r pub q) (\<lambda>c. okE (q, Some c))
           | None \<Rightarrow> okE (q, None)))"

section \<open>Fetching\<close>

definition file_is_encrypted :: "'w workspace \<Rightarrow> string \<Rightarrow> ('w, bool) io" where
  "file_is_encrypted ws p = bindE (open_file ws p) (\<lambda>b. let h = take 8 (body_bytes b) in
     if length h < 8 then (case body_err b of
         None \<Rightarrow> okE False
       | Some e \<Rightarrow> failE (wrap_error (''read '' @ quote p) e))
     else okE (is_encrypted h))"

definition download_to_file :: "'w destination \<Rightarrow> 'w workspace \<Rightarrow> string \<Rightarrow> string \<Rightarrow> ('w, unit) io" where
  "download_to_file d ws key p = bindE (get_object d key) (\<lambda>rc.
     bindE (mapErrE (wrap_error (''create '' @ quote p)) (write_file ws p [])) (\<lambda>_.
     mapErrE (wrap_error (''download '' @ quote key))
       (bindE (append_file ws p (body_bytes rc)) (\<lambda>_. case body_err rc of None \<Rightarrow> okE () | Some e \<Rightarrow> failE e))))"

text \<open>crypto.Decrypt into a buffer.\<close>

definition buffer_write :: "string writer" where
  "buffer_write p = (\<lambda>buf. (Inr (), buf @ p))"

definition decrypt_bytes :: "aead \<Rightarrow> string \<Rightarrow> string \<Rightarrow> goerr + string" where
  "decrypt_bytes a b key = (case decrypt a buffer_write \<lparr>body_bytes = b, body_err = None\<rparr> key [] of
       (Inl e, buf) \<Rightarrow> Inl e
     | (Inr _, buf) \<Rightarrow> Inr buf)"

definition sidecar_limit :: nat where "sidecar_limit = 8192"

definition read_sha_sidecar :: "'w restore_deps \<Rightarrow> string \<Rightarrow> ('w, string) io" where
  "read_sha_sidecar r key = bindE (get_object (re_dst r) key) (\<lambda>rc.
     let b = take sidecar_limit (body_bytes rc) in
     if length (body_bytes rc) < sidecar_limit \<and> body_err rc \<noteq> None
     then failE (wrap_error (''read '' @ quote key) (the (body_err rc)))
     else bindE (case re_enc_key r of
              None \<Rightarrow> okE b
            | Some k \<Rightarrow> mapErrE (wrap_error (''decrypt '' @ quote key)) (liftE (decrypt_bytes (re_aead r) b k))) (\<lambda>b'.
          case str_fields b' of
            [] \<Rightarrow> failE (new_error (''empty checksum sidecar '' @ quote key))
          | f # fs \<Rightarrow> okE f))"

text \<open>crypto.DecryptFile and crypto.SHA256File.\<close>

definition decrypt_file :: "'w restore_deps \<Rightarrow> string \<Rightarrow> string \<Rightarrow> string \<Rightarrow> ('w, unit) io" where
  "decrypt_file r p out key = bindE (open_file (re_ws r) p) (\<lambda>b.
     bindE (write_file (re_ws r) out []) (\<lambda>_.
     bindE (readE (re_ctx r)) (\<lambda>d.
       decrypt (re_aead r) (append_file (re_ws r) out) (ctx_body d b) key)))"

definition file_sha :: "'w restore_deps \<Rightarrow> string \<Rightarrow> ('w, string) io" where
  "file_sha r p = bindE (mapErrE (wrap_error (''sha256 open '' @ quote p)) (open_file (re_ws r) p)) (\<lambda>b0.
     bindE (readE (re_ctx r)) (\<lambda>d. let b = ctx_body d b0 in
       case body_err b of
         Some e \<Rightarrow> failE (wrap_error ''sha256'' e)
       | None \<Rightarrow> okE (re_sha r (body_bytes b))))"

text \<open>A stored object that was encrypted is decrypted beside the copy its checksum was taken of.\<close>

definition opened :: "'w restore_deps \<Rightarrow> string \<Rightarrow> string \<Rightarrow> string \<Rightarrow> ('w, string) io" where
  "opened r what stored plain = (case re_enc_key r of
       None \<Rightarrow> okE stored
     | Some k \<Rightarrow> bindE (mapErrE (wrap_error (''decrypt '' @ what)) (decrypt_file r stored plain k)) (\<lambda>_. okE plain))"

definition refuse_encrypted :: "'w restore_deps \<Rightarrow> string \<Rightarrow> string \<Rightarrow> ('w, unit) io" where
  "refuse_encrypted r bundle_key p = (if re_enc_key r \<noteq> None then okE ()
     else bindE (file_is_encrypted (re_ws r) p) (\<lambda>enc.
       if enc then failE (new_error (bundle_key @ '' is encrypted; set the encryption key (GITDR_ENCRYPTION_KEY) to restore''))
       else okE ()))"

text \<open>The bundle, on disk and checked: its checksum and the path of what it holds.\<close>

definition fetch_bundle :: "'w restore_deps \<Rightarrow> restore_request \<Rightarrow> restore_checks option \<Rightarrow> string \<Rightarrow> ('w, string \<times> string) io" where
  "fetch_bundle r q checks tmp =
     (case artifact_keys (rq_host q) (rq_owner q) (rq_name q) (rq_date q) of (bundle_key, sha_key, lfs_key) \<Rightarrow>
      let stored = file_join tmp (rq_name q @ ''.bundle.stored'') in
      bindE (download_to_file (re_dst r) (re_ws r) bundle_key stored) (\<lambda>_.
      bindE (refuse_encrypted r bundle_key stored) (\<lambda>_.
      bindE (read_sha_sidecar r sha_key) (\<lambda>want.
      bindE (file_sha r stored) (\<lambda>got.
        if \<not> equal_fold want got
        then failE (new_error (''checksum mismatch for '' @ bundle_key @ '': want '' @ want @ '', got '' @ got))
        else case checks of
          Some c \<Rightarrow>
            if \<not> equal_fold (rk_bundle c) got
            then failE (new_error (''bundle '' @ bundle_key @ '' does not match the signed manifest '' @ rk_manifest c
              @ '': manifest records sha256 '' @ rk_bundle c @ '', the stored object has '' @ got))
            else bindE (opened r ''bundle'' stored (file_join tmp (rq_name q @ ''.bundle''))) (\<lambda>p. okE (got, p))
        | None \<Rightarrow> bindE (opened r ''bundle'' stored (file_join tmp (rq_name q @ ''.bundle''))) (\<lambda>p. okE (got, p)))))))"

section \<open>Cloning\<close>

definition refs_differ :: "string \<Rightarrow> ref_comparison \<Rightarrow> goerr" where
  "refs_differ bundle_key c = new_error (''restored repository does not match the history '' @ bundle_key @ '' declares: ''
     @ show_int (rc_matched c) @ '' of '' @ show_int (rc_declared c) @ '' refs present at the same commit, ''
     @ show_nat (length (rc_mismatches c)) @ '' differ, first is '' @ describe (hd (rc_mismatches c)) ''bundle declares'')"

text \<open>The clone, whose refs are those the bundle declares, and whether a branch is checked out in it.\<close>

definition clone_checked :: "'w restore_deps \<Rightarrow> string \<Rightarrow> string \<Rightarrow> string \<Rightarrow> ('w, ref_comparison \<times> bool) io" where
  "clone_checked r bundle_key p out =
     bindE (mapErrE (wrap_error ''bundle verify'') (bundle_verify (re_git r) p)) (\<lambda>_.
     bindE (mapErrE (wrap_error ''clone from bundle'') (clone_from_bundle (re_git r) p out)) (\<lambda>_.
     bindE (mapErrE (wrap_error ''compare refs'') (compare_restored_refs (re_git r) p out)) (\<lambda>c.
       if \<not> comparison_ok c then failE (refs_differ bundle_key c)
       else bindE (mapErrE (wrap_error ''read the restored HEAD'') (head_resolves (re_git r) out)) (\<lambda>checked.
            okE (c, checked)))))"

section \<open>LFS\<close>

definition lfs_stored :: "goerr + object list \<Rightarrow> bool" where
  "lfs_stored listing = (case listing of Inl e \<Rightarrow> False | Inr objs \<Rightarrow> length objs > 0)"

text \<open>The manifest and the destination must agree on whether there is an LFS archive.\<close>

definition lfs_disagree :: "restore_checks option \<Rightarrow> string \<Rightarrow> goerr + object list \<Rightarrow> goerr option" where
  "lfs_disagree checks lfs_key listing = (case checks of None \<Rightarrow> None
     | Some c \<Rightarrow>
         if rk_lfs c \<noteq> [] \<and> \<not> lfs_stored listing
         then (case listing of
             Inl e \<Rightarrow> Some (wrap_error (''the signed manifest records '' @ lfs_key @ '' but listing it failed'') e)
           | Inr objs \<Rightarrow> Some (new_error (''the signed manifest records '' @ lfs_key @ '' but the destination does not have it'')))
         else if rk_lfs c = [] \<and> lfs_stored listing
         then Some (new_error (lfs_key @ '' exists in the destination but the signed manifest does not record it; refusing to extract it''))
         else None)"

definition check_lfs_sum :: "'w restore_deps \<Rightarrow> restore_checks option \<Rightarrow> string \<Rightarrow> string \<Rightarrow> ('w, unit) io" where
  "check_lfs_sum r checks lfs_key p = (case checks of None \<Rightarrow> okE ()
     | Some c \<Rightarrow> bindE (file_sha r p) (\<lambda>got.
         if \<not> equal_fold (rk_lfs c) got
         then failE (new_error (''lfs tar '' @ lfs_key @ '' does not match the signed manifest '' @ rk_manifest c
           @ '': manifest records sha256 '' @ rk_lfs c @ '', the stored object has '' @ got))
         else okE ()))"

text \<open>The filters, the checkout when there is a branch, and then the tree read back.\<close>

definition fill_in_lfs :: "'w restore_deps \<Rightarrow> string \<Rightarrow> bool \<Rightarrow> ('w, unit) io" where
  "fill_in_lfs r out checked = bindE (readE (lfs_available (re_git r))) (\<lambda>lfs.
     if \<not> lfs then failE (new_error (''repository uses git-lfs and git-lfs is not installed: LFS objects were restored to '' @ out
       @ '' but the working tree still holds pointer files''))
     else
       bindE (mapErrE (wrap_error ''lfs install'') (lfs_install_local (re_git r) out)) (\<lambda>_.
       bindE (if checked then mapErrE (wrap_error ''lfs checkout'') (lfs_checkout (re_git r) out) else okE ()) (\<lambda>_.
       bindE (mapErrE (wrap_error ''lfs verify'') (lfs_pointers (re_ws r) (re_ctx r) out)) (\<lambda>remaining.
         if remaining \<noteq> []
         then failE (new_error (''lfs restore incomplete: '' @ show_nat (length remaining) @ '' file(s) are still pointers, first is ''
           @ quote (hd remaining)))
         else okE ()))))"

definition restore_lfs :: "'w restore_deps \<Rightarrow> restore_request \<Rightarrow> restore_checks option \<Rightarrow> string \<Rightarrow> string \<Rightarrow> bool \<Rightarrow> ('w, unit) io" where
  "restore_lfs r q checks lfs_key tmp checked = (let stored = file_join tmp (rq_name q @ ''.lfs.tar.stored'') in
     bindE (download_to_file (re_dst r) (re_ws r) lfs_key stored) (\<lambda>_.
     bindE (check_lfs_sum r checks lfs_key stored) (\<lambda>_.
     bindE (opened r ''lfs'' stored (file_join tmp (rq_name q @ ''.lfs.tar''))) (\<lambda>tar.
     bindE (mapErrE (wrap_error ''lfs extract'') (extract_tar_file (re_ws r) tar (path_join [rq_out q, ''.git'', ''lfs'']))) (\<lambda>_.
       fill_in_lfs r (rq_out q) checked)))))"

definition left_as_pointers :: "restore_checks option \<Rightarrow> string \<Rightarrow> goerr + object list \<Rightarrow> string list \<Rightarrow> goerr" where
  "left_as_pointers checks lfs_key listing ps =
     (let head = show_nat (length ps) @ '' file(s) came back as git-lfs pointers, first is '' @ quote (hd ps) in
      case (listing, checks) of
        (Inl e, None) \<Rightarrow> wrap_error (head @ '', and looking for this backup's LFS archive ('' @ lfs_key @ '') failed'') e
      | _ \<Rightarrow> new_error (head @ '', and this backup holds no LFS archive ('' @ lfs_key
          @ ''): the content of those files was not backed up. gitdr stores LFS objects only when backup.lfs is on and git-lfs is installed where the backup runs''))"

definition no_lfs :: "'w restore_deps \<Rightarrow> restore_request \<Rightarrow> restore_checks option \<Rightarrow> string \<Rightarrow> goerr + object list \<Rightarrow> ('w, unit) io" where
  "no_lfs r q checks lfs_key listing =
     bindE (mapErrE (wrap_error ''lfs verify'') (lfs_pointers (re_ws r) (re_ctx r) (rq_out q))) (\<lambda>ps.
       if ps \<noteq> [] then failE (left_as_pointers checks lfs_key listing ps) else okE ())"

section \<open>Restore\<close>

definition nothing_checked_out :: string where
  "nothing_checked_out = ''nothing is checked out: the bundle declares no HEAD, since the repository's HEAD named a branch that did not exist when it was copied, and its branches are under refs/remotes/origin/''"

definition integrity_text :: "restore_checks option \<Rightarrow> bool \<Rightarrow> string" where
  "integrity_text checks lfs = (case checks of
       Some c \<Rightarrow> if lfs then ''bundle and lfs tar verified against the signed manifest'' else ''bundle verified against the signed manifest''
     | None \<Rightarrow>
         if lfs then ''bundle checked against its unsigned sha256 sidecar, lfs tar not checked; no public key configured, so the signed manifest was not used''
         else ''bundle checked against its unsigned sha256 sidecar; no public key configured, so the signed manifest was not used'')"

definition restore_within :: "'w restore_deps \<Rightarrow> restore_request \<Rightarrow> restore_checks option \<Rightarrow> string \<Rightarrow> ('w, restore_result) io" where
  "restore_within r q checks tmp =
     (case artifact_keys (rq_host q) (rq_owner q) (rq_name q) (rq_date q) of (bundle_key, sha_key, lfs_key) \<Rightarrow>
      bindE (fetch_bundle r q checks tmp) (\<lambda>(got, p).
      bindE (clone_checked r bundle_key p (rq_out q)) (\<lambda>(c, checked).
      bindE (tryE (list_objects (re_dst r) lfs_key)) (\<lambda>listing.
      case lfs_disagree checks lfs_key listing of
        Some e \<Rightarrow> failE e
      | None \<Rightarrow>
          bindE (if lfs_stored listing then restore_lfs r q checks lfs_key tmp checked else no_lfs r q checks lfs_key listing) (\<lambda>_.
          okE \<lparr>rr_bundle = bundle_key, rr_sha = got, rr_out = rq_out q, rr_verified = True,
               rr_verification = integrity_text checks (lfs_stored listing) @ ''; '' @ comparison_summary c (checks \<noteq> None)
                 @ (if checked then [] else ''; '' @ nothing_checked_out),
               rr_refs = c\<rparr>)))))"

definition restore :: "'w restore_deps \<Rightarrow> restore_request \<Rightarrow> ('w, restore_result) io" where
  "restore r q0 = bindE (choose_checks r q0) (\<lambda>(q, checks).
     bindE (mapErrE (wrap_error ''tempdir'') (mkdir_temp (re_ws r) ''gitdr-restore-'')) (\<lambda>tmp.
       deferE (remove_all (re_ws r) tmp) (restore_within r q checks tmp)))"

section \<open>A restore writes nothing to the destination\<close>

locale restore_world = git_frame "same_on objs" "re_git r" + dst: create_only "re_dst r" objs
  for objs :: "'w \<Rightarrow> (string \<rightharpoonup> string)" and r :: "'w restore_deps" +
  assumes disk: "disk_steps (same_on objs) (re_ws r)"
begin

lemma reads: "reads_steps (same_on objs) (re_dst r)"
  using dst.get_same dst.list_same dst.verify_same dst.observe_same by (auto simp: reads_steps_def split: option.splits)

lemma disk_rules:
  "steps_in (same_on objs) (open_file (re_ws r) p)" "steps_in (same_on objs) (write_file (re_ws r) p b)"
  "steps_in (same_on objs) (append_file (re_ws r) p b)" "steps_in (same_on objs) (mkdir_all (re_ws r) p)"
  "steps_in (same_on objs) (root_mkdir (re_ws r) dir p)" "steps_in (same_on objs) (root_write (re_ws r) dir p b)"
  using disk by (simp_all add: disk_steps_def)

lemma checks_from_manifest_same: "steps_in (same_on objs) (checks_from_manifest r q)"
  unfolding checks_from_manifest_def Let_def by (intro steps_rules steps_load_manifest reads)

lemma find_restore_checks_same: "steps_in (same_on objs) (find_restore_checks r pub q)"
  unfolding find_restore_checks_def Let_def
  by (intro steps_rules steps_with_memory steps_find_copy reads)

lemma choose_checks_same: "steps_in (same_on objs) (choose_checks r q)"
  unfolding choose_checks_def by (intro steps_rules checks_from_manifest_same find_restore_checks_same)

lemma download_same: "steps_in (same_on objs) (download_to_file (re_dst r) (re_ws r) key p)"
  unfolding download_to_file_def by (intro steps_rules disk_rules dst.get_same)

lemma file_sha_same: "steps_in (same_on objs) (file_sha r p)"
  unfolding file_sha_def Let_def by (intro steps_rules disk_rules)

lemma steps_decrypt_chunks:
  assumes wr: "\<And>b. steps_in (same_on objs) (wr b)"
  shows "steps_in (same_on objs) (decrypt_chunks a wr dek pre n src)"
proof (induction "length (body_bytes src)" arbitrary: n src rule: less_induct)
  case less
  show ?case
  proof (cases "read_full (enc_chunk + enc_tag) src")
    case (Inl e)
    then show ?thesis by (subst decrypt_chunks.simps) (simp add: steps_fail)
  next
    case (Inr q)
    obtain p rest final where q: "q = (p, rest, final)" by (cases q)
    have "\<not> final \<Longrightarrow> steps_in (same_on objs) (decrypt_chunks a wr dek pre m rest)" for m
      using read_full_shorter [of "enc_chunk + enc_tag" src p rest] Inr q by (intro less) (simp add: enc_chunk_def)
    then show ?thesis
      by (subst decrypt_chunks.simps) (auto simp: Inr q intro!: steps_bind wr steps_ok steps_fail split: option.split)
  qed
qed

lemma opened_same: "steps_in (same_on objs) (opened r what stored plain)"
  unfolding opened_def decrypt_file_def decrypt_def Let_def
  by (intro steps_rules disk_rules steps_decrypt_chunks)

lemma fetch_bundle_same: "steps_in (same_on objs) (fetch_bundle r q checks tmp)"
  unfolding fetch_bundle_def refuse_encrypted_def file_is_encrypted_def read_sha_sidecar_def Let_def
  by (intro steps_rules disk_rules download_same file_sha_same opened_same dst.get_same)

lemma clone_checked_same: "steps_in (same_on objs) (clone_checked r key p out)"
  unfolding clone_checked_def compare_restored_refs_def head_or_empty_def by (intro steps_rules steps_methods)

lemma extract_same: "steps_in (same_on objs) (extract_tar_file (re_ws r) src dst)"
proof -
  have "steps_in (same_on objs) (extract_entries (root_mkdir (re_ws r) dst) (root_write (re_ws r) dst) es)" for es
  proof (induction es)
    case (Cons e es)
    then show ?case by (cases e) (simp_all only: extract_entries.simps tar_entry.case, (intro steps_rules disk_rules; simp)+)
  qed (simp only: extract_entries.simps steps_ok)
  then show ?thesis unfolding extract_tar_file_def by (intro steps_rules disk_rules)
qed

lemma pointers_same: "steps_in (same_on objs) (lfs_pointers (re_ws r) cx root)"
proof -
  have "steps_in (same_on objs) (pointers_node cx rel t)" and "steps_in (same_on objs) (pointers_children cx rel cs)" for rel t cs
    by (induction rel t and rel cs rule: entries_node_entries_children.induct)
      (simp_all only: pointers_node.simps pointers_children.simps, (intro steps_rules; simp)+)
  then show ?thesis unfolding lfs_pointers_def by (intro steps_rules)
qed

lemma restore_lfs_same: "steps_in (same_on objs) (restore_lfs r q checks key tmp checked)"
  unfolding restore_lfs_def check_lfs_sum_def fill_in_lfs_def Let_def
  by (intro steps_rules download_same file_sha_same opened_same extract_same pointers_same steps_methods)

lemma restore_within_same: "steps_in (same_on objs) (restore_within r q checks tmp)"
  unfolding restore_within_def no_lfs_def
  by (intro steps_rules fetch_bundle_same clone_checked_same dst.list_same restore_lfs_same pointers_same)

lemma restore_same: "steps_in (same_on objs) (restore r q)"
proof -
  have "steps_in (same_on objs) (mkdir_temp (re_ws r) p)" and "same_on objs w (remove_all (re_ws r) p w)" for p w
    using machine by (simp_all add: machine_steps_def re_git_def machine.defs)
  then show ?thesis
    unfolding restore_def by (intro steps_rules steps_defer choose_checks_same restore_within_same)
qed

end

section \<open>What a restore that succeeds was held to\<close>

text \<open>An entry of a manifest that was read under this key's name and believed.\<close>

definition believed_entry :: "'w restore_deps \<Rightarrow> string \<Rightarrow> repo_entry \<Rightarrow> bool" where
  "believed_entry r key e \<longleftrightarrow>
     (\<exists>w w' m. load_manifest (re_codec r) (re_dst r) (re_pub r) key w = (Inr m, w') \<and> e \<in> set (m_repos m))
     \<or> (\<exists>w w' h es. read_manifest_entries (re_codec r) (re_dst r) (re_pub r) key w = (Inr (h, es), w') \<and> e \<in> set es)"

text \<open>The checks were recorded, by a manifest believed under this restore's key, for the request.\<close>

definition recorded_for :: "'w restore_deps \<Rightarrow> restore_request \<Rightarrow> restore_checks \<Rightarrow> bool" where
  "recorded_for r q c \<longleftrightarrow> (\<exists>e bkey skey lfs. believed_entry r (rk_manifest c) e \<and> en_slug e = request_slug q
     \<and> re_key r = Some (rk_pub c) \<and> artifact_keys (rq_host q) (rq_owner q) (rq_name q) (rq_date q) = (bkey, skey, lfs)
     \<and> names_artifact e bkey \<and> c = recorded_checks (rk_manifest c) (rk_pub c) e bkey lfs)"

lemma recorded_checks_names [simp]:
  "rk_manifest (recorded_checks key pub e b l) = key" "rk_pub (recorded_checks key pub e b l) = pub"
proof -
  have "rk_manifest (foldl (record_sum b l) c as) = rk_manifest c \<and> rk_pub (foldl (record_sum b l) c as) = rk_pub c" for c as
    by (induction as arbitrary: c) (simp_all add: record_sum_def)
  then show "rk_manifest (recorded_checks key pub e b l) = key" "rk_pub (recorded_checks key pub e b l) = pub"
    by (simp_all add: recorded_checks_def)
qed

lemma request_slug_update [simp]:
  "request_slug (q\<lparr>rq_host := h, rq_date := d\<rparr>) = request_slug q"
  by (simp add: request_slug_def)

text \<open>Where a named manifest sends a restore: to the owner and name of the bundle it records.\<close>

lemma checks_from_entry_ok:
  assumes "checks_from_entry key pub sl q e = Inr (q', c)"
  shows "en_status e = status_success" and "rk_manifest c = key" and "rk_pub c = pub"
    and "\<exists>bkey skey lfs. artifact_keys (rq_host q') (rq_owner q') (rq_name q') (rq_date q') = (bkey, skey, lfs)
      \<and> names_artifact e bkey \<and> c = recorded_checks key pub e bkey lfs"
    and "rq_out q' = rq_out q"
proof -
  obtain a host owner name date bkey skey lfs where a: "List.find (\<lambda>a. ai_kind a = ''bundle'') (en_artifacts e) = Some a"
    and k: "artifact_keys host owner name date = (bkey, skey, lfs)" "bkey = ai_key a"
    and q': "q' = q\<lparr>rq_host := host, rq_owner := owner, rq_name := name, rq_date := date\<rparr>"
    and c: "c = recorded_checks key pub e bkey lfs" and st: "en_status e = status_success"
    using assms by (auto simp: checks_from_entry_def Let_def split: if_splits option.splits prod.splits)
  have "a \<in> set (en_artifacts e)" using a by (auto simp: find_Some_iff)
  then have "names_artifact e bkey" by (auto simp: names_artifact_def k(2))
  with k q' c st show "en_status e = status_success" "rk_manifest c = key" "rk_pub c = pub"
    "\<exists>bkey skey lfs. artifact_keys (rq_host q') (rq_owner q') (rq_name q') (rq_date q') = (bkey, skey, lfs)
      \<and> names_artifact e bkey \<and> c = recorded_checks key pub e bkey lfs" "rq_out q' = rq_out q"
    by simp_all
qed

lemma checks_from_manifest_ok:
  assumes "checks_from_manifest r q w = (Inr (q', c), w')"
  shows "\<exists>e bkey skey lfs. believed_entry r (rk_manifest c) e \<and> en_slug e = request_slug q \<and> re_key r = Some (rk_pub c)
     \<and> artifact_keys (rq_host q') (rq_owner q') (rq_name q') (rq_date q') = (bkey, skey, lfs)
     \<and> names_artifact e bkey \<and> c = recorded_checks (rk_manifest c) (rk_pub c) e bkey lfs" and "rq_out q' = rq_out q"
    and "rk_manifest c = rq_manifest q"
proof -
  obtain pub m w1 e where pub: "re_key r = Some pub"
    and l: "load_manifest (re_codec r) (re_dst r) (re_pub r) (rq_manifest q) w = (Inr m, w1)"
    and e: "List.find (\<lambda>e. en_slug e = request_slug q) (m_repos m) = Some e"
    and c: "checks_from_entry (rq_manifest q) pub (request_slug q) q e = Inr (q', c)"
    using assms unfolding checks_from_manifest_def Let_def
    by (auto split: option.splits if_splits elim!: bindE_InrE)
  have "e \<in> set (m_repos m)" "en_slug e = request_slug q" using e by (auto simp: find_Some_iff)
  with l have "believed_entry r (rq_manifest q) e" by (auto simp: believed_entry_def)
  with checks_from_entry_ok [OF c] \<open>en_slug e = request_slug q\<close> pub
  show "\<exists>e bkey skey lfs. believed_entry r (rk_manifest c) e \<and> en_slug e = request_slug q \<and> re_key r = Some (rk_pub c)
     \<and> artifact_keys (rq_host q') (rq_owner q') (rq_name q') (rq_date q') = (bkey, skey, lfs)
     \<and> names_artifact e bkey \<and> c = recorded_checks (rk_manifest c) (rk_pub c) e bkey lfs" "rq_out q' = rq_out q"
     "rk_manifest c = rq_manifest q"
    by auto
qed

lemma find_restore_checks_ok:
  assumes "find_restore_checks r pub q w = (Inr c, w')" and "re_key r = Some pub"
  shows "recorded_for r q c"
proof -
  obtain date bkey skey lfs f rep mem where k: "artifact_keys (rq_host q) (rq_owner q) (rq_name q) (rq_date q) = (bkey, skey, lfs)"
    and f: "find_copy (re_codec r) (re_dst r) (re_pub r) (\<lambda>s. s = request_slug q) (manifest_search_dirs (rq_host q) (rq_owner q))
        date (request_slug q) [bkey] None (w, no_memory) = (Inr (Some f, rep), (w', mem))"
    and c: "c = recorded_checks (rcp_key f) pub (rcp_entry f) bkey lfs"
    using assms(1) unfolding find_restore_checks_def Let_def with_memory_def
    by (auto split: option.splits prod.splits elim!: bindE_InrE)
  have ok: "found_ok (re_codec r) (re_dst r) (re_pub r) (manifest_search_dirs (rq_host q) (rq_owner q)) (request_slug q) [bkey] None f"
    using find_copy_ok [OF f memory_ok_none] by simp
  then have "believed_entry r (rcp_key f) (rcp_entry f)" "en_slug (rcp_entry f) = request_slug q" "names_artifact (rcp_entry f) bkey"
    by (auto simp: found_ok_def believed_entry_def records_copy_def)
  then show ?thesis using k c assms(2) by (auto simp: recorded_for_def)
qed

text \<open>
  What this restore is held to when it has a key: what a believed manifest records under the keys
  the restore then reads, for the repository it was asked for.
\<close>

lemma choose_checks_ok:
  assumes "choose_checks r q w = (Inr (q', cs), w')" and "rq_verified q = None" and "re_key r = Some k"
  shows "rq_out q' = rq_out q" and "\<exists>c e bkey skey lfs. cs = Some c \<and> believed_entry r (rk_manifest c) e
     \<and> en_slug e = request_slug q \<and> rk_pub c = k
     \<and> artifact_keys (rq_host q') (rq_owner q') (rq_name q') (rq_date q') = (bkey, skey, lfs)
     \<and> names_artifact e bkey \<and> c = recorded_checks (rk_manifest c) k e bkey lfs"
proof -
  consider (named) c where "checks_from_manifest r q w = (Inr (q', c), w')" "cs = Some c"
    | (found) c where "find_restore_checks r k q w = (Inr c, w')" "cs = Some c" "q' = q"
    using assms unfolding choose_checks_def by (auto split: if_splits elim!: bindE_InrE)
  then have "rq_out q' = rq_out q \<and> (\<exists>c e bkey skey lfs. cs = Some c \<and> believed_entry r (rk_manifest c) e
     \<and> en_slug e = request_slug q \<and> rk_pub c = k
     \<and> artifact_keys (rq_host q') (rq_owner q') (rq_name q') (rq_date q') = (bkey, skey, lfs)
     \<and> names_artifact e bkey \<and> c = recorded_checks (rk_manifest c) k e bkey lfs)"
  proof cases
    case named
    with checks_from_manifest_ok [OF named(1)] assms(3) show ?thesis by (smt (verit) option.inject)
  next
    case found
    with find_restore_checks_ok [OF found(1) assms(3)] assms(3) show ?thesis
      unfolding recorded_for_def by (smt (verit) option.inject)
  qed
  then show "rq_out q' = rq_out q" "\<exists>c e bkey skey lfs. cs = Some c \<and> believed_entry r (rk_manifest c) e
     \<and> en_slug e = request_slug q \<and> rk_pub c = k
     \<and> artifact_keys (rq_host q') (rq_owner q') (rq_name q') (rq_date q') = (bkey, skey, lfs)
     \<and> names_artifact e bkey \<and> c = recorded_checks (rk_manifest c) k e bkey lfs" by blast+
qed

section \<open>The bytes that were hashed are the stored ones\<close>

text \<open>
  A scratch disk that keeps what is written to it: what a restore downloads is what it hashes.
\<close>

locale restore_disk = restore_world objs r for objs :: "'w \<Rightarrow> (string \<rightharpoonup> string)" and r :: "'w restore_deps" +
  fixes files :: "'w \<Rightarrow> (string \<rightharpoonup> string)"
  assumes open_gives: "open_file (re_ws r) p w = (Inr b, w') \<Longrightarrow>
      \<exists>bs t. files w p = Some bs \<and> bs = body_bytes b @ t \<and> (body_err b = None \<longrightarrow> t = [])"
    and open_same: "steps_in (same_on files) (open_file (re_ws r) p)"
    and write_gives: "write_file (re_ws r) p c w = (Inr u, w') \<Longrightarrow> files w' p = Some c"
    and append_gives: "append_file (re_ws r) p c w = (Inr u, w') \<Longrightarrow> files w p = Some old \<Longrightarrow> files w' p = Some (old @ c)"
    and get_same_disk: "steps_in (same_on files) (get_object (re_dst r) k)"
begin

lemma downloaded:
  assumes "download_to_file (re_dst r) (re_ws r) key p w = (Inr u, w')"
  shows "\<exists>bs. objs w key = Some bs \<and> files w' p = Some bs"
proof -
  obtain rc w1 w2 where g: "get_object (re_dst r) key w = (Inr rc, w1)"
    and wr: "write_file (re_ws r) p [] w1 = (Inr (), w2)" and ap: "append_file (re_ws r) p (body_bytes rc) w2 = (Inr (), w')"
    and e: "body_err rc = None"
    using assms unfolding download_to_file_def
    by (auto simp: mapErrE_Inr elim!: bindE_InrE split: option.splits)
  have "objs w key = Some (body_bytes rc)" using dst.get_gives [OF g] e by auto
  moreover have "files w' p = Some (body_bytes rc)" using append_gives [OF ap write_gives [OF wr]] by simp
  ultimately show ?thesis by blast
qed

lemma hashed:
  assumes "file_sha r p w = (Inr h, w')"
  shows "\<exists>bs. files w p = Some bs \<and> h = re_sha r bs"
proof -
  obtain b w1 where o1: "open_file (re_ws r) p w = (Inr b, w1)" and b: "body_err b = None" "h = re_sha r (body_bytes b)"
    using assms unfolding file_sha_def Let_def ctx_body_def
    by (auto simp: mapErrE_Inr elim!: bindE_InrE split: option.splits)
  from open_gives [OF o1] b show ?thesis by auto
qed

lemma refuse_encrypted_same: "steps_in (same_on files) (refuse_encrypted r key p)"
  unfolding refuse_encrypted_def file_is_encrypted_def Let_def by (intro same.steps_rules open_same)

lemma read_sha_sidecar_same: "steps_in (same_on files) (read_sha_sidecar r key)"
  unfolding read_sha_sidecar_def Let_def by (intro same.steps_rules get_same_disk)

lemma fetched:
  assumes f: "fetch_bundle r q checks tmp w = (Inr (got, p), w')"
    and k: "artifact_keys (rq_host q) (rq_owner q) (rq_name q) (rq_date q) = (bkey, skey, lkey)"
  shows "\<exists>bs. objs w bkey = Some bs \<and> got = re_sha r bs" and "checks = Some c \<Longrightarrow> equal_fold (rk_bundle c) got"
proof -
  let ?p = "file_join tmp (rq_name q @ ''.bundle.stored'')"
  obtain w1 w2 want w3 w4 where d: "download_to_file (re_dst r) (re_ws r) bkey ?p w = (Inr (), w1)"
    and e: "refuse_encrypted r bkey ?p w1 = (Inr (), w2)" and s: "read_sha_sidecar r skey w2 = (Inr want, w3)"
    and h: "file_sha r ?p w3 = (Inr got, w4)" and c: "\<forall>c. checks = Some c \<longrightarrow> equal_fold (rk_bundle c) got"
    using f unfolding fetch_bundle_def Let_def k
    by (auto elim!: bindE_InrE split: option.splits if_splits)
  obtain bs where bs: "objs w bkey = Some bs" "files w1 ?p = Some bs" using downloaded [OF d] by blast
  have "files w3 ?p = Some bs"
    using bs(2) same_D [OF refuse_encrypted_same e] same_D [OF read_sha_sidecar_same s] by simp
  then show "\<exists>bs. objs w bkey = Some bs \<and> got = re_sha r bs" using hashed [OF h] bs(1) by auto
  show "checks = Some c \<Longrightarrow> equal_fold (rk_bundle c) got" using c by blast
qed

lemma lfs_held:
  assumes "restore_lfs r q (Some c) lkey tmp checked w = (Inr u, w')"
  shows "\<exists>bs. objs w lkey = Some bs \<and> equal_fold (rk_lfs c) (re_sha r bs)"
proof -
  let ?p = "file_join tmp (rq_name q @ ''.lfs.tar.stored'')"
  obtain w1 got w2 where d: "download_to_file (re_dst r) (re_ws r) lkey ?p w = (Inr (), w1)"
    and h: "file_sha r ?p w1 = (Inr got, w2)" and e: "equal_fold (rk_lfs c) got"
    using assms unfolding restore_lfs_def check_lfs_sum_def Let_def
    by (auto elim!: bindE_InrE split: if_splits)
  from downloaded [OF d] hashed [OF h] e show ?thesis by auto
qed

lemma restore_within_ok:
  assumes "restore_within r q checks tmp w = (Inr res, w')"
    and k: "artifact_keys (rq_host q) (rq_owner q) (rq_name q) (rq_date q) = (bkey, skey, lkey)"
  shows "rr_bundle res = bkey" and "\<exists>bs. objs w bkey = Some bs \<and> rr_sha res = re_sha r bs"
    and "checks = Some c \<Longrightarrow> equal_fold (rk_bundle c) (rr_sha res)" and "comparison_ok (rr_refs res)"
    and "checks = Some c \<Longrightarrow> rk_lfs c \<noteq> [] \<Longrightarrow> \<exists>bs. objs w lkey = Some bs \<and> equal_fold (rk_lfs c) (re_sha r bs)"
proof -
  obtain got p w1 cmp checked w2 listing w3 u w4 where f: "fetch_bundle r q checks tmp w = (Inr (got, p), w1)"
    and cl: "clone_checked r bkey p (rq_out q) w1 = (Inr (cmp, checked), w2)"
    and li: "tryE (list_objects (re_dst r) lkey) w2 = (Inr listing, w3)"
    and agree: "lfs_disagree checks lkey listing = None"
    and lfs: "(if lfs_stored listing then restore_lfs r q checks lkey tmp checked else no_lfs r q checks lkey listing) w3 = (Inr u, w4)"
    and res: "rr_bundle res = bkey" "rr_sha res = got" "rr_refs res = cmp"
    using assms(1) unfolding restore_within_def k
    by (auto elim!: bindE_InrE split: option.splits)
  show "rr_bundle res = bkey" "\<exists>bs. objs w bkey = Some bs \<and> rr_sha res = re_sha r bs"
    "checks = Some c \<Longrightarrow> equal_fold (rk_bundle c) (rr_sha res)"
    using fetched [OF f k] res by simp_all
  show "comparison_ok (rr_refs res)"
    using cl res unfolding clone_checked_def by (auto elim!: bindE_InrE split: if_splits)
  have "objs w3 = objs w2" using steps_try [OF dst.list_same] li by (rule same_D)
  then have same: "objs w3 = objs w"
    using same_D [OF fetch_bundle_same f] same_D [OF clone_checked_same cl] by simp
  assume c: "checks = Some c" "rk_lfs c \<noteq> []"
  then have "lfs_stored listing" using agree by (auto simp: lfs_disagree_def split: if_splits sum.splits)
  then have "restore_lfs r q (Some c) lkey tmp checked w3 = (Inr u, w4)" using lfs c(1) by simp
  from lfs_held [OF this] same show "\<exists>bs. objs w lkey = Some bs \<and> equal_fold (rk_lfs c) (re_sha r bs)" by simp
qed

lemma restore_held_to:
  assumes "restore r q w = (Inr res, w')" and "rq_verified q = None" and "re_key r = Some k"
  shows "\<exists>c e lkey bs. believed_entry r (rk_manifest c) e \<and> en_slug e = request_slug q
    \<and> c = recorded_checks (rk_manifest c) k e (rr_bundle res) lkey \<and> names_artifact e (rr_bundle res)
    \<and> objs w (rr_bundle res) = Some bs \<and> rr_sha res = re_sha r bs \<and> equal_fold (rk_bundle c) (re_sha r bs)
    \<and> (rk_lfs c \<noteq> [] \<longrightarrow> (\<exists>ls. objs w lkey = Some ls \<and> equal_fold (rk_lfs c) (re_sha r ls)))
    \<and> comparison_ok (rr_refs res)"
proof -
  obtain q' cs w1 tmp w2 w3 where ch: "choose_checks r q w = (Inr (q', cs), w1)"
    and t: "mkdir_temp (re_ws r) ''gitdr-restore-'' w1 = (Inr tmp, w2)"
    and run: "restore_within r q' cs tmp w2 = (Inr res, w3)"
    using assms(1) unfolding restore_def deferE_def
    by (auto simp: mapErrE_Inr elim!: bindE_InrE split: prod.splits)
  obtain c e bkey skey lkey where c: "cs = Some c" "believed_entry r (rk_manifest c) e" "en_slug e = request_slug q"
    and k: "artifact_keys (rq_host q') (rq_owner q') (rq_name q') (rq_date q') = (bkey, skey, lkey)"
    and n: "names_artifact e bkey" "c = recorded_checks (rk_manifest c) k e bkey lkey"
    using choose_checks_ok [OF ch assms(2,3)] by blast
  have "steps_in (same_on objs) (mkdir_temp (re_ws r) ''gitdr-restore-'')"
    using machine by (simp add: machine_steps_def re_git_def machine.defs)
  then have "objs w2 = objs w1" using t by (rule same_D)
  then have same: "objs w2 = objs w" using same_D [OF choose_checks_same ch] by simp
  note ok = restore_within_ok [OF run k]
  obtain bs where bs: "objs w bkey = Some bs" "rr_sha res = re_sha r bs" using ok(2) same by auto
  have "rk_lfs c \<noteq> [] \<longrightarrow> (\<exists>ls. objs w lkey = Some ls \<and> equal_fold (rk_lfs c) (re_sha r ls))"
    using ok(5) [OF c(1)] same by auto
  then show ?thesis using bs c(2,3) n ok(1) ok(3) [OF c(1)] ok(4) by (intro exI [of _ c] exI [of _ e] exI [of _ lkey] exI [of _ bs]) simp
qed

end

section \<open>No pointer is left\<close>

text \<open>A tree with a pointer file outside the .git of its root.\<close>

fun holds_pointer :: "string \<Rightarrow> node \<Rightarrow> bool" and child_holds_pointer :: "string \<Rightarrow> (string \<times> node) list \<Rightarrow> bool" where
  "holds_pointer rel (File s) = (rel \<noteq> ''.git'' \<and> is_pointer s)"
| "holds_pointer rel (Dir cs) = (rel \<noteq> ''.git'' \<and> child_holds_pointer rel cs)"
| "holds_pointer rel Other = False"
| "holds_pointer rel (Broken e) = False"
| "child_holds_pointer rel [] = False"
| "child_holds_pointer rel ((n, t) # cs) = (holds_pointer (rel_join rel n) t \<or> child_holds_pointer rel cs)"

lemma no_pointers_found:
  "pointers_node cx rel t w = (Inr [], w') \<Longrightarrow> \<not> holds_pointer rel t"
  "pointers_children cx rel cs w = (Inr [], w') \<Longrightarrow> \<not> child_holds_pointer rel cs"
proof (induction rel t and rel cs arbitrary: w w' and w w' rule: holds_pointer_child_holds_pointer.induct)
qed (auto elim!: bindE_InrE split: option.splits if_splits; blast)+

lemma reading_pointers_same:
  "pointers_node cx rel t w = (x, w') \<Longrightarrow> w' = w"
  "pointers_children cx rel cs w = (x, w') \<Longrightarrow> w' = w"
proof (induction rel t and rel cs arbitrary: w w' x and w w' x rule: holds_pointer_child_holds_pointer.induct)
qed (fastforce simp: bindE_def split: option.splits if_splits prod.splits sum.splits)+

lemma lfs_pointers_none:
  assumes "lfs_pointers ws cx root w = (Inr [], w')"
  shows "\<exists>t. read_tree ws root w' = Some t \<and> \<not> holds_pointer [] t"
proof -
  obtain t where t: "read_tree ws root w = Some t" "pointers_node cx [] t w = (Inr [], w')"
    using assms unfolding lfs_pointers_def by (auto simp: mapErrE_Inr elim!: bindE_InrE split: option.splits)
  from t(1) no_pointers_found(1) [OF t(2)] reading_pointers_same(1) [OF t(2)] show ?thesis by blast
qed

lemma restore_within_whole:
  assumes "restore_within r q checks tmp w = (Inr res, w')"
    and k: "artifact_keys (rq_host q) (rq_owner q) (rq_name q) (rq_date q) = (bkey, skey, lkey)"
  shows "\<exists>t. read_tree (re_ws r) (rq_out q) w' = Some t \<and> \<not> holds_pointer [] t" and "rr_out res = rq_out q"
proof -
  obtain listing w3 checked u where
    l: "(if lfs_stored listing then restore_lfs r q checks lkey tmp checked else no_lfs r q checks lkey listing) w3 = (Inr u, w')"
    and out: "rr_out res = rq_out q"
    using assms(1) unfolding restore_within_def k
    by (auto elim!: bindE_InrE split: option.splits)
  obtain v where "lfs_pointers (re_ws r) (re_ctx r) (rq_out q) v = (Inr [], w')"
    using l unfolding restore_lfs_def no_lfs_def fill_in_lfs_def Let_def
    by (auto simp: mapErrE_Inr elim!: bindE_InrE split: if_splits; blast)
  then show "\<exists>t. read_tree (re_ws r) (rq_out q) w' = Some t \<and> \<not> holds_pointer [] t" by (rule lfs_pointers_none)
  show "rr_out res = rq_out q" by (rule out)
qed

lemma restore_whole:
  assumes "restore r q w = (Inr res, w')"
  shows "\<exists>t tmp w1. w' = remove_all (re_ws r) tmp w1 \<and> read_tree (re_ws r) (rr_out res) w1 = Some t \<and> \<not> holds_pointer [] t"
proof -
  obtain q' cs tmp w2 w3 where run: "restore_within r q' cs tmp w2 = (Inr res, w3)" and "w' = remove_all (re_ws r) tmp w3"
    using assms unfolding restore_def deferE_def
    by (auto simp: mapErrE_Inr elim!: bindE_InrE split: prod.splits)
  moreover obtain bkey skey lkey where "artifact_keys (rq_host q') (rq_owner q') (rq_name q') (rq_date q') = (bkey, skey, lkey)"
    by (metis prod_cases3)
  ultimately show ?thesis using restore_within_whole [OF run] by metis
qed

lemma restore_refs_ok: "restore r q w = (Inr res, w') \<Longrightarrow> comparison_ok (rr_refs res)"
  unfolding restore_def deferE_def restore_within_def clone_checked_def
  by (auto simp: mapErrE_Inr elim!: bindE_InrE split: prod.splits option.splits if_splits)

section \<open>A dated key reads back\<close>

lemma plain_seg_suffix: "plain_seg n \<Longrightarrow> plain_seg (n @ ''.bundle'')"
  by (auto simp: plain_seg_def append_eq_Cons_conv)

lemma bundle_key_joined:
  assumes "plain_seg host" "plain_path owner" "plain_seg name" "plain_seg date"
  shows "fst (artifact_keys host owner name date) = host @ ''/'' @ owner @ ''/'' @ name @ ''/'' @ date @ ''/'' @ name @ ''.bundle''"
proof -
  have segs: "plain_path host" "plain_path name" "plain_path date" "plain_path (name @ ''.bundle'')"
    using assms by (simp_all add: plain_seg_path plain_seg_suffix)
  then have dir: "path_join [host, owner, name, date] = host @ ''/'' @ owner @ ''/'' @ name @ ''/'' @ date"
    using assms by (subst path_join_plain) simp_all
  have "plain_path (host @ ''/'' @ owner @ ''/'' @ name @ ''/'' @ date)"
    using segs assms(2) by (simp add: plain_path_append [simplified])
  then have "path_join [host @ ''/'' @ owner @ ''/'' @ name @ ''/'' @ date, name @ ''.bundle'']
      = (host @ ''/'' @ owner @ ''/'' @ name @ ''/'' @ date) @ ''/'' @ name @ ''.bundle''"
    using segs by (subst path_join_plain) simp_all
  then show ?thesis by (simp add: artifact_keys_def Let_def dir)
qed

lemma split_bundle_key:
  assumes "plain_seg host" "plain_path owner" "plain_seg name" "plain_seg date"
  shows "split_artifact_key (fst (artifact_keys host owner name date)) = Some (host, owner, name, date)"
proof -
  let ?parts = "[host] @ split_on (CHR ''/'') owner @ [name, date, name @ ''.bundle'']"
  have no: "CHR ''/'' \<notin> set host" "CHR ''/'' \<notin> set name" "CHR ''/'' \<notin> set date" "CHR ''/'' \<notin> set (name @ ''.bundle'')"
    using assms by (auto simp: plain_seg_def)
  have parts: "split_on (CHR ''/'') (fst (artifact_keys host owner name date)) = ?parts"
    using no by (simp add: bundle_key_joined [OF assms] split_on_append_sep [simplified] split_on_no_sep)
  have ne: "split_on (CHR ''/'') owner \<noteq> []" by (cases owner) (auto split: list.split)
  have n: "length ?parts = length (split_on (CHR ''/'') owner) + 4" by simp
  have "drop 1 (take (length ?parts - 3) ?parts) = split_on (CHR ''/'') owner" by simp
  moreover have "?parts ! (length ?parts - 3) = name" "?parts ! (length ?parts - 2) = date"
    by (simp_all add: nth_append)
  moreover have "\<not> length ?parts < 5" using ne by (cases "split_on (CHR ''/'') owner") simp_all
  moreover have "?parts ! 0 = host" by simp
  moreover have "join_with ''/'' (split_on (CHR ''/'') owner) = owner" by simp
  ultimately show ?thesis
    unfolding split_artifact_key_def Let_def parts by presburger
qed

end
