(* ===== verification/Verify.thy ===== *)
theory Verify
  imports Filed Stored
begin

text \<open>
  src/internal/pipeline/verify.go: reading a manifest's artifacts back. Up to the concurrency many
  reads are in flight and each fills the slot of its artifact; the order in which they fill them is
  the parameter \<open>vd_order\<close> of the model. A verify always returns a result beside its error.
\<close>

lemma bindE_tried: "bindE (tryE m) f w = f (fst (m w)) (snd (m w))"
  by (simp add: bindE_def tryE_apply)

section \<open>One artifact\<close>

definition sha256_hex :: "(string \<Rightarrow> string) \<Rightarrow> body \<Rightarrow> goerr + string" where
  "sha256_hex sha rc = (case body_err rc of
       Some e \<Rightarrow> Inl (wrap_error ''sha256'' e)
     | None \<Rightarrow> Inr (sha (body_bytes rc)))"

definition get_sha :: "(string \<Rightarrow> string) \<Rightarrow> 'w destination \<Rightarrow> string \<Rightarrow> ('w, string) io" where
  "get_sha sha d key = bindE (get_object d key) (\<lambda>rc. liftE (sha256_hex sha rc))"

text \<open>A check that says it is ok, so that one that was never filled in is a failure.\<close>

record artifact_check =
  ac_ok :: bool
  ac_failure :: string

definition zero_check :: artifact_check where
  "zero_check = \<lparr>ac_ok = False, ac_failure = []\<rparr>"

definition check_of :: "artifact_info \<Rightarrow> goerr + string \<Rightarrow> artifact_check" where
  "check_of a r = (case r of
       Inl e \<Rightarrow> \<lparr>ac_ok = False, ac_failure = ai_key a @ '': '' @ err_text e\<rparr>
     | Inr got \<Rightarrow> if \<not> equal_fold got (ai_sha256 a) then \<lparr>ac_ok = False, ac_failure = ai_key a @ '': checksum mismatch''\<rparr>
         else \<lparr>ac_ok = True, ac_failure = []\<rparr>)"

definition check_artifact :: "(string \<Rightarrow> string) \<Rightarrow> 'w destination \<Rightarrow> artifact_info \<Rightarrow> ('w, artifact_check) io" where
  "check_artifact sha d a = bindE (tryE (get_sha sha d (ai_key a))) (\<lambda>r. okE (check_of a r))"

section \<open>All of them\<close>

fun fill_slots :: "(string \<Rightarrow> string) \<Rightarrow> 'w destination \<Rightarrow> artifact_info list \<Rightarrow> nat list \<Rightarrow> artifact_check list
    \<Rightarrow> ('w, artifact_check list) io" where
  "fill_slots sha d as [] checks = okE checks"
| "fill_slots sha d as (i # is) checks =
     bindE (check_artifact sha d (as ! i)) (\<lambda>c. fill_slots sha d as is (checks[i := c]))"

definition listed_artifacts :: "repo_entry list \<Rightarrow> artifact_info list" where
  "listed_artifacts es = concat (map en_artifacts es)"

definition read_back :: "(string \<Rightarrow> string) \<Rightarrow> 'w destination \<Rightarrow> repo_entry list \<Rightarrow> (nat \<Rightarrow> nat list) \<Rightarrow> ('w, artifact_check list) io" where
  "read_back sha d es order = (let as = listed_artifacts es; n = length as in
     fill_slots sha d as (order n) (replicate n zero_check))"

section \<open>Verify\<close>

record 'w verify_deps =
  vd_dst :: "'w destination"
  vd_key :: "string \<Rightarrow> string \<Rightarrow> bool"
  vd_codec :: codec
  vd_sha :: "string \<Rightarrow> string"
  vd_order :: "nat \<Rightarrow> nat list"

record verify_result =
  vr_key :: string
  vr_signed :: bool
  vr_checked :: nat
  vr_ok :: nat
  vr_failures :: "string list"

definition zero_result :: "string \<Rightarrow> verify_result" where
  "zero_result key = \<lparr>vr_key = key, vr_signed = False, vr_checked = 0, vr_ok = 0, vr_failures = []\<rparr>"

definition count_checks :: "artifact_check list \<Rightarrow> verify_result \<Rightarrow> verify_result" where
  "count_checks checks res = res\<lparr>vr_checked := length checks, vr_ok := length (filter ac_ok checks),
     vr_failures := vr_failures res @ map ac_failure (filter (\<lambda>c. \<not> ac_ok c) checks)\<rparr>"

definition verify_verdict :: "verify_result \<Rightarrow> verify_result \<times> goerr option" where
  "verify_verdict res = (res, if vr_failures res \<noteq> []
     then Some (new_error (''verify: '' @ show_nat (length (vr_failures res)) @ '' artifact failure(s)'')) else None)"

definition a_manifest_schema :: "string \<Rightarrow> bool" where
  "a_manifest_schema s \<longleftrightarrow> s = [] \<or> s = manifest_schema \<or> has_prefix ''gitdr.manifest/'' s"

definition verify_signed :: "'w verify_deps \<Rightarrow> string \<Rightarrow> string \<Rightarrow> verify_result \<Rightarrow> ('w, verify_result \<times> goerr option) io" where
  "verify_signed v key canon res = (case unmarshal_manifest (vd_codec v) canon of
       Inl e \<Rightarrow> okE (res, Some (wrap_error ''parse manifest'' e))
     | Inr m \<Rightarrow>
         if \<not> a_manifest_schema (m_schema m)
         then okE (res, Some (new_error (key @ '' is a '' @ m_schema m @ '' document, not a manifest: verify checks manifests, ''
                @ ''and counting its zero artifacts as a pass would be a green over a document this command cannot read'')))
         else bindE (read_back (vd_sha v) (vd_dst v) (m_repos m) (vd_order v)) (\<lambda>checks.
              okE (verify_verdict (count_checks checks res))))"

definition verify_within :: "'w verify_deps \<Rightarrow> string \<Rightarrow> int \<Rightarrow> ('w, verify_result \<times> goerr option) io" where
  "verify_within v key limit = (let res = zero_result key in
     bindE (tryE (read_capped (vd_dst v) key limit)) (\<lambda>r. case r of
       Inl e \<Rightarrow> okE (res, Some (if is_object_too_large e
           then new_error (''read manifest: '' @ key @ '' is larger than the '' @ mib limit @ '' this engine reads'')
           else wrap_error ''read manifest'' e))
     | Inr canon \<Rightarrow>
       bindE (tryE (read_capped (vd_dst v) (key @ ''.sig'') max_signature_bytes)) (\<lambda>s. case s of
         Inl e \<Rightarrow> okE (res, Some (wrap_error ''read signature'' e))
       | Inr b64 \<Rightarrow> (case b64_decode (trim_space b64) of
           None \<Rightarrow> okE (res, Some (new_error ''decode signature: illegal base64 data''))
         | Some sig \<Rightarrow>
             if \<not> vd_key v canon sig
             then okE (res\<lparr>vr_failures := [''manifest signature invalid'']\<rparr>,
                    Some (new_error ''verify: ed25519 signature verification failed''))
             else verify_signed v key canon (res\<lparr>vr_signed := True\<rparr>)))))"

definition verify :: "'w verify_deps \<Rightarrow> string \<Rightarrow> ('w, verify_result \<times> goerr option) io" where
  "verify v key = verify_within v key max_manifest_bytes"

section \<open>What a verify that passes has read\<close>

text \<open>The artifact was read to its end, and what was read has the recorded checksum.\<close>

definition read_and_matched :: "(string \<Rightarrow> string) \<Rightarrow> 'w destination \<Rightarrow> artifact_info \<Rightarrow> bool" where
  "read_and_matched sha d a \<longleftrightarrow> (\<exists>w w' rc. get_object d (ai_key a) w = (Inr rc, w') \<and> body_err rc = None
     \<and> equal_fold (sha (body_bytes rc)) (ai_sha256 a))"

lemma check_artifact_ok:
  assumes "check_artifact sha d a w = (Inr c, w')" and "ac_ok c"
  shows "read_and_matched sha d a"
proof -
  obtain got where g: "get_sha sha d (ai_key a) w = (Inr got, w')" and e: "equal_fold got (ai_sha256 a)"
    using assms by (cases "get_sha sha d (ai_key a) w")
      (auto simp: check_artifact_def bindE_Inr tryE_apply check_of_def split: sum.splits if_splits)
  then show ?thesis
    by (fastforce simp: read_and_matched_def get_sha_def bindE_Inr sha256_hex_def split: option.splits)
qed

lemma fill_slots_ok:
  assumes "fill_slots sha d as is checks w = (Inr out, w')"
    and "\<forall>i < length checks. ac_ok (checks ! i) \<longrightarrow> read_and_matched sha d (as ! i)"
  shows "length out = length checks \<and> (\<forall>i < length out. ac_ok (out ! i) \<longrightarrow> read_and_matched sha d (as ! i))"
  using assms
proof (induction "is" arbitrary: checks w)
  case (Cons j js)
  obtain c w1 where c: "check_artifact sha d (as ! j) w = (Inr c, w1)"
    and rest: "fill_slots sha d as js (checks[j := c]) w1 = (Inr out, w')"
    using Cons.prems(1) by (auto simp: bindE_Inr)
  have "\<forall>i < length (checks[j := c]). ac_ok (checks[j := c] ! i) \<longrightarrow> read_and_matched sha d (as ! i)"
  proof (intro allI impI)
    fix i assume "i < length (checks[j := c])" and "ac_ok (checks[j := c] ! i)"
    then show "read_and_matched sha d (as ! i)"
      using Cons.prems(2) check_artifact_ok [OF c] by (cases "i = j") simp_all
  qed
  from Cons.IH [OF rest this] show ?case by simp
qed simp

lemma read_back_ok:
  assumes "read_back sha d es order w = (Inr checks, w')"
  shows "length checks = length (listed_artifacts es)"
    and "\<forall>c \<in> set checks. ac_ok c \<Longrightarrow> \<forall>a \<in> set (listed_artifacts es). read_and_matched sha d a"
proof -
  let ?as = "listed_artifacts es"
  have run: "fill_slots sha d ?as (order (length ?as)) (replicate (length ?as) zero_check) w = (Inr checks, w')"
    using assms by (simp add: read_back_def Let_def)
  have "\<forall>i < length (replicate (length ?as) zero_check). ac_ok (replicate (length ?as) zero_check ! i)
      \<longrightarrow> read_and_matched sha d (?as ! i)" by (simp add: zero_check_def)
  note filled = fill_slots_ok [OF run this]
  show len: "length checks = length ?as" using filled by simp
  show "\<forall>a \<in> set ?as. read_and_matched sha d a" if "\<forall>c \<in> set checks. ac_ok c"
    using filled len that by (metis in_set_conv_nth nth_mem)
qed

lemma count_checks_total:
  "vr_checked (count_checks checks res) = vr_ok (count_checks checks res)
     + (length (vr_failures (count_checks checks res)) - length (vr_failures res))"
  using sum_length_filter_compl [of ac_ok checks] by (simp add: count_checks_def)

lemma verify_passes:
  assumes "verify v key w = (Inr (res, None), w')"
  shows "\<exists>rc w1 sc w2 sig m. get_object (vd_dst v) key w = (Inr rc, w1) \<and> get_object (vd_dst v) (key @ ''.sig'') w1 = (Inr sc, w2)
    \<and> b64_decode (trim_space (body_bytes sc)) = Some sig \<and> vd_key v (body_bytes rc) sig
    \<and> unmarshal_manifest (vd_codec v) (body_bytes rc) = Inr m \<and> a_manifest_schema (m_schema m)
    \<and> (\<forall>a \<in> set (listed_artifacts (m_repos m)). read_and_matched (vd_sha v) (vd_dst v) a)
    \<and> vr_signed res \<and> vr_failures res = [] \<and> vr_checked res = length (listed_artifacts (m_repos m)) \<and> vr_ok res = vr_checked res"
proof -
  have big: "0 \<le> max_manifest_bytes" "0 \<le> max_signature_bytes"
    by (simp_all add: max_manifest_bytes_def max_signature_bytes_def)
  obtain canon w1 b64 w2 sig where r1: "read_capped (vd_dst v) key max_manifest_bytes w = (Inr canon, w1)"
    and r2: "read_capped (vd_dst v) (key @ ''.sig'') max_signature_bytes w1 = (Inr b64, w2)"
    and sig: "b64_decode (trim_space b64) = Some sig" "vd_key v canon sig"
    and rest: "verify_signed v key canon ((zero_result key)\<lparr>vr_signed := True\<rparr>) w2 = (Inr (res, None), w')"
    using assms unfolding verify_def verify_within_def Let_def bindE_tried
    by (cases "read_capped (vd_dst v) key max_manifest_bytes w";
        cases "read_capped (vd_dst v) (key @ ''.sig'') max_signature_bytes (snd (read_capped (vd_dst v) key max_manifest_bytes w))")
      (auto split: sum.splits option.splits if_splits)
  obtain m checks where m: "unmarshal_manifest (vd_codec v) canon = Inr m" "a_manifest_schema (m_schema m)"
    and rd: "read_back (vd_sha v) (vd_dst v) (m_repos m) (vd_order v) w2 = (Inr checks, w')"
    and verdict: "verify_verdict (count_checks checks ((zero_result key)\<lparr>vr_signed := True\<rparr>)) = (res, None)"
    using rest unfolding verify_signed_def by (auto simp: bindE_Inr split: sum.splits if_splits)
  have none: "filter (\<lambda>c. \<not> ac_ok c) checks = []" and res: "res = count_checks checks ((zero_result key)\<lparr>vr_signed := True\<rparr>)"
    using verdict by (auto simp: verify_verdict_def count_checks_def zero_result_def split: if_splits)
  have ok: "\<forall>c \<in> set checks. ac_ok c" using none by (auto simp: filter_empty_conv)
  then have "filter ac_ok checks = checks" by simp
  then have counts: "vr_signed res" "vr_failures res = []" "vr_checked res = length checks" "vr_ok res = vr_checked res"
    using none by (simp_all add: res count_checks_def zero_result_def)
  from read_capped_Inr [OF big(1) r1] obtain rc where rc: "get_object (vd_dst v) key w = (Inr rc, w1)" "canon = body_bytes rc" by blast
  from read_capped_Inr [OF big(2) r2] obtain sc where sc: "get_object (vd_dst v) (key @ ''.sig'') w1 = (Inr sc, w2)" "b64 = body_bytes sc" by blast
  show ?thesis
    using rc sc sig m read_back_ok [OF rd] ok counts by (intro exI conjI) simp_all
qed

section \<open>The order of the reads\<close>

text \<open>
  A store that answers a read the same for as long as it holds the same objects: then what is found
  for each artifact is what reading one at a time finds, whatever order the reads finish in.
\<close>

definition steady :: "'w destination \<Rightarrow> ('w \<Rightarrow> 's) \<Rightarrow> 's \<Rightarrow> (string \<Rightarrow> goerr + body) \<Rightarrow> bool" where
  "steady d objs s ans \<longleftrightarrow> (\<forall>k w. objs w = s \<longrightarrow> (\<exists>w'. get_object d k w = (ans k, w') \<and> objs w' = s))"

definition found_of :: "(string \<Rightarrow> string) \<Rightarrow> (string \<Rightarrow> goerr + body) \<Rightarrow> artifact_info \<Rightarrow> artifact_check" where
  "found_of sha ans a = check_of a (case ans (ai_key a) of Inl e \<Rightarrow> Inl e | Inr rc \<Rightarrow> sha256_hex sha rc)"

lemma steady_get: "steady d objs s ans \<Longrightarrow> objs w = s \<Longrightarrow> \<exists>w'. get_object d k w = (ans k, w') \<and> objs w' = s"
  by (simp add: steady_def)

lemma check_artifact_steady:
  assumes "steady d objs s ans" and "objs w = s"
  shows "\<exists>w'. check_artifact sha d a w = (Inr (found_of sha ans a), w') \<and> objs w' = s"
proof -
  obtain w1 where g: "get_object d (ai_key a) w = (ans (ai_key a), w1)" and same: "objs w1 = s"
    using steady_get [OF assms] by blast
  have "get_sha sha d (ai_key a) w = (case ans (ai_key a) of Inl e \<Rightarrow> Inl e | Inr rc \<Rightarrow> sha256_hex sha rc, w1)"
    by (simp add: get_sha_def bindE_def g split: sum.splits)
  then show ?thesis by (simp add: check_artifact_def bindE_tried found_of_def same)
qed

lemma fill_slots_steady:
  assumes d: "steady d objs s ans" and "objs w = s" and "\<forall>i \<in> set is. i < length checks" and "length checks = length as"
  shows "\<exists>w'. fill_slots sha d as is checks w
    = (Inr (map (\<lambda>i. if i \<in> set is then found_of sha ans (as ! i) else checks ! i) [0..<length checks]), w') \<and> objs w' = s"
  using assms(2-)
proof (induction "is" arbitrary: checks w)
  case Nil
  then show ?case using map_nth [of checks] by simp
next
  case (Cons j js)
  let ?c = "found_of sha ans (as ! j)"
  obtain w1 where c: "check_artifact sha d (as ! j) w = (Inr ?c, w1)" and w1: "objs w1 = s"
    using check_artifact_steady [OF d Cons.prems(1)] by blast
  have "\<forall>i \<in> set js. i < length (checks[j := ?c])" "length (checks[j := ?c]) = length as" using Cons.prems by simp_all
  from Cons.IH [OF w1 this] obtain w2 where
    "fill_slots sha d as js (checks[j := ?c]) w1 = (Inr (map (\<lambda>i. if i \<in> set js then found_of sha ans (as ! i)
      else checks[j := ?c] ! i) [0..<length (checks[j := ?c])]), w2)" and w2: "objs w2 = s" by blast
  moreover have "map (\<lambda>i. if i \<in> set js then found_of sha ans (as ! i) else checks[j := ?c] ! i) [0..<length checks]
      = map (\<lambda>i. if i \<in> set (j # js) then found_of sha ans (as ! i) else checks ! i) [0..<length checks]"
    by (rule map_cong) (auto simp: nth_list_update)
  ultimately show ?case using c by (simp add: bindE_def)
qed

lemma read_back_steady:
  assumes "steady d objs s ans" and "objs w = s" and "\<And>n. set (order n) = {..<n}"
  shows "\<exists>w'. read_back sha d es order w = (Inr (map (found_of sha ans) (listed_artifacts es)), w')"
proof -
  let ?as = "listed_artifacts es"
  have "map (\<lambda>i. if i \<in> set (order (length ?as)) then found_of sha ans (?as ! i) else replicate (length ?as) zero_check ! i)
      [0..<length ?as] = map (found_of sha ans) ?as"
    by (rule nth_equalityI) (simp_all add: assms(3))
  then show ?thesis
    using fill_slots_steady [OF assms(1,2), of "order (length ?as)" "replicate (length ?as) zero_check" ?as sha]
    by (auto simp: read_back_def Let_def assms(3))
qed

lemma read_capped_steady:
  assumes "steady d objs s ans" and "objs w = s" and "objs v = s"
  shows "\<exists>r w' v'. read_capped d key limit w = (r, w') \<and> read_capped d key limit v = (r, v') \<and> objs w' = s \<and> objs v' = s"
proof -
  obtain w1 v1 where g: "get_object d key w = (ans key, w1)" "get_object d key v = (ans key, v1)" "objs w1 = s" "objs v1 = s"
    using steady_get [OF assms(1,2)] steady_get [OF assms(1,3)] by blast
  show ?thesis
    by (cases "ans key") (simp_all add: read_capped_def bindE_def g Let_def)
qed

lemma verify_signed_steady:
  assumes d: "steady (vd_dst v) objs s ans" and "objs w = s" and "objs w' = s"
    and "\<And>n. set (vd_order v n) = {..<n}" and "\<And>n. set (order n) = {..<n}"
  shows "fst (verify_signed v key canon res w) = fst (verify_signed (v\<lparr>vd_order := order\<rparr>) key canon res w')"
proof (cases "unmarshal_manifest (vd_codec v) canon")
  case (Inr m)
  obtain w1 w2 where "read_back (vd_sha v) (vd_dst v) (m_repos m) (vd_order v) w = (Inr (map (found_of (vd_sha v) ans) (listed_artifacts (m_repos m))), w1)"
    "read_back (vd_sha v) (vd_dst v) (m_repos m) order w' = (Inr (map (found_of (vd_sha v) ans) (listed_artifacts (m_repos m))), w2)"
    using read_back_steady [OF d assms(2,4)] read_back_steady [OF d assms(3,5)] by blast
  then show ?thesis by (simp add: verify_signed_def Inr bindE_def)
qed (simp add: verify_signed_def)

lemma verify_any_order:
  assumes d: "steady (vd_dst v) objs s ans" and w: "objs w = s"
    and orders: "\<And>n. set (vd_order v n) = {..<n}" "\<And>n. set (order n) = {..<n}"
  shows "fst (verify v key w) = fst (verify (v\<lparr>vd_order := order\<rparr>) key w)"
proof -
  obtain r w1 where r1: "read_capped (vd_dst v) key max_manifest_bytes w = (r, w1)" and w1: "objs w1 = s"
    using read_capped_steady [OF d w w] by blast
  obtain r' w2 where r2: "read_capped (vd_dst v) (key @ ''.sig'') max_signature_bytes w1 = (r', w2)" and w2: "objs w2 = s"
    using read_capped_steady [OF d w1 w1] by blast
  show ?thesis
    using verify_signed_steady [OF d w2 w2 orders]
    by (simp add: verify_def verify_within_def Let_def bindE_tried r1 r2 split: sum.split option.split)
qed

section \<open>What a run stored verifies\<close>

lemma check_artifact_stored:
  assumes "answers d objs" and "stored_artifact sha (objs w) a"
  shows "\<exists>w'. check_artifact sha d a w = (Inr \<lparr>ac_ok = True, ac_failure = []\<rparr>, w') \<and> objs w' = objs w"
proof -
  obtain bs where "objs w (ai_key a) = Some bs" and sum: "ai_sha256 a = sha bs"
    using assms(2) by (auto simp: stored_artifact_def)
  with assms(1) obtain w' where "get_object d (ai_key a) w = (Inr \<lparr>body_bytes = bs, body_err = None\<rparr>, w')" and same: "objs w' = objs w"
    unfolding answers_def by blast
  then have "get_sha sha d (ai_key a) w = (Inr (sha bs), w')" by (simp add: get_sha_def bindE_def sha256_hex_def)
  then have "check_artifact sha d a w = (Inr \<lparr>ac_ok = True, ac_failure = []\<rparr>, w')"
    by (simp add: check_artifact_def bindE_tried check_of_def equal_fold_refl sum)
  with same show ?thesis by blast
qed

lemma fill_slots_stored:
  assumes d: "answers d objs" and "\<forall>a \<in> set as. stored_artifact sha (objs w) a" and "\<forall>i \<in> set is. i < length as"
    and "length checks = length as" and "\<forall>i < length as. i \<in> set is \<or> checks ! i = \<lparr>ac_ok = True, ac_failure = []\<rparr>"
  shows "\<exists>w'. fill_slots sha d as is checks w = (Inr (replicate (length as) \<lparr>ac_ok = True, ac_failure = []\<rparr>), w') \<and> objs w' = objs w"
  using assms(2-)
proof (induction "is" arbitrary: checks w)
  case Nil
  then have "checks = replicate (length as) \<lparr>ac_ok = True, ac_failure = []\<rparr>" by (intro nth_equalityI) simp_all
  then show ?case by simp
next
  case (Cons j js)
  obtain w1 where c: "check_artifact sha d (as ! j) w = (Inr \<lparr>ac_ok = True, ac_failure = []\<rparr>, w1)" and same: "objs w1 = objs w"
    using check_artifact_stored [OF d] Cons.prems(1,2) by force
  have "\<forall>i < length as. i \<in> set js \<or> checks[j := \<lparr>ac_ok = True, ac_failure = []\<rparr>] ! i = \<lparr>ac_ok = True, ac_failure = []\<rparr>"
  proof (intro allI impI)
    fix i assume "i < length as"
    then show "i \<in> set js \<or> checks[j := \<lparr>ac_ok = True, ac_failure = []\<rparr>] ! i = \<lparr>ac_ok = True, ac_failure = []\<rparr>"
      using Cons.prems(3,4) by (cases "i = j") auto
  qed
  then obtain w2 where "fill_slots sha d as js (checks[j := \<lparr>ac_ok = True, ac_failure = []\<rparr>]) w1
      = (Inr (replicate (length as) \<lparr>ac_ok = True, ac_failure = []\<rparr>), w2)" and "objs w2 = objs w1"
    using Cons.IH [of w1 "checks[j := \<lparr>ac_ok = True, ac_failure = []\<rparr>]"] Cons.prems(1,2,3) same by auto
  with c same show ?case by (simp add: bindE_def)
qed

lemma stored_manifest_verifies:
  assumes d: "answers (vd_dst v) objs" and order: "\<And>n. set (vd_order v n) = {..<n}"
    and raw: "objs w key = Some raw" "int (length raw) \<le> max_manifest_bytes"
    and sig: "objs w (key @ ''.sig'') = Some (b64_encode sig)" "int (length (b64_encode sig)) \<le> max_signature_bytes"
    and holds: "vd_key v raw sig" and m: "unmarshal_manifest (vd_codec v) raw = Inr m" "a_manifest_schema (m_schema m)"
    and stored: "all_stored (vd_sha v) (objs w) (m_repos m)"
  shows "\<exists>w'. verify v key w = (Inr (\<lparr>vr_key = key, vr_signed = True, vr_checked = length (listed_artifacts (m_repos m)),
    vr_ok = length (listed_artifacts (m_repos m)), vr_failures = []\<rparr>, None), w') \<and> objs w' = objs w"
proof -
  let ?as = "listed_artifacts (m_repos m)"
  obtain w1 where r1: "read_capped (vd_dst v) key max_manifest_bytes w = (Inr raw, w1)" and o1: "objs w1 = objs w"
    using read_capped_whole [OF d raw] by blast
  obtain w2 where r2: "read_capped (vd_dst v) (key @ ''.sig'') max_signature_bytes w1 = (Inr (b64_encode sig), w2)" and o2: "objs w2 = objs w1"
    using read_capped_whole [OF d] sig o1 by metis
  have "\<forall>a \<in> set ?as. stored_artifact (vd_sha v) (objs w2) a"
    using stored by (auto simp: all_stored_def entry_stored_def listed_artifacts_def o1 o2)
  then obtain w3 where "fill_slots (vd_sha v) (vd_dst v) ?as (vd_order v (length ?as)) (replicate (length ?as) zero_check) w2
      = (Inr (replicate (length ?as) \<lparr>ac_ok = True, ac_failure = []\<rparr>), w3)" and o3: "objs w3 = objs w2"
    using fill_slots_stored [OF d] order by (metis (no_types, lifting) length_replicate lessThan_iff)
  then have "read_back (vd_sha v) (vd_dst v) (m_repos m) (vd_order v) w2 = (Inr (replicate (length ?as) \<lparr>ac_ok = True, ac_failure = []\<rparr>), w3)"
    by (simp add: read_back_def Let_def)
  then have "verify_signed v key raw ((zero_result key)\<lparr>vr_signed := True\<rparr>) w2 = (Inr (\<lparr>vr_key = key, vr_signed = True,
      vr_checked = length ?as, vr_ok = length ?as, vr_failures = []\<rparr>, None), w3)"
    using m by (simp add: verify_signed_def bindE_def zero_result_def count_checks_def verify_verdict_def filter_replicate)
  then have "verify v key w = (Inr (\<lparr>vr_key = key, vr_signed = True, vr_checked = length ?as, vr_ok = length ?as, vr_failures = []\<rparr>, None), w3)"
    using r1 r2 holds by (simp add: verify_def verify_within_def Let_def bindE_tried trim_b64 b64_round_trip)
  with o1 o2 o3 show ?thesis by simp
qed

end
