(* ===== verification/Drill.thy ===== *)
theory Drill
  imports Restore Verify Total
begin

text \<open>
  src/internal/pipeline/drill.go, with VerifyDrill of verify.go: restoring the repositories a
  signed manifest records, judging each by that manifest, and the signed report of it. Entries are
  sorted by slug with a sort that keeps the order of equal slugs, which Go's does not promise.
\<close>

section \<open>The report\<close>

definition drill_schema :: string where "drill_schema = ''gitdr.drill/v1''"

record drill_repo =
  dp_slug :: string
  dp_status :: string
  dp_error :: string
  dp_source_refs :: int
  dp_bundle_refs :: int
  dp_restored_refs :: int
  dp_unreferenced :: "string list"
  dp_source_match :: "bool option"
  dp_mismatches :: "string list"

record drill_report =
  dr_schema :: string
  dr_id :: string
  dr_tool :: tool_info
  dr_manifest :: string
  dr_signed :: bool
  dr_started :: time
  dr_finished :: time
  dr_status :: string
  dr_eligible :: int
  dr_drilled :: int
  dr_repos :: "drill_repo list"

definition zero_drill_repo :: drill_repo where
  "zero_drill_repo = \<lparr>dp_slug = [], dp_status = [], dp_error = [], dp_source_refs = 0, dp_bundle_refs = 0,
     dp_restored_refs = 0, dp_unreferenced = [], dp_source_match = None, dp_mismatches = []\<rparr>"

definition zero_report :: drill_report where
  "zero_report = \<lparr>dr_schema = [], dr_id = [], dr_tool = \<lparr>tool_name = [], tool_version = []\<rparr>, dr_manifest = [],
     dr_signed = False, dr_started = time_zero, dr_finished = time_zero, dr_status = [], dr_eligible = 0,
     dr_drilled = 0, dr_repos = []\<rparr>"

definition enc_drill_repo :: "drill_repo \<Rightarrow> json" where
  "enc_drill_repo p = JObj
     ([(''slug'', JStr (dp_slug p)), (''status'', JStr (dp_status p))]
      @ omit_str ''error'' (dp_error p)
      @ [(''sourceRefs'', JNum (dp_source_refs p)), (''bundleRefs'', JNum (dp_bundle_refs p)),
         (''restoredRefs'', JNum (dp_restored_refs p))]
      @ omit_arr ''unreferenced'' (map JStr (dp_unreferenced p))
      @ (case dp_source_match p of None \<Rightarrow> [] | Some b \<Rightarrow> [(''sourceMatch'', JBool b)])
      @ omit_arr ''mismatches'' (map JStr (dp_mismatches p)))"

definition enc_report :: "codec \<Rightarrow> drill_report \<Rightarrow> json" where
  "enc_report c r = JObj
     [(''schema'', JStr (dr_schema r)), (''drillId'', JStr (dr_id r)),
      (''tool'', JObj [(''name'', JStr (tool_name (dr_tool r))), (''version'', JStr (tool_version (dr_tool r)))]),
      (''manifestKey'', JStr (dr_manifest r)), (''manifestSigned'', JBool (dr_signed r)),
      (''startedAt'', enc_time c (dr_started r)), (''finishedAt'', enc_time c (dr_finished r)),
      (''status'', JStr (dr_status r)), (''eligible'', JNum (dr_eligible r)), (''drilled'', JNum (dr_drilled r)),
      (''repos'', if dr_repos r = [] then JNull else JArr (map enc_drill_repo (dr_repos r)))]"

definition dec_str :: "json \<Rightarrow> goerr + string" where
  "dec_str j = get_str j []"

definition set_drill_repo :: "string \<times> json \<Rightarrow> drill_repo \<Rightarrow> goerr + drill_repo" where
  "set_drill_repo kv p = (case kv of (k, v) \<Rightarrow>
     if equal_fold k ''slug'' then map_sum id (\<lambda>s. p\<lparr>dp_slug := s\<rparr>) (get_str v (dp_slug p))
     else if equal_fold k ''status'' then map_sum id (\<lambda>s. p\<lparr>dp_status := s\<rparr>) (get_str v (dp_status p))
     else if equal_fold k ''error'' then map_sum id (\<lambda>s. p\<lparr>dp_error := s\<rparr>) (get_str v (dp_error p))
     else if equal_fold k ''sourceRefs'' then map_sum id (\<lambda>n. p\<lparr>dp_source_refs := n\<rparr>) (get_num v (dp_source_refs p))
     else if equal_fold k ''bundleRefs'' then map_sum id (\<lambda>n. p\<lparr>dp_bundle_refs := n\<rparr>) (get_num v (dp_bundle_refs p))
     else if equal_fold k ''restoredRefs'' then map_sum id (\<lambda>n. p\<lparr>dp_restored_refs := n\<rparr>) (get_num v (dp_restored_refs p))
     else if equal_fold k ''unreferenced'' then map_sum id (\<lambda>s. p\<lparr>dp_unreferenced := s\<rparr>) (get_arr dec_str v)
     else if equal_fold k ''sourceMatch''
     then (if v = JNull then Inr (p\<lparr>dp_source_match := None\<rparr>)
           else map_sum id (\<lambda>b. p\<lparr>dp_source_match := Some b\<rparr>) (get_bool v False))
     else if equal_fold k ''mismatches'' then map_sum id (\<lambda>s. p\<lparr>dp_mismatches := s\<rparr>) (get_arr dec_str v)
     else Inr p)"

definition dec_drill_repo :: "json \<Rightarrow> goerr + drill_repo" where
  "dec_drill_repo j = get_obj set_drill_repo j zero_drill_repo"

definition set_report :: "codec \<Rightarrow> string \<times> json \<Rightarrow> drill_report \<Rightarrow> goerr + drill_report" where
  "set_report c kv r = (case kv of (k, v) \<Rightarrow>
     if equal_fold k ''schema'' then map_sum id (\<lambda>s. r\<lparr>dr_schema := s\<rparr>) (get_str v (dr_schema r))
     else if equal_fold k ''drillId'' then map_sum id (\<lambda>s. r\<lparr>dr_id := s\<rparr>) (get_str v (dr_id r))
     else if equal_fold k ''tool'' then map_sum id (\<lambda>t. r\<lparr>dr_tool := t\<rparr>) (get_obj set_tool v (dr_tool r))
     else if equal_fold k ''manifestKey'' then map_sum id (\<lambda>s. r\<lparr>dr_manifest := s\<rparr>) (get_str v (dr_manifest r))
     else if equal_fold k ''manifestSigned'' then map_sum id (\<lambda>b. r\<lparr>dr_signed := b\<rparr>) (get_bool v (dr_signed r))
     else if equal_fold k ''startedAt'' then map_sum id (\<lambda>t. r\<lparr>dr_started := t\<rparr>) (get_time c v (dr_started r))
     else if equal_fold k ''finishedAt'' then map_sum id (\<lambda>t. r\<lparr>dr_finished := t\<rparr>) (get_time c v (dr_finished r))
     else if equal_fold k ''status'' then map_sum id (\<lambda>s. r\<lparr>dr_status := s\<rparr>) (get_str v (dr_status r))
     else if equal_fold k ''eligible'' then map_sum id (\<lambda>n. r\<lparr>dr_eligible := n\<rparr>) (get_num v (dr_eligible r))
     else if equal_fold k ''drilled'' then map_sum id (\<lambda>n. r\<lparr>dr_drilled := n\<rparr>) (get_num v (dr_drilled r))
     else if equal_fold k ''repos'' then map_sum id (\<lambda>ps. r\<lparr>dr_repos := ps\<rparr>) (get_arr dec_drill_repo v)
     else Inr r)"

definition dec_report :: "codec \<Rightarrow> json \<Rightarrow> goerr + drill_report" where
  "dec_report c j = get_obj (set_report c) j zero_report"

definition unmarshal_report :: "codec \<Rightarrow> string \<Rightarrow> goerr + drill_report" where
  "unmarshal_report c raw = (case json_parse c raw of Inl e \<Rightarrow> Inl e | Inr j \<Rightarrow> dec_report c j)"

section \<open>Drilling one repository\<close>

record 'w drill_deps =
  dd_dst :: "'w destination"
  dd_ws :: "'w workspace"
  dd_temp_in :: "string \<Rightarrow> string \<Rightarrow> ('w, string) io"
  dd_enc_key :: "string option"
  dd_key :: "string option"
  dd_verify :: "string \<Rightarrow> string \<Rightarrow> string \<Rightarrow> bool"
  dd_sign :: "(string \<Rightarrow> string) option"
  dd_days :: int
  dd_mode :: string
  dd_tool :: string
  dd_codec :: codec
  dd_sha :: "string \<Rightarrow> string"
  dd_aead :: aead
  dd_rand :: "nat \<Rightarrow> ('w, string) io"
  dd_clock :: "'w \<Rightarrow> time"
  dd_ctx :: "'w \<Rightarrow> goerr option"
  dd_sleep :: "duration \<Rightarrow> ('w, unit) io"

record drill_request =
  dq_manifest :: string
  dq_host :: string
  dq_owner :: string
  dq_sample :: int
  dq_workdir :: string

definition drill_restore_deps :: "'w drill_deps \<Rightarrow> 'w restore_deps" where
  "drill_restore_deps d = \<lparr>re_dst = dd_dst d, re_ws = dd_ws d, re_enc_key = dd_enc_key d, re_key = dd_key d,
     re_verify = dd_verify d, re_codec = dd_codec d, re_sha = dd_sha d, re_aead = dd_aead d, re_ctx = dd_ctx d\<rparr>"

text \<open>Which dated artifacts belong to an entry: the first of its keys that reads as one.\<close>

definition locate :: "manifest \<Rightarrow> repo_entry \<Rightarrow> goerr + string \<times> string \<times> string \<times> string" where
  "locate m e = (case List.find (\<lambda>a. split_artifact_key (ai_key a) \<noteq> None) (en_artifacts e) of
       Some a \<Rightarrow> Inr (the (split_artifact_key (ai_key a)))
     | None \<Rightarrow> (case cut_at (CHR ''/'') (en_slug e) of
           None \<Rightarrow> Inl (new_error (''unreadable slug '' @ quote (en_slug e)))
         | Some _ \<Rightarrow> Inl (new_error (''no artifact key to locate '' @ quote (en_slug e) @ '' by''))))"

definition new_drill_repo :: "repo_entry \<Rightarrow> drill_repo" where
  "new_drill_repo e = zero_drill_repo\<lparr>dp_slug := en_slug e, dp_status := status_success, dp_source_refs := int (length (en_refs e))\<rparr>"

definition failed_with :: "string \<Rightarrow> drill_repo \<Rightarrow> drill_repo" where
  "failed_with s p = p\<lparr>dp_status := status_failed, dp_error := s\<rparr>"

definition restored_into :: "restore_result \<Rightarrow> drill_repo \<Rightarrow> drill_repo" where
  "restored_into res p = (let c = rr_refs res in
     p\<lparr>dp_bundle_refs := rc_declared c, dp_restored_refs := rc_matched c, dp_unreferenced := rc_unreferenced c,
       dp_mismatches := map (\<lambda>mm. describe mm ''bundle declares'') (rc_mismatches c)\<rparr>)"

text \<open>The second join: what came back against the refs the source advertised, when they were recorded.\<close>

definition source_joined :: "goerr + ref_comparison \<Rightarrow> drill_repo \<Rightarrow> drill_repo" where
  "source_joined src p =
     (let ok = (case src of Inl e \<Rightarrow> False | Inr c \<Rightarrow> comparison_ok c); p1 = p\<lparr>dp_source_match := Some ok\<rparr> in
      if ok then p1
      else (case src of
          Inl e \<Rightarrow> failed_with (err_text e) p1
        | Inr c \<Rightarrow> (failed_with ''the restored repository does not carry the refs the source advertised when it was copied'' p1)
            \<lparr>dp_mismatches := dp_mismatches p1 @ map (\<lambda>mm. ''source: '' @ describe mm ''the source advertised'') (rc_mismatches c)\<rparr>))"

definition drill_request_for :: "string \<times> string \<times> string \<times> string \<Rightarrow> string \<Rightarrow> restore_checks option \<Rightarrow> restore_request" where
  "drill_request_for place dir verified = (case place of (host, owner, name, date) \<Rightarrow>
     \<lparr>rq_manifest = [], rq_host = host, rq_owner = owner, rq_name = name, rq_date = date,
      rq_out = path_join [dir, name], rq_verified = verified\<rparr>)"

definition drill_restored :: "'w drill_deps \<Rightarrow> repo_entry \<Rightarrow> restore_request \<Rightarrow> drill_repo \<Rightarrow> ('w, drill_repo) io" where
  "drill_restored d e q out = bindE (tryE (restore (drill_restore_deps d) q)) (\<lambda>res. case res of
       Inl err \<Rightarrow> okE (failed_with (err_text err) out)
     | Inr rr \<Rightarrow>
         if en_refs e = [] then okE (restored_into rr out)
         else bindE (tryE (compare_source_refs (re_git (drill_restore_deps d)) (entries_to_refs (en_refs e)) (rq_out q))) (\<lambda>src.
              okE (source_joined src (restored_into rr out))))"

definition drill_in :: "'w drill_deps \<Rightarrow> drill_request \<Rightarrow> repo_entry \<Rightarrow> string \<times> string \<times> string \<times> string \<Rightarrow> restore_checks option
    \<Rightarrow> drill_repo \<Rightarrow> ('w, drill_repo) io" where
  "drill_in d q e place verified out =
     bindE (tryE (dd_temp_in d (dq_workdir q) ''gitdr-drill-'')) (\<lambda>t. case t of
       Inl err \<Rightarrow> okE (failed_with (''workdir: '' @ err_text err) out)
     | Inr dir \<Rightarrow> deferE (remove_all (dd_ws d) dir) (drill_restored d e (drill_request_for place dir verified) out))"

definition drill_checks :: "'w drill_deps \<Rightarrow> string \<Rightarrow> repo_entry \<Rightarrow> string \<times> string \<times> string \<times> string \<Rightarrow> restore_checks" where
  "drill_checks d key e place = (case place of (host, owner, name, date) \<Rightarrow>
     case artifact_keys host owner name date of (bkey, skey, lkey) \<Rightarrow>
       recorded_checks key (case dd_key d of None \<Rightarrow> [] | Some k \<Rightarrow> k) e bkey lkey)"

definition drill_one :: "'w drill_deps \<Rightarrow> drill_request \<Rightarrow> string \<Rightarrow> manifest \<Rightarrow> bool \<Rightarrow> repo_entry \<Rightarrow> ('w, drill_repo) io" where
  "drill_one d q key m signed e = (let out = new_drill_repo e in
     case locate m e of
       Inl err \<Rightarrow> okE (failed_with (err_text err) out)
     | Inr (host, owner, name, date) \<Rightarrow>
         if signed then
           (let c = drill_checks d key e (host, owner, name, date) in
            if rk_bundle c = []
            then okE (failed_with (''the manifest '' @ key @ '' records no bundle at '' @ fst (artifact_keys host owner name date)) out)
            else drill_in d q e (host, owner, name, date) (Some c) out)
         else drill_in d q e (host, owner, name, date) None out)"

fun drill_each :: "'w drill_deps \<Rightarrow> drill_request \<Rightarrow> string \<Rightarrow> manifest \<Rightarrow> bool \<Rightarrow> repo_entry list \<Rightarrow> ('w, drill_repo list) io" where
  "drill_each d q key m signed [] = okE []"
| "drill_each d q key m signed (e # es) = bindE (drill_one d q key m signed e) (\<lambda>p.
     bindE (drill_each d q key m signed es) (\<lambda>ps. okE (p # ps)))"

section \<open>The drill\<close>

definition load_manifest_for_drill :: "'w drill_deps \<Rightarrow> drill_request \<Rightarrow> time \<Rightarrow> ('w, string \<times> manifest \<times> bool) io" where
  "load_manifest_for_drill d q now =
     bindE (if dq_manifest q \<noteq> [] then okE (dq_manifest q)
            else let dir = path_join [dq_host q, dq_owner q, ''manifests''] in
              bindE (newest_manifest (dd_dst d) dir now) (\<lambda>newest.
                if newest = [] then failE (new_error (''no manifest to drill under '' @ dir @ ''/'')) else okE newest)) (\<lambda>key.
     bindE (load_manifest (dd_codec d) (dd_dst d) (map_option (dd_verify d) (dd_key d)) key) (\<lambda>m.
       okE (key, m, dd_key d \<noteq> None)))"

definition eligible_entries :: "manifest \<Rightarrow> repo_entry list" where
  "eligible_entries m = sort_key en_slug (filter (\<lambda>e. en_status e = status_success) (m_repos m))"

definition chosen_entries :: "int \<Rightarrow> repo_entry list \<Rightarrow> repo_entry list" where
  "chosen_entries sample es = (if sample > 0 \<and> sample < int (length es) then take (nat sample) es else es)"

definition report_retention :: "'w drill_deps \<Rightarrow> time \<Rightarrow> ('w, retention) io" where
  "report_retention d now =
     (if dd_days d \<le> 0 then okE no_retention
      else bindE (tryE (verify_worm (dd_dst d))) (\<lambda>st. case st of
          Inl e \<Rightarrow> okE no_retention
        | Inr ws \<Rightarrow> okE (if \<not> immutable (ws_verdict ws) then no_retention
            else \<lparr>ret_mode = to_upper (trim_space (dd_mode d)), ret_until = time_add now (days_duration (dd_days d))\<rparr>)))"

definition report_key :: "drill_report \<Rightarrow> string" where
  "report_key r = path_join [path_dir (path_dir (dr_manifest r)), ''drills'', format_stamp (dr_finished r) @ ''.drill.json'']"

definition put_text :: "'w drill_deps \<Rightarrow> string \<Rightarrow> string \<Rightarrow> retention \<Rightarrow> ('w, unit) io" where
  "put_text d key s ret = retry (dd_ctx d) (dd_sleep d) 3 second
     (bindE (put_immutable (dd_dst d) key \<lparr>body_bytes = s, body_err = None\<rparr> (int (length s)) ret) (\<lambda>_. okE ()))"

definition upload_drill :: "'w drill_deps \<Rightarrow> drill_report \<Rightarrow> ('w, string) io" where
  "upload_drill d rep = (case dd_sign d of
       None \<Rightarrow> okE []
     | Some sign \<Rightarrow> (let canon = json_print (dd_codec d) (enc_report (dd_codec d) rep); key = report_key rep in
         bindE (report_retention d (dr_finished rep)) (\<lambda>ret.
         bindE (put_text d key canon ret) (\<lambda>_.
         bindE (put_text d (key @ ''.sig'') (b64_encode (sign canon)) ret) (\<lambda>_. okE key)))))"

definition err_drill_failures :: goerr where "err_drill_failures = new_error ''drill completed with failures''"
definition err_report_not_stored :: goerr where "err_report_not_stored = new_error ''store drill report''"

text \<open>\<open>fmt.Errorf("%w: %w", ErrReportNotStored, err)\<close> and errors.Join.\<close>

definition not_stored :: "goerr \<Rightarrow> goerr" where
  "not_stored e = GoErr Plain (err_text err_report_not_stored @ '': '' @ err_text e) [err_report_not_stored, e]"

definition join_errors :: "goerr list \<Rightarrow> goerr option" where
  "join_errors es = (if es = [] then None else Some (GoErr Plain (join_with [newline] (map err_text es)) es))"

record drill_result =
  ds_report :: drill_report
  ds_key :: string

definition new_report :: "'w drill_deps \<Rightarrow> string \<Rightarrow> string \<Rightarrow> bool \<Rightarrow> time \<Rightarrow> nat \<Rightarrow> nat \<Rightarrow> drill_report" where
  "new_report d i key signed started eligible drilled = zero_report
     \<lparr>dr_schema := drill_schema, dr_id := i, dr_tool := \<lparr>tool_name = ''gitdr'', tool_version = dd_tool d\<rparr>,
      dr_manifest := key, dr_signed := signed, dr_started := started, dr_eligible := int eligible, dr_drilled := int drilled\<rparr>"

definition all_restored :: "drill_repo list \<Rightarrow> bool" where
  "all_restored ps \<longleftrightarrow> (\<forall>p \<in> set ps. dp_status p = status_success)"

definition drill :: "'w drill_deps \<Rightarrow> drill_request \<Rightarrow> ('w, drill_result \<times> goerr option) io" where
  "drill d q =
     bindE (readE (dd_clock d)) (\<lambda>started.
     bindE (load_manifest_for_drill d q started) (\<lambda>(key, m, signed).
     let eligible = eligible_entries m; chosen = chosen_entries (dq_sample q) eligible in
     bindE (new_run_id (dd_rand d) started) (\<lambda>i.
     bindE (drill_each d q key m signed chosen) (\<lambda>ps.
     bindE (readE (dd_clock d)) (\<lambda>finished.
     let ok = all_restored ps;
         rep = (new_report d i key signed started (length eligible) (length chosen))
           \<lparr>dr_repos := ps, dr_finished := finished, dr_status := status_string ok\<rparr>;
         failures = (if ok then [] else [err_drill_failures]) in
     bindE (tryE (upload_drill d rep)) (\<lambda>up. case up of
         Inl e \<Rightarrow> okE (\<lparr>ds_report = rep, ds_key = []\<rparr>, join_errors (failures @ [not_stored e]))
       | Inr k \<Rightarrow> okE (\<lparr>ds_report = rep, ds_key = k\<rparr>, join_errors failures)))))))"

section \<open>Checking a report\<close>

record verify_drill_result =
  vx_key :: string
  vx_signed :: bool
  vx_schema :: string
  vx_id :: string
  vx_manifest :: string
  vx_manifest_signed :: bool
  vx_status :: string
  vx_eligible :: int
  vx_drilled :: int
  vx_failures :: "string list"

definition zero_drill_result :: "string \<Rightarrow> verify_drill_result" where
  "zero_drill_result key = \<lparr>vx_key = key, vx_signed = False, vx_schema = [], vx_id = [], vx_manifest = [], vx_manifest_signed = False,
     vx_status = [], vx_eligible = 0, vx_drilled = 0, vx_failures = []\<rparr>"

definition drill_says :: "string \<Rightarrow> drill_report \<Rightarrow> verify_drill_result" where
  "drill_says key r = \<lparr>vx_key = key, vx_signed = True, vx_schema = dr_schema r, vx_id = dr_id r, vx_manifest = dr_manifest r,
     vx_manifest_signed = dr_signed r, vx_status = dr_status r, vx_eligible = dr_eligible r, vx_drilled = dr_drilled r,
     vx_failures = map (\<lambda>p. dp_slug p @ '': '' @ dp_error p) (filter (\<lambda>p. dp_status p \<noteq> status_success) (dr_repos r))\<rparr>"

definition verify_drill_report :: "'w verify_deps \<Rightarrow> string \<Rightarrow> string \<Rightarrow> verify_drill_result \<times> goerr option" where
  "verify_drill_report v key canon = (let res = (zero_drill_result key)\<lparr>vx_signed := True\<rparr> in
     case unmarshal_report (vd_codec v) canon of
       Inl e \<Rightarrow> (res, Some (wrap_error ''parse drill report'' e))
     | Inr r \<Rightarrow> if dr_schema r \<noteq> drill_schema
         then (res, Some (new_error (key @ '' is a '' @ quote (dr_schema r)
           @ '' document, not a drill report: use `gitdr verify -manifest` for a manifest'')))
         else (drill_says key r, None))"

definition verify_drill :: "'w verify_deps \<Rightarrow> string \<Rightarrow> ('w, verify_drill_result \<times> goerr option) io" where
  "verify_drill v key = (let res = zero_drill_result key in
     bindE (tryE (read_capped (vd_dst v) key max_manifest_bytes)) (\<lambda>r. case r of
       Inl e \<Rightarrow> okE (res, Some (wrap_error ''read drill report'' e))
     | Inr canon \<Rightarrow>
       bindE (tryE (read_capped (vd_dst v) (key @ ''.sig'') max_signature_bytes)) (\<lambda>s. case s of
         Inl e \<Rightarrow> okE (res, Some (wrap_error ''read signature'' e))
       | Inr b64 \<Rightarrow> (case b64_decode (trim_space b64) of
           None \<Rightarrow> okE (res, Some (new_error ''decode signature: illegal base64 data''))
         | Some sig \<Rightarrow>
             if \<not> vd_key v canon sig then okE (res, Some (new_error ''verify: ed25519 signature verification failed''))
             else okE (verify_drill_report v key canon)))))"

section \<open>What a drill says\<close>

text \<open>
  The shape of one repository's outcome: it is under the entry's slug, it succeeded or failed, and
  when it succeeded nothing it compared differed, with the source's refs compared exactly when the
  entry recorded some.
\<close>

definition outcome_ok :: "repo_entry \<Rightarrow> drill_repo \<Rightarrow> bool" where
  "outcome_ok e p \<longleftrightarrow> dp_slug p = en_slug e \<and> dp_source_refs p = int (length (en_refs e))
     \<and> (dp_status p = status_success \<or> dp_status p = status_failed)
     \<and> (dp_status p = status_success \<longrightarrow> dp_error p = [] \<and> dp_mismatches p = []
          \<and> dp_source_match p = (if en_refs e = [] then None else Some True))"

lemma success_not_failed [simp]: "status_failed \<noteq> status_success" "status_success \<noteq> status_failed"
  by (simp_all add: status_failed_def status_success_def)

lemma outcome_failed: "dp_slug p = en_slug e \<Longrightarrow> dp_source_refs p = int (length (en_refs e)) \<Longrightarrow> outcome_ok e (failed_with s p)"
  by (simp add: outcome_ok_def failed_with_def)

lemma outcome_new [simp]: "dp_slug (new_drill_repo e) = en_slug e" "dp_source_refs (new_drill_repo e) = int (length (en_refs e))"
  by (simp_all add: new_drill_repo_def)

lemma outcome_restored:
  "comparison_ok (rr_refs rr) \<Longrightarrow> en_refs e = [] \<Longrightarrow> outcome_ok e (restored_into rr (new_drill_repo e))"
  by (simp add: outcome_ok_def restored_into_def new_drill_repo_def zero_drill_repo_def comparison_ok_def Let_def)

lemma outcome_joined:
  "comparison_ok (rr_refs rr) \<Longrightarrow> en_refs e \<noteq> [] \<Longrightarrow> outcome_ok e (source_joined src (restored_into rr (new_drill_repo e)))"
  by (auto simp: outcome_ok_def source_joined_def failed_with_def restored_into_def new_drill_repo_def zero_drill_repo_def
      comparison_ok_def Let_def split: sum.split)

lemma drill_restored_outcome: "returns (outcome_ok e) (drill_restored d e q (new_drill_repo e))"
  unfolding returns_def
proof
  fix w
  show "\<exists>x w'. drill_restored d e q (new_drill_repo e) w = (Inr x, w') \<and> outcome_ok e x"
  proof (cases "restore (drill_restore_deps d) q w")
    case (Pair res w1)
    show ?thesis
    proof (cases res)
      case (Inl err)
      then show ?thesis using Pair by (simp add: drill_restored_def bindE_tried outcome_failed)
    next
      case (Inr rr)
      then have ok: "comparison_ok (rr_refs rr)" using restore_refs_ok [OF Pair [unfolded Inr]] by simp
      then show ?thesis
        using Pair Inr by (simp add: drill_restored_def bindE_tried outcome_restored outcome_joined)
    qed
  qed
qed

lemma drill_in_outcome: "returns (outcome_ok e) (drill_in d q e place verified (new_drill_repo e))"
  unfolding drill_in_def by (intro returns_rules drill_restored_outcome outcome_failed) simp_all

lemma drill_one_outcome: "returns (outcome_ok e) (drill_one d q key m signed e)"
  unfolding drill_one_def Let_def by (intro returns_rules drill_in_outcome outcome_failed) simp_all

lemma drill_each_outcome: "returns (\<lambda>ps. list_all2 outcome_ok es ps) (drill_each d q key m signed es)"
proof (induction es)
  case (Cons e es)
  show ?case
    unfolding drill_each.simps
    by (rule returns_bind [OF drill_one_outcome], rule returns_bind [OF Cons]) (intro returns_ok, simp)
qed (simp only: drill_each.simps returns_ok list_all2_Nil)

lemma status_string_iff [simp]: "status_string b = status_success \<longleftrightarrow> b"
  by (simp add: status_string_def)

lemma drill_result:
  assumes "drill d q w = (Inr (res, err), w')"
  shows "\<exists>w1 m. load_manifest_for_drill d q (dd_clock d w) w = (Inr (dr_manifest (ds_report res), m, dr_signed (ds_report res)), w1)
    \<and> list_all2 outcome_ok (chosen_entries (dq_sample q) (eligible_entries m)) (dr_repos (ds_report res))
    \<and> dr_eligible (ds_report res) = int (length (eligible_entries m))
    \<and> dr_drilled (ds_report res) = int (length (dr_repos (ds_report res)))
    \<and> (dr_status (ds_report res) = status_success \<longleftrightarrow> all_restored (dr_repos (ds_report res)))
    \<and> (err = None \<longrightarrow> all_restored (dr_repos (ds_report res)))
    \<and> (\<not> all_restored (dr_repos (ds_report res)) \<longrightarrow> (\<exists>e. err = Some e \<and> errors_is e err_drill_failures))"
proof -
  obtain key m signed w1 i w2 ps w3 up w4 where l: "load_manifest_for_drill d q (dd_clock d w) w = (Inr (key, m, signed), w1)"
    and each: "drill_each d q key m signed (chosen_entries (dq_sample q) (eligible_entries m)) w2 = (Inr ps, w3)"
    and up: "(let rep = (new_report d i key signed (dd_clock d w) (length (eligible_entries m))
        (length (chosen_entries (dq_sample q) (eligible_entries m))))
          \<lparr>dr_repos := ps, dr_finished := dd_clock d w3, dr_status := status_string (all_restored ps)\<rparr>;
        failures = (if all_restored ps then [] else [err_drill_failures]) in
        case up of Inl e \<Rightarrow> okE (\<lparr>ds_report = rep, ds_key = []\<rparr>, join_errors (failures @ [not_stored e]))
          | Inr k \<Rightarrow> okE (\<lparr>ds_report = rep, ds_key = k\<rparr>, join_errors failures)) w4 = (Inr (res, err), w')"
    using assms unfolding drill_def Let_def
    by (elim bindE_InrE) (auto elim!: bindE_InrE)
  have rep: "ds_report res = (new_report d i key signed (dd_clock d w) (length (eligible_entries m))
        (length (chosen_entries (dq_sample q) (eligible_entries m))))
      \<lparr>dr_repos := ps, dr_finished := dd_clock d w3, dr_status := status_string (all_restored ps)\<rparr>"
    and err: "\<exists>es. err = join_errors ((if all_restored ps then [] else [err_drill_failures]) @ es)"
    using up unfolding Let_def by (cases up; force)+
  have out: "list_all2 outcome_ok (chosen_entries (dq_sample q) (eligible_entries m)) ps"
    using returnsD [OF drill_each_outcome] each by (metis Pair_inject sum.inject(2))
  then have "length (chosen_entries (dq_sample q) (eligible_entries m)) = length ps" by (rule list_all2_lengthD)
  moreover have "\<not> all_restored ps \<longrightarrow> (\<exists>e. err = Some e \<and> errors_is e err_drill_failures)"
    using err by (auto simp: join_errors_def)
  moreover have "err = None \<longrightarrow> all_restored ps" using err by (auto simp: join_errors_def split: if_splits)
  ultimately show ?thesis
    using l out rep by (intro exI [of _ w1] exI [of _ m]) (simp add: new_report_def)
qed

text \<open>A sample is a first part of the eligible entries, which are in the order of their slugs.\<close>

lemma chosen_first: "\<exists>rest. es = chosen_entries n es @ rest"
  by (auto simp: chosen_entries_def intro: exI [of _ "drop (nat n) es"])

lemma eligible_sorted: "sorted (map en_slug (eligible_entries m))"
  by (simp add: eligible_entries_def)

lemma eligible_set: "set (eligible_entries m) = {e \<in> set (m_repos m). en_status e = status_success}"
  by (simp add: eligible_entries_def)

section \<open>Without a signing key nothing is written\<close>

locale drill_world = restore_world objs "drill_restore_deps d"
  for objs :: "'w \<Rightarrow> (string \<rightharpoonup> string)" and d :: "'w drill_deps" +
  assumes temp_same: "steps_in (same_on objs) (dd_temp_in d dir p)"
    and rand_same: "steps_in (same_on objs) (dd_rand d n)"
begin

lemma drill_one_same: "steps_in (same_on objs) (drill_one d q key m signed e)"
proof -
  have "same_on objs w (remove_all (dd_ws d) p w)" for p w
    using machine by (simp add: machine_steps_def re_git_def drill_restore_deps_def machine.defs)
  then show ?thesis
    unfolding drill_one_def drill_in_def drill_restored_def compare_source_refs_def head_or_empty_def Let_def
    by (intro steps_rules steps_defer restore_same temp_same steps_methods)
qed

lemma drill_each_same: "steps_in (same_on objs) (drill_each d q key m signed es)"
  by (induction es) (simp_all only: drill_each.simps, (intro steps_rules drill_one_same; simp)+)

lemma drill_reads: "reads_steps (same_on objs) (dd_dst d)"
  using reads by (simp add: drill_restore_deps_def)

lemma load_manifest_for_drill_same: "steps_in (same_on objs) (load_manifest_for_drill d q now)"
  unfolding load_manifest_for_drill_def newest_manifest_def Let_def
  by (intro steps_rules steps_load_manifest drill_reads) (use drill_reads in \<open>simp add: reads_steps_def\<close>)

lemma drill_unsigned_same:
  assumes "dd_sign d = None"
  shows "steps_in (same_on objs) (drill d q)"
  unfolding drill_def upload_drill_def new_run_id_def Let_def assms option.case
  by (intro steps_rules load_manifest_for_drill_same drill_each_same rand_same)

end

section \<open>A drill restores what a restore of the same manifest does\<close>

lemma restore_within_fields:
  assumes "rq_host q = rq_host q'" "rq_owner q = rq_owner q'" "rq_name q = rq_name q'" "rq_date q = rq_date q'" "rq_out q = rq_out q'"
  shows "restore_within r q = restore_within r q'"
  unfolding fun_eq_iff restore_within_def fetch_bundle_def restore_lfs_def no_lfs_def assms by (rule allI refl)+

definition named_request :: "string \<Rightarrow> string \<Rightarrow> string \<Rightarrow> string \<Rightarrow> restore_request" where
  "named_request key owner name out = \<lparr>rq_manifest = key, rq_host = [], rq_owner = owner, rq_name = name, rq_date = [],
     rq_out = out, rq_verified = None\<rparr>"

text \<open>The entry a run files: its first artifact that reads as a dated key is its bundle.\<close>

definition filed_as :: "manifest \<Rightarrow> repo_entry \<Rightarrow> string \<times> string \<times> string \<times> string \<Rightarrow> bool" where
  "filed_as m e place \<longleftrightarrow> locate m e = Inr place
     \<and> (case List.find (\<lambda>a. ai_kind a = ''bundle'') (en_artifacts e) of
          None \<Rightarrow> False
        | Some a \<Rightarrow> split_artifact_key (ai_key a) = Some place
            \<and> (case place of (host, owner, name, date) \<Rightarrow> fst (artifact_keys host owner name date)) = ai_key a)"

lemma drill_as_restore:
  assumes load: "load_manifest (dd_codec d) (dd_dst d) (map_option (dd_verify d) (dd_key d)) key w = (Inr m, w1)"
    and k: "dd_key d = Some k" "key \<noteq> []"
    and e: "List.find (\<lambda>e. en_slug e = owner @ ''/'' @ name) (m_repos m) = Some e" "en_status e = status_success"
    and place: "filed_as m e (h, o', n, date)"
  shows "restore (drill_restore_deps d) (named_request key owner name (path_join [dir, n])) w
    = restore (drill_restore_deps d) (drill_request_for (h, o', n, date) dir (Some (drill_checks d key e (h, o', n, date)))) w1"
proof -
  let ?r = "drill_restore_deps d" and ?q = "named_request key owner name (path_join [dir, n])"
  obtain bkey skey lkey where keys: "artifact_keys h o' n date = (bkey, skey, lkey)" by (metis prod_cases3)
  obtain a where a: "List.find (\<lambda>a. ai_kind a = ''bundle'') (en_artifacts e) = Some a"
    "split_artifact_key (ai_key a) = Some (h, o', n, date)" "bkey = ai_key a"
    using place keys by (auto simp: filed_as_def split: option.splits)
  have slug: "request_slug ?q = owner @ ''/'' @ name" by (simp add: request_slug_def named_request_def)
  let ?q' = "?q\<lparr>rq_host := h, rq_owner := o', rq_name := n, rq_date := date\<rparr>"
  have entry: "checks_from_entry key k (owner @ ''/'' @ name) ?q e = Inr (?q', recorded_checks key k e bkey lkey)"
    by (simp add: checks_from_entry_def e(2) a keys Let_def)
  have "checks_from_manifest ?r ?q w = (Inr (?q', recorded_checks key k e bkey lkey), w1)"
    using load k e(1) entry
    by (simp add: checks_from_manifest_def Let_def slug bindE_def re_pub_def drill_restore_deps_def)
      (simp add: named_request_def)
  then have named: "choose_checks ?r ?q w = (Inr (?q', Some (recorded_checks key k e bkey lkey)), w1)"
    using k(2) by (simp add: choose_checks_def bindE_def named_request_def)
  let ?d = "drill_request_for (h, o', n, date) dir (Some (drill_checks d key e (h, o', n, date)))"
  have checks: "drill_checks d key e (h, o', n, date) = recorded_checks key k e bkey lkey"
    by (simp add: drill_checks_def keys k(1))
  have drilled: "choose_checks ?r ?d w1 = (Inr (?d, Some (recorded_checks key k e bkey lkey)), w1)"
    by (simp add: choose_checks_def drill_request_for_def checks) (simp add: drill_restore_deps_def k(1))
  have "restore_within ?r ?q' = restore_within ?r ?d"
    by (rule restore_within_fields) (simp_all add: drill_request_for_def named_request_def)
  then show ?thesis by (simp add: restore_def bindE_def named drilled split: prod.split sum.split)
qed

section \<open>A report reads back\<close>

lemma report_folds:
  "\<not> equal_fold ''sourceRefs'' ''slug''" "\<not> equal_fold ''sourceRefs'' ''status''" "\<not> equal_fold ''sourceRefs'' ''error''"
  "\<not> equal_fold ''bundleRefs'' ''slug''" "\<not> equal_fold ''bundleRefs'' ''status''" "\<not> equal_fold ''bundleRefs'' ''error''" "\<not> equal_fold ''bundleRefs'' ''sourceRefs''"
  "\<not> equal_fold ''restoredRefs'' ''slug''" "\<not> equal_fold ''restoredRefs'' ''status''" "\<not> equal_fold ''restoredRefs'' ''error''" "\<not> equal_fold ''restoredRefs'' ''sourceRefs''" "\<not> equal_fold ''restoredRefs'' ''bundleRefs''"
  "\<not> equal_fold ''unreferenced'' ''slug''" "\<not> equal_fold ''unreferenced'' ''status''" "\<not> equal_fold ''unreferenced'' ''error''" "\<not> equal_fold ''unreferenced'' ''sourceRefs''" "\<not> equal_fold ''unreferenced'' ''bundleRefs''" "\<not> equal_fold ''unreferenced'' ''restoredRefs''"
  "\<not> equal_fold ''sourceMatch'' ''slug''" "\<not> equal_fold ''sourceMatch'' ''status''" "\<not> equal_fold ''sourceMatch'' ''error''" "\<not> equal_fold ''sourceMatch'' ''sourceRefs''" "\<not> equal_fold ''sourceMatch'' ''bundleRefs''" "\<not> equal_fold ''sourceMatch'' ''restoredRefs''" "\<not> equal_fold ''sourceMatch'' ''unreferenced''"
  "\<not> equal_fold ''mismatches'' ''slug''" "\<not> equal_fold ''mismatches'' ''status''" "\<not> equal_fold ''mismatches'' ''error''" "\<not> equal_fold ''mismatches'' ''sourceRefs''" "\<not> equal_fold ''mismatches'' ''bundleRefs''" "\<not> equal_fold ''mismatches'' ''restoredRefs''" "\<not> equal_fold ''mismatches'' ''unreferenced''" "\<not> equal_fold ''mismatches'' ''sourceMatch''"
  by ((rule equal_fold_length, simp; fail) | code_simp)+

lemma report_member_folds:
  "\<not> equal_fold ''drillId'' ''schema''" "\<not> equal_fold ''tool'' ''drillId''"
  "\<not> equal_fold ''manifestKey'' ''schema''" "\<not> equal_fold ''manifestKey'' ''drillId''" "\<not> equal_fold ''manifestKey'' ''tool''"
  "\<not> equal_fold ''manifestSigned'' ''schema''" "\<not> equal_fold ''manifestSigned'' ''drillId''" "\<not> equal_fold ''manifestSigned'' ''tool''" "\<not> equal_fold ''manifestSigned'' ''manifestKey''"
  "\<not> equal_fold ''startedAt'' ''drillId''" "\<not> equal_fold ''startedAt'' ''manifestKey''" "\<not> equal_fold ''startedAt'' ''manifestSigned''"
  "\<not> equal_fold ''finishedAt'' ''drillId''" "\<not> equal_fold ''finishedAt'' ''manifestKey''" "\<not> equal_fold ''finishedAt'' ''manifestSigned''"
  "\<not> equal_fold ''status'' ''drillId''" "\<not> equal_fold ''status'' ''manifestKey''" "\<not> equal_fold ''status'' ''manifestSigned''"
  "\<not> equal_fold ''eligible'' ''schema''" "\<not> equal_fold ''eligible'' ''drillId''" "\<not> equal_fold ''eligible'' ''tool''" "\<not> equal_fold ''eligible'' ''manifestKey''" "\<not> equal_fold ''eligible'' ''manifestSigned''" "\<not> equal_fold ''eligible'' ''startedAt''" "\<not> equal_fold ''eligible'' ''finishedAt''" "\<not> equal_fold ''eligible'' ''status''"
  "\<not> equal_fold ''drilled'' ''schema''" "\<not> equal_fold ''drilled'' ''drillId''" "\<not> equal_fold ''drilled'' ''tool''" "\<not> equal_fold ''drilled'' ''manifestKey''" "\<not> equal_fold ''drilled'' ''manifestSigned''" "\<not> equal_fold ''drilled'' ''startedAt''" "\<not> equal_fold ''drilled'' ''finishedAt''" "\<not> equal_fold ''drilled'' ''status''" "\<not> equal_fold ''drilled'' ''eligible''"
  "\<not> equal_fold ''repos'' ''drillId''" "\<not> equal_fold ''repos'' ''manifestKey''" "\<not> equal_fold ''repos'' ''manifestSigned''" "\<not> equal_fold ''repos'' ''eligible''" "\<not> equal_fold ''repos'' ''drilled''"
  by ((rule equal_fold_length, simp; fail) | code_simp)+

definition outcome_fits :: "drill_repo \<Rightarrow> bool" where
  "outcome_fits p \<longleftrightarrow> in_int64 (dp_source_refs p) \<and> in_int64 (dp_bundle_refs p) \<and> in_int64 (dp_restored_refs p)"

definition report_fits :: "drill_report \<Rightarrow> bool" where
  "report_fits r \<longleftrightarrow> in_int64 (dr_eligible r) \<and> in_int64 (dr_drilled r) \<and> (\<forall>p \<in> set (dr_repos r). outcome_fits p)"

lemma get_strs: "get_arr dec_str (JArr (map JStr ss)) = Inr ss"
  by (simp add: get_arr_def get_all_map dec_str_def)

lemma set_drill_repo_members:
  "set_drill_repo (''slug'', JStr s) p = Inr (p\<lparr>dp_slug := s\<rparr>)"
  "set_drill_repo (''status'', JStr s) p = Inr (p\<lparr>dp_status := s\<rparr>)"
  "in_int64 n \<Longrightarrow> set_drill_repo (''sourceRefs'', JNum n) p = Inr (p\<lparr>dp_source_refs := n\<rparr>)"
  "in_int64 n \<Longrightarrow> set_drill_repo (''bundleRefs'', JNum n) p = Inr (p\<lparr>dp_bundle_refs := n\<rparr>)"
  "in_int64 n \<Longrightarrow> set_drill_repo (''restoredRefs'', JNum n) p = Inr (p\<lparr>dp_restored_refs := n\<rparr>)"
  "set_drill_repo (''sourceMatch'', JBool b) p = Inr (p\<lparr>dp_source_match := Some b\<rparr>)"
  by (simp_all add: set_drill_repo_def report_folds key_folds get_num_def get_bool_def)

lemma set_drill_repo_omit:
  "fold_sum set_drill_repo (omit_str ''error'' s) p = Inr (if s = [] then p else p\<lparr>dp_error := s\<rparr>)"
  "fold_sum set_drill_repo (omit_arr ''unreferenced'' (map JStr ss)) p = Inr (if ss = [] then p else p\<lparr>dp_unreferenced := ss\<rparr>)"
  "fold_sum set_drill_repo (omit_arr ''mismatches'' (map JStr ss)) p = Inr (if ss = [] then p else p\<lparr>dp_mismatches := ss\<rparr>)"
  by (simp_all add: omit_str_def omit_arr_def set_drill_repo_def report_folds key_folds get_strs)

lemma dec_enc_drill_repo: "outcome_fits p \<Longrightarrow> dec_drill_repo (enc_drill_repo p) = Inr p"
  unfolding dec_drill_repo_def enc_drill_repo_def get_obj_def json.case outcome_fits_def
  by (cases p) (simp add: fold_sum_append set_drill_repo_members set_drill_repo_omit zero_drill_repo_def split: option.split)

lemma set_report_members:
  "set_report c (''schema'', JStr s) r = Inr (r\<lparr>dr_schema := s\<rparr>)"
  "set_report c (''drillId'', JStr s) r = Inr (r\<lparr>dr_id := s\<rparr>)"
  "set_report c (''tool'', j) r = map_sum id (\<lambda>t. r\<lparr>dr_tool := t\<rparr>) (get_obj set_tool j (dr_tool r))"
  "set_report c (''manifestKey'', JStr s) r = Inr (r\<lparr>dr_manifest := s\<rparr>)"
  "set_report c (''manifestSigned'', JBool b) r = Inr (r\<lparr>dr_signed := b\<rparr>)"
  "codec_ok c \<Longrightarrow> set_report c (''startedAt'', enc_time c t) r = Inr (r\<lparr>dr_started := t\<rparr>)"
  "codec_ok c \<Longrightarrow> set_report c (''finishedAt'', enc_time c t) r = Inr (r\<lparr>dr_finished := t\<rparr>)"
  "set_report c (''status'', JStr s) r = Inr (r\<lparr>dr_status := s\<rparr>)"
  "in_int64 n \<Longrightarrow> set_report c (''eligible'', JNum n) r = Inr (r\<lparr>dr_eligible := n\<rparr>)"
  "in_int64 n \<Longrightarrow> set_report c (''drilled'', JNum n) r = Inr (r\<lparr>dr_drilled := n\<rparr>)"
  "set_report c (''repos'', j) r = map_sum id (\<lambda>ps. r\<lparr>dr_repos := ps\<rparr>) (get_arr dec_drill_repo j)"
  by (simp_all add: set_report_def report_member_folds member_folds get_time_enc get_num_def get_bool_def)

lemma dec_enc_report: "codec_ok c \<Longrightarrow> report_fits r \<Longrightarrow> dec_report c (enc_report c r) = Inr r"
proof -
  assume c: "codec_ok c" and r: "report_fits r"
  have repos: "get_arr dec_drill_repo (if dr_repos r = [] then JNull else JArr (map enc_drill_repo (dr_repos r))) = Inr (dr_repos r)"
    using r by (auto simp: get_arr_def report_fits_def intro!: get_all_map dec_enc_drill_repo)
  have tool: "get_obj set_tool (JObj [(''name'', JStr (tool_name t)), (''version'', JStr (tool_version t))]) x = Inr t" for t x
    by (cases t) (simp add: get_obj_def set_tool_def manifest_folds)
  have nums: "in_int64 (dr_eligible r)" "in_int64 (dr_drilled r)" using r by (simp_all add: report_fits_def)
  show ?thesis
    unfolding dec_report_def enc_report_def
    by (subst get_obj_def) (simp add: set_report_members c repos tool nums zero_report_def)
qed

text \<open>A stored report, checked with its key, says what it says.\<close>

lemma stored_report_verifies:
  assumes d: "answers (vd_dst v) objs" and c: "codec_ok (vd_codec v)" and r: "report_fits rep" "dr_schema rep = drill_schema"
    and raw: "objs w key = Some (json_print (vd_codec v) (enc_report (vd_codec v) rep))"
      "int (length (json_print (vd_codec v) (enc_report (vd_codec v) rep))) \<le> max_manifest_bytes"
    and sig: "objs w (key @ ''.sig'') = Some (b64_encode sig)" "int (length (b64_encode sig)) \<le> max_signature_bytes"
    and holds: "vd_key v (json_print (vd_codec v) (enc_report (vd_codec v) rep)) sig"
  shows "\<exists>w'. verify_drill v key w = (Inr (drill_says key rep, None), w')"
proof -
  let ?raw = "json_print (vd_codec v) (enc_report (vd_codec v) rep)"
  obtain w1 where r1: "read_capped (vd_dst v) key max_manifest_bytes w = (Inr ?raw, w1)" and o1: "objs w1 = objs w"
    using read_capped_whole [OF d raw] by blast
  obtain w2 where r2: "read_capped (vd_dst v) (key @ ''.sig'') max_signature_bytes w1 = (Inr (b64_encode sig), w2)"
    using read_capped_whole [OF d] sig o1 by metis
  have "unmarshal_report (vd_codec v) ?raw = Inr rep"
    using c dec_enc_report [OF c r(1)] by (simp add: unmarshal_report_def codec_ok_def)
  then have "verify_drill_report v key ?raw = (drill_says key rep, None)" using r(2) by (simp add: verify_drill_report_def)
  then show ?thesis
    using r1 r2 holds by (simp add: verify_drill_def Let_def bindE_tried trim_b64 b64_round_trip)
qed

end
