(* ===== verification/Lab_Restore.thy ===== *)
theory Lab_Restore
  imports Lab_Run Drill
begin

text \<open>
  Concrete restores and drills in the world of the theory Lab: a bucket that holds one copy, its
  checksum sidecar and the signed manifest that records it, and a disk whose restored tree is empty.
\<close>

definition restore_workspace :: "lab workspace" where
  "restore_workspace = lab_workspace\<lparr>read_tree := (\<lambda>p w. Some (Dir []))\<rparr>"

definition kept_manifest :: json where
  "kept_manifest = JObj [(''schema'', JStr ''gitdr.manifest/v2''), (''finishedAt'', JStr ''t''),
     (''repos'', JArr [JObj [(''slug'', JStr ''o/r''), (''status'', JStr ''success''),
       (''artifacts'', JArr [JObj [(''kind'', JStr ''bundle''), (''key'', JStr ''h/o/r/2025-06-15/r.bundle''), (''size'', JNum 1), (''sha256'', JStr ''42'')]]),
       (''refs'', JArr [JObj [(''name'', JStr ''refs/heads/main''), (''commit'', JStr ''0a'')]])]])]"

definition kept_entry :: repo_entry where
  "kept_entry = zero_entry\<lparr>en_slug := ''o/r'', en_status := ''success'',
     en_artifacts := [\<lparr>ai_kind = ''bundle'', ai_key = ''h/o/r/2025-06-15/r.bundle'', ai_size = 1, ai_sha256 = ''42'', ai_until = time_zero\<rparr>],
     en_refs := [\<lparr>re_name = ''refs/heads/main'', re_commit = ''0a''\<rparr>]\<rparr>"

definition kept_run :: manifest where
  "kept_run = zero_manifest\<lparr>m_schema := ''gitdr.manifest/v2'', m_finished := 1749999000 * second, m_repos := [kept_entry]\<rparr>"

definition lab_held :: lab where
  "lab_held = \<lparr>lab_store = [(''h/o/r/2025-06-15/r.bundle'', ''B''), (''h/o/r/2025-06-15/r.sha256'', ''42  r.bundle''),
     (old_key, ''m''), (old_key @ ''.sig'', old_signature)], lab_files = (\<lambda>p. None)\<rparr>"

definition lab_restore_deps :: "string option \<Rightarrow> lab restore_deps" where
  "lab_restore_deps k = \<lparr>re_dst = lab_destination VerdictImmutable, re_ws = restore_workspace, re_enc_key = None, re_key = k,
     re_verify = (\<lambda>k m s. s = ''signed''), re_codec = tiny_codec kept_manifest, re_sha = (\<lambda>b. hex_encode (take 32 b)),
     re_aead = lab_aead, re_ctx = (\<lambda>w. None)\<rparr>"

lemma lab_re_git: "re_git (lab_restore_deps k) = machine.truncate lab_workspace"
  by (simp add: re_git_def lab_restore_deps_def restore_workspace_def lab_workspace_def machine.defs)

interpretation lab_restore_git: git_frame "same_on lab_objs" "re_git (lab_restore_deps k)" for k
  by unfold_locales (simp add: machine_steps_def lab_re_git lab_workspace_def machine.defs steps_in_def same_on_def lab_objs_def)

lemma lab_disk_steps: "disk_steps (same_on lab_objs) (re_ws (lab_restore_deps k))"
  by (auto simp: disk_steps_def lab_restore_deps_def restore_workspace_def lab_workspace_def steps_in_def same_on_def lab_objs_def
      split: option.splits)

interpretation lab_restores: restore_world lab_objs "lab_restore_deps k" for k
  unfolding restore_world_def restore_world_axioms_def
  using lab_restore_git.git_frame_axioms lab_store.create_only_axioms lab_disk_steps by (simp add: lab_restore_deps_def)

interpretation lab_restore: restore_disk lab_objs "lab_restore_deps k" lab_files for k
  by unfold_locales
    (auto simp: lab_restore_deps_def restore_workspace_def lab_workspace_def lab_destination_def steps_in_def same_on_def
      split: option.splits)

section \<open>Restoring from the named manifest\<close>

lemma lab_held_objs: "lab_objs lab_held old_key = Some ''m''" "lab_objs lab_held (old_key @ ''.sig'') = Some old_signature"
  "lab_objs lab_held ''h/o/r/2025-06-15/r.bundle'' = Some ''B''" "lab_objs lab_held ''h/o/r/2025-06-15/r.sha256'' = Some ''42  r.bundle''"
  by (simp_all add: lab_objs_def lab_held_def old_key_def)

lemma kept_unmarshals: "unmarshal_manifest (tiny_codec kept_manifest) raw = Inr kept_run"
  by code_simp

lemma kept_fits: "check_manifest_head old_key (m_schema kept_run) (m_finished kept_run) = None"
  by code_simp

lemma lab_read_kept:
  "read_manifest_bytes (lab_destination v) (Some (\<lambda>m s. s = ''signed'')) old_key lab_held = (Inr ''m'', lab_held)"
  using signed_size
  by (simp add: read_manifest_bytes_def read_capped_def bindE_step mapErrE_def lab_get lab_held_objs
      max_manifest_bytes_def max_signature_bytes_def old_signed Let_def cong: frozen)

lemma lab_load_kept:
  "load_manifest (tiny_codec kept_manifest) (lab_destination v) (Some (\<lambda>m s. s = ''signed'')) old_key lab_held = (Inr kept_run, lab_held)"
  by (simp add: load_manifest_def bindE_step mapErrE_def lab_read_kept kept_unmarshals kept_fits cong: frozen)

definition kept_checks :: restore_checks where
  "kept_checks = \<lparr>rk_manifest = old_key, rk_bundle = ''42'', rk_lfs = [], rk_pub = ''pub''\<rparr>"

definition kept_request :: "restore_checks option \<Rightarrow> restore_request" where
  "kept_request c = \<lparr>rq_manifest = [], rq_host = ''h'', rq_owner = ''o'', rq_name = ''r'', rq_date = ''2025-06-15'', rq_out = ''/out/r'',
     rq_verified = c\<rparr>"

lemma kept_chosen:
  "checks_from_entry old_key ''pub'' ''o/r'' (named_request old_key ''o'' ''r'' ''/out/r'') kept_entry
    = Inr ((kept_request None)\<lparr>rq_manifest := old_key\<rparr>, kept_checks)"
  "List.find (\<lambda>e. en_slug e = ''o/r'') (m_repos kept_run) = Some kept_entry" "old_key \<noteq> []"
  by code_simp+

lemma lab_choose:
  "choose_checks (lab_restore_deps (Some ''pub'')) (named_request old_key ''o'' ''r'' ''/out/r'') lab_held
    = (Inr ((kept_request None)\<lparr>rq_manifest := old_key\<rparr>, Some kept_checks), lab_held)"
proof -
  let ?r = "lab_restore_deps (Some ''pub'')" and ?q = "named_request old_key ''o'' ''r'' ''/out/r''"
  have r: "re_key ?r = Some ''pub''" "re_codec ?r = tiny_codec kept_manifest" "re_dst ?r = lab_destination VerdictImmutable"
    "re_pub ?r = Some (\<lambda>m s. s = ''signed'')" by (simp_all add: lab_restore_deps_def re_pub_def)
  have q: "rq_manifest ?q = old_key" "rq_host ?q = []" "rq_date ?q = []" "rq_verified ?q = None" "request_slug ?q = ''o/r''"
    by (simp_all add: named_request_def request_slug_def)
  show ?thesis
    by (simp add: choose_checks_def checks_from_manifest_def bindE_step Let_def r q lab_load_kept kept_chosen cong: frozen)
qed

lemma kept_keys: "artifact_keys ''h'' ''o'' ''r'' ''2025-06-15'' =
    (''h/o/r/2025-06-15/r.bundle'', ''h/o/r/2025-06-15/r.sha256'', ''h/o/r/2025-06-15/r.lfs.tar'')"
  "file_join ''/tmp/gitdr-restore-'' ''r.bundle.stored'' = ''/tmp/gitdr-restore-/r.bundle.stored''"
  "str_fields (take sidecar_limit ''42  r.bundle'') = [''42'', ''r.bundle'']"
  "hex_encode ''B'' = ''42''" "equal_fold ''42'' ''42''" "is_encrypted (take 8 ''B'') = False"
  by code_simp+

abbreviation lab_git_of :: "lab machine" where
  "lab_git_of \<equiv> git (lab_deps VerdictImmutable lab_codec None)"

lemma lab_re_machine: "re_git (lab_restore_deps k) = lab_git_of"
  by (simp add: lab_re_git lab_git)

definition lab_refs_compared :: ref_comparison where
  "lab_refs_compared = \<lparr>rc_declared = 2, rc_matched = 2, rc_unreferenced = [], rc_mismatches = []\<rparr>"

lemma lab_list_refs: "list_refs lab_git_of d w = (Inr [(''refs/heads/main'', ''0a'')], w)"
  by (simp add: list_refs_def git_output_def bindE_step mapErrE_def lab_says lab_parses cong: frozen)

lemma lab_head_or_empty: "head_or_empty lab_git_of d w = (Inr ''0a'', w)"
proof -
  have "trim_space ''0a'' = ''0a''" "is_hex ''0a''" by code_simp+
  then show ?thesis
    by (simp add: head_or_empty_def head_oid_def git_output_def bindE_step tryE_apply mapErrE_def lab_says lab_git_says_def Let_def cong: frozen)
qed

lemma lab_compared:
  "compare_restored_refs lab_git_of p d w = (Inr lab_refs_compared, w)"
proof -
  have "compare_refs [\<lparr>bref_name = ''refs/heads/main'', bref_oid = ''0a''\<rparr>, \<lparr>bref_name = ''HEAD'', bref_oid = ''0a''\<rparr>]
      [(''refs/heads/main'', ''0a'')] ''0a'' = lab_refs_compared" by code_simp
  then show ?thesis
    by (simp add: compare_restored_refs_def bindE_step lab_heads lab_list_refs lab_head_or_empty cong: frozen)
qed

lemma lab_clone_checked: "clone_checked (lab_restore_deps k) key p d w = (Inr (lab_refs_compared, True), w)"
proof -
  have "comparison_ok lab_refs_compared" by code_simp
  then show ?thesis
    by (simp add: clone_checked_def bundle_verify_def with_scratch_repo_def clone_from_bundle_def head_resolves_def bindE_step mapErrE_def deferE_def
        lab_re_machine lab_says lab_remove lab_head lab_compared cong: frozen)
qed

definition lab_fetched :: lab where
  "lab_fetched = lab_held\<lparr>lab_files := (\<lambda>p. None)(''/tmp/gitdr-restore-/r.bundle.stored'' \<mapsto> ''B'')\<rparr>"

lemma lab_fetch:
  assumes "rq_host q = ''h''" "rq_owner q = ''o''" "rq_name q = ''r''" "rq_date q = ''2025-06-15''"
  shows "fetch_bundle (lab_restore_deps (Some ''pub'')) q (Some kept_checks) ''/tmp/gitdr-restore-'' lab_held
    = (Inr (''42'', ''/tmp/gitdr-restore-/r.bundle.stored''), lab_fetched)"
proof -
  let ?r = "lab_restore_deps (Some ''pub'')"
  have r: "re_dst ?r = lab_destination VerdictImmutable" "re_ws ?r = restore_workspace" "re_enc_key ?r = None" "re_ctx ?r = (\<lambda>w. None)"
    "re_sha ?r = (\<lambda>b. hex_encode (take 32 b))" by (simp_all add: lab_restore_deps_def)
  have ws: "open_file restore_workspace p w = (case lab_files w p of
          None \<Rightarrow> (Inl (new_error ''no such file''), w)
        | Some b \<Rightarrow> (Inr \<lparr>body_bytes = b, body_err = None\<rparr>, w))"
    "write_file restore_workspace p b w = (Inr (), w\<lparr>lab_files := (lab_files w)(p \<mapsto> b)\<rparr>)"
    "append_file restore_workspace p b w = (Inr (), w\<lparr>lab_files := (lab_files w)(p \<mapsto> (case lab_files w p of None \<Rightarrow> [] | Some a \<Rightarrow> a) @ b)\<rparr>)"
    for p b w by (simp_all add: restore_workspace_def lab_workspace_def)
  have objs: "lab_objs (w\<lparr>lab_files := f\<rparr>) = lab_objs w" for w f by (simp add: lab_objs_def)
  have c: "rk_bundle kept_checks = ''42''" by (simp add: kept_checks_def)
  have f: "lab_files lab_held = (\<lambda>p. None)" by (simp add: lab_held_def)
  show ?thesis
    by (simp add: fetch_bundle_def download_to_file_def refuse_encrypted_def file_is_encrypted_def read_sha_sidecar_def file_sha_def opened_def
        ctx_body_def bindE_step mapErrE_def Let_def r ws assms kept_keys lab_get objs lab_held_objs c f lab_fetched_def cong: frozen)
qed

lemma lab_restored:
  assumes "rq_host q = ''h''" "rq_owner q = ''o''" "rq_name q = ''r''" "rq_date q = ''2025-06-15''"
  shows "\<exists>res. restore_within (lab_restore_deps (Some ''pub'')) q (Some kept_checks) ''/tmp/gitdr-restore-'' lab_held
      = (Inr res, lab_fetched) \<and> rr_bundle res = ''h/o/r/2025-06-15/r.bundle'' \<and> rr_sha res = ''42'' \<and> rr_refs res = lab_refs_compared"
proof -
  let ?r = "lab_restore_deps (Some ''pub'')"
  have r: "re_dst ?r = lab_destination VerdictImmutable" "re_ws ?r = restore_workspace" "re_ctx ?r = (\<lambda>w. None)" by (simp_all add: lab_restore_deps_def)
  have li: "list_objects (lab_destination VerdictImmutable) ''h/o/r/2025-06-15/r.lfs.tar'' lab_fetched = (Inr [], lab_fetched)"
    by (simp add: lab_destination_def lab_fetched_def lab_held_def old_key_def has_prefix_def)
  have ptr: "lfs_pointers restore_workspace (\<lambda>w. None) d w = (Inr [], w)" for d w
    by (simp add: lfs_pointers_def bindE_step mapErrE_def restore_workspace_def)
  have c: "rk_lfs kept_checks = []" by (simp add: kept_checks_def)
  show ?thesis
    by (simp add: restore_within_def assms kept_keys lab_fetch [OF assms] lab_clone_checked bindE_step tryE_apply li lfs_disagree_def lfs_stored_def
        no_lfs_def mapErrE_def r ptr c cong: frozen)
qed

lemma lab_restore_named:
  "\<exists>res w'. restore (lab_restore_deps (Some ''pub'')) (named_request old_key ''o'' ''r'' ''/out/r'') lab_held = (Inr res, w')
     \<and> rr_bundle res = ''h/o/r/2025-06-15/r.bundle'' \<and> rr_sha res = ''42''"
proof -
  let ?q = "(kept_request None)\<lparr>rq_manifest := old_key\<rparr>"
  have q: "rq_host ?q = ''h''" "rq_owner ?q = ''o''" "rq_name ?q = ''r''" "rq_date ?q = ''2025-06-15''" by (simp_all add: kept_request_def)
  obtain res where res: "restore_within (lab_restore_deps (Some ''pub'')) ?q (Some kept_checks) ''/tmp/gitdr-restore-'' lab_held = (Inr res, lab_fetched)"
    and out: "rr_bundle res = ''h/o/r/2025-06-15/r.bundle''" "rr_sha res = ''42''" using lab_restored [OF q] by blast
  have r: "mkdir_temp (re_ws (lab_restore_deps (Some ''pub''))) p w = (Inr (''/tmp/'' @ p), w)"
    "remove_all (re_ws (lab_restore_deps (Some ''pub''))) p w = w" for p w
    by (simp_all add: lab_restore_deps_def restore_workspace_def lab_workspace_def)
  have "restore (lab_restore_deps (Some ''pub'')) (named_request old_key ''o'' ''r'' ''/out/r'') lab_held = (Inr res, lab_fetched)"
    by (simp add: restore_def bindE_step mapErrE_def deferE_def lab_choose r res cong: frozen)
  with out show ?thesis by blast
qed

section \<open>A drill\<close>

definition lab_drill_deps :: "(string \<Rightarrow> string) option \<Rightarrow> lab drill_deps" where
  "lab_drill_deps sign = \<lparr>dd_dst = lab_destination VerdictImmutable, dd_ws = restore_workspace,
     dd_temp_in = (\<lambda>dir p. okE (dir @ ''/'' @ p)), dd_enc_key = None, dd_key = Some ''pub'', dd_verify = (\<lambda>k m s. s = ''signed''),
     dd_sign = sign, dd_days = 0, dd_mode = [], dd_tool = ''test'', dd_codec = tiny_codec kept_manifest,
     dd_sha = (\<lambda>b. hex_encode (take 32 b)), dd_aead = lab_aead, dd_rand = zeros, dd_clock = (\<lambda>w. 1750000000 * second),
     dd_ctx = (\<lambda>w. None), dd_sleep = (\<lambda>d. okE ())\<rparr>"

lemma lab_drill_restores: "drill_restore_deps (lab_drill_deps sign) = lab_restore_deps (Some ''pub'')"
  by (simp add: drill_restore_deps_def lab_drill_deps_def lab_restore_deps_def)

interpretation lab_drills: drill_world lab_objs "lab_drill_deps sign" for sign
  unfolding drill_world_def drill_world_axioms_def lab_drill_restores
  using lab_restores.restore_world_axioms by (simp add: lab_drill_deps_def zeros_def same.steps_ok del: okE_apply)

definition lab_drill_request :: drill_request where
  "lab_drill_request = \<lparr>dq_manifest = old_key, dq_host = [], dq_owner = [], dq_sample = 0, dq_workdir = ''/work''\<rparr>"

lemma kept_located:
  "locate kept_run kept_entry = Inr (''h'', ''o'', ''r'', ''2025-06-15'')"
  "chosen_entries 0 [kept_entry] = [kept_entry]" "eligible_entries kept_run = [kept_entry]"
  "recorded_checks old_key ''pub'' kept_entry ''h/o/r/2025-06-15/r.bundle'' ''h/o/r/2025-06-15/r.lfs.tar'' = kept_checks"
  "rk_bundle kept_checks \<noteq> []" "en_refs kept_entry \<noteq> []" "entries_to_refs (en_refs kept_entry) = [(''refs/heads/main'', ''0a'')]"
  "filed_as kept_run kept_entry (''h'', ''o'', ''r'', ''2025-06-15'')"
  by code_simp+

lemma lab_drill_restore:
  "\<exists>res. restore (lab_restore_deps (Some ''pub'')) (drill_request_for (''h'', ''o'', ''r'', ''2025-06-15'') dir (Some kept_checks)) lab_held
     = (Inr res, lab_fetched) \<and> rr_refs res = lab_refs_compared"
proof -
  let ?q = "drill_request_for (''h'', ''o'', ''r'', ''2025-06-15'') dir (Some kept_checks)"
  have q: "rq_host ?q = ''h''" "rq_owner ?q = ''o''" "rq_name ?q = ''r''" "rq_date ?q = ''2025-06-15''" "rq_verified ?q = Some kept_checks"
    by (simp_all add: drill_request_for_def)
  obtain res where res: "restore_within (lab_restore_deps (Some ''pub'')) ?q (Some kept_checks) ''/tmp/gitdr-restore-'' lab_held = (Inr res, lab_fetched)"
    and out: "rr_refs res = lab_refs_compared" using lab_restored [OF q(1-4)] by blast
  have r: "mkdir_temp (re_ws (lab_restore_deps (Some ''pub''))) p w = (Inr (''/tmp/'' @ p), w)"
    "remove_all (re_ws (lab_restore_deps (Some ''pub''))) p w = w" "re_key (lab_restore_deps (Some ''pub'')) = Some ''pub''" for p w
    by (simp_all add: lab_restore_deps_def restore_workspace_def lab_workspace_def)
  have k: "rk_pub kept_checks = ''pub''" by (simp add: kept_checks_def)
  have "restore (lab_restore_deps (Some ''pub'')) ?q lab_held = (Inr res, lab_fetched)"
    by (simp add: restore_def choose_checks_def q k bindE_step mapErrE_def deferE_def r res cong: frozen)
  with out show ?thesis by blast
qed

lemma lab_source_compared:
  "\<exists>c. compare_source_refs lab_git_of [(''refs/heads/main'', ''0a'')] d w = (Inr c, w) \<and> comparison_ok c"
proof -
  have "comparison_ok (compare_refs [\<lparr>bref_name = ''refs/heads/main'', bref_oid = ''0a''\<rparr>] [(''refs/heads/main'', ''0a'')] ''0a'')" by code_simp
  then show ?thesis
    by (simp add: compare_source_refs_def bindE_step lab_list_refs lab_head_or_empty cong: frozen)
qed

lemma lab_drill_one:
  "\<exists>p. drill_one (lab_drill_deps sign) lab_drill_request old_key kept_run True kept_entry lab_held = (Inr p, lab_fetched)
     \<and> dp_status p = status_success"
proof -
  let ?d = "lab_drill_deps sign"
  have d: "dd_key ?d = Some ''pub''" "dd_temp_in ?d = (\<lambda>dir p. okE (dir @ ''/'' @ p))" "dq_workdir lab_drill_request = ''/work''"
    "remove_all (dd_ws ?d) p w = w" for p w
    by (simp_all add: lab_drill_deps_def lab_drill_request_def restore_workspace_def lab_workspace_def)
  obtain res where res: "restore (lab_restore_deps (Some ''pub''))
      (drill_request_for (''h'', ''o'', ''r'', ''2025-06-15'') ''/work/gitdr-drill-'' (Some kept_checks)) lab_held = (Inr res, lab_fetched)"
    and out: "rr_refs res = lab_refs_compared" using lab_drill_restore by blast
  obtain c where c: "compare_source_refs lab_git_of [(''refs/heads/main'', ''0a'')]
      (rq_out (drill_request_for (''h'', ''o'', ''r'', ''2025-06-15'') ''/work/gitdr-drill-'' (Some kept_checks))) lab_fetched = (Inr c, lab_fetched)"
    and ok: "comparison_ok c" using lab_source_compared by blast
  have checks: "drill_checks ?d old_key kept_entry (''h'', ''o'', ''r'', ''2025-06-15'') = kept_checks"
    by (simp add: drill_checks_def kept_keys kept_located d)
  show ?thesis
    by (simp add: drill_one_def drill_in_def drill_restored_def Let_def kept_located checks bindE_step tryE_apply deferE_def d lab_drill_restores
        res c lab_re_machine source_joined_def ok restored_into_def new_drill_repo_def cong: frozen)
qed

lemma lab_drill:
  "\<exists>res. drill (lab_drill_deps None) lab_drill_request lab_held = (Inr (res, None), lab_fetched) \<and> dr_manifest (ds_report res) = old_key
     \<and> dr_signed (ds_report res)"
proof -
  let ?d = "lab_drill_deps None"
  have d: "dd_key ?d = Some ''pub''" "dd_dst ?d = lab_destination VerdictImmutable" "dd_codec ?d = tiny_codec kept_manifest" "dd_sign ?d = None"
    "dd_verify ?d ''pub'' = (\<lambda>m s. s = ''signed'')" "dq_manifest lab_drill_request = old_key" "dq_sample lab_drill_request = 0" "dd_rand ?d = zeros"
    by (simp_all add: lab_drill_deps_def lab_drill_request_def)
  obtain p where p: "drill_one ?d lab_drill_request old_key kept_run True kept_entry lab_held = (Inr p, lab_fetched)" "dp_status p = status_success"
    using lab_drill_one by blast
  have l: "load_manifest_for_drill ?d lab_drill_request t lab_held = (Inr (old_key, kept_run, True), lab_held)" for t
    by (simp add: load_manifest_for_drill_def bindE_step d kept_chosen lab_load_kept cong: frozen)
  have i: "\<exists>i. new_run_id zeros t w = (Inr i, w)" for t and w :: lab
    by (simp add: new_run_id_def zeros_def bindE_step tryE_apply)
  obtain i where i: "new_run_id zeros (dd_clock ?d lab_held) lab_held = (Inr i, lab_held)" using i by blast
  show ?thesis
    by (simp add: drill_def bindE_step tryE_apply l Let_def d kept_located p i all_restored_def upload_drill_def join_errors_def new_report_def
        cong: frozen)
qed

end
