(* ===== verification/Read_Back.thy ===== *)
theory Read_Back
  imports Lab_Restore
begin

text \<open>
  What a run files, read back by the commands that check it: the manifest of a run that succeeded
  verifies, and concrete verifies in the world of the theory Lab.
\<close>

context checked_run
begin

lemma end_run_schema: "ensures (\<lambda>(res, err) w. m_schema (br_manifest res) = manifest_schema) (end_run r started repos st ret es)"
  unfolding end_run_def Let_def by (intro ensures_rules) simp_all

lemma run_verifies:
  assumes run: "backup_run r w = (Inr (res, None), w')"
    and d: "answers (vd_dst v) objs" and order: "\<And>n. set (vd_order v n) = {..<n}"
    and c: "codec_ok (bk_codec r)" "vd_codec v = bk_codec r" "vd_sha v = bk_sha r" and holds: "\<And>x. vd_key v x (bk_sign r x)"
    and m: "manifest_ok (br_manifest res)"
    and size: "int (length (canonical (bk_codec r) (br_manifest res))) \<le> max_manifest_bytes"
      "int (length (b64_encode (bk_sign r (canonical (bk_codec r) (br_manifest res))))) \<le> max_signature_bytes"
  shows "\<exists>w''. verify v (br_key res) w' = (Inr (\<lparr>vr_key = br_key res, vr_signed = True,
      vr_checked = length (listed_artifacts (m_repos (br_manifest res))),
      vr_ok = length (listed_artifacts (m_repos (br_manifest res))), vr_failures = []\<rparr>, None), w'')"
proof -
  let ?raw = "canonical (bk_codec r) (br_manifest res)"
  obtain repos st ret es w2 where e: "end_run r (bk_clock r w) repos st ret es w2 = (Inr (res, None), w')"
    using run by (auto simp: backup_run_def bindE_Inr)
  obtain w1 where up: "upload_manifest r (br_manifest res) (manifest_dir repos) ret w1 = (Inr (br_key res), w')"
    using end_run_success [OF e] by blast
  note stored = uploaded_manifest_stored [OF fin.create_only_axioms up]
  have schema: "a_manifest_schema (m_schema (br_manifest res))" using ensuresD [OF end_run_schema e] by (simp add: a_manifest_schema_def)
  have "unmarshal_manifest (vd_codec v) ?raw = Inr (br_manifest res)" using unmarshal_canonical [OF c(1) m] c(2) by simp
  moreover have "all_stored (vd_sha v) (objs w') (m_repos (br_manifest res))" using run_stored [OF run] c(3) by simp
  ultimately show ?thesis
    using stored_manifest_verifies [OF d order stored(2) size(1) stored(3) size(2) holds _ schema] by blast
qed

end

section \<open>Concrete verifies\<close>

definition lab_verify_deps :: "lab verify_deps" where
  "lab_verify_deps = \<lparr>vd_dst = lab_destination VerdictImmutable, vd_key = (\<lambda>m s. s = ''signed''), vd_codec = tiny_codec kept_manifest,
     vd_sha = (\<lambda>b. hex_encode (take 32 b)), vd_order = (\<lambda>n. [0..<n])\<rparr>"

lemma lab_verify_fields:
  "vd_dst lab_verify_deps = lab_destination VerdictImmutable" "vd_codec lab_verify_deps = tiny_codec kept_manifest"
  "vd_sha lab_verify_deps = (\<lambda>b. hex_encode (take 32 b))" "vd_order lab_verify_deps = (\<lambda>n. [0..<n])"
  "vd_key lab_verify_deps = (\<lambda>m s. s = ''signed'')"
  by (simp_all add: lab_verify_deps_def)

lemma kept_listed: "listed_artifacts (m_repos kept_run) = en_artifacts kept_entry"
  by code_simp

lemma kept_stored: "all_stored (\<lambda>b. hex_encode (take 32 b)) (lab_objs lab_held) (m_repos kept_run)"
proof -
  have "m_repos kept_run = [kept_entry]" "map (\<lambda>a. (ai_key a, ai_sha256 a)) (en_artifacts kept_entry) = [(''h/o/r/2025-06-15/r.bundle'', ''42'')]"
    "hex_encode (take 32 ''B'') = ''42''" by code_simp+
  then show ?thesis
    by (auto simp: all_stored_def entry_stored_def stored_artifact_def lab_held_objs kept_entry_def zero_entry_def)
qed

lemma lab_verify:
  "\<exists>res w'. verify lab_verify_deps old_key lab_held = (Inr (res, None), w')"
proof -
  have fits: "int (length ''m'') \<le> max_manifest_bytes" "int (length old_signature) \<le> max_signature_bytes"
    using signed_size by (simp_all add: max_manifest_bytes_def max_signature_bytes_def)
  have m: "unmarshal_manifest (vd_codec lab_verify_deps) ''m'' = Inr kept_run" "a_manifest_schema (m_schema kept_run)"
    unfolding lab_verify_fields kept_unmarshals by (rule refl, code_simp)
  have sig: "old_signature = b64_encode ''signed''" by code_simp
  have stored: "lab_objs lab_held (old_key @ ''.sig'') = Some (b64_encode ''signed'')" using lab_held_objs(2) sig by simp
  show ?thesis
    using stored_manifest_verifies [where v = lab_verify_deps and objs = lab_objs and w = lab_held and key = old_key,
        OF _ _ lab_held_objs(1) fits(1) stored _ _ m] lab_answers kept_stored fits sig
    by (fastforce simp: lab_verify_fields atLeast_upt)
qed

lemma lab_steady: "steady (vd_dst lab_verify_deps) lab_objs (lab_objs lab_held)
    (\<lambda>k. case lab_objs lab_held k of None \<Rightarrow> Inl (new_error ''no such key'') | Some b \<Rightarrow> Inr \<lparr>body_bytes = b, body_err = None\<rparr>)"
  by (auto simp: steady_def lab_verify_fields lab_destination_def split: option.split)

abbreviation lab_short :: codec where
  "lab_short \<equiv> short_codec (enc_manifest lab_codec lab_run_manifest)"

lemma lab_run_signature: "length (b64_encode ''signed'') = 8" by code_simp

lemma lab_short_facts:
  "codec_ok lab_short" "manifest_ok lab_run_manifest" "length (listed_artifacts (m_repos lab_run_manifest)) = 3"
  "int (length (canonical lab_short lab_run_manifest)) \<le> max_manifest_bytes"
  "int (length (b64_encode ''signed'')) \<le> max_signature_bytes"
proof -
  show "codec_ok lab_short" by (rule short_codec_ok)
  show "manifest_ok lab_run_manifest" by code_simp
  show "length (listed_artifacts (m_repos lab_run_manifest)) = 3" by code_simp
  show "int (length (canonical lab_short lab_run_manifest)) \<le> max_manifest_bytes"
    by (simp add: short_print max_manifest_bytes_def)
  show "int (length (b64_encode ''signed'')) \<le> max_signature_bytes" by (simp add: lab_run_signature max_signature_bytes_def)
qed

lemma lab_deps_fields:
  "bk_codec (lab_deps v c ek) = c" "bk_sign (lab_deps v c ek) = (\<lambda>m. ''signed'')" "bk_sha (lab_deps v c ek) = (\<lambda>b. hex_encode (take 32 b))"
  by (simp_all add: lab_deps_def)

section \<open>A stored report\<close>

definition lab_report :: drill_report where
  "lab_report = zero_report\<lparr>dr_schema := drill_schema, dr_manifest := old_key, dr_signed := True, dr_status := status_failed,
     dr_eligible := 2, dr_drilled := 1, dr_repos := [zero_drill_repo\<lparr>dp_slug := ''o/r'', dp_status := status_failed, dp_error := ''gone''\<rparr>]\<rparr>"

definition lab_reported :: lab where
  "lab_reported = \<lparr>lab_store = [(''k'', ''m''), (''k.sig'', b64_encode ''signed'')], lab_files = (\<lambda>p. None)\<rparr>"

lemma short_enc_report: "enc_report (short_codec j) = enc_report lab_codec"
proof -
  have t: "enc_time (short_codec j) = enc_time lab_codec" by (simp add: fun_eq_iff enc_time_def short_codec_def)
  show ?thesis by (simp add: fun_eq_iff enc_report_def t)
qed

lemma lab_report_facts:
  "report_fits lab_report" "dr_schema lab_report = drill_schema"
  "json_print (short_codec (enc_report lab_codec lab_report)) (enc_report (short_codec (enc_report lab_codec lab_report)) lab_report) = ''m''"
  "lab_objs lab_reported ''k'' = Some ''m''" "lab_objs lab_reported ''k.sig'' = Some (b64_encode ''signed'')"
  "length (b64_encode ''signed'') = 8"
proof -
  show "report_fits lab_report" by code_simp
  show "dr_schema lab_report = drill_schema" by (simp add: lab_report_def)
  show "json_print (short_codec (enc_report lab_codec lab_report)) (enc_report (short_codec (enc_report lab_codec lab_report)) lab_report) = ''m''"
    unfolding short_enc_report by (simp add: short_codec_def)
qed (simp_all add: lab_objs_def lab_reported_def lab_run_signature)

end
