(* ===== verification/FanOut.thy ===== *)
theory FanOut
  imports Total
begin

text \<open>
  src/internal/pipeline/backup.go, fanOut: the repositories of a run in flight at once. Each step is
  one thing the loop, a repository or the context does; any order they can happen in is a run of
  \<open>fan_step\<close>. What a repository does is its writes and the entry it returns; the sequential
  \<open>fan_out\<close> of the theory Run is one of these executions (\<open>fan_out_executes\<close>).
\<close>

section \<open>The state and its steps\<close>

text \<open>Where the function is: in its loop, in its first select, in its second, or returned.\<close>

datatype fan_phase = Starting | Waiting | Grace | Returned

text \<open>
  \<open>fa_running\<close> are the repositories started and not settled by their own return, \<open>fa_held\<close> those
  whose slot of the semaphore is taken. \<open>fa_events\<close> are the repo finished events in their order.
\<close>

record fan_state =
  fa_phase :: fan_phase
  fa_next :: nat
  fa_stop :: "goerr option"
  fa_running :: "nat set"
  fa_held :: "nat set"
  fa_written :: "nat \<Rightarrow> progress"
  fa_entries :: "nat \<rightharpoonup> repo_entry"
  fa_events :: "(nat \<times> repo_entry) list"

definition fan_init :: fan_state where
  "fan_init = \<lparr>fa_phase = Starting, fa_next = 0, fa_stop = None, fa_running = {}, fa_held = {},
     fa_written = (\<lambda>i. []), fa_entries = Map.empty, fa_events = []\<rparr>"

text \<open>Settling is done once: what comes second is dropped.\<close>

definition settle :: "nat \<Rightarrow> repo_entry \<Rightarrow> fan_state \<Rightarrow> fan_state" where
  "settle i e s = (if fa_entries s i \<noteq> None then s
     else s\<lparr>fa_entries := (fa_entries s)(i \<mapsto> e), fa_events := fa_events s @ [(i, e)]\<rparr>)"

definition settle_each :: "(nat \<Rightarrow> repo_entry) \<Rightarrow> nat list \<Rightarrow> fan_state \<Rightarrow> fan_state" where
  "settle_each f is s = fold (\<lambda>i. settle i (f i)) is s"

definition abandoned :: "goerr \<Rightarrow> repo \<Rightarrow> progress \<Rightarrow> repo_entry" where
  "abandoned cause repo p = (failed_entry (slug repo)
     (GoErr Plain (stopped_before @ '': '' @ err_text cause @ ''; still running 30s after the stop'') [cause]))
     \<lparr>en_artifacts := written p\<rparr>"

definition slots :: "nat \<Rightarrow> nat" where
  "slots limit = (if limit < 1 then 1 else limit)"

inductive fan_step :: "repo list \<Rightarrow> nat \<Rightarrow> fan_state \<Rightarrow> fan_state \<Rightarrow> bool" for repos :: "repo list" and limit :: nat where
  starts: "fa_phase s = Starting \<Longrightarrow> fa_next s < length repos \<Longrightarrow> card (fa_held s) < slots limit \<Longrightarrow> fa_stop s = None \<Longrightarrow>
    fan_step repos limit s (s\<lparr>fa_next := fa_next s + 1, fa_running := insert (fa_next s) (fa_running s),
      fa_held := insert (fa_next s) (fa_held s), fa_written := (fa_written s)(fa_next s := [])\<rparr>)"
| stops: "fa_stop s = None \<Longrightarrow> fan_step repos limit s (s\<lparr>fa_stop := Some cause\<rparr>)"
| refuses: "fa_phase s = Starting \<Longrightarrow> fa_next s < length repos \<Longrightarrow> fa_stop s = Some cause \<Longrightarrow>
    fan_step repos limit s ((settle_each (\<lambda>j. not_started cause (repos ! j)) [fa_next s..<length repos] s)
      \<lparr>fa_phase := Waiting\<rparr>)"
| all_started: "fa_phase s = Starting \<Longrightarrow> fa_next s = length repos \<Longrightarrow>
    fan_step repos limit s (s\<lparr>fa_phase := Waiting\<rparr>)"
| writes: "i \<in> fa_running s \<Longrightarrow>
    fan_step repos limit s (s\<lparr>fa_written := (fa_written s)(i := wrote a (fa_written s i))\<rparr>)"
| finishes: "i \<in> fa_running s \<Longrightarrow> en_slug e = slug (repos ! i) \<Longrightarrow>
    fan_step repos limit s ((settle i (after_stop (fa_stop s) e) s)\<lparr>fa_running := fa_running s - {i}\<rparr>)"
| releases: "i \<in> fa_held s \<Longrightarrow> i \<notin> fa_running s \<Longrightarrow> fan_step repos limit s (s\<lparr>fa_held := fa_held s - {i}\<rparr>)"
| all_done: "fa_phase s \<in> {Waiting, Grace} \<Longrightarrow> fa_held s = {} \<Longrightarrow>
    fan_step repos limit s (s\<lparr>fa_phase := Returned\<rparr>)"
| waits_longer: "fa_phase s = Waiting \<Longrightarrow> fa_stop s \<noteq> None \<Longrightarrow> fan_step repos limit s (s\<lparr>fa_phase := Grace\<rparr>)"
| gives_up: "fa_phase s = Grace \<Longrightarrow> fa_stop s = Some cause \<Longrightarrow>
    fan_step repos limit s ((settle_each (\<lambda>i. abandoned cause (repos ! i) (fa_written s i)) [0..<length repos] s)
      \<lparr>fa_phase := Returned\<rparr>)"

inductive_cases fan_stepE: "fan_step repos limit s s'"

section \<open>Settling\<close>

lemma settle_fields [simp]:
  "fa_phase (settle i e s) = fa_phase s" "fa_next (settle i e s) = fa_next s" "fa_stop (settle i e s) = fa_stop s"
  "fa_running (settle i e s) = fa_running s" "fa_held (settle i e s) = fa_held s" "fa_written (settle i e s) = fa_written s"
  by (simp_all add: settle_def)

lemma settle_each_fields [simp]:
  "fa_phase (settle_each f is s) = fa_phase s" "fa_next (settle_each f is s) = fa_next s"
  "fa_stop (settle_each f is s) = fa_stop s" "fa_running (settle_each f is s) = fa_running s"
  "fa_held (settle_each f is s) = fa_held s" "fa_written (settle_each f is s) = fa_written s"
  by (induction "is" arbitrary: s) (simp_all add: settle_each_def)

lemma settle_entries: "fa_entries (settle i e s) = (if fa_entries s i = None then (fa_entries s)(i \<mapsto> e) else fa_entries s)"
  by (simp add: settle_def)

lemma settle_each_entries:
  "fa_entries (settle_each f is s) i = (if fa_entries s i = None \<and> i \<in> set is then Some (f i) else fa_entries s i)"
  by (induction "is" arbitrary: s) (auto simp: settle_each_def settle_entries)

text \<open>The events and the entries say the same, each repository once.\<close>

definition events_agree :: "fan_state \<Rightarrow> bool" where
  "events_agree s \<longleftrightarrow> distinct (map fst (fa_events s)) \<and> fa_entries s = map_of (fa_events s)"

lemma map_of_snoc: "map_of xs i = None \<Longrightarrow> [i \<mapsto> e] ++ map_of xs = (map_of xs)(i \<mapsto> e)"
  by (auto simp: fun_eq_iff map_add_def split: option.splits)

lemma settle_agree: "events_agree s \<Longrightarrow> events_agree (settle i e s)"
proof (cases "fa_entries s i = None")
  case True
  assume a: "events_agree s"
  then have "i \<notin> fst ` set (fa_events s)" using True by (simp add: events_agree_def map_of_eq_None_iff)
  with a True show ?thesis by (simp add: events_agree_def settle_def map_of_snoc)
qed (simp add: settle_def)

lemma settle_each_agree: "events_agree s \<Longrightarrow> events_agree (settle_each f is s)"
  by (induction "is" arbitrary: s) (simp_all add: settle_each_def settle_agree)

lemma events_agree_update [simp]:
  "events_agree (s\<lparr>fa_phase := p\<rparr>) = events_agree s" "events_agree (s\<lparr>fa_next := n\<rparr>) = events_agree s"
  "events_agree (s\<lparr>fa_stop := c\<rparr>) = events_agree s" "events_agree (s\<lparr>fa_running := r\<rparr>) = events_agree s"
  "events_agree (s\<lparr>fa_held := h\<rparr>) = events_agree s" "events_agree (s\<lparr>fa_written := x\<rparr>) = events_agree s"
  by (simp_all add: events_agree_def)

section \<open>The invariant\<close>

definition fan_ok :: "repo list \<Rightarrow> nat \<Rightarrow> fan_state \<Rightarrow> bool" where
  "fan_ok repos limit s \<longleftrightarrow>
     fa_next s \<le> length repos \<and> fa_running s \<subseteq> fa_held s \<and> fa_held s \<subseteq> {..<fa_next s}
     \<and> card (fa_held s) \<le> slots limit
     \<and> dom (fa_entries s) \<subseteq> {..<length repos}
     \<and> (\<forall>i < fa_next s. i \<in> fa_running s \<or> fa_entries s i \<noteq> None)
     \<and> (if fa_phase s = Starting then dom (fa_entries s) \<subseteq> {..<fa_next s}
        else \<forall>i < length repos. fa_next s \<le> i \<longrightarrow> fa_entries s i \<noteq> None)
     \<and> (fa_phase s = Grace \<longrightarrow> fa_stop s \<noteq> None)
     \<and> (fa_phase s = Returned \<longrightarrow> (\<forall>i < length repos. fa_entries s i \<noteq> None))
     \<and> (\<forall>i e. fa_entries s i = Some e \<longrightarrow> en_slug e = slug (repos ! i))
     \<and> events_agree s"

lemma fan_ok_init: "fan_ok repos limit fan_init"
  by (simp add: fan_ok_def fan_init_def events_agree_def)

lemma abandoned_slug [simp]: "en_slug (abandoned c q p) = slug q"
  by (simp add: abandoned_def)

lemma fan_ok_finite: "fan_ok repos limit s \<Longrightarrow> finite (fa_held s)"
  by (auto simp: fan_ok_def intro: finite_subset)

lemma fan_ok_step:
  assumes "fan_step repos limit s s'" and ok: "fan_ok repos limit s"
  shows "fan_ok repos limit s'"
  using assms(1)
proof cases
  case starts
  have "fa_next s \<notin> fa_held s" using ok by (auto simp: fan_ok_def)
  moreover have "finite (fa_held s)" by (rule fan_ok_finite [OF ok])
  ultimately show ?thesis
    using ok starts by (auto simp: fan_ok_def less_Suc_eq)
next
  case (refuses cause)
  then show ?thesis
    using ok settle_each_agree [of s] by (auto simp: fan_ok_def settle_each_entries dom_def split: if_splits)
next
  case (finishes i e)
  have i: "i < fa_next s" using finishes(2) ok by (auto simp: fan_ok_def)
  show ?thesis
    using ok finishes i settle_agree [of s i] by (auto simp: fan_ok_def settle_entries dom_def split: if_splits)
next
  case (releases i)
  have "card (fa_held s - {i}) \<le> card (fa_held s)" by (rule card_mono [OF fan_ok_finite [OF ok]]) auto
  then show ?thesis using ok releases by (auto simp: fan_ok_def)
next
  case all_done
  moreover have "\<forall>i < length repos. fa_entries s i \<noteq> None"
  proof (intro allI impI)
    fix i assume "i < length repos"
    then show "fa_entries s i \<noteq> None" using ok all_done by (cases "i < fa_next s") (auto simp: fan_ok_def)
  qed
  ultimately show ?thesis using ok by (auto simp: fan_ok_def)
next
  case (gives_up cause)
  then show ?thesis
    using ok settle_each_agree [of s] by (auto simp: fan_ok_def settle_each_entries dom_def split: if_splits)
qed (use ok in \<open>auto simp: fan_ok_def\<close>)

abbreviation fan_reaches :: "repo list \<Rightarrow> nat \<Rightarrow> fan_state \<Rightarrow> bool" where
  "fan_reaches repos limit \<equiv> (fan_step repos limit)\<^sup>*\<^sup>* fan_init"

lemma fan_reaches_ok: "fan_reaches repos limit s \<Longrightarrow> fan_ok repos limit s"
  by (induction rule: rtranclp_induct) (auto intro: fan_ok_init fan_ok_step)


section \<open>What holds of every execution\<close>

text \<open>What is settled stays as it was settled, and a finished event is never taken back.\<close>

lemma settle_each_keeps: "fa_entries s \<subseteq>\<^sub>m fa_entries (settle_each f is s)"
  by (auto simp: map_le_def settle_each_entries)

lemma fan_step_settled: "fan_step repos limit s s' \<Longrightarrow> fa_entries s \<subseteq>\<^sub>m fa_entries s'"
  by (cases rule: fan_step.cases) (auto simp: map_le_def settle_each_entries settle_entries)

lemma fan_settled: "(fan_step repos limit)\<^sup>*\<^sup>* s s' \<Longrightarrow> fa_entries s \<subseteq>\<^sub>m fa_entries s'"
  by (induction rule: rtranclp_induct) (auto intro: map_le_trans fan_step_settled)

text \<open>After a stop nothing more is started.\<close>

lemma fan_step_stopped: "fan_step repos limit s s' \<Longrightarrow> fa_stop s \<noteq> None \<Longrightarrow> fa_next s' = fa_next s \<and> fa_stop s' = fa_stop s"
  by (cases rule: fan_step.cases) auto

text \<open>Once the function has returned, what a repository still in flight does changes nothing it returned.\<close>

lemma settle_each_done: "\<forall>i \<in> set is. fa_entries s i \<noteq> None \<Longrightarrow> settle_each f is s = s"
  by (induction "is" arbitrary: s) (simp_all add: settle_each_def settle_def)

lemma fan_step_returned:
  assumes "fan_step repos limit s s'" and ok: "fan_ok repos limit s" and "fa_phase s = Returned"
  shows "fa_phase s' = Returned \<and> fa_entries s' = fa_entries s \<and> fa_events s' = fa_events s"
  using assms(1)
proof cases
  case (finishes i e)
  then have "fa_entries s i \<noteq> None" using ok assms(3) by (auto simp: fan_ok_def)
  then show ?thesis using finishes assms(3) by (simp add: settle_def)
qed (use assms(3) in auto)

lemma fan_returned:
  assumes "(fan_step repos limit)\<^sup>*\<^sup>* s s'" and "fan_ok repos limit s" and "fa_phase s = Returned"
  shows "fan_ok repos limit s' \<and> fa_phase s' = Returned \<and> fa_entries s' = fa_entries s \<and> fa_events s' = fa_events s"
  using assms(1)
  by (induction rule: rtranclp_induct) (use assms(2,3) in \<open>auto dest: fan_step_returned intro: fan_ok_step\<close>)

text \<open>When it returns, each repository has one entry, under its name, and one event, with that entry.\<close>

lemma fan_ok_returned:
  assumes ok: "fan_ok repos limit s" and ret: "fa_phase s = Returned"
  shows "distinct (map fst (fa_events s)) \<and> fst ` set (fa_events s) = {..<length repos}
    \<and> (\<forall>i < length repos. \<exists>e. fa_entries s i = Some e \<and> en_slug e = slug (repos ! i) \<and> (i, e) \<in> set (fa_events s))"
proof -
  have all: "\<forall>i < length repos. fa_entries s i \<noteq> None" and sub: "dom (fa_entries s) \<subseteq> {..<length repos}"
    and sl: "\<forall>i e. fa_entries s i = Some e \<longrightarrow> en_slug e = slug (repos ! i)" and ag: "events_agree s"
    using ok ret by (simp_all add: fan_ok_def)
  have "fst ` set (fa_events s) = dom (fa_entries s)" using ag by (simp add: events_agree_def dom_map_of_conv_image_fst)
  moreover have "dom (fa_entries s) = {..<length repos}" using all sub by auto
  moreover have "(i, e) \<in> set (fa_events s)" if "fa_entries s i = Some e" for i e
    using that ag by (auto simp: events_agree_def dest: map_of_SomeD)
  ultimately have "\<exists>e. fa_entries s i = Some e \<and> en_slug e = slug (repos ! i) \<and> (i, e) \<in> set (fa_events s)"
    if "i < length repos" for i
    using that all sl by (metis not_None_eq)
  moreover have "distinct (map fst (fa_events s))" using ag by (simp add: events_agree_def)
  ultimately show ?thesis using \<open>fst ` set (fa_events s) = dom (fa_entries s)\<close> \<open>dom (fa_entries s) = {..<length repos}\<close>
    by (simp only: simp_thms) blast
qed

text \<open>A repository given up on is recorded with what it had written.\<close>

lemma give_up_lists_written:
  assumes "fan_step repos limit s s'" and "fa_phase s = Grace" and "fa_phase s' = Returned" and "fa_held s \<noteq> {}"
    and "fa_entries s i = None" and "i < length repos"
  shows "\<exists>e. fa_entries s' i = Some e \<and> en_status e = status_failed \<and> en_artifacts e = written (fa_written s i)"
  using assms(1)
proof cases
  case (gives_up cause)
  then show ?thesis using assms(5,6) by (auto simp: settle_each_entries abandoned_def failed_entry_def)
qed (use assms in auto)


section \<open>It returns\<close>

text \<open>Every step but a repository's write uses something up, so executions end when the writes do.\<close>

definition fan_left :: "repo list \<Rightarrow> fan_state \<Rightarrow> nat" where
  "fan_left repos s = (case fa_phase s of Starting \<Rightarrow> 3 | Waiting \<Rightarrow> 2 | Grace \<Rightarrow> 1 | Returned \<Rightarrow> 0)
     + 3 * (length repos - fa_next s) + (if fa_stop s = None then 1 else 0) + card (fa_running s) + card (fa_held s)"

lemma fan_step_left:
  assumes "fan_step repos limit s s'" and ok: "fan_ok repos limit s"
  shows "fan_left repos s' < fan_left repos s \<or>
    (\<exists>i a. i \<in> fa_running s \<and> s' = s\<lparr>fa_written := (fa_written s)(i := wrote a (fa_written s i))\<rparr>)"
proof -
  have fin: "finite (fa_held s)" "finite (fa_running s)"
    using ok fan_ok_finite [OF ok] by (auto simp: fan_ok_def intro: finite_subset)
  show ?thesis
    using assms(1)
  proof cases
    case starts
    then show ?thesis using fin by (auto simp: fan_left_def card_insert_if)
  next
    case (finishes i e)
    then show ?thesis using fin card_Diff1_less [of "fa_running s" i] by (simp add: fan_left_def)
  next
    case (releases i)
    then show ?thesis using fin card_Diff1_less [of "fa_held s" i] by (simp add: fan_left_def)
  qed (auto simp: fan_left_def)
qed

text \<open>
  Once stopped it can return without any repository in flight doing anything: a repository that
  never comes back does not keep the run from its manifest.
\<close>

lemma fan_stopped_returns:
  assumes "fan_ok repos limit s" and "fa_stop s = Some cause"
  shows "\<exists>s'. (fan_step repos limit)\<^sup>*\<^sup>* s s' \<and> fa_phase s' = Returned \<and> fa_running s' = fa_running s"
proof -
  have grace: "\<exists>s'. (fan_step repos limit)\<^sup>*\<^sup>* t s' \<and> fa_phase s' = Returned \<and> fa_running s' = fa_running t"
    if "fa_phase t = Grace" "fa_stop t = Some cause" for t
    using gives_up [OF that] by (intro exI conjI, rule r_into_rtranclp) simp_all
  have wait: "\<exists>s'. (fan_step repos limit)\<^sup>*\<^sup>* t s' \<and> fa_phase s' = Returned \<and> fa_running s' = fa_running t"
    if t: "fa_phase t = Waiting" "fa_stop t = Some cause" for t
  proof -
    have "fan_step repos limit t (t\<lparr>fa_phase := Grace\<rparr>)" using t by (intro waits_longer) simp_all
    then show ?thesis using grace [of "t\<lparr>fa_phase := Grace\<rparr>"] t by (auto intro: converse_rtranclp_into_rtranclp)
  qed
  have start: "\<exists>t. fan_step repos limit s t \<and> fa_phase t = Waiting \<and> fa_stop t = Some cause \<and> fa_running t = fa_running s"
    if "fa_phase s = Starting"
  proof (cases "fa_next s = length repos")
    case True
    then show ?thesis using all_started [OF that] assms(2) by fastforce
  next
    case False
    then have "fa_next s < length repos" using assms(1) by (simp add: fan_ok_def)
    then show ?thesis using refuses [OF that _ assms(2)] assms(2) by fastforce
  qed
  show ?thesis
  proof (cases "fa_phase s")
    case Starting
    then obtain t where "fan_step repos limit s t" "fa_phase t = Waiting" "fa_stop t = Some cause" "fa_running t = fa_running s"
      using start by blast
    then show ?thesis using wait [of t] by (auto intro: converse_rtranclp_into_rtranclp)
  qed (use wait grace assms(2) in auto)
qed

section \<open>The sequential loop is one of its executions\<close>

lemma after_stop_some: "after_stop (Some c) e = after_stop (Some d) e"
  by (simp add: after_stop_def)

text \<open>The state in which the loop is about to take up repository \<open>k\<close>, with nothing in flight.\<close>

definition at_repo :: "nat \<Rightarrow> goerr option \<Rightarrow> fan_state \<Rightarrow> bool" where
  "at_repo k c s \<longleftrightarrow> fa_phase s = Starting \<and> fa_next s = k \<and> fa_running s = {} \<and> fa_held s = {} \<and> fa_stop s = c
     \<and> dom (fa_entries s) \<subseteq> {..<k}"

lemma fan_one:
  assumes s: "at_repo k None s" and k: "k < length repos" and e: "en_slug e = slug (repos ! k)"
  shows "\<exists>s'. (fan_step repos limit)\<^sup>*\<^sup>* s s' \<and> at_repo (k + 1) c s' \<and> fa_entries s' = (fa_entries s)(k \<mapsto> after_stop c e)"
proof -
  define s1 where "s1 = s\<lparr>fa_next := k + 1, fa_running := {k}, fa_held := {k}, fa_written := (fa_written s)(k := [])\<rparr>"
  define s2 where "s2 = s1\<lparr>fa_stop := c\<rparr>"
  define s3 where "s3 = (settle k (after_stop (fa_stop s2) e) s2)\<lparr>fa_running := fa_running s2 - {k}\<rparr>"
  define s4 where "s4 = s3\<lparr>fa_held := fa_held s3 - {k}\<rparr>"
  have none: "fa_entries s k = None" using s by (auto simp: at_repo_def)
  have "card (fa_held s) < slots limit" using s by (simp add: at_repo_def slots_def)
  then have "fan_step repos limit s s1"
    using starts [of s repos limit] s k by (simp add: at_repo_def s1_def)
  moreover have "(fan_step repos limit)\<^sup>*\<^sup>* s1 s2"
  proof (cases c)
    case None
    have "s2 = s1" using s None by (simp add: s1_def s2_def at_repo_def)
    then show ?thesis by simp
  next
    case (Some d)
    have "fan_step repos limit s1 s2"
      unfolding s2_def Some by (rule stops) (use s in \<open>simp add: s1_def at_repo_def\<close>)
    then show ?thesis by (rule r_into_rtranclp)
  qed
  moreover have "fan_step repos limit s2 s3" unfolding s3_def by (rule finishes) (simp_all add: s2_def s1_def e)
  moreover have "fan_step repos limit s3 s4" unfolding s4_def by (rule releases) (simp_all add: s3_def s2_def s1_def)
  ultimately have run: "(fan_step repos limit)\<^sup>*\<^sup>* s s4" by (meson converse_rtranclp_into_rtranclp r_into_rtranclp rtranclp_trans)
  have "at_repo (k + 1) c s4" using s none
    by (auto simp: at_repo_def s4_def s3_def s2_def s1_def settle_entries)
  moreover have "fa_entries s4 = (fa_entries s)(k \<mapsto> after_stop c e)"
    using none by (simp add: s4_def s3_def s2_def s1_def settle_entries)
  ultimately show ?thesis using run by blast
qed

lemma fan_rest:
  assumes "at_repo k (Some cause) s" and "k \<le> length repos"
  shows "\<exists>s'. (fan_step repos limit)\<^sup>*\<^sup>* s s' \<and> fa_phase s' = Returned
    \<and> fa_entries s' = (\<lambda>i. if k \<le> i \<and> i < length repos then Some (not_started cause (repos ! i)) else fa_entries s i)"
proof -
  define s1 where "s1 = (settle_each (\<lambda>j. not_started cause (repos ! j)) [k..<length repos] s)\<lparr>fa_phase := Waiting\<rparr>"
  have s: "fa_phase s = Starting" "fa_next s = k" "fa_held s = {}" "fa_stop s = Some cause" "\<forall>i. k \<le> i \<longrightarrow> fa_entries s i = None"
    using assms(1) by (auto simp: at_repo_def not_le [symmetric] dest: domI)
  have step1: "fan_step repos limit s s1"
  proof (cases "k = length repos")
    case True
    then show ?thesis using all_started [of s repos limit] s by (simp add: s1_def settle_each_def)
  next
    case False
    then show ?thesis using refuses [of s repos cause limit] s assms(2) by (simp add: s1_def)
  qed
  have "fan_step repos limit s1 (s1\<lparr>fa_phase := Returned\<rparr>)"
    by (rule all_done) (simp_all add: s1_def s(3))
  with step1 have "(fan_step repos limit)\<^sup>*\<^sup>* s (s1\<lparr>fa_phase := Returned\<rparr>)"
    by (meson converse_rtranclp_into_rtranclp r_into_rtranclp)
  moreover have "fa_entries s1 = (\<lambda>i. if k \<le> i \<and> i < length repos then Some (not_started cause (repos ! i)) else fa_entries s i)"
    using s(5) by (auto simp: s1_def fun_eq_iff settle_each_entries)
  ultimately show ?thesis by (intro exI [of _ "s1\<lparr>fa_phase := Returned\<rparr>"]) simp
qed


lemma after_stop_stopped: "(c = None \<longleftrightarrow> d = None) \<Longrightarrow> after_stop c e = after_stop d e"
  by (cases c; cases d) (simp_all add: after_stop_def)

text \<open>The cause a stop is recorded with, if the context is done.\<close>

definition cause_at :: "'w backup_deps \<Rightarrow> 'w \<Rightarrow> goerr option" where
  "cause_at r w = (if bk_ctx r w = None then None else Some (bk_cause r w))"

lemma fan_out_Cons:
  assumes "fan_out r st ret (p # ps) wm = (Inr es, wm')"
  shows "if bk_ctx r (fst wm) \<noteq> None then es = map (not_started (bk_cause r (fst wm))) (p # ps)
    else \<exists>e wm1 es'. backup_one r st ret p wm = (Inr e, wm1) \<and> en_slug e = slug p
      \<and> fan_out r st ret ps wm1 = (Inr es', wm') \<and> es = after_stop (cause_at r (fst wm1)) e # es'"
proof -
  obtain w mem where wm: "wm = (w, mem)" by (cases wm)
  show ?thesis
  proof (cases "bk_ctx r w")
    case None
    obtain e wm1 where e: "backup_one r st ret p wm = (Inr e, wm1)" and sl: "en_slug e = slug p"
      using returnsD [OF backup_one_returns, of r st ret p wm] by blast
    obtain w1 mem1 where wm1: "wm1 = (w1, mem1)" by (cases wm1)
    obtain es' where "fan_out r st ret ps wm1 = (Inr es', wm')" and "es = after_stop (bk_ctx r w1) e # es'"
      using assms e None by (auto simp: wm wm1 bindE_Inr on_world_def split: if_splits)
    moreover have "after_stop (bk_ctx r w1) e = after_stop (cause_at r w1) e"
      by (rule after_stop_stopped) (simp add: cause_at_def)
    ultimately show ?thesis using None e sl by (auto simp: wm wm1)
  next
    case (Some d)
    then show ?thesis using assms by (auto simp: wm bindE_Inr on_world_def)
  qed
qed

lemma fan_out_executes_from:
  assumes "fan_out r st ret ps wm = (Inr es, wm')" and "at_repo k c s" and "drop k repos = ps" and "k \<le> length repos"
    and "c = None \<or> c = cause_at r (fst wm)"
  shows "\<exists>s'. (fan_step repos limit)\<^sup>*\<^sup>* s s' \<and> fa_phase s' = Returned \<and> (\<forall>i < k. fa_entries s' i = fa_entries s i)
    \<and> (\<forall>i. k \<le> i \<and> i < length repos \<longrightarrow> fa_entries s' i = Some (es ! (i - k)))"
  using assms
proof (induction ps arbitrary: k c s wm es)
  case Nil
  then have k: "k = length repos" by simp
  show ?case
  proof (cases c)
    case None
    have s: "fa_phase s = Starting" "fa_next s = length repos" "fa_held s = {}"
      using Nil.prems(2) k by (simp_all add: at_repo_def)
    have "fan_step repos limit s (s\<lparr>fa_phase := Waiting\<rparr>)" using s by (intro all_started)
    moreover have "fan_step repos limit (s\<lparr>fa_phase := Waiting\<rparr>) (s\<lparr>fa_phase := Waiting\<rparr>\<lparr>fa_phase := Returned\<rparr>)"
      using s by (intro all_done) simp_all
    ultimately have "(fan_step repos limit)\<^sup>*\<^sup>* s (s\<lparr>fa_phase := Waiting\<rparr>\<lparr>fa_phase := Returned\<rparr>)"
      by (meson converse_rtranclp_into_rtranclp r_into_rtranclp)
    then show ?thesis using k by (intro exI [of _ "s\<lparr>fa_phase := Waiting\<rparr>\<lparr>fa_phase := Returned\<rparr>"]) auto
  next
    case (Some d)
    show ?thesis using fan_rest [OF Nil.prems(2) [unfolded Some] Nil.prems(4), of limit] k by auto
  qed
next
  case (Cons p ps)
  have k: "k < length repos" and p: "repos ! k = p" and ps: "drop (k + 1) repos = ps"
    using Cons.prems(3,4) by (metis drop_all linorder_not_le list.distinct(1),
      metis drop_all hd_drop_conv_nth linorder_not_le list.distinct(1) list.sel(1), metis Suc_eq_plus1 drop_Suc list.sel(3) tl_drop)
  note out = fan_out_Cons [OF Cons.prems(1)]
  show ?case
  proof (cases "bk_ctx r (fst wm)")
    case (Some d)
    let ?cause = "bk_cause r (fst wm)"
    have es: "es = map (not_started ?cause) (drop k repos)" using out Some Cons.prems(3) by simp
    have "\<exists>t. (fan_step repos limit)\<^sup>*\<^sup>* s t \<and> at_repo k (Some ?cause) t \<and> fa_entries t = fa_entries s"
    proof (cases c)
      case None
      have "fan_step repos limit s (s\<lparr>fa_stop := Some ?cause\<rparr>)"
        by (rule stops) (use Cons.prems(2) None in \<open>simp add: at_repo_def\<close>)
      then show ?thesis using Cons.prems(2)
        by (intro exI [of _ "s\<lparr>fa_stop := Some ?cause\<rparr>"]) (auto simp: at_repo_def)
    next
      case (Some c')
      then have "c = Some ?cause" using Cons.prems(5) \<open>bk_ctx r (fst wm) = Some d\<close> by (simp add: cause_at_def)
      then show ?thesis using Cons.prems(2) by blast
    qed
    then obtain t where t: "(fan_step repos limit)\<^sup>*\<^sup>* s t" "at_repo k (Some ?cause) t" "fa_entries t = fa_entries s" by blast
    from fan_rest [OF t(2) Cons.prems(4), of limit] obtain s' where "(fan_step repos limit)\<^sup>*\<^sup>* t s'" "fa_phase s' = Returned"
      and "fa_entries s' = (\<lambda>i. if k \<le> i \<and> i < length repos then Some (not_started ?cause (repos ! i)) else fa_entries t i)" by blast
    then show ?thesis using t es by (intro exI [of _ s']) auto
  next
    case None
    then have "c = None" using Cons.prems(5) by (auto simp: cause_at_def)
    obtain e wm1 es' where e: "en_slug e = slug (repos ! k)" and rest: "fan_out r st ret ps wm1 = (Inr es', wm')"
      and es: "es = after_stop (cause_at r (fst wm1)) e # es'"
      using out None p by auto
    let ?c = "cause_at r (fst wm1)"
    obtain t where t: "(fan_step repos limit)\<^sup>*\<^sup>* s t" "at_repo (k + 1) ?c t" "fa_entries t = (fa_entries s)(k \<mapsto> after_stop ?c e)"
      using fan_one [OF Cons.prems(2) [unfolded \<open>c = None\<close>] k e, of limit ?c] by blast
    have "k + 1 \<le> length repos" using k by simp
    from Cons.IH [OF rest t(2) ps this] obtain s' where s': "(fan_step repos limit)\<^sup>*\<^sup>* t s'" "fa_phase s' = Returned"
      "\<forall>i < k + 1. fa_entries s' i = fa_entries t i"
      "\<forall>i. k + 1 \<le> i \<and> i < length repos \<longrightarrow> fa_entries s' i = Some (es' ! (i - (k + 1)))" by blast
    have "fa_entries s' i = Some (es ! (i - k))" if "k \<le> i" "i < length repos" for i
    proof (cases "i = k")
      case True
      then show ?thesis using s'(3) t(3) es by simp
    next
      case False
      then have "k + 1 \<le> i" and "i - k = Suc (i - (k + 1))" using that by simp_all
      then show ?thesis using s'(4) that es by simp
    qed
    moreover have "\<forall>i < k. fa_entries s' i = fa_entries s i" using s'(3) t(3) by simp
    ultimately show ?thesis using rtranclp_trans [OF t(1) s'(1)] s'(2) by blast
  qed
qed

lemma fan_out_executes:
  assumes "fan_out r st ret repos wm = (Inr es, wm')"
  shows "\<exists>s. fan_reaches repos limit s \<and> fa_phase s = Returned \<and> map (fa_entries s) [0..<length repos] = map Some es"
proof -
  have "at_repo 0 None fan_init" by (simp add: at_repo_def fan_init_def)
  from fan_out_executes_from [OF assms this, of repos limit] obtain s where s: "fan_reaches repos limit s" "fa_phase s = Returned"
    "\<forall>i < length repos. fa_entries s i = Some (es ! i)" by auto
  have "length es = length repos"
    using returnsD [OF fan_out_returns, of r st ret repos wm] assms by (auto dest: map_eq_imp_length_eq)
  then have "map (fa_entries s) [0..<length repos] = map Some es"
    using s(3) by (intro nth_equalityI) simp_all
  then show ?thesis using s by blast
qed

end
