(* ===== verification/Exact.thy ===== *)
theory Exact
  imports Dest
begin

text \<open>
  The readers that pass a stream on as the artifact of a known size: src/internal/dest/s3/exact.go, and
  those of gcs.go and azure.go. Each says an end, on which a write is committed, only where the stream
  ends at exactly that size.
\<close>

section \<open>The body of a write\<close>

definition err_no_progress :: goerr where
  "err_no_progress = new_error ''multiple Read calls return no data or error''"

record 'r exact_reader =
  ex_r :: 'r
  ex_size :: int
  ex_n :: int
  ex_err :: "goerr option"

definition exact_over :: "'r \<Rightarrow> int \<Rightarrow> 'r exact_reader" where
  "exact_over r sz = \<lparr>ex_r = r, ex_size = sz, ex_n = 0, ex_err = None\<rparr>"

definition empty_reads :: nat where "empty_reads = 100"

definition holds_more :: "int \<Rightarrow> goerr" where
  "holds_more sz = new_error (''the stream holds more than the artifact's '' @ show_int sz @ '' bytes'')"

definition ended_after :: "int \<Rightarrow> int \<Rightarrow> goerr" where
  "ended_after n sz = new_error (''the stream ended after '' @ show_int n @ '' of the artifact's '' @ show_int sz @ '' bytes'')"

definition moved_outside :: "int \<Rightarrow> int \<Rightarrow> goerr" where
  "moved_outside n sz = new_error (''the stream was moved to '' @ show_int n @ '' bytes from the artifact's start, outside its ''
     @ show_int sz @ '' bytes'')"

fun past_end :: "'r reader \<Rightarrow> nat \<Rightarrow> int \<Rightarrow> 'r \<Rightarrow> goerr \<times> 'r" where
  "past_end rd 0 sz r = (err_no_progress, r)"
| "past_end rd (Suc k) sz r = (case rd r 1 of ((p, e), r') \<Rightarrow>
     if p \<noteq> [] then (holds_more sz, r')
     else (case e of Some x \<Rightarrow> (x, r') | None \<Rightarrow> past_end rd k sz r'))"

definition exact_read :: "'r reader \<Rightarrow> 'r exact_reader \<Rightarrow> nat \<Rightarrow> (string \<times> goerr option) \<times> 'r exact_reader" where
  "exact_read rd e len =
     (if ex_err e \<noteq> None then (([], ex_err e), e)
      else if len = 0 then (([], None), e)
      else if ex_n e < 0 \<or> ex_n e > ex_size e
      then (let x = moved_outside (ex_n e) (ex_size e) in (([], Some x), e\<lparr>ex_err := Some x\<rparr>))
      else let rest = ex_size e - ex_n e; m = (if int len > rest then nat rest else len) in
        case (if m > 0 then rd (ex_r e) m else (([], None), ex_r e)) of ((p, x), r) \<Rightarrow>
          let n = ex_n e + int (length p) in
          if n < ex_size e
          then (let x' = (case x of None \<Rightarrow> None | Some y \<Rightarrow> Some (if errors_is y eof then ended_after n (ex_size e) else y)) in
                ((p, x'), e\<lparr>ex_r := r, ex_n := n, ex_err := x'\<rparr>))
          else (case (case x of Some y \<Rightarrow> (y, r) | None \<Rightarrow> past_end rd empty_reads (ex_size e) r) of (y, r') \<Rightarrow>
            if \<not> errors_is y eof then (([], Some y), e\<lparr>ex_r := r', ex_err := Some y\<rparr>)
            else ((p, if p = [] then Some eof else None), e\<lparr>ex_r := r', ex_n := n, ex_err := Some eof\<rparr>)))"

text \<open>A seek moves the reader underneath to where it lands and counts from there.\<close>

definition exact_seek :: "'r \<Rightarrow> int \<Rightarrow> 'r exact_reader \<Rightarrow> 'r exact_reader" where
  "exact_seek r n e = e\<lparr>ex_r := r, ex_n := n, ex_err := None\<rparr>"

fun reads :: "'r reader \<Rightarrow> 'r \<Rightarrow> nat list \<Rightarrow> (string \<times> goerr option) list \<times> 'r" where
  "reads rd r [] = ([], r)"
| "reads rd r (n # ns) = (case rd r n of (x, r') \<Rightarrow> (case reads rd r' ns of (xs, r'') \<Rightarrow> (x # xs, r'')))"

text \<open>
  A reader of a stream: what it gives is the next of the stream's bytes, and the error it ends with is
  the stream's, where there are no more.
\<close>

locale stream_reader =
  fixes rd :: "'r reader" and left :: "'r \<Rightarrow> body"
  assumes gives: "rd r m = ((p, e), r') \<Longrightarrow> 0 < m \<Longrightarrow>
      length p \<le> m \<and> body_bytes (left r) = p @ body_bytes (left r') \<and> body_err (left r') = body_err (left r)"
    and ends: "rd r m = ((p, Some y), r') \<Longrightarrow> 0 < m \<Longrightarrow>
      body_bytes (left r') = [] \<and> body_err (left r) = (if errors_is y eof then None else Some y)"
begin

lemma past_end_is:
  "past_end rd k sz r = (y, r') \<Longrightarrow> errors_is y eof \<Longrightarrow> body_bytes (left r) = [] \<and> body_err (left r) = None"
proof (induction k arbitrary: r)
  case (Suc k)
  obtain p e r1 where one: "rd r 1 = ((p, e), r1)" by (metis prod.collapse)
  note g = gives [OF one zero_less_one]
  show ?case
  proof (cases e)
    case None
    have "p = []" using Suc.prems one by (auto simp: holds_more_def eof_def new_error_def split: if_splits)
    then have "past_end rd k sz r1 = (y, r')" using Suc.prems(1) one None by simp
    from Suc.IH [OF this Suc.prems(2)] g \<open>p = []\<close> show ?thesis by simp
  next
    case (Some x)
    have "p = []" using Suc.prems one by (auto simp: holds_more_def eof_def new_error_def split: if_splits)
    then have "x = y" using Suc.prems(1) one Some by simp
    with ends [OF one [unfolded Some] zero_less_one] g \<open>p = []\<close> Suc.prems(2) show ?thesis by simp
  qed
qed (auto simp: err_no_progress_def eof_def new_error_def)

text \<open>What was given so far, of a stream that began as \<open>s\<close>.\<close>

definition held :: "body \<Rightarrow> int \<Rightarrow> string \<Rightarrow> 'r exact_reader \<Rightarrow> bool" where
  "held s sz out e \<longleftrightarrow> ex_size e = sz \<and> (case ex_err e of
       None \<Rightarrow> body_bytes s = out @ body_bytes (left (ex_r e)) \<and> body_err (left (ex_r e)) = body_err s
         \<and> int (length out) = ex_n e \<and> (ex_n e < sz \<or> sz = 0 \<and> ex_n e = 0)
     | Some y \<Rightarrow> if errors_is y eof then out = body_bytes s \<and> int (length out) = sz \<and> body_err s = None
         else int (length out) < sz \<or> sz = 0 \<and> out = [])"

lemma held_start: "0 \<le> sz \<Longrightarrow> held (left r) sz [] (exact_over r sz)"
  by (auto simp: held_def exact_over_def)

lemma not_eof [simp]: "\<not> errors_is (holds_more n) eof" "\<not> errors_is (ended_after n m) eof" "\<not> errors_is (moved_outside n m) eof"
  by (simp_all add: holds_more_def ended_after_def moved_outside_def eof_def new_error_def)

lemma held_read:
  assumes h: "held s sz out e" and r: "exact_read rd e len = ((p, x), e')" and sz: "0 \<le> sz"
  shows "held s sz (out @ p) e'" and "x = Some y \<Longrightarrow> ex_err e' = Some y" and "length p \<le> len"
proof -
  have "held s sz (out @ p) e' \<and> (x = Some y \<longrightarrow> ex_err e' = Some y) \<and> length p \<le> len"
  proof (cases "ex_err e \<noteq> None \<or> len = 0 \<or> ex_n e < 0 \<or> ex_n e > ex_size e")
    case True
    with h r show ?thesis
      by (auto simp: exact_read_def held_def Let_def split: option.splits if_splits)
  next
    case False
    define m where "m = (if int len > sz - ex_n e then nat (sz - ex_n e) else len)"
    from False h have open_: "ex_size e = sz" "ex_err e = None" "body_bytes s = out @ body_bytes (left (ex_r e))"
      "body_err (left (ex_r e)) = body_err s" "int (length out) = ex_n e" "ex_n e < sz \<or> sz = 0 \<and> ex_n e = 0" "len \<noteq> 0"
      by (auto simp: held_def)
    obtain q z r1 where one: "(if m > 0 then rd (ex_r e) m else (([], None), ex_r e)) = ((q, z), r1)" by (metis prod.collapse)
    have q: "length q \<le> m" "body_bytes (left (ex_r e)) = q @ body_bytes (left r1)" "body_err (left r1) = body_err (left (ex_r e))"
      using one gives [of "ex_r e" m q z r1] by (simp_all split: if_splits)
    have z: "body_bytes (left r1) = []" "body_err (left (ex_r e)) = (if errors_is y eof then None else Some y)" if "z = Some y" for y
      using one ends [of "ex_r e" m q y r1] that by (simp_all split: if_splits)
    have m: "m \<le> len" "int m \<le> sz - ex_n e" using open_ sz by (auto simp: m_def)
    let ?n = "ex_n e + int (length q)"
    have step: "(if ?n < sz
          then (let x' = (case z of None \<Rightarrow> None | Some y \<Rightarrow> Some (if errors_is y eof then ended_after ?n sz else y)) in
                ((q, x'), e\<lparr>ex_r := r1, ex_n := ?n, ex_err := x'\<rparr>))
          else (case (case z of Some y \<Rightarrow> (y, r1) | None \<Rightarrow> past_end rd empty_reads sz r1) of (y, r') \<Rightarrow>
            if \<not> errors_is y eof then (([], Some y), e\<lparr>ex_r := r', ex_err := Some y\<rparr>)
            else ((q, if q = [] then Some eof else None), e\<lparr>ex_r := r', ex_n := ?n, ex_err := Some eof\<rparr>))) = ((p, x), e')"
      using r False unfolding exact_read_def Let_def open_(1) m_def [symmetric] one by simp
    show ?thesis
    proof (cases "?n < sz")
      case True
      have "(p, x) = (q, case z of None \<Rightarrow> None | Some y \<Rightarrow> Some (if errors_is y eof then ended_after ?n sz else y))
          \<and> e' = e\<lparr>ex_r := r1, ex_n := ?n, ex_err := x\<rparr>"
        using step True by (auto simp: Let_def)
      with open_ q m True show ?thesis by (auto simp: held_def split: option.splits)
    next
      case full: False
      obtain y r2 where e: "(case z of Some y \<Rightarrow> (y, r1) | None \<Rightarrow> past_end rd empty_reads sz r1) = (y, r2)" by (metis prod.collapse)
      have out: "(p, x, e') = (if \<not> errors_is y eof then ([], Some y, e\<lparr>ex_r := r2, ex_err := Some y\<rparr>)
          else (q, if q = [] then Some eof else None, e\<lparr>ex_r := r2, ex_n := ?n, ex_err := Some eof\<rparr>))"
        using step full e by auto
      show ?thesis
      proof (cases "errors_is y eof")
        case True
        have "body_bytes (left r1) = []" and "body_err s = None"
          using e z True past_end_is [of empty_reads sz r1 y r2] q open_ by (cases z; force)+
        with out True open_ q m full show ?thesis by (auto simp: held_def)
      next
        case no: False
        with out open_ full q m show ?thesis by (auto simp: held_def)
      qed
    qed
  qed
  then show "held s sz (out @ p) e'" and "x = Some y \<Longrightarrow> ex_err e' = Some y" and "length p \<le> len" by simp_all
qed

lemma held_reads:
  "reads (exact_read rd) e ns = (rs, e') \<Longrightarrow> held s sz out e \<Longrightarrow> 0 \<le> sz \<Longrightarrow> held s sz (out @ concat (map fst rs)) e'
    \<and> (\<forall>y \<in> set (map snd rs). y \<noteq> None \<longrightarrow> y = ex_err e')"
proof (induction ns arbitrary: e out rs)
  case (Cons n ns)
  obtain p x e1 where one: "exact_read rd e n = ((p, x), e1)" by (metis prod.collapse)
  obtain qs where rest: "reads (exact_read rd) e1 ns = (qs, e')" and rs: "rs = (p, x) # qs"
    using Cons.prems(1) one by (auto split: prod.splits)
  note h = held_read [OF Cons.prems(2) one Cons.prems(3)]
  have stuck: "e' = e1" if "ex_err e1 \<noteq> None"
  proof -
    have "reads (exact_read rd) e1 ks = (ls, e2) \<Longrightarrow> e2 = e1" for ks ls e2
      using that by (induction ks arbitrary: ls) (auto simp: exact_read_def split: prod.splits)
    with rest show ?thesis by blast
  qed
  have "x = None \<or> x = ex_err e'" using h(2) stuck by (cases x) auto
  then show ?case using Cons.IH [OF rest h(1) Cons.prems(3)] by (auto simp: rs)
qed simp

text \<open>
  However it is read, all of the artifact's bytes are given only where the stream is exactly those
  bytes and ends there, and so is an end.
\<close>

lemma exact_all:
  assumes "reads (exact_read rd) (exact_over r sz) ns = (rs, e)" and "0 \<le> sz"
  shows "0 < sz \<Longrightarrow> int (length (concat (map fst rs))) \<ge> sz \<Longrightarrow>
      concat (map fst rs) = body_bytes (left r) \<and> int (length (body_bytes (left r))) = sz \<and> body_err (left r) = None"
    and "Some y \<in> set (map snd rs) \<Longrightarrow> errors_is y eof \<Longrightarrow>
      concat (map fst rs) = body_bytes (left r) \<and> int (length (body_bytes (left r))) = sz \<and> body_err (left r) = None"
proof -
  have h: "held (left r) sz (concat (map fst rs)) e" and last: "\<forall>y \<in> set (map snd rs). y \<noteq> None \<longrightarrow> y = ex_err e"
    using held_reads [OF assms(1) held_start] assms(2) by simp_all
  show "0 < sz \<Longrightarrow> int (length (concat (map fst rs))) \<ge> sz \<Longrightarrow>
      concat (map fst rs) = body_bytes (left r) \<and> int (length (body_bytes (left r))) = sz \<and> body_err (left r) = None"
    using h by (auto simp: held_def split: option.splits if_splits)
  show "Some y \<in> set (map snd rs) \<Longrightarrow> errors_is y eof \<Longrightarrow>
      concat (map fst rs) = body_bytes (left r) \<and> int (length (body_bytes (left r))) = sz \<and> body_err (left r) = None"
    using h last by (fastforce simp: held_def)
qed

end

text \<open>The reader of a file or a byte slice, and the loop over a reader until what it takes for an end.\<close>

definition body_read :: "body reader" where
  "body_read b n = (if body_bytes b = []
     then (([], Some (case body_err b of None \<Rightarrow> eof | Some e \<Rightarrow> e)), b)
     else ((take n (body_bytes b), None), b\<lparr>body_bytes := drop n (body_bytes b)\<rparr>))"

definition stream_of :: "body \<Rightarrow> body" where
  "stream_of b = \<lparr>body_bytes = body_bytes b,
     body_err = (case body_err b of None \<Rightarrow> None | Some e \<Rightarrow> if errors_is e eof then None else Some e)\<rparr>"

interpretation body_stream: stream_reader body_read stream_of
  by unfold_locales (auto simp: body_read_def stream_of_def split: if_splits option.splits)

fun copy_all :: "(goerr \<Rightarrow> bool) \<Rightarrow> 'r reader \<Rightarrow> nat \<Rightarrow> nat \<Rightarrow> 'r \<Rightarrow> (string \<times> goerr option) \<times> 'r" where
  "copy_all is_end rd m 0 r = (([], Some err_no_progress), r)"
| "copy_all is_end rd m (Suc k) r = (case rd r m of ((p, e), r') \<Rightarrow>
     (case e of Some x \<Rightarrow> ((p, if is_end x then None else Some x), r')
      | None \<Rightarrow> (case copy_all is_end rd m k r' of ((q, y), r'') \<Rightarrow> ((p @ q, y), r''))))"

definition is_eof :: "goerr \<Rightarrow> bool" where "is_eof x \<longleftrightarrow> x = eof"

definition copy_buffer :: nat where "copy_buffer = 32768"

text \<open>What the body of a write gives when it is read through, and how it ends.\<close>

definition exact_body :: "body \<Rightarrow> int \<Rightarrow> body" where
  "exact_body b sz = (case copy_all is_eof (exact_read body_read) copy_buffer (length (body_bytes b) + 2) (exact_over b sz) of
     ((out, e), _) \<Rightarrow> \<lparr>body_bytes = out, body_err = e\<rparr>)"

lemma copied_reads:
  "copy_all is_end rd m k r = ((out, x), r') \<Longrightarrow>
   \<exists>j rs. reads rd r (replicate j m) = (rs, r') \<and> out = concat (map fst rs)
     \<and> (x = None \<longrightarrow> (\<exists>y. is_end y \<and> Some y \<in> set (map snd rs)))"
proof (induction k arbitrary: r out)
  case 0
  then show ?case by (intro exI [of _ 0]) auto
next
  case (Suc k)
  obtain p y r1 where one: "rd r m = ((p, y), r1)" by (metis prod.collapse)
  show ?case
  proof (cases y)
    case None
    obtain q where "copy_all is_end rd m k r1 = ((q, x), r')" and out: "out = p @ q"
      using Suc.prems one None by (auto split: prod.splits)
    from Suc.IH [OF this(1)] obtain j rs where "reads rd r1 (replicate j m) = (rs, r')" "q = concat (map fst rs)"
      "x = None \<longrightarrow> (\<exists>y. is_end y \<and> Some y \<in> set (map snd rs))" by blast
    then show ?thesis
      using one out by (intro exI [of _ "Suc j"] exI [of _ "(p, y) # rs"]) auto
  next
    case (Some z)
    then show ?thesis
      using one Suc.prems by (intro exI [of _ 1] exI [of _ "[(p, y)]"]) (auto split: if_splits)
  qed
qed

lemma exact_body_only:
  assumes "0 \<le> sz" and "body_err (exact_body b sz) = None"
  shows "body_bytes (exact_body b sz) = body_bytes b" and "int (length (body_bytes b)) = sz" and "body_err (stream_of b) = None"
proof -
  obtain out e where c: "copy_all is_eof (exact_read body_read) copy_buffer (length (body_bytes b) + 2) (exact_over b sz) = ((out, None), e)"
    and out: "body_bytes (exact_body b sz) = out"
    using assms(2) by (fastforce simp: exact_body_def split: prod.splits)
  obtain j rs where r: "reads (exact_read body_read) (exact_over b sz) (replicate j copy_buffer) = (rs, e)" "out = concat (map fst rs)"
    "Some eof \<in> set (map snd rs)" using copied_reads [OF c] by (auto simp: is_eof_def)
  from body_stream.exact_all(2) [OF r(1) assms(1) r(3) errors_is_refl] r(2) out
  show "body_bytes (exact_body b sz) = body_bytes b" and "int (length (body_bytes b)) = sz" and "body_err (stream_of b) = None"
    by (simp_all add: stream_of_def)
qed

lemma copied_whole:
  "ex_err e = None \<Longrightarrow> body_err (ex_r e) = None \<Longrightarrow> ex_n e + int (length (body_bytes (ex_r e))) = ex_size e \<Longrightarrow> 0 \<le> ex_n e
    \<Longrightarrow> length (body_bytes (ex_r e)) + 2 \<le> k
    \<Longrightarrow> fst (copy_all is_eof (exact_read body_read) copy_buffer k e) = (body_bytes (ex_r e), None)"
proof (induction "length (body_bytes (ex_r e))" arbitrary: e k rule: less_induct)
  case less
  let ?bs = "body_bytes (ex_r e)"
  obtain k' where k: "k = Suc (Suc k')" using less.prems(5) by (metis add_2_eq_Suc' le_Suc_ex add_Suc_right plus_nat.simps(2))
  have pos: "0 < copy_buffer" by (simp add: copy_buffer_def)
  have past: "past_end body_read empty_reads n b = (eof, b)" if "body_bytes b = []" "body_err b = None" for n b
    using that by (simp add: empty_reads_def body_read_def numeral_eq_Suc)
  show ?case
  proof (cases "length ?bs \<le> copy_buffer")
    case True
    let ?e = "e\<lparr>ex_r := (ex_r e)\<lparr>body_bytes := []\<rparr>, ex_n := ex_size e, ex_err := Some eof\<rparr>"
    have more: "?bs \<noteq> [] \<Longrightarrow> ex_n e < ex_size e" using less.prems(3) by (cases ?bs) auto
    have one: "exact_read body_read e copy_buffer = ((?bs, if ?bs = [] then Some eof else None), ?e)"
      using less.prems True pos more past [of "ex_r e"] past [of "(ex_r e)\<lparr>body_bytes := []\<rparr>"]
      by (cases "?bs = []") (auto simp: exact_read_def Let_def body_read_def)
    have two: "exact_read body_read ?e copy_buffer = (([], Some eof), ?e)" by (simp add: exact_read_def)
    show ?thesis by (simp add: k one two is_eof_def)
  next
    case False
    let ?e = "e\<lparr>ex_r := (ex_r e)\<lparr>body_bytes := drop copy_buffer ?bs\<rparr>, ex_n := ex_n e + int copy_buffer\<rparr>"
    have one: "exact_read body_read e copy_buffer = ((take copy_buffer ?bs, None), ?e)"
      using less.prems False pos by (auto simp: exact_read_def Let_def body_read_def min_def)
    have "fst (copy_all is_eof (exact_read body_read) copy_buffer (Suc k') ?e) = (body_bytes (ex_r ?e), None)"
      using less.prems False pos k by (intro less.hyps) auto
    then show ?thesis by (subst k, subst copy_all.simps) (auto simp: one split: prod.splits)
  qed
qed

lemma exact_body_whole:
  assumes "body_err b = None" and "int (length (body_bytes b)) = sz"
  shows "exact_body b sz = b"
proof -
  have "fst (copy_all is_eof (exact_read body_read) copy_buffer (length (body_bytes b) + 2) (exact_over b sz)) = (body_bytes b, None)"
    using copied_whole [of "exact_over b sz" "length (body_bytes b) + 2"] assms by (simp add: exact_over_def del: copy_all.simps)
  then show ?thesis using assms(1) by (cases b) (auto simp: exact_body_def split: prod.splits)
qed

section \<open>The readers of the Cloud Storage and Azure backends\<close>

text \<open>
  Those two pass the last bytes on before they know that the stream ends there, and ask for one byte more
  at the next read. They differ in how they say an end that came wrapped in another error.
\<close>

definition sized_read :: "(goerr \<Rightarrow> goerr) \<Rightarrow> 'r reader \<Rightarrow> 'r exact_reader \<Rightarrow> nat \<Rightarrow> (string \<times> goerr option) \<times> 'r exact_reader" where
  "sized_read say_end rd e len =
     (if ex_err e \<noteq> None \<or> len = 0 then (([], ex_err e), e)
      else if ex_n e = ex_size e
      then (case rd (ex_r e) 1 of ((p, x), r) \<Rightarrow>
        if p \<noteq> [] then (let y = holds_more (ex_size e) in (([], Some y), e\<lparr>ex_r := r, ex_err := Some y\<rparr>))
        else (case x of
            None \<Rightarrow> (([], None), e\<lparr>ex_r := r\<rparr>)
          | Some y \<Rightarrow> (let z = (if errors_is y eof then say_end y else y) in (([], Some z), e\<lparr>ex_r := r, ex_err := Some z\<rparr>))))
      else let rest = ex_size e - ex_n e; m = (if int len > rest then nat rest else len) in
        (case rd (ex_r e) m of ((p, x), r) \<Rightarrow>
          let n = ex_n e + int (length p);
              x' = (case x of None \<Rightarrow> None | Some y \<Rightarrow>
                Some (if \<not> errors_is y eof then y else if n < ex_size e then ended_after n (ex_size e) else say_end y)) in
          ((p, x'), e\<lparr>ex_r := r, ex_n := n, ex_err := x'\<rparr>)))"

definition gcs_read :: "'r reader \<Rightarrow> 'r exact_reader \<Rightarrow> nat \<Rightarrow> (string \<times> goerr option) \<times> 'r exact_reader" where
  "gcs_read = sized_read (\<lambda>y. eof)"

definition azure_read :: "'r reader \<Rightarrow> 'r exact_reader \<Rightarrow> nat \<Rightarrow> (string \<times> goerr option) \<times> 'r exact_reader" where
  "azure_read = sized_read (\<lambda>y. y)"

context stream_reader
begin

definition sized :: "body \<Rightarrow> int \<Rightarrow> string \<Rightarrow> 'r exact_reader \<Rightarrow> bool" where
  "sized s sz out e \<longleftrightarrow> ex_size e = sz \<and> int (length out) = ex_n e \<and> ex_n e \<le> sz \<and> (case ex_err e of
       None \<Rightarrow> body_bytes s = out @ body_bytes (left (ex_r e)) \<and> body_err (left (ex_r e)) = body_err s
     | Some y \<Rightarrow> errors_is y eof \<longrightarrow> out = body_bytes s \<and> int (length out) = sz \<and> body_err s = None)"

lemma sized_start: "0 \<le> sz \<Longrightarrow> sized (left r) sz [] (exact_over r sz)"
  by (auto simp: sized_def exact_over_def)

lemma sized_step:
  assumes h: "sized s sz out e" and r: "sized_read say_end rd e len = ((p, x), e')"
  shows "sized s sz (out @ p) e'" and "x = Some y \<Longrightarrow> ex_err e' = Some y" and "ex_err e \<noteq> None \<Longrightarrow> e' = e"
proof -
  have "sized s sz (out @ p) e' \<and> (x = Some y \<longrightarrow> ex_err e' = Some y) \<and> (ex_err e \<noteq> None \<longrightarrow> e' = e)"
  proof (cases "ex_err e \<noteq> None \<or> len = 0")
    case True
    with h r show ?thesis by (auto simp: sized_read_def sized_def)
  next
    case False
    with h have open_: "ex_size e = sz" "ex_err e = None" "body_bytes s = out @ body_bytes (left (ex_r e))"
      "body_err (left (ex_r e)) = body_err s" "int (length out) = ex_n e" "ex_n e \<le> sz" "len \<noteq> 0"
      by (auto simp: sized_def)
    define m where "m = (if ex_n e = sz then 1 else if int len > sz - ex_n e then nat (sz - ex_n e) else len)"
    have m: "0 < m" "ex_n e \<noteq> sz \<Longrightarrow> int m \<le> sz - ex_n e" using open_(6,7) by (auto simp: m_def)
    obtain q z r1 where one: "rd (ex_r e) m = ((q, z), r1)" by (metis prod.collapse)
    note g = gives [OF one m(1)]
    have z: "body_bytes (left r1) = []" "errors_is y eof \<Longrightarrow> body_err (left (ex_r e)) = None" if "z = Some y" for y
      using ends [of "ex_r e" m q y r1] one m(1) that by auto
    show ?thesis
    proof (cases "ex_n e = sz")
      case True
      then have "m = 1" by (simp add: m_def)
      with r False True open_ one g z show ?thesis
        by (cases z) (auto simp: sized_read_def sized_def Let_def split: if_splits)
    next
      case less: False
      have "((q, case z of None \<Rightarrow> None | Some y \<Rightarrow> Some (if \<not> errors_is y eof then y
            else if ex_n e + int (length q) < sz then ended_after (ex_n e + int (length q)) sz else say_end y)),
          e\<lparr>ex_r := r1, ex_n := ex_n e + int (length q), ex_err := (case z of None \<Rightarrow> None | Some y \<Rightarrow> Some (if \<not> errors_is y eof then y
            else if ex_n e + int (length q) < sz then ended_after (ex_n e + int (length q)) sz else say_end y))\<rparr>) = ((p, x), e')"
        using r False less one open_(1) by (auto simp: sized_read_def Let_def m_def)
      with open_ less m(2) g z show ?thesis by (cases z) (auto simp: sized_def split: if_splits)
    qed
  qed
  then show "sized s sz (out @ p) e'" and "x = Some y \<Longrightarrow> ex_err e' = Some y" and "ex_err e \<noteq> None \<Longrightarrow> e' = e" by simp_all
qed

lemma sized_stuck: "ex_err e \<noteq> None \<Longrightarrow> reads (sized_read say_end rd) e ns = (rs, e') \<Longrightarrow> e' = e"
  by (induction ns arbitrary: rs) (auto simp: sized_read_def split: prod.splits)

lemma sized_reads:
  "reads (sized_read say_end rd) e ns = (rs, e') \<Longrightarrow> sized s sz out e \<Longrightarrow> sized s sz (out @ concat (map fst rs)) e'
    \<and> (\<forall>y. Some y \<in> set (map snd rs) \<longrightarrow> ex_err e' = Some y)"
proof (induction ns arbitrary: e out rs)
  case (Cons n ns)
  obtain p x e1 where one: "sized_read say_end rd e n = ((p, x), e1)" by (metis prod.collapse)
  obtain qs where rest: "reads (sized_read say_end rd) e1 ns = (qs, e')" and rs: "rs = (p, x) # qs"
    using Cons.prems(1) one by (auto split: prod.splits)
  note h = sized_step [OF Cons.prems(2) one]
  have "x = Some y \<Longrightarrow> ex_err e' = Some y" for y using h(2) sized_stuck [OF _ rest] by force
  then show ?case using Cons.IH [OF rest h(1)] by (auto simp: rs)
qed simp

text \<open>However it is read, an end is said only of a stream that is exactly the bytes passed on.\<close>

lemma sized_all:
  assumes "reads (sized_read say_end rd) (exact_over r sz) ns = (rs, e)" and "0 \<le> sz"
  shows "int (length (concat (map fst rs))) = ex_n e" "ex_n e \<le> sz"
    and "Some y \<in> set (map snd rs) \<Longrightarrow> errors_is y eof \<Longrightarrow>
      concat (map fst rs) = body_bytes (left r) \<and> int (length (body_bytes (left r))) = sz \<and> body_err (left r) = None"
  using sized_reads [OF assms(1) sized_start [OF assms(2)]] by (fastforce simp: sized_def)+

end

text \<open>What a backend's reader gives when it is read through, how it ends, and how many bytes it counted.\<close>

definition sized_body :: "(goerr \<Rightarrow> bool) \<Rightarrow> (goerr \<Rightarrow> goerr) \<Rightarrow> body \<Rightarrow> int \<Rightarrow> body \<times> int" where
  "sized_body is_end say_end b sz =
     (case copy_all is_end (sized_read say_end body_read) copy_buffer (length (body_bytes b) + 2) (exact_over b sz) of
       ((out, e), s) \<Rightarrow> (\<lparr>body_bytes = out, body_err = e\<rparr>, ex_n s))"

lemma sized_body_only:
  assumes "0 \<le> sz" and b: "sized_body is_end say_end b sz = (s, n)" "body_err s = None" and "\<And>y. is_end y \<Longrightarrow> errors_is y eof"
  shows "body_bytes s = body_bytes b" "int (length (body_bytes b)) = sz" "n = sz" "body_err (stream_of b) = None"
proof -
  obtain e where c: "copy_all is_end (sized_read say_end body_read) copy_buffer (length (body_bytes b) + 2) (exact_over b sz)
      = ((body_bytes s, None), e)" and n: "n = ex_n e"
    using b by (auto simp: sized_body_def split: prod.splits)
  obtain j rs y where r: "reads (sized_read say_end body_read) (exact_over b sz) (replicate j copy_buffer) = (rs, e)"
    "body_bytes s = concat (map fst rs)" "is_end y" "Some y \<in> set (map snd rs)" using copied_reads [OF c] by auto
  note all = body_stream.sized_all [OF r(1) assms(1)]
  from all(3) [OF r(4) assms(4) [OF r(3)]] all(1) r(2) n
  show "body_bytes s = body_bytes b" "int (length (body_bytes b)) = sz" "n = sz" "body_err (stream_of b) = None"
    by (auto simp: stream_of_def)
qed

lemma sized_copied_whole:
  "is_end (say_end eof) \<Longrightarrow> ex_err e = None \<Longrightarrow> body_err (ex_r e) = None \<Longrightarrow> ex_n e + int (length (body_bytes (ex_r e))) = ex_size e
    \<Longrightarrow> length (body_bytes (ex_r e)) + 1 \<le> k
    \<Longrightarrow> \<exists>e'. copy_all is_end (sized_read say_end body_read) copy_buffer k e = ((body_bytes (ex_r e), None), e') \<and> ex_n e' = ex_size e"
proof (induction "length (body_bytes (ex_r e))" arbitrary: e k rule: less_induct)
  case less
  let ?bs = "body_bytes (ex_r e)"
  obtain k' where k: "k = Suc k'" using less.prems(5) by (cases k) auto
  have pos: "0 < copy_buffer" by (simp add: copy_buffer_def)
  show ?case
  proof (cases "?bs = []")
    case True
    then show ?thesis using less.prems pos by (simp add: k sized_read_def body_read_def Let_def)
  next
    case False
    let ?e = "e\<lparr>ex_r := (ex_r e)\<lparr>body_bytes := drop copy_buffer ?bs\<rparr>, ex_n := ex_n e + int (length (take copy_buffer ?bs))\<rparr>"
    have "ex_n e \<noteq> ex_size e" using False less.prems(4) by (cases ?bs) auto
    moreover have "take (nat (ex_size e - ex_n e)) ?bs = take copy_buffer ?bs" "drop (nat (ex_size e - ex_n e)) ?bs = drop copy_buffer ?bs"
      if "int copy_buffer > ex_size e - ex_n e"
    proof -
      have "nat (ex_size e - ex_n e) = length ?bs" "length ?bs \<le> copy_buffer" using that less.prems(4) by linarith+
      then show "take (nat (ex_size e - ex_n e)) ?bs = take copy_buffer ?bs" "drop (nat (ex_size e - ex_n e)) ?bs = drop copy_buffer ?bs"
        by simp_all
    qed
    ultimately have one: "sized_read say_end body_read e copy_buffer = ((take copy_buffer ?bs, None), ?e)"
      using less.prems False pos by (simp add: sized_read_def Let_def body_read_def del: length_take)
    have "\<exists>e'. copy_all is_end (sized_read say_end body_read) copy_buffer k' ?e = ((body_bytes (ex_r ?e), None), e') \<and> ex_n e' = ex_size ?e"
      using less.prems False pos k length_greater_0_conv [of ?bs] by (intro less.hyps) (auto simp: min_def simp del: length_greater_0_conv)
    then show ?thesis by (auto simp: k one)
  qed
qed

lemma sized_body_whole:
  assumes "is_end (say_end eof)" "body_err b = None" and "int (length (body_bytes b)) = sz"
  shows "sized_body is_end say_end b sz = (b, sz)"
proof -
  obtain e' where "copy_all is_end (sized_read say_end body_read) copy_buffer (length (body_bytes b) + 2) (exact_over b sz) = ((body_bytes b, None), e')"
    "ex_n e' = sz"
    using sized_copied_whole [of is_end say_end "exact_over b sz" "length (body_bytes b) + 2"] assms
    by (auto simp: exact_over_def simp del: copy_all.simps)
  then show ?thesis using assms(2) by (cases b) (simp add: sized_body_def)
qed

end
