(* ===== verification/S3_Body.thy ===== *)
theory S3_Body
  imports Exact Crypto "HOL-Library.Word"
begin

unbundle bit_operations_syntax

text \<open>
  What src/internal/dest/s3 sends and reads, apart from the calls themselves: the CRC32 of a body
  and the cut of an object into parts (multipart.go), and the check of the document an answer
  carries (answer.go).
\<close>

section \<open>The CRC32 of a body\<close>

definition crc_bit :: "32 word \<Rightarrow> 32 word" where
  "crc_bit w = (if bit w 0 then drop_bit 1 w XOR 0xEDB88320 else drop_bit 1 w)"

definition crc_byte :: "char \<Rightarrow> 32 word \<Rightarrow> 32 word" where
  "crc_byte c w = (crc_bit ^^ 8) (w XOR of_nat (of_char c))"

definition crc_write :: "32 word \<Rightarrow> string \<Rightarrow> 32 word" where
  "crc_write w s = NOT (fold crc_byte s (NOT w))"

definition crc32 :: "string \<Rightarrow> 32 word" where
  "crc32 s = crc_write 0 s"

lemma crc_write_append: "crc_write w (a @ b) = crc_write (crc_write w a) b"
  by (simp add: crc_write_def)

definition be4 :: "32 word \<Rightarrow> string" where
  "be4 w = map (\<lambda>k. char_of (unat (drop_bit k w AND 255))) [24, 16, 8, 0]"

definition b64_sum :: "32 word \<Rightarrow> string" where
  "b64_sum w = b64_encode (be4 w)"

section \<open>An object in parts\<close>

definition default_multipart_threshold :: int where "default_multipart_threshold = 4 * 2 ^ 30"
definition default_part_size :: int where "default_part_size = 64 * 2 ^ 20"
definition min_part_size :: int where "min_part_size = 5 * 2 ^ 20"
definition max_part_size :: int where "max_part_size = 5 * 2 ^ 30"
definition part_target :: int where "part_target = 9000"

record part_plan =
  pp_size :: int
  pp_part :: int
  pp_count :: int

definition plan_parts :: "int \<Rightarrow> int \<Rightarrow> part_plan" where
  "plan_parts sz smallest =
     (let ps = min (max smallest (go_div (wrap64 (sz + part_target - 1)) part_target)) max_part_size in
      \<lparr>pp_size = sz, pp_part = ps, pp_count = go_div (wrap64 (wrap64 (sz + ps) - 1)) ps\<rparr>)"

definition plan_part :: "part_plan \<Rightarrow> int \<Rightarrow> int \<times> int" where
  "plan_part p i = (let off = wrap64 (i * pp_part p) in (off, min (pp_part p) (wrap64 (pp_size p - off))))"

record part_sums =
  ps_parts :: "32 word list"
  ps_full :: "32 word"

text \<open>A composite CRC32: the CRC32 of the parts' CRC32s, with their count after a dash.\<close>

definition composite_sum :: "part_sums \<Rightarrow> string" where
  "composite_sum s = b64_sum (crc32 (concat (map be4 (ps_parts s)))) @ ''-'' @ show_nat (length (ps_parts s))"

text \<open>A part of a file or a byte slice, read at its offset.\<close>

definition section_at :: "body \<Rightarrow> int \<times> int \<Rightarrow> body" where
  "section_at b p = (case p of (off, n) \<Rightarrow>
     let bs = take (nat n) (drop (nat off) (body_bytes b)) in
     \<lparr>body_bytes = bs, body_err = (if int (length bs) < n then body_err (stream_of b) else None)\<rparr>)"

text \<open>The read past the artifact's end, of a stream that holds nothing there.\<close>

definition ends_at :: "body \<Rightarrow> int \<Rightarrow> int \<Rightarrow> goerr option" where
  "ends_at b off sz = (if drop (nat off) (body_bytes b) \<noteq> [] then Some (holds_more sz) else body_err (stream_of b))"

fun checksum_from :: "('w \<Rightarrow> goerr option) \<Rightarrow> body \<Rightarrow> part_plan \<Rightarrow> nat list \<Rightarrow> part_sums \<Rightarrow> ('w, part_sums) io" where
  "checksum_from ctx b plan [] s = okE s"
| "checksum_from ctx b plan (i # is) s = bindE (readE ctx) (\<lambda>stop. case stop of
       Some x \<Rightarrow> failE x
     | None \<Rightarrow> (let p = section_at b (plan_part plan (int i)); n = snd (plan_part plan (int i)) in
         case body_err p of
           Some x \<Rightarrow> failE x
         | None \<Rightarrow>
             if int (length (body_bytes p)) \<noteq> n
             then failE (new_error (''part '' @ show_nat (i + 1) @ '': read '' @ show_nat (length (body_bytes p)) @ '' bytes of ''
               @ show_int n @ '': the object is shorter than its size''))
             else checksum_from ctx b plan is \<lparr>ps_parts = ps_parts s @ [crc32 (body_bytes p)],
               ps_full = crc_write (ps_full s) (body_bytes p)\<rparr>))"

definition part_numbers :: "part_plan \<Rightarrow> nat list" where
  "part_numbers plan = [0..<nat (pp_count plan)]"

text \<open>A negative count is the panic of \<open>make\<close>: the size came within a part of the largest int64.\<close>

definition checksum_parts :: "('w \<Rightarrow> goerr option) \<Rightarrow> body \<Rightarrow> part_plan \<Rightarrow> ('w, part_sums) io" where
  "checksum_parts ctx b plan =
     (if pp_count plan < 0 then failE (new_error ''runtime error: makeslice: len out of range'') else
     bindE (checksum_from ctx b plan (part_numbers plan) \<lparr>ps_parts = [], ps_full = 0\<rparr>) (\<lambda>s.
     case ends_at b (pp_size plan) (pp_size plan) of Some x \<Rightarrow> failE x | None \<Rightarrow> okE s))"

text \<open>Five minutes, or the part at 1 MiB a second if that is longer.\<close>

definition part_timeout :: "int \<Rightarrow> duration" where
  "part_timeout n = max (5 * 60 * second) (wrap64 (drop_bit 20 n * second))"

section \<open>The parts tile the object\<close>

definition part_at :: "string \<Rightarrow> part_plan \<Rightarrow> nat \<Rightarrow> string" where
  "part_at bs plan i = body_bytes (section_at \<lparr>body_bytes = bs, body_err = None\<rparr> (plan_part plan (int i)))"

lemma plan_part_range:
  assumes "min_part_size \<le> smallest" "smallest \<le> max_part_size"
  shows "min_part_size \<le> pp_part (plan_parts sz smallest)" "pp_part (plan_parts sz smallest) \<le> max_part_size"
  using assms by (auto simp: plan_parts_def Let_def min_part_size_def max_part_size_def)

lemma plan_size [simp]: "pp_size (plan_parts sz smallest) = sz"
  by (simp add: plan_parts_def Let_def)

lemma plan_count_is: "pp_count (plan_parts sz smallest)
    = go_div (wrap64 (wrap64 (sz + pp_part (plan_parts sz smallest)) - 1)) (pp_part (plan_parts sz smallest))"
  by (simp add: plan_parts_def Let_def)

text \<open>Within the largest size of a part, the count is the division rounded up; past it, it is negative.\<close>

lemma plan_count:
  assumes "0 < sz" "in_int64 sz" "min_part_size \<le> q" "q \<le> max_part_size"
  shows "sz + q \<le> 2 ^ 63 \<Longrightarrow> go_div (wrap64 (wrap64 (sz + q) - 1)) q = (sz + q - 1) div q"
    and "sz + q > 2 ^ 63 \<Longrightarrow> go_div (wrap64 (wrap64 (sz + q) - 1)) q < 0"
proof -
  have q: "0 < q" "q \<le> 5368709120" using assms by (simp_all add: min_part_size_def max_part_size_def)
  show "go_div (wrap64 (wrap64 (sz + q) - 1)) q = (sz + q - 1) div q" if "sz + q \<le> 2 ^ 63"
  proof -
    have "wrap64 (wrap64 (sz + q) - 1) = sz + q - 1"
    proof (cases "sz + q = 2 ^ 63")
      case True
      then show ?thesis by (simp add: wrap64_def)
    next
      case False
      with that assms(1) q show ?thesis by (simp add: wrap64_id in_int64_def)
    qed
    then show ?thesis using assms(1) q by (simp add: go_div_nonneg)
  qed
  show "go_div (wrap64 (wrap64 (sz + q) - 1)) q < 0" if "sz + q > 2 ^ 63"
  proof -
    let ?a = "sz + q - 2 ^ 64"
    have a: "- (2 ^ 63) < ?a" "?a < 5368709120 - 2 ^ 63" using that assms(2) q by (simp_all add: in_int64_def)
    have "wrap64 (sz + q) = (?a + 2 ^ 63) mod 2 ^ 64 - 2 ^ 63"
      unfolding wrap64_def by (metis (no_types, opaque_lifting) add.commute add_diff_eq diff_add_cancel minus_mod_self2 diff_add_eq)
    then have "wrap64 (sz + q) = ?a" using a by simp
    moreover have "wrap64 (?a - 1) = ?a - 1" using a by (intro wrap64_id) (simp add: in_int64_def)
    ultimately have w: "wrap64 (wrap64 (sz + q) - 1) = ?a - 1" by simp
    have "q \<le> \<bar>?a - 1\<bar>" using a q by simp
    then have "0 < \<bar>?a - 1\<bar> div \<bar>q\<bar>" using q by (simp add: pos_imp_zdiv_pos_iff)
    then show ?thesis unfolding w go_div_def using a q by (simp add: sgn_if)
  qed
qed

definition planned :: "int \<Rightarrow> part_plan \<Rightarrow> bool" where
  "planned sz plan \<longleftrightarrow> 0 < sz \<and> sz + pp_part plan \<le> 2 ^ 63
     \<and> (\<exists>smallest. min_part_size \<le> smallest \<and> smallest \<le> max_part_size \<and> plan = plan_parts sz smallest)"

lemma plannedI:
  assumes "0 < sz" "in_int64 sz" "min_part_size \<le> smallest" "smallest \<le> max_part_size" "0 \<le> pp_count (plan_parts sz smallest)"
  shows "planned sz (plan_parts sz smallest)"
proof -
  note r = plan_part_range [OF assms(3,4), of sz]
  have "sz + pp_part (plan_parts sz smallest) \<le> 2 ^ 63"
    using plan_count(2) [OF assms(1,2) r] assms(5) unfolding plan_count_is by linarith
  with assms show ?thesis by (auto simp: planned_def)
qed

lemma part_range:
  assumes "planned sz plan"
  shows "min_part_size \<le> pp_part plan" "pp_part plan \<le> max_part_size" "0 < pp_part plan"
proof -
  show "min_part_size \<le> pp_part plan" "pp_part plan \<le> max_part_size"
    using assms plan_part_range unfolding planned_def by blast+
  then show "0 < pp_part plan" by (simp add: min_part_size_def)
qed

lemma planned_fits: "planned sz plan \<Longrightarrow> in_int64 sz" "planned sz plan \<Longrightarrow> 0 < sz" "planned sz plan \<Longrightarrow> pp_size plan = sz"
  using part_range(3) by (fastforce simp: planned_def in_int64_def)+

lemma part_count:
  assumes "planned sz plan"
  shows "1 \<le> pp_count plan" and "(pp_count plan - 1) * pp_part plan < sz" "sz \<le> pp_count plan * pp_part plan"
proof -
  obtain smallest where p: "plan = plan_parts sz smallest" using assms by (auto simp: planned_def)
  have c: "pp_count plan = (sz + pp_part plan - 1) div pp_part plan"
    using plan_count(1) [OF planned_fits(2,1) [OF assms] part_range(1,2) [OF assms]] assms
    unfolding p plan_count_is by (simp add: planned_def)
  note p = part_range(3) [OF assms]
  have "(sz - 1) div pp_part plan + 1 = pp_count plan"
    unfolding c using p div_add_self2 [of "pp_part plan" "sz - 1"] by (simp add: algebra_simps)
  moreover have "(sz - 1) div pp_part plan * pp_part plan \<le> sz - 1" and "sz - 1 < ((sz - 1) div pp_part plan + 1) * pp_part plan"
    using div_mult_mod_eq [of "sz - 1" "pp_part plan"] pos_mod_sign [OF p, of "sz - 1"] pos_mod_bound [OF p, of "sz - 1"]
    by (simp_all only: distrib_right mult_1)
  moreover have "0 \<le> (sz - 1) div pp_part plan" using p planned_fits(2) [OF assms] by (simp add: pos_imp_zdiv_nonneg_iff)
  ultimately show "1 \<le> pp_count plan" "(pp_count plan - 1) * pp_part plan < sz" "sz \<le> pp_count plan * pp_part plan"
    by (auto simp: eq_diff_eq [symmetric])
qed

text \<open>An object of up to 9,000 of the largest parts is cut into no more than 9,000.\<close>

lemma part_count_target:
  assumes pl: "planned sz plan" and sz: "sz \<le> part_target * max_part_size"
  shows "pp_count plan \<le> part_target"
proof -
  obtain smallest where p: "plan = plan_parts sz smallest" using pl by (auto simp: planned_def)
  have g: "go_div (wrap64 (sz + part_target - 1)) part_target = (sz + 8999) div 9000"
    using planned_fits(2) [OF pl] sz
    by (simp add: wrap64_id in_int64_def part_target_def max_part_size_def go_div_nonneg)
  have "sz \<le> 9000 * ((sz + 8999) div 9000)"
    using div_mult_mod_eq [of "sz + 8999" 9000] pos_mod_bound [of 9000 "sz + 8999"] by linarith
  then have "sz \<le> part_target * pp_part plan"
    using sz g by (auto simp: p plan_parts_def Let_def part_target_def min_def max_def)
  then have "(pp_count plan - 1) * pp_part plan < part_target * pp_part plan" using part_count(2) [OF pl] by simp
  then show ?thesis using part_range(3) [OF pl] by simp
qed

lemma part_is:
  assumes "planned sz plan" "0 \<le> i" "i < pp_count plan"
  shows "plan_part plan i = (i * pp_part plan, min (pp_part plan) (sz - i * pp_part plan))" and "i * pp_part plan < sz"
proof -
  have "i * pp_part plan \<le> (pp_count plan - 1) * pp_part plan"
    using assms(2,3) part_range(3) [OF assms(1)] by (intro mult_right_mono) auto
  then show less: "i * pp_part plan < sz" using part_count(2) [OF assms(1)] by simp
  moreover have "0 \<le> i * pp_part plan" using assms(2) part_range(3) [OF assms(1)] by simp
  ultimately show "plan_part plan i = (i * pp_part plan, min (pp_part plan) (sz - i * pp_part plan))"
    using planned_fits [OF assms(1)] by (simp add: plan_part_def Let_def wrap64_id in_int64_def)
qed

text \<open>Each part begins where the one before it ends, none is empty or too large, and they end at the object's end.\<close>

lemma parts_tile:
  assumes "planned sz plan" "0 \<le> i" "i < pp_count plan" and "plan_part plan i = (off, n)"
  shows "0 < n" "n \<le> max_part_size" "off + n \<le> sz"
    and "off + n = (if i + 1 < pp_count plan then fst (plan_part plan (i + 1)) else sz)"
proof -
  have p: "off = i * pp_part plan" "n = min (pp_part plan) (sz - i * pp_part plan)" "i * pp_part plan < sz"
    using part_is [OF assms(1-3)] assms(4) by simp_all
  then show "0 < n" "n \<le> max_part_size" "off + n \<le> sz" using part_range [OF assms(1)] by auto
  show "off + n = (if i + 1 < pp_count plan then fst (plan_part plan (i + 1)) else sz)"
  proof (cases "i + 1 < pp_count plan")
    case True
    with part_is [OF assms(1), of "i + 1"] assms(2) p show ?thesis by (simp add: algebra_simps)
  next
    case False
    then have "i + 1 = pp_count plan" using assms(3) by simp
    then have "sz \<le> (i + 1) * pp_part plan" using part_count(3) [OF assms(1)] by simp
    with p False show ?thesis by (simp add: algebra_simps)
  qed
qed

lemma concat_slices: "concat (map (\<lambda>i. take p (drop (i * p) bs)) [0..<k]) = take (k * p) bs"
  by (induction k) (simp_all add: take_add [symmetric] add.commute)

lemma concat_parts:
  assumes pl: "planned sz plan" and len: "int (length bs) = sz"
  shows "concat (map (part_at bs plan) (part_numbers plan)) = bs"
proof -
  let ?p = "nat (pp_part plan)"
  note p = part_range(3) [OF pl]
  have part: "part_at bs plan i = take ?p (drop (i * ?p) bs)" if "i < nat (pp_count plan)" for i
  proof -
    have i: "0 \<le> int i" "int i < pp_count plan" using that by auto
    have e: "int (i * ?p) = int i * pp_part plan" using p by simp
    then have "nat (int i * pp_part plan) = i * ?p" by (metis nat_int)
    moreover have "nat (sz - int i * pp_part plan) = length bs - i * ?p" using len e by linarith
    ultimately show ?thesis
      unfolding part_at_def section_at_def part_is(1) [OF pl i] by (simp add: Let_def) (simp add: min_def)
  qed
  have "int (nat (pp_count plan) * ?p) = pp_count plan * pp_part plan" using p part_count(1) [OF pl] by simp
  then have "length bs \<le> nat (pp_count plan) * ?p" using part_count(3) [OF pl] len by linarith
  moreover have "map (part_at bs plan) (part_numbers plan) = map (\<lambda>i. take ?p (drop (i * ?p) bs)) [0..<nat (pp_count plan)]"
    using part by (simp add: part_numbers_def)
  ultimately show ?thesis using concat_slices [of ?p bs "nat (pp_count plan)"] by simp
qed

lemma crc_write_Nil [simp]: "crc_write w [] = w"
  by (simp add: crc_write_def)

lemma checksum_from_ok:
  "checksum_from ctx b plan is s w = (Inr s', w') \<Longrightarrow> w' = w
    \<and> (\<forall>i \<in> set is. int (length (part_at (body_bytes b) plan i)) = snd (plan_part plan (int i)))
    \<and> ps_parts s' = ps_parts s @ map (\<lambda>i. crc32 (part_at (body_bytes b) plan i)) is
    \<and> ps_full s' = crc_write (ps_full s) (concat (map (part_at (body_bytes b) plan) is))"
proof (induction "is" arbitrary: s)
  case (Cons i "is")
  have p: "body_bytes (section_at b (plan_part plan (int i))) = part_at (body_bytes b) plan i"
    by (simp add: part_at_def section_at_def Let_def split: prod.split)
  have "checksum_from ctx b plan is \<lparr>ps_parts = ps_parts s @ [crc32 (part_at (body_bytes b) plan i)],
      ps_full = crc_write (ps_full s) (part_at (body_bytes b) plan i)\<rparr> w = (Inr s', w')"
    and "int (length (part_at (body_bytes b) plan i)) = snd (plan_part plan (int i))"
    using Cons.prems by (auto simp: Let_def p elim!: bindE_InrE split: option.splits if_splits)
  with Cons.IH [OF this(1)] show ?case by (simp add: crc_write_append)
qed simp

text \<open>An object whose parts were checksummed is exactly as long as its size, and the sums are its parts' and its own.\<close>

lemma checksum_parts_ok:
  assumes "checksum_parts ctx b plan w = (Inr s, w')" and pl: "planned sz plan"
  shows "w' = w" "int (length (body_bytes b)) = sz" "body_err (stream_of b) = None"
    and "ps_parts s = map (\<lambda>i. crc32 (part_at (body_bytes b) plan i)) (part_numbers plan)" "ps_full s = crc32 (body_bytes b)"
proof -
  note size = planned_fits(3,2) [OF pl]
  have c: "checksum_from ctx b plan (part_numbers plan) \<lparr>ps_parts = [], ps_full = 0\<rparr> w = (Inr s, w')"
    and e: "ends_at b (pp_size plan) (pp_size plan) = None"
    using assms(1) unfolding checksum_parts_def by (auto elim!: bindE_InrE split: option.splits if_splits)
  note ok = checksum_from_ok [OF c]
  show "w' = w" using ok by blast
  show "ps_parts s = map (\<lambda>i. crc32 (part_at (body_bytes b) plan i)) (part_numbers plan)" using ok by simp
  have le: "int (length (body_bytes b)) \<le> sz" and "body_err (stream_of b) = None"
    using e size by (auto simp: ends_at_def split: if_splits)
  then show "body_err (stream_of b) = None" by blast
  let ?i = "nat (pp_count plan - 1)"
  have i: "0 \<le> pp_count plan - 1" "pp_count plan - 1 < pp_count plan" "int ?i = pp_count plan - 1" "?i \<in> set (part_numbers plan)"
    using part_count(1) [OF pl] by (auto simp: part_numbers_def)
  obtain off n where p: "plan_part plan (int ?i) = (off, n)" by (metis prod.collapse)
  have tile: "0 < n" "off + n = sz" using parts_tile(1,4) [OF pl i(1,2)] p i(3) by auto
  have "0 \<le> off" using part_is(1) [OF pl i(1,2)] p i(3)
      mult_nonneg_nonneg [OF i(1) less_imp_le [OF part_range(3) [OF pl]]] by simp
  moreover have "int (length (part_at (body_bytes b) plan ?i)) = n" using ok i(4) p by auto
  ultimately have "sz \<le> int (length (body_bytes b))"
    using tile p by (auto simp: part_at_def section_at_def Let_def min_def split: if_splits)
  with le show len: "int (length (body_bytes b)) = sz" by simp
  show "ps_full s = crc32 (body_bytes b)" using ok concat_parts [OF pl len] by (simp add: crc32_def)
qed

section \<open>What an answer is a document of\<close>

datatype xml_token = StartElement string | OtherToken

text \<open>
  The tokens a decoder gives of the first 64 KiB, the last one before it failed, and the failure of
  the connection underneath when it was that.
\<close>

record raw_answer =
  ra_status :: int
  ra_body :: "(xml_token list \<times> goerr option) option"

fun root_element :: "xml_token list \<Rightarrow> goerr option \<Rightarrow> goerr + string" where
  "root_element [] failed = (case failed of Some e \<Rightarrow> Inl e | None \<Rightarrow> Inr [])"
| "root_element (StartElement n # ts) failed = Inr n"
| "root_element (OtherToken # ts) failed = root_element ts failed"

definition describe_root :: "string \<Rightarrow> string" where
  "describe_root root = (if root = [] then ''no XML document'' else ''a document whose root is '' @ shaped_code root)"

definition not_storage_answer :: "int \<Rightarrow> string \<Rightarrow> string \<Rightarrow> goerr" where
  "not_storage_answer status got want = GoErr Plain (err_text err_not_storage_api @ '': HTTP '' @ show_int status @ '' and ''
     @ describe_root got @ '' where '' @ want @ '' belongs'') [err_not_storage_api]"

definition answer_check :: "string \<Rightarrow> raw_answer \<Rightarrow> goerr option" where
  "answer_check root a = (case ra_body a of
       None \<Rightarrow> None
     | Some (ts, failed) \<Rightarrow>
         let want = (if ra_status a < 200 \<or> ra_status a > 299 then ''Error'' else root) in
         (case root_element ts failed of
            Inl e \<Rightarrow> Some e
          | Inr got \<Rightarrow> if got \<noteq> want then Some (not_storage_answer (ra_status a) got want) else None))"

text \<open>An answer that passes has the document that belongs there, or no body at all.\<close>

lemma answer_check_passes:
  "root \<noteq> [] \<Longrightarrow> answer_check root a = None \<Longrightarrow> ra_body a = Some (ts, failed) \<Longrightarrow>
   (\<exists>others rest. ts = others @ StartElement (if ra_status a < 200 \<or> ra_status a > 299 then ''Error'' else root) # rest
     \<and> set others \<subseteq> {OtherToken})"
proof -
  assume "root \<noteq> []" and a: "answer_check root a = None" and "ra_body a = Some (ts, failed)"
  then have "\<exists>n. n \<noteq> [] \<and> n = (if ra_status a < 200 \<or> ra_status a > 299 then ''Error'' else root) \<and> root_element ts failed = Inr n"
    by (auto simp: answer_check_def Let_def split: sum.splits if_splits)
  then obtain n where n: "n \<noteq> []" "n = (if ra_status a < 200 \<or> ra_status a > 299 then ''Error'' else root)"
    and r: "root_element ts failed = Inr n" by blast
  from r n(1) have "\<exists>others rest. ts = others @ StartElement n # rest \<and> set others \<subseteq> {OtherToken}"
  proof (induction ts failed rule: root_element.induct)
    case (2 m ts failed)
    then show ?case by (intro exI [of _ "[]"] exI [of _ ts]) simp
  next
    case (3 ts failed)
    then obtain others rest where "ts = others @ StartElement n # rest" "set others \<subseteq> {OtherToken}" by auto
    then show ?case by (intro exI [of _ "OtherToken # others"] exI [of _ rest]) simp
  qed (simp split: option.splits)
  with n(2) show ?thesis by simp
qed

section \<open>What an error says\<close>

definition api_error :: "goerr \<Rightarrow> (string \<times> string) option" where
  "api_error e = (case errors_as (\<lambda>k. case k of ApiError c m \<Rightarrow> True | _ \<Rightarrow> False) e of
       Some (GoErr (ApiError c m) t ws) \<Rightarrow> Some (c, m) | _ \<Rightarrow> None)"

definition http_status :: "goerr \<Rightarrow> int option" where
  "http_status e = (case errors_as (\<lambda>k. case k of HttpStatus n \<Rightarrow> True | _ \<Rightarrow> False) e of
       Some (GoErr (HttpStatus n) t ws) \<Rightarrow> Some n | _ \<Rightarrow> None)"

definition not_found :: "goerr \<Rightarrow> bool" where
  "not_found e = (case api_error e of None \<Rightarrow> False | Some (c, m) \<Rightarrow> c = ''NotFound'' \<or> c = ''NoSuchKey'' \<or> c = ''404'')"

definition conflict :: "goerr \<Rightarrow> bool" where
  "conflict e = (http_status e = Some 409 \<or> (case api_error e of None \<Rightarrow> False | Some (c, m) \<Rightarrow> c = ''ConditionalRequestConflict''))"

definition contains_str :: "string \<Rightarrow> string \<Rightarrow> bool" where
  "contains_str s p = list_ex (\<lambda>i. has_prefix p (drop i s)) [0..<Suc (length s)]"

definition refused_checksum_type :: "goerr \<Rightarrow> bool" where
  "refused_checksum_type e = (case api_error e of None \<Rightarrow> False
     | Some (c, m) \<Rightarrow> if c = ''NotImplemented'' then True
         else if c = ''InvalidArgument'' \<or> c = ''InvalidRequest'' \<or> c = ''BadRequest'' then contains_str (to_lower m) ''checksum''
         else False)"

definition object_holds_no_retention :: "string \<Rightarrow> bool" where
  "object_holds_no_retention code \<longleftrightarrow> code = ''NoSuchObjectLockConfiguration'' \<or> code = ''ObjectLockConfigurationNotFoundError''"

definition mark_missing_bucket :: "goerr \<Rightarrow> goerr" where
  "mark_missing_bucket e = (case api_error e of
       Some (c, m) \<Rightarrow> if c = ''NoSuchBucket''
         then GoErr Plain (err_text err_no_such_bucket @ '': '' @ err_text e) [err_no_such_bucket, e] else e
     | None \<Rightarrow> e)"

end
