(* ===== verification/S3.thy ===== *)
theory S3
  imports S3_Body
begin

text \<open>
  src/internal/dest/s3/s3.go and multipart.go: the create-only destination over an S3 client. The
  client is the SDK's and a parameter: one operation per call the package makes. What S3 documents of
  those calls is the locale \<open>s3_store\<close>, under which the backend keeps the destination's contract.
\<close>

section \<open>The client\<close>

type_synonym lock = "(string \<times> time) option"

record put_request =
  pq_key :: string
  pq_body :: body
  pq_length :: int
  pq_crc :: "string option"
  pq_lock :: lock
  pq_if_none :: bool

record head_answer =
  hd_size :: int
  hd_crc :: "string option"
  hd_etag :: "string option"
  hd_version :: "string option"
  hd_until :: "time option"
  hd_mode :: string

record lock_config =
  lc_enabled :: string
  lc_default :: "string option"   \<comment> \<open>the mode of the rule's default retention, when it has one\<close>

record complete_request =
  cq_key :: string
  cq_id :: string
  cq_parts :: "(int \<times> string option \<times> string) list"
  cq_crc :: "string option"
  cq_if_none :: bool
  cq_size :: "int option"

text \<open>
  The reads take the check an answer is held to before it is read; the others have none. A write
  returns the entity tag and the version, each when the store sent it.
\<close>

record 'w s3_client =
  sc_lock :: "(raw_answer \<Rightarrow> goerr option) \<Rightarrow> ('w, lock_config option) io"
  sc_page :: "(raw_answer \<Rightarrow> goerr option) \<Rightarrow> string \<Rightarrow> int \<Rightarrow> ('w, object list \<times> bool) io"
  sc_retention :: "(raw_answer \<Rightarrow> goerr option) \<Rightarrow> string \<Rightarrow> ('w, time option option) io"
  sc_pages :: "string \<Rightarrow> ('w, object list list \<times> goerr option) io"
  sc_get :: "string \<Rightarrow> ('w, body) io"
  sc_head :: "string \<Rightarrow> bool \<Rightarrow> ('w, head_answer) io"
  sc_put :: "put_request \<Rightarrow> ('w, string option \<times> string option) io"
  sc_create :: "string \<Rightarrow> bool \<Rightarrow> lock \<Rightarrow> ('w, string) io"
  sc_part :: "string \<Rightarrow> string \<Rightarrow> int \<Rightarrow> body \<Rightarrow> int \<Rightarrow> string \<Rightarrow> ('w, string option) io"
  sc_complete :: "complete_request \<Rightarrow> ('w, string option \<times> string option) io"

section \<open>The backend\<close>

record s3_options =
  so_bucket :: string
  so_region :: string
  so_endpoint :: string
  so_path_style :: bool
  so_threshold :: int
  so_part :: int

text \<open>
  The flag that a store has refused a full-object CRC32 is kept in the world; \<open>sb_order\<close> is the order
  the parts of an upload are sent in.
\<close>

record 'w s3_backend =
  sb_client :: "'w s3_client"
  sb_conditional :: bool
  sb_threshold :: int
  sb_part :: int
  sb_composite :: "'w \<Rightarrow> bool"
  sb_refused :: "'w \<Rightarrow> 'w"
  sb_order :: "nat list \<Rightarrow> nat list"
  sb_ctx :: "'w \<Rightarrow> goerr option"

definition outside_bounds :: "string \<times> int \<Rightarrow> bool" where
  "outside_bounds p = (snd p < min_part_size \<or> snd p > max_part_size)"

text \<open>What New makes of the options, given the clients that a region and an endpoint load.\<close>

definition new_backend :: "(string \<Rightarrow> s3_options \<Rightarrow> goerr + 'w s3_client) \<Rightarrow> 'w s3_backend \<Rightarrow> s3_options \<Rightarrow> goerr + 'w s3_backend" where
  "new_backend load b opts =
     (if trim_space (so_bucket opts) = [] then Inl (new_error ''s3: bucket is required'')
      else let region = (if so_region opts = [] then ''us-east-1'' else so_region opts);
               threshold = (if so_threshold opts = 0 then default_multipart_threshold else so_threshold opts);
               part_size = (if so_part opts = 0 then default_part_size else so_part opts) in
        case List.find outside_bounds [(''multipart threshold'', threshold), (''part size'', part_size)] of
          Some (name, v) \<Rightarrow> Inl (new_error (''s3: '' @ name @ '' '' @ show_int v @ '' is outside '' @ show_int min_part_size @ '' to ''
            @ show_int max_part_size @ '' bytes''))
        | None \<Rightarrow> (case load region opts of
            Inl e \<Rightarrow> Inl (wrap_error ''s3: load aws config'' e)
          | Inr c \<Rightarrow> Inr (b\<lparr>sb_client := c, sb_conditional := (so_endpoint opts = []), sb_threshold := threshold, sb_part := part_size\<rparr>)))"

section \<open>Reading\<close>

definition s3_list :: "'w s3_backend \<Rightarrow> string \<Rightarrow> ('w, object list) io" where
  "s3_list b prefix = bindE (sc_pages (sb_client b) prefix) (\<lambda>(pages, err). case err of
       Some e \<Rightarrow> failE (wrap_error (''s3: list '' @ quote prefix) e)
     | None \<Rightarrow> okE (concat pages))"

definition s3_list_page :: "'w s3_backend \<Rightarrow> string \<Rightarrow> int \<Rightarrow> ('w, object list \<times> bool) io" where
  "s3_list_page b prefix limit =
     (if limit < 1 \<or> limit > 1000
      then failE (new_error (''s3: list '' @ quote prefix @ '': a page holds 1 to 1000 objects, not '' @ show_int limit))
      else bindE (mapErrE (wrap_error (''s3: list '' @ quote prefix)) (sc_page (sb_client b) (answer_check ''ListBucketResult'') prefix limit))
        (\<lambda>(objs, more). okE (take (nat limit) (map (\<lambda>x. x\<lparr>obj_modified := time_zero\<rparr>) objs), more)))"

definition s3_get :: "'w s3_backend \<Rightarrow> string \<Rightarrow> ('w, body) io" where
  "s3_get b key = mapErrE (wrap_error (''s3: get '' @ quote key)) (sc_get (sb_client b) key)"

definition s3_observe_retention :: "'w s3_backend \<Rightarrow> string \<Rightarrow> ('w, retention_observation \<times> time) io" where
  "s3_observe_retention b key = bindE (tryE (sc_retention (sb_client b) (answer_check ''Retention'') key)) (\<lambda>r. case r of
       Inl e \<Rightarrow> (case api_error e of
           Some (c, m) \<Rightarrow> if object_holds_no_retention c then okE (RetentionAbsent, time_zero) else failE e
         | None \<Rightarrow> failE e)
     | Inr (Some (Some t)) \<Rightarrow> okE (RetentionPresent, t)
     | Inr _ \<Rightarrow> okE (RetentionAbsent, time_zero))"

text \<open>\<open>objectExists\<close>: a key the store says is not there is the expected case.\<close>

definition object_exists :: "'w s3_backend \<Rightarrow> string \<Rightarrow> ('w, bool) io" where
  "object_exists b key = bindE (tryE (sc_head (sb_client b) key False)) (\<lambda>r. case r of
       Inr h \<Rightarrow> okE True
     | Inl e \<Rightarrow> if not_found e then okE False else failE (wrap_error (''s3: head '' @ quote key) e))"

section \<open>The verdict on immutability\<close>

definition worm_answer :: "worm_verdict \<Rightarrow> string \<Rightarrow> worm_status" where
  "worm_answer v details = \<lparr>ws_period = 0, ws_verdict = v, ws_mode = [], ws_details = details, ws_refusal = None\<rparr>"

definition worm_refused :: "string \<Rightarrow> goerr \<Rightarrow> worm_status" where
  "worm_refused code e = (worm_answer VerdictUnknown (''could not verify immutability: the bucket answered '' @ shaped_code code))
     \<lparr>ws_refusal := Some (mark_missing_bucket e)\<rparr>"

definition bucket_has_no_lock :: "'w s3_backend \<Rightarrow> ('w, worm_status) io" where
  "bucket_has_no_lock b = bindE (tryE (s3_list_page b [] 1)) (\<lambda>r. case r of
       Inr _ \<Rightarrow> okE (worm_answer VerdictNotImmutable ''bucket has no Object Lock configuration'')
     | Inl e \<Rightarrow> (case api_error e of
           Some (c, m) \<Rightarrow> okE (worm_refused c e)
         | None \<Rightarrow> failE (wrap_error ''s3: confirm the bucket exists'' e)))"

definition lock_status :: "lock_config option \<Rightarrow> worm_status" where
  "lock_status cfg = (case cfg of
       None \<Rightarrow> worm_answer VerdictNotImmutable ''Object Lock not enabled''
     | Some c \<Rightarrow>
         if lc_enabled c \<noteq> ''Enabled'' then worm_answer VerdictNotImmutable ''Object Lock not enabled''
         else (case lc_default c of
             None \<Rightarrow> worm_answer VerdictImmutable ''Object Lock enabled''
           | Some m \<Rightarrow> (worm_answer VerdictImmutable (''Object Lock enabled; default retention '' @ shaped_code m))\<lparr>ws_mode := m\<rparr>))"

definition s3_verify_worm :: "'w s3_backend \<Rightarrow> ('w, worm_status) io" where
  "s3_verify_worm b = bindE (tryE (sc_lock (sb_client b) (answer_check ''ObjectLockConfiguration''))) (\<lambda>r. case r of
       Inr cfg \<Rightarrow> okE (lock_status cfg)
     | Inl e \<Rightarrow> (case api_error e of
           Some (c, m) \<Rightarrow> if c = ''ObjectLockConfigurationNotFoundError'' then bucket_has_no_lock b else okE (worm_refused c e)
         | None \<Rightarrow> failE (wrap_error ''s3: get object lock config'' e)))"

section \<open>A write in one request\<close>

definition mode_governance :: string where "mode_governance = ''GOVERNANCE''"
definition mode_compliance :: string where "mode_compliance = ''COMPLIANCE''"

definition asked_mode :: "retention \<Rightarrow> string" where
  "asked_mode ret = (if ret_mode ret = mode_governance then mode_governance else mode_compliance)"

text \<open>The lock headers, sent only when there is a date to hold the object to.\<close>

definition lock_of :: "retention \<Rightarrow> lock" where
  "lock_of ret = (if ret_until ret = time_zero then None else Some (asked_mode ret, ret_until ret))"

definition trim_quotes :: "string \<Rightarrow> string" where
  "trim_quotes s = rev (dropWhile (\<lambda>c. c = CHR 0x22) (rev (dropWhile (\<lambda>c. c = CHR 0x22) s)))"

definition to_str :: "string option \<Rightarrow> string" where
  "to_str p = (case p of None \<Rightarrow> [] | Some s \<Rightarrow> s)"

definition put_result_of :: "string \<Rightarrow> int \<Rightarrow> retention \<Rightarrow> string option \<Rightarrow> string option \<Rightarrow> put_result" where
  "put_result_of key n ret etag version =
     \<lparr>pr_key = key, pr_etag = trim_quotes (to_str etag), pr_version = to_str version, pr_size = n, pr_sha256 = [],
      pr_until = ret_until ret,
      pr_mode = (if ret_until ret = time_zero then [] else asked_mode ret)\<rparr>"

datatype copy_state = CopyAbsent | CopyOurs head_answer | CopyOther "goerr option"

definition settle_write :: "'w s3_backend \<Rightarrow> string \<Rightarrow> int \<Rightarrow> string list \<Rightarrow> ('w, copy_state) io" where
  "settle_write b key n crcs = bindE (tryE (sc_head (sb_client b) key True)) (\<lambda>r. okE (case r of
       Inl e \<Rightarrow> if not_found e then CopyAbsent else CopyOther (Some e)
     | Inr h \<Rightarrow> if hd_size h = n \<and> (case hd_crc h of None \<Rightarrow> False | Some c \<Rightarrow> c \<in> set crcs) then CopyOurs h else CopyOther None))"

text \<open>What a settled write records is the retention the store shows, never the one that was asked for.\<close>

definition settled_result :: "string \<Rightarrow> int \<Rightarrow> head_answer \<Rightarrow> put_result" where
  "settled_result key n h =
     (let res = \<lparr>pr_key = key, pr_etag = trim_quotes (to_str (hd_etag h)), pr_version = to_str (hd_version h), pr_size = n,
                 pr_sha256 = [], pr_until = time_zero, pr_mode = []\<rparr> in
      case hd_until h of
        None \<Rightarrow> res
      | Some t \<Rightarrow> if hd_mode h \<noteq> [] then res\<lparr>pr_until := t, pr_mode := hd_mode h\<rparr> else res)"

definition refuse_overwrite :: "string \<Rightarrow> string" where
  "refuse_overwrite key = ''s3: refusing to overwrite existing object '' @ quote key"

text \<open>The CRC32 of a body that can be read twice: read to its end, which it has only where it is whole.\<close>

definition crc32_of :: "bool \<Rightarrow> body \<Rightarrow> goerr + string option" where
  "crc32_of seeks b = (if \<not> seeks then Inr None
     else case body_err b of Some e \<Rightarrow> Inl e | None \<Rightarrow> Inr (Some (b64_sum (crc32 (body_bytes b)))))"

definition put_failed :: "string \<Rightarrow> goerr \<Rightarrow> goerr" where
  "put_failed key e = wrap_error (''s3: put '' @ quote key) e"

definition settle_put :: "'w s3_backend \<Rightarrow> string \<Rightarrow> int \<Rightarrow> string option \<Rightarrow> goerr \<Rightarrow> ('w, put_result) io" where
  "settle_put b key n crc e = (case crc of
       None \<Rightarrow> failE (put_failed key e)
     | Some c \<Rightarrow> bindE (settle_write b key n [c]) (\<lambda>st. case st of
           CopyOurs h \<Rightarrow> okE (settled_result key n h)
         | CopyOther None \<Rightarrow> failE (wrap_error (refuse_overwrite key) e)
         | _ \<Rightarrow> failE (put_failed key e)))"

definition refuse_existing :: "'w s3_backend \<Rightarrow> string \<Rightarrow> string \<Rightarrow> ('w, unit) io" where
  "refuse_existing b key why = bindE (object_exists b key) (\<lambda>there.
     if there then failE (new_error (refuse_overwrite key @ why)) else okE ())"

text \<open>The request, and what is made of its answer.\<close>

definition send_put :: "'w s3_backend \<Rightarrow> string \<Rightarrow> body \<Rightarrow> int \<Rightarrow> retention \<Rightarrow> string option \<Rightarrow> ('w, put_result) io" where
  "send_put b key e n ret crc =
     bindE (tryE (sc_put (sb_client b) \<lparr>pq_key = key, pq_body = e, pq_length = n, pq_crc = crc, pq_lock = lock_of ret,
         pq_if_none = sb_conditional b\<rparr>)) (\<lambda>res. case res of
       Inr (etag, version) \<Rightarrow> okE (put_result_of key n ret etag version)
     | Inl x \<Rightarrow> settle_put b key n crc x)"

definition put_one :: "'w s3_backend \<Rightarrow> bool \<Rightarrow> string \<Rightarrow> body \<Rightarrow> int \<Rightarrow> retention \<Rightarrow> ('w, put_result) io" where
  "put_one b seeks key r n ret = (let e = exact_body r n in
     bindE (if sb_conditional b then okE () else refuse_existing b key []) (\<lambda>_.
     bindE (liftE (map_sum (wrap_error (''s3: checksum '' @ quote key)) id (crc32_of seeks e))) (\<lambda>crc.
     send_put b key e n ret crc)))"

section \<open>A write in parts\<close>

text \<open>\<open>createUpload\<close>: a full-object CRC32, or a composite one once the store has refused that.\<close>

definition create_upload :: "'w s3_backend \<Rightarrow> string \<Rightarrow> retention \<Rightarrow> ('w, string \<times> bool) io" where
  "create_upload b key ret = (let start = (\<lambda>e. wrap_error (''s3: start upload '' @ quote key) e) in
     bindE (readE (sb_composite b)) (\<lambda>composite.
     bindE (tryE (sc_create (sb_client b) key (\<not> composite) (lock_of ret))) (\<lambda>res. case res of
       Inr up \<Rightarrow> okE (up, composite)
     | Inl e \<Rightarrow>
         if \<not> composite \<and> refused_checksum_type e
         then bindE (\<lambda>w. (Inr (), sb_refused b w)) (\<lambda>_.
              bindE (mapErrE start (sc_create (sb_client b) key False (lock_of ret))) (\<lambda>up. okE (up, True)))
         else failE (start e))))"

definition send_part :: "'w s3_backend \<Rightarrow> string \<Rightarrow> string \<Rightarrow> body \<Rightarrow> part_plan \<Rightarrow> part_sums \<Rightarrow> nat
    \<Rightarrow> ('w, int \<times> string option \<times> string) io" where
  "send_part b key up r plan sums i = (let crc = b64_sum (ps_parts sums ! i) in
     bindE (mapErrE (wrap_error (''part '' @ show_nat (i + 1) @ '' of '' @ show_int (pp_count plan)))
        (sc_part (sb_client b) key up (int i + 1) (section_at r (plan_part plan (int i))) (snd (plan_part plan (int i))) crc))
       (\<lambda>etag. okE (int i + 1, etag, crc)))"

text \<open>The parts go in some order, each fills its slot, and the first that fails ends the upload.\<close>

fun send_each :: "'w s3_backend \<Rightarrow> string \<Rightarrow> string \<Rightarrow> body \<Rightarrow> part_plan \<Rightarrow> part_sums \<Rightarrow> nat list
    \<Rightarrow> (int \<times> string option \<times> string) list \<Rightarrow> ('w, (int \<times> string option \<times> string) list) io" where
  "send_each b key up r plan sums [] ps = okE ps"
| "send_each b key up r plan sums (i # is) ps = bindE (readE (sb_ctx b)) (\<lambda>stop. case stop of
       Some x \<Rightarrow> failE x
     | None \<Rightarrow> bindE (send_part b key up r plan sums i) (\<lambda>p. send_each b key up r plan sums is (ps[i := p])))"

definition send_parts :: "'w s3_backend \<Rightarrow> string \<Rightarrow> string \<Rightarrow> body \<Rightarrow> part_plan \<Rightarrow> part_sums
    \<Rightarrow> ('w, (int \<times> string option \<times> string) list) io" where
  "send_parts b key up r plan sums =
     bindE (send_each b key up r plan sums (sb_order b (part_numbers plan)) (replicate (nat (pp_count plan)) (0, None, []))) (\<lambda>ps.
     bindE (readE (sb_ctx b)) (\<lambda>stop. case stop of Some x \<Rightarrow> failE x | None \<Rightarrow> okE ps))"

definition own_sums :: "part_sums \<Rightarrow> bool \<Rightarrow> string list" where
  "own_sums sums composite = (if composite then [composite_sum sums, hd (split_on (CHR ''-'') (composite_sum sums))]
     else [b64_sum (ps_full sums)])"

text \<open>The second value says that the store answered 409 and holds nothing at the key: upload again.\<close>

definition settle_complete :: "'w s3_backend \<Rightarrow> string \<Rightarrow> part_plan \<Rightarrow> part_sums \<Rightarrow> bool \<Rightarrow> goerr \<Rightarrow> ('w, put_result + goerr) io" where
  "settle_complete b key plan sums composite e = bindE (settle_write b key (pp_size plan) (own_sums sums composite)) (\<lambda>st. case st of
       CopyOurs h \<Rightarrow> okE (Inl (settled_result key (pp_size plan) h))
     | CopyOther None \<Rightarrow> failE (wrap_error (refuse_overwrite key) e)
     | CopyOther (Some x) \<Rightarrow> failE (wrap_error (''s3: complete '' @ quote key) e)
     | CopyAbsent \<Rightarrow> if conflict e then okE (Inr e) else failE (wrap_error (''s3: complete '' @ quote key) e))"

definition complete_upload :: "'w s3_backend \<Rightarrow> string \<Rightarrow> string \<Rightarrow> (int \<times> string option \<times> string) list \<Rightarrow> part_plan \<Rightarrow> part_sums
    \<Rightarrow> bool \<Rightarrow> retention \<Rightarrow> ('w, put_result + goerr) io" where
  "complete_upload b key up ps plan sums composite ret =
     bindE (if sb_conditional b then okE () else refuse_existing b key '', written while this upload was in flight'') (\<lambda>_.
     bindE (tryE (sc_complete (sb_client b) \<lparr>cq_key = key, cq_id = up, cq_parts = ps,
         cq_crc = (if composite then None else Some (b64_sum (ps_full sums))), cq_if_none = sb_conditional b,
         cq_size = (if sb_conditional b then Some (pp_size plan) else None)\<rparr>)) (\<lambda>res. case res of
       Inr (etag, version) \<Rightarrow> okE (Inl (put_result_of key (pp_size plan) ret etag version))
     | Inl e \<Rightarrow> settle_complete b key plan sums composite e))"

definition upload :: "'w s3_backend \<Rightarrow> string \<Rightarrow> body \<Rightarrow> part_plan \<Rightarrow> part_sums \<Rightarrow> retention \<Rightarrow> ('w, put_result + goerr) io" where
  "upload b key r plan sums ret = bindE (create_upload b key ret) (\<lambda>(up, composite).
     bindE (mapErrE (wrap_error (''s3: put '' @ quote key @ '' in '' @ show_int (pp_count plan)
         @ '' parts (the upload is left to the bucket's lifecycle rule)''))
       (bindE (send_parts b key up r plan sums) (\<lambda>ps.
          case ends_at r (pp_size plan) (pp_size plan) of Some x \<Rightarrow> failE x | None \<Rightarrow> okE ps))) (\<lambda>ps.
     complete_upload b key up ps plan sums composite ret))"

definition put_parts :: "'w s3_backend \<Rightarrow> string \<Rightarrow> body \<Rightarrow> int \<Rightarrow> retention \<Rightarrow> ('w, put_result) io" where
  "put_parts b key r n ret = (let plan = plan_parts n (sb_part b) in
     bindE (refuse_existing b key []) (\<lambda>_.
     bindE (mapErrE (wrap_error (''s3: checksum '' @ quote key)) (checksum_parts (sb_ctx b) r plan)) (\<lambda>sums.
     bindE (upload b key r plan sums ret) (\<lambda>res. case res of
       Inl p \<Rightarrow> okE p
     | Inr e \<Rightarrow> bindE (upload b key r plan sums ret) (\<lambda>again. case again of Inl p \<Rightarrow> okE p | Inr e' \<Rightarrow> failE e')))))"

text \<open>
  \<open>PutImmutable\<close>. Whether the reader seeks and reads at offsets is \<open>seeks\<close>; every caller hands a file
  or a byte slice, which does.
\<close>

definition s3_put :: "'w s3_backend \<Rightarrow> bool \<Rightarrow> string \<Rightarrow> body \<Rightarrow> int \<Rightarrow> retention \<Rightarrow> ('w, put_result) io" where
  "s3_put b seeks key r n ret =
     (if n < 0 then failE (new_error (''s3: put '' @ quote key @ '': a size of '' @ show_int n @ '' bytes is not a length''))
      else if seeks \<and> n > sb_threshold b then put_parts b key r n ret
      else put_one b seeks key r n ret)"

text \<open>The size is an int64, and the interface is called with nothing else.\<close>

definition s3_destination :: "'w s3_backend \<Rightarrow> 'w destination" where
  "s3_destination b = \<lparr>verify_worm = s3_verify_worm b,
     put_immutable = (\<lambda>key r n ret. if in_int64 n then s3_put b True key r n ret else failE (new_error ''not an int64'')), list_objects = s3_list b,
     get_object = s3_get b, observe_retention = Some (s3_observe_retention b)\<rparr>"

section \<open>A verdict is earned\<close>

text \<open>
  Immutable is said only of a bucket whose Object Lock the store says is enabled, and not immutable only
  of one the store says has none, with a listing that showed it exists; any other refusal is kept, as one.
\<close>

lemma s3_verdict:
  assumes "s3_verify_worm b w = (Inr st, w')"
  shows "ws_verdict st = VerdictImmutable \<Longrightarrow>
      \<exists>c. sc_lock (sb_client b) (answer_check ''ObjectLockConfiguration'') w = (Inr (Some c), w') \<and> lc_enabled c = ''Enabled''"
    and "ws_verdict st = VerdictNotImmutable \<Longrightarrow>
      (\<exists>cfg. sc_lock (sb_client b) (answer_check ''ObjectLockConfiguration'') w = (Inr cfg, w')
        \<and> (\<forall>c. cfg = Some c \<longrightarrow> lc_enabled c \<noteq> ''Enabled''))
      \<or> (\<exists>e m w1 page. sc_lock (sb_client b) (answer_check ''ObjectLockConfiguration'') w = (Inl e, w1)
        \<and> api_error e = Some (''ObjectLockConfigurationNotFoundError'', m)
        \<and> sc_page (sb_client b) (answer_check ''ListBucketResult'') [] 1 w1 = (Inr page, w'))"
    and "ws_verdict st = VerdictUnknown \<Longrightarrow> ws_refusal st \<noteq> None"
proof -
  obtain r w1 where l: "sc_lock (sb_client b) (answer_check ''ObjectLockConfiguration'') w = (r, w1)" by (metis prod.collapse)
  have answer: "st = lock_status cfg \<and> w' = w1" if "r = Inr cfg" for cfg
    using assms l that by (simp add: s3_verify_worm_def bindE_def tryE_apply)
  have none: "bucket_has_no_lock b w1 = (Inr st, w')" if "r = Inl e" "api_error e = Some (''ObjectLockConfigurationNotFoundError'', m)" for e m
    using assms l that by (simp add: s3_verify_worm_def bindE_def tryE_apply)
  have refused: "ws_verdict st = VerdictUnknown \<and> ws_refusal st \<noteq> None"
    if "r = Inl e" "\<nexists>m. api_error e = Some (''ObjectLockConfigurationNotFoundError'', m)" for e
    using assms l that by (auto simp: s3_verify_worm_def worm_refused_def worm_answer_def bindE_def tryE_apply split: option.splits)
  have page: "ws_verdict st = VerdictNotImmutable \<and> (\<exists>page. sc_page (sb_client b) (answer_check ''ListBucketResult'') [] 1 w1 = (Inr page, w'))
      \<or> ws_verdict st = VerdictUnknown \<and> ws_refusal st \<noteq> None" if "bucket_has_no_lock b w1 = (Inr st, w')"
    using that by (auto simp: bucket_has_no_lock_def s3_list_page_def worm_answer_def worm_refused_def tryE_def bindE_def mapErrE_def
        split: prod.splits sum.splits option.splits)
  show "ws_verdict st = VerdictImmutable \<Longrightarrow>
      \<exists>c. sc_lock (sb_client b) (answer_check ''ObjectLockConfiguration'') w = (Inr (Some c), w') \<and> lc_enabled c = ''Enabled''"
    using l answer none refused page by (cases r) (fastforce simp: lock_status_def worm_answer_def split: option.splits if_splits)+
  show "ws_verdict st = VerdictNotImmutable \<Longrightarrow>
      (\<exists>cfg. sc_lock (sb_client b) (answer_check ''ObjectLockConfiguration'') w = (Inr cfg, w')
        \<and> (\<forall>c. cfg = Some c \<longrightarrow> lc_enabled c \<noteq> ''Enabled''))
      \<or> (\<exists>e m w1 page. sc_lock (sb_client b) (answer_check ''ObjectLockConfiguration'') w = (Inl e, w1)
        \<and> api_error e = Some (''ObjectLockConfigurationNotFoundError'', m)
        \<and> sc_page (sb_client b) (answer_check ''ListBucketResult'') [] 1 w1 = (Inr page, w'))"
    using l answer none refused page by (cases r) (fastforce simp: lock_status_def worm_answer_def split: option.splits if_splits)+
  show "ws_verdict st = VerdictUnknown \<Longrightarrow> ws_refusal st \<noteq> None"
    using l answer none refused page by (cases r) (fastforce simp: lock_status_def worm_answer_def split: option.splits if_splits)+
qed

end
