(* ===== verification/S3_Store.thy ===== *)
theory S3_Store
  imports S3
begin

text \<open>
  That the S3 backend is a create-only destination, under what S3 documents of the calls it makes. No
  other writer comes between a look at a key and the write after it.
\<close>

section \<open>The store\<close>

text \<open>The sums the backend takes for those of some bytes: their CRC32, or that of their parts.\<close>

definition sums_of :: "string \<Rightarrow> part_plan \<Rightarrow> part_sums" where
  "sums_of bs plan = \<lparr>ps_parts = map (\<lambda>i. crc32 (part_at bs plan i)) (part_numbers plan), ps_full = crc32 bs\<rparr>"

definition a_sum_of :: "string \<Rightarrow> string \<Rightarrow> bool" where
  "a_sum_of bs c \<longleftrightarrow> c = b64_sum (crc32 bs)
     \<or> (\<exists>plan composite. planned (int (length bs)) plan \<and> c \<in> set (own_sums (sums_of bs plan) composite))"

text \<open>
  The key holds these bytes, or an object of their length that the store shows with a sum the backend takes
  for theirs.
\<close>

definition s3_holds :: "'w s3_backend \<Rightarrow> ('w \<Rightarrow> (string \<rightharpoonup> string)) \<Rightarrow> string \<Rightarrow> string \<Rightarrow> 'w \<Rightarrow> bool" where
  "s3_holds b objs k bs w \<longleftrightarrow> objs w k = Some bs
     \<or> (\<exists>other w1 h w2 c. objs w k = Some other \<and> length other = length bs \<and> objs w1 = objs w
       \<and> sc_head (sb_client b) k True w1 = (Inr h, w2) \<and> hd_crc h = Some c \<and> a_sum_of bs c)"

text \<open>
  \<open>objs\<close> is what the bucket holds and \<open>parts\<close> what the uploads in flight do. A read changes neither; a
  write that is refused or lost has landed whole or not at all, and never without the whole of its body;
  If-None-Match refuses a key that is taken; completing an upload puts its parts together.
\<close>

locale s3_store =
  fixes b :: "'w s3_backend" and objs :: "'w \<Rightarrow> (string \<rightharpoonup> string)" and parts :: "'w \<Rightarrow> string \<Rightarrow> int \<Rightarrow> string option"
  assumes lock_same: "steps_in (same_on objs) (sc_lock (sb_client b) chk)"
    and page_same: "steps_in (same_on objs) (sc_page (sb_client b) chk pre n)"
    and retention_same: "steps_in (same_on objs) (sc_retention (sb_client b) chk k)"
    and pages_same: "steps_in (same_on objs) (sc_pages (sb_client b) pre)"
    and get_same: "steps_in (same_on objs) (sc_get (sb_client b) k)"
    and head_same: "steps_in (same_on objs) (sc_head (sb_client b) k m)" "steps_in (same_on parts) (sc_head (sb_client b) k m)"
    and get_gives: "sc_get (sb_client b) k w = (Inr r, w') \<Longrightarrow>
      \<exists>bs t. objs w k = Some bs \<and> bs = body_bytes r @ t \<and> (body_err r = None \<longrightarrow> t = [])"
    and pages_give: "sc_pages (sb_client b) pre w = (Inr (ps, None), w') \<Longrightarrow>
      obj_key ` set (concat ps) = {k \<in> dom (objs w). has_prefix pre k}"
    and head_absent: "sc_head (sb_client b) k m w = (Inl e, w') \<Longrightarrow> not_found e \<Longrightarrow> objs w k = None"
    and head_there: "sc_head (sb_client b) k m w = (Inr h, w') \<Longrightarrow> \<exists>bs. objs w k = Some bs \<and> hd_size h = int (length bs)"
    and put_lands: "sc_put (sb_client b) q w = (px, w') \<Longrightarrow> objs w' = objs w
      \<or> objs w' = (objs w)(pq_key q \<mapsto> body_bytes (pq_body q)) \<and> body_err (pq_body q) = None
        \<and> (pq_if_none q \<longrightarrow> objs w (pq_key q) = None)"
    and put_done: "sc_put (sb_client b) q w = (Inr tags, w') \<Longrightarrow>
      objs w' (pq_key q) = Some (body_bytes (pq_body q)) \<and> body_err (pq_body q) = None"
    and create_same: "steps_in (same_on objs) (sc_create (sb_client b) k full l)"
    and part_same: "steps_in (same_on objs) (sc_part (sb_client b) k up i r n crc)"
    and part_only: "sc_part (sb_client b) k up i r n crc w = (sx, w') \<Longrightarrow> j \<noteq> i \<Longrightarrow> parts w' up j = parts w up j"
    and part_done: "sc_part (sb_client b) k up i r n crc w = (Inr tag, w') \<Longrightarrow> parts w' up i = Some (body_bytes r)"
    and complete_lands: "sc_complete (sb_client b) cq w = (cx, w') \<Longrightarrow> objs w' = objs w
      \<or> (\<exists>bss. map Some bss = map (\<lambda>p. parts w (cq_id cq) (fst p)) (cq_parts cq) \<and> objs w' = (objs w)(cq_key cq \<mapsto> concat bss))
        \<and> (cq_if_none cq \<longrightarrow> objs w (cq_key cq) = None)"
    and complete_done: "sc_complete (sb_client b) cq w = (Inr tags, w') \<Longrightarrow>
      \<exists>bss. map Some bss = map (\<lambda>p. parts w (cq_id cq) (fst p)) (cq_parts cq) \<and> objs w' (cq_key cq) = Some (concat bss)"
    and flag_same: "objs (sb_refused b w) = objs w"
    and sizes: "min_part_size \<le> sb_part b" "sb_part b \<le> max_part_size" "min_part_size \<le> sb_threshold b"
    and order: "set (sb_order b ns) = set ns"
begin

lemma object_exists_same: "steps_in (same_on objs) (object_exists b k)" "steps_in (same_on parts) (object_exists b k)"
  unfolding object_exists_def by (intro same.steps_rules head_same)+

lemma refuse_existing_same: "steps_in (same_on objs) (refuse_existing b k why)" "steps_in (same_on parts) (refuse_existing b k why)"
  unfolding refuse_existing_def by (intro same.steps_rules object_exists_same)+

lemma refuse_existing_free:
  assumes "refuse_existing b k why w = (Inr u, w')"
  shows "objs w k = None" "objs w' = objs w" "parts w' = parts w"
proof -
  obtain w1 where e: "object_exists b k w = (Inr False, w1)"
    using assms unfolding refuse_existing_def by (auto elim!: bindE_InrE split: if_splits)
  then show "objs w k = None"
    unfolding object_exists_def
    by (auto simp: tryE_def elim!: bindE_InrE split: prod.splits sum.splits if_splits intro: head_absent)
  show "objs w' = objs w" "parts w' = parts w"
    using same_D [OF refuse_existing_same(1) assms] same_D [OF refuse_existing_same(2) assms] by simp_all
qed

lemma settle_same: "steps_in (same_on objs) (settle_write b k n crcs)"
  unfolding settle_write_def by (intro same.steps_rules head_same)

lemma settle_ours:
  assumes "settle_write b k n crcs w = (Inr (CopyOurs h), w')"
  shows "sc_head (sb_client b) k True w = (Inr h, w')" "hd_size h = n" "\<exists>c \<in> set crcs. hd_crc h = Some c"
  using assms unfolding settle_write_def
  by (auto simp: tryE_def elim!: bindE_InrE split: prod.splits sum.splits if_splits option.splits)

lemma settle_put_same: "steps_in (same_on objs) (settle_put b k n crc e)"
  unfolding settle_put_def
  by (cases crc) (auto intro!: same.steps_rules settle_same split: copy_state.split option.split)

subsection \<open>One request\<close>

lemma send_put_cases:
  assumes "send_put b k e n ret crc w = (x, w')"
  obtains res w1 where "sc_put (sb_client b) \<lparr>pq_key = k, pq_body = e, pq_length = n, pq_crc = crc, pq_lock = lock_of ret,
      pq_if_none = sb_conditional b\<rparr> w = (res, w1)"
    and "(case res of Inr (etag, version) \<Rightarrow> okE (put_result_of k n ret etag version) | Inl y \<Rightarrow> settle_put b k n crc y) w1 = (x, w')"
    and "objs w' = objs w1"
proof -
  let ?q = "\<lparr>pq_key = k, pq_body = e, pq_length = n, pq_crc = crc, pq_lock = lock_of ret, pq_if_none = sb_conditional b\<rparr>"
  obtain res w1 where p: "sc_put (sb_client b) ?q w = (res, w1)" by (metis prod.collapse)
  then have rest: "(case res of Inr (etag, version) \<Rightarrow> okE (put_result_of k n ret etag version) | Inl y \<Rightarrow> settle_put b k n crc y) w1 = (x, w')"
    using assms by (simp add: send_put_def bindE_def tryE_apply)
  then have "objs w' = objs w1" using same_D [OF settle_put_same] by (auto split: sum.splits prod.splits)
  with p rest show thesis by (rule that)
qed

lemma put_one_lands:
  assumes "put_one b seeks k r n ret w = (x, w')" and "0 \<le> n"
  shows "objs w' = objs w \<or> objs w' = (objs w)(k \<mapsto> body_bytes r) \<and> objs w k = None
    \<and> int (length (body_bytes r)) = n"
  using assms(1) unfolding put_one_def Let_def
proof (cases rule: bindE_cases)
  case 1
  have "steps_in (same_on objs) (if sb_conditional b then okE () else refuse_existing b k [])"
    by (intro same.steps_rules refuse_existing_same)
  from same_D [OF this 1(1)] show ?thesis by simp
next
  case (2 u w1)
  have same: "objs w1 = objs w" "sb_conditional b \<or> objs w k = None"
    using 2(1) refuse_existing_free(1,2) by (auto split: if_splits)
  from 2(2) show ?thesis
  proof (cases rule: bindE_cases)
    case 1
    then show ?thesis using same by simp
  next
    case (2 crc w2)
    then have "send_put b k (exact_body r n) n ret crc w1 = (x, w')" by simp
    then show ?thesis
      by (cases rule: send_put_cases) (use put_lands same exact_body_only [OF assms(2), of r] in fastforce)
  qed
qed

text \<open>A write that succeeds stored the bytes, or the store shows an object of their size and CRC32 at the key.\<close>

definition shows_ours :: "string \<Rightarrow> int \<Rightarrow> string list \<Rightarrow> 'w \<Rightarrow> bool" where
  "shows_ours k n crcs w \<longleftrightarrow> (\<exists>w1 h w2 c. sc_head (sb_client b) k True w1 = (Inr h, w2) \<and> objs w1 = objs w \<and> hd_size h = n
     \<and> hd_crc h = Some c \<and> c \<in> set crcs)"

lemma put_one_ok:
  assumes "put_one b seeks k r n ret w = (Inr p, w')" and "0 \<le> n"
  shows "pr_key p = k" "pr_size p = n" "int (length (body_bytes r)) = n"
    and "objs w' k = Some (body_bytes r) \<or> shows_ours k n [b64_sum (crc32 (body_bytes r))] w'"
proof -
  let ?e = "exact_body r n"
  obtain w1 crc where c: "crc32_of seeks ?e = Inr crc" and send: "send_put b k ?e n ret crc w1 = (Inr p, w')"
    using assms(1) unfolding put_one_def Let_def
    by (cases "crc32_of seeks ?e") (auto elim!: bindE_InrE)
  obtain res w2 where put: "sc_put (sb_client b) \<lparr>pq_key = k, pq_body = ?e, pq_length = n, pq_crc = crc, pq_lock = lock_of ret,
         pq_if_none = sb_conditional b\<rparr> w1 = (res, w2)"
    and out: "(case res of Inr (etag, version) \<Rightarrow> okE (put_result_of k n ret etag version) | Inl x \<Rightarrow> settle_put b k n crc x) w2 = (Inr p, w')"
    using send by (cases rule: send_put_cases)
  have "pr_key p = k \<and> pr_size p = n \<and> body_err ?e = None
    \<and> (objs w' k = Some (body_bytes ?e) \<or> shows_ours k n [b64_sum (crc32 (body_bytes ?e))] w')"
  proof (cases res)
    case (Inr tags)
    then show ?thesis using out put_done [OF put [unfolded Inr]] by (auto simp: put_result_of_def split: prod.splits)
  next
    case (Inl x)
    then obtain s h where s: "crc = Some s" "settle_write b k n [s] w2 = (Inr (CopyOurs h), w')" "p = settled_result k n h"
      using out by (auto simp: settle_put_def split: option.splits copy_state.splits elim!: bindE_InrE)
    have "shows_ours k n [s] w'"
      unfolding shows_ours_def using settle_ours [OF s(2)] same_D [OF settle_same s(2)] by (metis)
    moreover have "body_err ?e = None" "s = b64_sum (crc32 (body_bytes ?e))"
      using c s(1) by (auto simp: crc32_of_def split: if_splits option.splits)
    moreover have "pr_key p = k" "pr_size p = n" by (simp_all add: s(3) settled_result_def Let_def split: option.splits)
    ultimately show ?thesis by simp
  qed
  with exact_body_only [OF assms(2), of r]
  show "pr_key p = k" "pr_size p = n" "int (length (body_bytes r)) = n"
    and "objs w' k = Some (body_bytes r) \<or> shows_ours k n [b64_sum (crc32 (body_bytes r))] w'" by auto
qed

subsection \<open>In parts\<close>

lemma create_upload_same: "steps_in (same_on objs) (create_upload b k ret)"
proof -
  have "steps_in (same_on objs) (\<lambda>w. (Inr (), sb_refused b w))" by (simp add: steps_in_def same_on_def flag_same)
  then show ?thesis unfolding create_upload_def Let_def by (intro same.steps_rules create_same)
qed

lemma send_each_same: "steps_in (same_on objs) (send_each b k up r plan sums is ps)"
proof (induction "is" arbitrary: ps)
  case (Cons i "is")
  have "steps_in (same_on objs) (send_part b k up r plan sums i)"
    unfolding send_part_def Let_def by (intro same.steps_rules part_same)
  with Cons show ?case by (simp only: send_each.simps) (intro same.steps_rules)
qed (simp add: same.steps_ok del: okE_apply)

lemma send_parts_same: "steps_in (same_on objs) (send_parts b k up r plan sums)"
  unfolding send_parts_def by (intro same.steps_rules send_each_same)

lemma send_part_done:
  assumes "send_part b k up r plan sums i w = (Inr p, w')"
  shows "fst p = int i + 1" "parts w' up (int i + 1) = Some (part_at (body_bytes r) plan i)"
    and "j \<noteq> int i + 1 \<Longrightarrow> parts w' up j = parts w up j"
proof -
  obtain tag where p: "sc_part (sb_client b) k up (int i + 1) (section_at r (plan_part plan (int i)))
      (snd (plan_part plan (int i))) (b64_sum (ps_parts sums ! i)) w = (Inr tag, w')" and "fst p = int i + 1"
    using assms by (auto simp: send_part_def Let_def elim!: bindE_InrE)
  then show "fst p = int i + 1" by blast
  show "parts w' up (int i + 1) = Some (part_at (body_bytes r) plan i)"
    using part_done [OF p] by (simp add: part_at_def section_at_def Let_def split: prod.splits)
  show "j \<noteq> int i + 1 \<Longrightarrow> parts w' up j = parts w up j" by (rule part_only [OF p])
qed

lemma send_each_done:
  "send_each b k up r plan sums is ps w = (Inr ps', w') \<Longrightarrow> set is \<subseteq> {..<length ps} \<Longrightarrow> length ps' = length ps
    \<and> (\<forall>i < length ps. if i \<in> set is
        then fst (ps' ! i) = int i + 1 \<and> parts w' up (int i + 1) = Some (part_at (body_bytes r) plan i)
        else ps' ! i = ps ! i \<and> parts w' up (int i + 1) = parts w up (int i + 1))"
proof (induction "is" arbitrary: ps w)
  case (Cons j "is")
  obtain p w1 where one: "send_part b k up r plan sums j w = (Inr p, w1)"
    and rest: "send_each b k up r plan sums is (ps[j := p]) w1 = (Inr ps', w')"
    using Cons.prems(1) by (auto elim!: bindE_InrE split: option.splits)
  note d = send_part_done [OF one]
  have "set is \<subseteq> {..<length (ps[j := p])}" "j < length ps" using Cons.prems(2) by auto
  with Cons.IH [OF rest] d show ?case by (auto simp: nth_list_update split: if_splits)
qed simp

lemma send_parts_done:
  assumes "send_parts b k up r plan sums w = (Inr ps, w')"
  shows "map (\<lambda>p. parts w' up (fst p)) ps = map Some (map (part_at (body_bytes r) plan) (part_numbers plan))"
proof -
  let ?n = "nat (pp_count plan)"
  have "send_each b k up r plan sums (sb_order b (part_numbers plan)) (replicate ?n (0, None, [])) w = (Inr ps, w')"
    using assms unfolding send_parts_def by (auto elim!: bindE_InrE split: option.splits)
  from send_each_done [OF this] have "length ps = ?n"
    "\<forall>i < ?n. fst (ps ! i) = int i + 1 \<and> parts w' up (int i + 1) = Some (part_at (body_bytes r) plan i)"
    by (auto simp: order part_numbers_def atLeast0LessThan)
  then show ?thesis by (simp add: list_eq_iff_nth_eq part_numbers_def)
qed

lemma settle_complete_same: "steps_in (same_on objs) (settle_complete b k plan sums composite e)"
  unfolding settle_complete_def
  by (intro same.steps_rules settle_same) (auto intro!: same.steps_rules split: copy_state.split option.split)

lemma settle_complete_ours:
  assumes "settle_complete b k plan sums composite e w = (Inr (Inl p), w')"
  shows "pr_key p = k" "pr_size p = pp_size plan" "shows_ours k (pp_size plan) (own_sums sums composite) w'"
proof -
  obtain h where s: "settle_write b k (pp_size plan) (own_sums sums composite) w = (Inr (CopyOurs h), w')"
    and p: "p = settled_result k (pp_size plan) h"
    using assms unfolding settle_complete_def
    by (auto elim!: bindE_InrE split: copy_state.splits option.splits if_splits)
  show "pr_key p = k" "pr_size p = pp_size plan" by (simp_all add: p settled_result_def Let_def split: option.splits)
  show "shows_ours k (pp_size plan) (own_sums sums composite) w'"
    unfolding shows_ours_def using settle_ours [OF s] same_D [OF settle_same s] by metis
qed

lemma complete_lands_on:
  assumes "complete_upload b k up ps plan sums composite ret w = (x, w')"
    and ps: "map (\<lambda>p. parts w up (fst p)) ps = map Some bss"
  shows "lands_on objs k (concat bss) w w'"
    and "x = Inr (Inl p) \<Longrightarrow> pr_key p = k \<and> pr_size p = pp_size plan
      \<and> (objs w' k = Some (concat bss) \<or> shows_ours k (pp_size plan) (own_sums sums composite) w')"
proof -
  let ?g = "if sb_conditional b then okE () else refuse_existing b k '', written while this upload was in flight''"
  let ?q = "\<lparr>cq_key = k, cq_id = up, cq_parts = ps, cq_crc = (if composite then None else Some (b64_sum (ps_full sums))),
    cq_if_none = sb_conditional b, cq_size = (if sb_conditional b then Some (pp_size plan) else None)\<rparr>"
  have g: "steps_in (same_on objs) ?g" by (intro same.steps_rules refuse_existing_same)
  have "lands_on objs k (concat bss) w w' \<and> (\<forall>p. x = Inr (Inl p) \<longrightarrow> pr_key p = k \<and> pr_size p = pp_size plan
      \<and> (objs w' k = Some (concat bss) \<or> shows_ours k (pp_size plan) (own_sums sums composite) w'))"
    using assms(1) unfolding complete_upload_def
  proof (cases rule: bindE_cases)
    case 1
    with same_D [OF g 1(1)] show ?thesis by (simp add: lands_on_def)
  next
    case (2 u w1)
    have same: "objs w1 = objs w" "parts w1 = parts w" "sb_conditional b \<or> objs w k = None"
      using 2(1) refuse_existing_free by (auto split: if_splits)
    obtain res w2 where c: "sc_complete (sb_client b) ?q w1 = (res, w2)" by (metis prod.collapse)
    then have rest: "(case res of Inr (etag, version) \<Rightarrow> okE (Inl (put_result_of k (pp_size plan) ret etag version))
        | Inl e \<Rightarrow> settle_complete b k plan sums composite e) w2 = (x, w')"
      using 2(2) by (simp add: bindE_def tryE_apply)
    then have end_same: "objs w' = objs w2" using same_D [OF settle_complete_same] by (auto split: sum.splits prod.splits)
    have bss: "bss' = bss" if "map Some bss' = map (\<lambda>p. parts w1 (cq_id ?q) (fst p)) (cq_parts ?q)" for bss'
      using that ps same by (simp add: inj_map_eq_map)
    have "lands_on objs k (concat bss) w w'"
      using complete_lands [OF c] bss same end_same by (auto simp: lands_on_def)
    moreover have "pr_key p = k \<and> pr_size p = pp_size plan
        \<and> (objs w' k = Some (concat bss) \<or> shows_ours k (pp_size plan) (own_sums sums composite) w')" if x: "x = Inr (Inl p)" for p
    proof (cases res)
      case (Inl e)
      then show ?thesis using rest x settle_complete_ours by auto
    next
      case (Inr tags)
      then show ?thesis
        using rest x complete_done [OF c [unfolded Inr]] bss end_same by (auto simp: put_result_of_def split: prod.splits)
    qed
    ultimately show ?thesis by blast
  qed
  then show "lands_on objs k (concat bss) w w'"
    and "x = Inr (Inl p) \<Longrightarrow> pr_key p = k \<and> pr_size p = pp_size plan
      \<and> (objs w' k = Some (concat bss) \<or> shows_ours k (pp_size plan) (own_sums sums composite) w')" by blast+
qed

lemma upload_lands:
  assumes "upload b k r plan sums ret w = (x, w')"
    and whole: "concat (map (part_at (body_bytes r) plan) (part_numbers plan)) = body_bytes r"
  shows "lands_on objs k (body_bytes r) w w'"
    and "x = Inr (Inl p) \<Longrightarrow> pr_key p = k \<and> pr_size p = pp_size plan
      \<and> (objs w' k = Some (body_bytes r) \<or> (\<exists>composite. shows_ours k (pp_size plan) (own_sums sums composite) w'))"
proof -
  let ?send = "\<lambda>up. mapErrE (wrap_error (''s3: put '' @ quote k @ '' in '' @ show_int (pp_count plan)
      @ '' parts (the upload is left to the bucket's lifecycle rule)''))
    (bindE (send_parts b k up r plan sums) (\<lambda>ps. case ends_at r (pp_size plan) (pp_size plan) of Some x \<Rightarrow> failE x | None \<Rightarrow> okE ps))"
  have send_same: "steps_in (same_on objs) (?send up)" for up
    by (intro same.steps_rules send_parts_same)
  have "lands_on objs k (body_bytes r) w w' \<and> (\<forall>p. x = Inr (Inl p) \<longrightarrow> pr_key p = k \<and> pr_size p = pp_size plan
      \<and> (objs w' k = Some (body_bytes r) \<or> (\<exists>composite. shows_ours k (pp_size plan) (own_sums sums composite) w')))"
    using assms(1) unfolding upload_def
  proof (cases rule: bindE_cases)
    case 1
    with same_D [OF create_upload_same 1(1)] show ?thesis by (simp add: lands_on_def)
  next
    case (2 v w1)
    obtain up composite where v: "v = (up, composite)" by (cases v)
    have o1: "objs w1 = objs w" by (rule same_D [OF create_upload_same 2(1)])
    from 2(2) [unfolded v prod.case] show ?thesis
    proof (cases rule: bindE_cases)
      case 1
      with same_D [OF send_same 1(1)] o1 show ?thesis by (simp add: lands_on_def)
    next
      case (2 ps w2)
      have o2: "objs w2 = objs w" using same_D [OF send_same 2(1)] o1 by simp
      have "send_parts b k up r plan sums w1 = (Inr ps, w2)"
        using 2(1) by (auto elim!: bindE_InrE split: option.splits)
      note sent = send_parts_done [OF this]
      note c = complete_lands_on [OF 2(2) sent, unfolded whole]
      show ?thesis using c o2 by (auto simp: lands_on_def)
    qed
  qed
  then show "lands_on objs k (body_bytes r) w w'"
    and "x = Inr (Inl p) \<Longrightarrow> pr_key p = k \<and> pr_size p = pp_size plan
      \<and> (objs w' k = Some (body_bytes r) \<or> (\<exists>composite. shows_ours k (pp_size plan) (own_sums sums composite) w'))" by blast+
qed

lemma checksum_same: "steps_in (same_on objs) (checksum_parts ctx r plan)"
proof -
  have "steps_in (same_on objs) (checksum_from ctx r plan is s)" for "is" s
    by (induction "is" arbitrary: s) (simp_all only: checksum_from.simps Let_def, (intro same.steps_rules; simp)+)
  then show ?thesis unfolding checksum_parts_def by (intro same.steps_rules)
qed

text \<open>A put that returns says where it put the bytes, all of them, and they are there or are shown to be.\<close>

definition put_ok :: "string \<Rightarrow> body \<Rightarrow> int \<Rightarrow> put_result \<Rightarrow> 'w \<Rightarrow> bool" where
  "put_ok k r n p w \<longleftrightarrow> pr_key p = k \<and> pr_size p = n \<and> int (length (body_bytes r)) = n
     \<and> (objs w k = Some (body_bytes r) \<or> (\<exists>c. shows_ours k n [c] w \<and> a_sum_of (body_bytes r) c))"

lemma put_parts_lands:
  assumes "put_parts b k r n ret w = (x, w')" and n: "0 < n" "in_int64 n"
  shows "lands_on objs k (body_bytes r) w w'"
    and "x = Inr p \<Longrightarrow> put_ok k r n p w'"
proof -
  let ?plan = "plan_parts n (sb_part b)"
  have "lands_on objs k (body_bytes r) w w' \<and> (\<forall>p. x = Inr p \<longrightarrow> put_ok k r n p w')"
    using assms(1) unfolding put_parts_def Let_def
  proof (cases rule: bindE_cases)
    case 1
    with same_D [OF refuse_existing_same(1) 1(1)] show ?thesis by (simp add: lands_on_def)
  next
    case (2 u w1)
    have o1: "objs w1 = objs w" by (rule same_D [OF refuse_existing_same(1) 2(1)])
    from 2(2) show ?thesis
    proof (cases rule: bindE_cases)
      case 1
      have "steps_in (same_on objs) (mapErrE (wrap_error (''s3: checksum '' @ quote k)) (checksum_parts (sb_ctx b) r ?plan))"
        by (intro same.steps_rules checksum_same)
      from same_D [OF this 1(1)] o1 1 show ?thesis by (simp add: lands_on_def)
    next
      case (2 sums w2)
      then have c: "checksum_parts (sb_ctx b) r ?plan w1 = (Inr sums, w2)" by simp
      then have "0 \<le> pp_count ?plan" by (auto simp: checksum_parts_def split: if_splits)
      then have pl: "planned n ?plan" using n sizes by (intro plannedI) simp_all
      note ok = checksum_parts_ok [OF c pl]
      have sums: "sums = sums_of (body_bytes r) ?plan" using ok(4,5) by (simp add: sums_of_def)
      note whole = concat_parts [OF pl ok(2)]
      have put: "put_ok k r n p v'" if "upload b k r ?plan sums ret v = (Inr (Inl p), v')" for p v v'
      proof -
        have "\<exists>c. shows_ours k n [c] v' \<and> a_sum_of (body_bytes r) c" if "shows_ours k n (own_sums sums composite) v'" for composite
          using that pl ok(2) unfolding sums by (fastforce simp: shows_ours_def a_sum_of_def)
        with upload_lands(2) [OF that whole refl] ok(2) show ?thesis by (auto simp: put_ok_def)
      qed
      note lands = upload_lands(1) [OF _ whole]
      from 2(2) show ?thesis
      proof (cases rule: bindE_cases)
        case 1
        with lands [OF 1(1)] o1 ok(1) show ?thesis by (simp add: lands_on_def)
      next
        case (2 res w3)
        have first: "lands_on objs k (body_bytes r) w w3" using lands [OF 2(1)] o1 ok(1) by (simp add: lands_on_def)
        show ?thesis
        proof (cases res)
          case (Inl q)
          with 2 first put show ?thesis by auto
        next
          case (Inr e)
          have u: "bindE (upload b k r ?plan sums ret) (\<lambda>again. case again of Inl p \<Rightarrow> okE p | Inr e' \<Rightarrow> failE e') w3 = (x, w')"
            using 2(2) Inr by simp
          then obtain again where a: "upload b k r ?plan sums ret w3 = (again, w')" "\<And>p. x = Inr p \<Longrightarrow> again = Inr (Inl p)"
            by (cases rule: bindE_cases) (auto split: sum.splits)
          have "lands_on objs k (body_bytes r) w w'" using first lands [OF a(1)] by (rule lands.trans)
          with a put show ?thesis by auto
        qed
      qed
    qed
  qed
  then show "lands_on objs k (body_bytes r) w w'"
    and "x = Inr p \<Longrightarrow> put_ok k r n p w'" by blast+
qed

subsection \<open>A put\<close>

lemma s3_put_lands:
  assumes "s3_put b seeks k r n ret w = (x, w')" and "in_int64 n"
  shows "lands_on objs k (body_bytes r) w w'"
    and "x = Inr p \<Longrightarrow> put_ok k r n p w'"
proof -
  consider "n < 0" | "0 \<le> n" "seeks \<and> n > sb_threshold b" | "0 \<le> n" "\<not> (seeks \<and> n > sb_threshold b)" by linarith
  then have "lands_on objs k (body_bytes r) w w' \<and> (\<forall>p. x = Inr p \<longrightarrow> put_ok k r n p w')"
  proof cases
    case 1
    with assms(1) show ?thesis by (auto simp: s3_put_def lands_on_def)
  next
    case 2
    then have "0 < n" using sizes(3) by (simp add: min_part_size_def)
    moreover have "put_parts b k r n ret w = (x, w')" using assms(1) 2 by (simp add: s3_put_def)
    ultimately show ?thesis using put_parts_lands assms(2) by blast
  next
    case 3
    then have one: "put_one b seeks k r n ret w = (x, w')" using assms(1) by (auto simp: s3_put_def)
    have "a_sum_of (body_bytes r) (b64_sum (crc32 (body_bytes r)))" by (simp add: a_sum_of_def)
    then have "put_ok k r n p w'" if "x = Inr p" for p
      using put_one_ok [OF one [unfolded that] 3(1)] by (auto simp: put_ok_def)
    with put_one_lands [OF one 3(1)] show ?thesis by (auto simp: lands_on_def)
  qed
  then show "lands_on objs k (body_bytes r) w w'"
    and "x = Inr p \<Longrightarrow> put_ok k r n p w'" by blast+
qed

lemma s3_put_holds: "put_ok k r n p w \<Longrightarrow> s3_holds b objs k (body_bytes r) w"
  using head_there by (fastforce simp: put_ok_def shows_ours_def s3_holds_def)

lemma s3_put_result:
  assumes "put_immutable (s3_destination b) k r n ret w = (x, w')"
  shows "lands_on objs k (body_bytes r) w w'"
    and "x = Inr p \<Longrightarrow> s3_holds b objs k (body_bytes r) w' \<and> int (length (body_bytes r)) = n \<and> pr_key p = k \<and> pr_size p = n"
proof -
  have "in_int64 n \<or> (\<exists>e. x = Inl e) \<and> w' = w" and s: "in_int64 n \<Longrightarrow> s3_put b True k r n ret w = (x, w')"
    using assms by (auto simp: s3_destination_def split: if_splits)
  then show "lands_on objs k (body_bytes r) w w'"
    and "x = Inr p \<Longrightarrow> s3_holds b objs k (body_bytes r) w' \<and> int (length (body_bytes r)) = n \<and> pr_key p = k \<and> pr_size p = n"
    using s3_put_lands [OF s] s3_put_holds by (auto simp: lands_on_def put_ok_def)
qed

lemma s3_reads_same:
  "steps_in (same_on objs) (s3_verify_worm b)" "steps_in (same_on objs) (s3_list b pre)" "steps_in (same_on objs) (s3_get b k)"
  "steps_in (same_on objs) (s3_observe_retention b k)"
proof -
  have page: "steps_in (same_on objs) (s3_list_page b pre n)" for pre n
    unfolding s3_list_page_def by (intro same.steps_rules page_same)
  show "steps_in (same_on objs) (s3_verify_worm b)"
    unfolding s3_verify_worm_def bucket_has_no_lock_def by (intro same.steps_rules lock_same page)
  show "steps_in (same_on objs) (s3_list b pre)" unfolding s3_list_def by (intro same.steps_rules pages_same)
  show "steps_in (same_on objs) (s3_get b k)" unfolding s3_get_def by (intro same.steps_rules get_same)
  show "steps_in (same_on objs) (s3_observe_retention b k)"
    unfolding s3_observe_retention_def by (intro same.steps_rules retention_same)
qed

end

section \<open>The contract\<close>

text \<open>
  The backend takes an object of its size and CRC32 for the one it sent. So the contract holds of a
  store in which an object of one of these sums is the one they were taken of.
\<close>

locale s3_told = s3_store +
  assumes told: "sc_head (sb_client b) k True w = (Inr h, w') \<Longrightarrow> hd_size h = int (length bs) \<Longrightarrow> hd_crc h = Some crc \<Longrightarrow>
    a_sum_of bs crc \<Longrightarrow> objs w k = Some bs"
begin

lemma s3_put_stores:
  assumes "s3_put b seeks k r n ret w = (Inr p, w')" and "in_int64 n"
  shows "objs w' k = Some (body_bytes r)" "int (length (body_bytes r)) = n" "pr_key p = k" "pr_size p = n"
proof -
  note ok = s3_put_lands(2) [OF assms refl]
  show "int (length (body_bytes r)) = n" "pr_key p = k" "pr_size p = n" using ok by (simp_all add: put_ok_def)
  show "objs w' k = Some (body_bytes r)"
    using ok told by (fastforce simp: put_ok_def shows_ours_def)
qed

end

sublocale s3_told \<subseteq> stored: lands_whole "s3_destination b" objs
proof
  fix k and r :: body and n ret w w' x p pre os f
  show "put_immutable (s3_destination b) k r n ret w = (x, w') \<Longrightarrow> lands_on objs k (body_bytes r) w w'"
    using s3_put_lands(1) by (auto simp: s3_destination_def lands_on_def split: if_splits)
  show "put_immutable (s3_destination b) k r n ret w = (Inr p, w') \<Longrightarrow>
      objs w' k = Some (body_bytes r) \<and> int (length (body_bytes r)) = n \<and> pr_key p = k \<and> pr_size p = n"
    using s3_put_stores by (auto simp: s3_destination_def split: if_splits)
  show "steps_in (same_on objs) (verify_worm (s3_destination b))" "steps_in (same_on objs) (list_objects (s3_destination b) pre)"
    "steps_in (same_on objs) (get_object (s3_destination b) k)"
    "observe_retention (s3_destination b) = Some f \<Longrightarrow> steps_in (same_on objs) (f k)"
    using s3_reads_same by (auto simp: s3_destination_def)
  show "\<exists>bs t. objs w k = Some bs \<and> bs = body_bytes y @ t \<and> (body_err y = None \<longrightarrow> t = [])"
    if "get_object (s3_destination b) k w = (Inr y, w')" for y
    using that get_gives by (simp add: s3_destination_def s3_get_def)
  show "obj_key ` set os = {k \<in> dom (objs w). has_prefix pre k}" if l: "list_objects (s3_destination b) pre w = (Inr os, w')"
  proof -
    obtain ps where "sc_pages (sb_client b) pre w = (Inr (ps, None), w')" "os = concat ps"
      using l by (auto simp: s3_destination_def s3_list_def elim!: bindE_InrE split: option.splits)
    with pages_give show ?thesis by blast
  qed
qed

end
