(* ===== verification/Lab_S3.thy ===== *)
theory Lab_S3
  imports S3_Store
begin

text \<open>
  A bucket in memory, in which the contract of an S3 store holds. It sums the CRC32 of an object or does
  not (\<open>sums\<close>), and its answer to a write can be lost after the write has landed (\<open>lost\<close>).
\<close>

record s3_lab =
  sl_objs :: "(string \<times> string) list"
  sl_parts :: "((string \<times> int) \<times> string) list"
  sl_flag :: bool

definition lab_bucket :: "s3_lab \<Rightarrow> (string \<rightharpoonup> string)" where
  "lab_bucket w = map_of (sl_objs w)"

definition lab_parts :: "s3_lab \<Rightarrow> string \<Rightarrow> int \<Rightarrow> string option" where
  "lab_parts w up i = map_of (sl_parts w) (up, i)"

definition lab_api :: "string \<Rightarrow> goerr" where
  "lab_api code = GoErr (ApiError code []) (''api error '' @ code) []"

definition lab_answer :: "bool \<Rightarrow> s3_lab \<Rightarrow> (s3_lab, string option \<times> string option) io" where
  "lab_answer lost w' = (\<lambda>w. (if lost then Inl (new_error ''timeout'') else Inr (Some ''tag'', None), w'))"

definition lab_s3_client :: "bool \<Rightarrow> bool \<Rightarrow> s3_lab s3_client" where
  "lab_s3_client sums lost =
     \<lparr>sc_lock = (\<lambda>chk. okE (Some \<lparr>lc_enabled = ''Enabled'', lc_default = None\<rparr>)),
      sc_page = (\<lambda>chk pre n. okE ([], False)),
      sc_retention = (\<lambda>chk k. okE None),
      sc_pages = (\<lambda>pre w. (Inr ([map (\<lambda>(k, c). \<lparr>obj_key = k, obj_size = int (length c), obj_modified = 0\<rparr>)
         (filter (\<lambda>(k, c). has_prefix pre k) (sl_objs w))], None), w)),
      sc_get = (\<lambda>k w. case lab_bucket w k of
          None \<Rightarrow> (Inl (lab_api ''NoSuchKey''), w)
        | Some c \<Rightarrow> (Inr \<lparr>body_bytes = c, body_err = None\<rparr>, w)),
      sc_head = (\<lambda>k m w. case lab_bucket w k of
          None \<Rightarrow> (Inl (lab_api ''NotFound''), w)
        | Some c \<Rightarrow> (Inr \<lparr>hd_size = int (length c), hd_crc = (if sums \<and> m then Some (b64_sum (crc32 c)) else None),
            hd_etag = Some ''tag'', hd_version = None, hd_until = None, hd_mode = []\<rparr>, w)),
      sc_put = (\<lambda>q w. if pq_if_none q \<and> lab_bucket w (pq_key q) \<noteq> None then (Inl (lab_api ''PreconditionFailed''), w)
        else if body_err (pq_body q) \<noteq> None then (Inl (lab_api ''IncompleteBody''), w)
        else lab_answer lost (w\<lparr>sl_objs := (pq_key q, body_bytes (pq_body q)) # sl_objs w\<rparr>) w),
      sc_create = (\<lambda>k full l. okE ''up''),
      sc_part = (\<lambda>k up i r n crc w. (Inr (Some ''tag''), w\<lparr>sl_parts := ((up, i), body_bytes r) # sl_parts w\<rparr>)),
      sc_complete = (\<lambda>q w. let bss = map (\<lambda>p. lab_parts w (cq_id q) (fst p)) (cq_parts q) in
        if cq_if_none q \<and> lab_bucket w (cq_key q) \<noteq> None then (Inl (lab_api ''PreconditionFailed''), w)
        else if None \<in> set bss then (Inl (lab_api ''InvalidPart''), w)
        else lab_answer lost (w\<lparr>sl_objs := (cq_key q, concat (map the bss)) # sl_objs w\<rparr>) w)\<rparr>"

definition lab_s3 :: "bool \<Rightarrow> bool \<Rightarrow> bool \<Rightarrow> s3_lab s3_backend" where
  "lab_s3 sums lost conditional =
     \<lparr>sb_client = lab_s3_client sums lost, sb_conditional = conditional, sb_threshold = min_part_size, sb_part = min_part_size,
      sb_composite = sl_flag, sb_refused = (\<lambda>w. w\<lparr>sl_flag := True\<rparr>), sb_order = rev, sb_ctx = (\<lambda>w. None)\<rparr>"

lemma lab_client [simp]: "sb_client (lab_s3 sums lost cond) = lab_s3_client sums lost"
  by (simp add: lab_s3_def)

lemma lab_not_found: "not_found (lab_api ''NotFound'')"
  by (simp add: not_found_def api_error_def lab_api_def)

lemma all_some: "None \<notin> set xs \<Longrightarrow> map Some (map the xs) = xs"
  by (induction xs) auto

interpretation lab_s3_store: s3_store "lab_s3 sums lost cond" lab_bucket lab_parts for sums lost cond
proof
  show "sc_complete (sb_client (lab_s3 sums lost cond)) q w = (x, w') \<Longrightarrow> lab_bucket w' = lab_bucket w
      \<or> (\<exists>bss. map Some bss = map (\<lambda>p. lab_parts w (cq_id q) (fst p)) (cq_parts q) \<and> lab_bucket w' = (lab_bucket w)(cq_key q \<mapsto> concat bss))
        \<and> (cq_if_none q \<longrightarrow> lab_bucket w (cq_key q) = None)" for q w x w'
    using all_some [of "map (\<lambda>p. lab_parts w (cq_id q) (fst p)) (cq_parts q)"]
    by (fastforce simp: lab_s3_client_def Let_def lab_answer_def lab_bucket_def split: if_splits)
  show "sc_complete (sb_client (lab_s3 sums lost cond)) q w = (Inr tags, w') \<Longrightarrow>
      \<exists>bss. map Some bss = map (\<lambda>p. lab_parts w (cq_id q) (fst p)) (cq_parts q) \<and> lab_bucket w' (cq_key q) = Some (concat bss)" for q w tags w'
    using all_some [of "map (\<lambda>p. lab_parts w (cq_id q) (fst p)) (cq_parts q)"]
    by (fastforce simp: lab_s3_client_def Let_def lab_answer_def lab_bucket_def split: if_splits)
  show "sc_pages (sb_client (lab_s3 sums lost cond)) pre w = (Inr (ps, None), w') \<Longrightarrow>
      obj_key ` set (concat ps) = {k \<in> dom (lab_bucket w). has_prefix pre k}" for pre w ps w'
    by (force simp: lab_s3_client_def lab_bucket_def dom_map_of_conv_image_fst image_iff)
qed (auto simp: lab_s3_client_def lab_s3_def lab_bucket_def lab_parts_def lab_answer_def lab_api_def steps_in_def same_on_def
    min_part_size_def max_part_size_def split: option.splits if_splits)

interpretation lab_s3_told: s3_told "lab_s3 False lost cond" lab_bucket lab_parts for lost cond
  by unfold_locales (auto simp: lab_s3_client_def split: option.splits)

definition empty_bucket :: s3_lab where
  "empty_bucket = \<lparr>sl_objs = [], sl_parts = [], sl_flag = False\<rparr>"

text \<open>A write whose answer is lost has landed, and the store's CRC32 says so.\<close>

lemma lab_lost_write:
  "\<exists>p w'. s3_put (lab_s3 True True True) True ''k'' \<lparr>body_bytes = ''data'', body_err = None\<rparr> 4 no_retention empty_bucket = (Inr p, w')
     \<and> lab_bucket w' ''k'' = Some ''data''"
  by (simp add: s3_put_def put_one_def send_put_def settle_put_def settle_write_def exact_body_whole crc32_of_def lab_s3_def lab_s3_client_def
      lab_answer_def lab_bucket_def empty_bucket_def min_part_size_def bindE_def tryE_apply Let_def)

end
