(* ===== verification/GCS.thy ===== *)
theory GCS
  imports Exact
begin

text \<open>
  src/internal/dest/gcs/gcs.go: the create-only destination over a Cloud Storage client. The client is
  the library's and a parameter, one operation per call the package makes; what its sources say of
  them is the locale \<open>gcs_store\<close>.
\<close>

section \<open>The client\<close>

record gcs_attrs =
  ga_name :: string
  ga_size :: int
  ga_etag :: string
  ga_created :: time
  ga_updated :: time
  ga_until :: time

record gcs_policy =
  gp_locked :: bool
  gp_period :: duration

text \<open>
  A write of an object goes through a writer, made for the key with the condition that it does not
  exist: \<open>gc_send\<close> writes to it, \<open>gc_close\<close> commits what was written and returns the object's
  attributes, and \<open>gc_cancel\<close> cancels the context it was made with.
\<close>

record 'w gcs_client =
  gc_policy :: "('w, gcs_policy option) io"
  gc_open :: "string \<Rightarrow> 'w \<Rightarrow> 'w"
  gc_send :: "string \<Rightarrow> string \<Rightarrow> ('w, unit) io"
  gc_close :: "string \<Rightarrow> ('w, gcs_attrs) io"
  gc_cancel :: "string \<Rightarrow> 'w \<Rightarrow> 'w"
  gc_objects :: "string \<Rightarrow> ('w, gcs_attrs list \<times> goerr option) io"
  gc_page :: "string \<Rightarrow> int \<Rightarrow> ('w, gcs_attrs list \<times> string) io"
  gc_get :: "string \<Rightarrow> ('w, body) io"
  gc_attrs :: "string \<Rightarrow> ('w, gcs_attrs) io"

record gcs_options =
  go_bucket :: string
  go_endpoint :: string

definition gcs_new :: "(gcs_options \<Rightarrow> goerr + 'w gcs_client) \<Rightarrow> gcs_options \<Rightarrow> goerr + 'w gcs_client" where
  "gcs_new load opts =
     (if trim_space (go_bucket opts) = [] then Inl (new_error ''gcs: bucket is required'')
      else map_sum (wrap_error ''gcs: new client'') id (load opts))"

section \<open>The verdict on immutability\<close>

definition count_words :: "int \<Rightarrow> string \<Rightarrow> string" where
  "count_words n unit = (if n = 1 then ''1 '' @ unit else show_int n @ '' '' @ unit @ ''s'')"

definition period_words :: "duration \<Rightarrow> string" where
  "period_words d =
     (if d = day then ''1 day''
      else if d > day \<and> go_mod d (day div 4) = 0
      then (let quarters = go_div d (day div 4) in
        show_int (go_div quarters 4) @ ([[], ''.25'', ''.5'', ''.75''] ! nat (go_mod quarters 4)) @ '' days'')
      else if go_mod d hour = 0 then count_words (go_div d hour) ''hour''
      else if go_mod d minute = 0 then count_words (go_div d minute) ''minute''
      else count_words (go_div d second) ''second'')"

definition verdict_from_policy :: "gcs_policy option \<Rightarrow> worm_status" where
  "verdict_from_policy rp = (case rp of
       None \<Rightarrow> \<lparr>ws_period = 0, ws_verdict = VerdictNotImmutable, ws_mode = [], ws_details = ''no bucket retention policy'',
         ws_refusal = None\<rparr>
     | Some p \<Rightarrow>
         if \<not> gp_locked p
         then \<lparr>ws_period = gp_period p, ws_verdict = VerdictNotImmutable, ws_mode = ''RETENTION'',
           ws_details = ''bucket retention policy Unlocked'' @ (if gp_period p > 0 then '', '' @ period_words (gp_period p) else [])
             @ ''; an unlocked policy can be shortened or removed'', ws_refusal = None\<rparr>
         else if gp_period p \<le> 0
         then \<lparr>ws_period = 0, ws_verdict = VerdictUnknown, ws_mode = ''RETENTION'',
           ws_details = ''bucket retention policy Locked, with no retention period reported'', ws_refusal = None\<rparr>
         else \<lparr>ws_period = gp_period p, ws_verdict = VerdictImmutable, ws_mode = ''RETENTION'',
           ws_details = ''bucket retention policy Locked, '' @ period_words (gp_period p), ws_refusal = None\<rparr>)"

definition gcs_verify_worm :: "'w gcs_client \<Rightarrow> ('w, worm_status) io" where
  "gcs_verify_worm c = bindE (mapErrE (wrap_error ''gcs: bucket attrs'') (gc_policy c)) (\<lambda>rp. okE (verdict_from_policy rp))"

text \<open>Immutable is said of a locked policy with its period, and of nothing else.\<close>

lemma gcs_immutable_iff:
  "ws_verdict (verdict_from_policy rp) = VerdictImmutable
     \<longleftrightarrow> (\<exists>p. rp = Some p \<and> gp_locked p \<and> 0 < gp_period p \<and> ws_period (verdict_from_policy rp) = gp_period p)"
  by (auto simp: verdict_from_policy_def split: option.splits)

lemma gcs_not_immutable_iff:
  "ws_verdict (verdict_from_policy rp) = VerdictNotImmutable \<longleftrightarrow> (\<forall>p. rp = Some p \<longrightarrow> \<not> gp_locked p)"
  by (auto simp: verdict_from_policy_def split: option.splits)

text \<open>The index into the four fractions is in their range.\<close>

lemma period_words_index: "0 < d \<Longrightarrow> nat (go_mod (go_div d (day div 4)) 4) < 4"
  by (simp add: go_div_nonneg go_mod_nonneg time_units pos_imp_zdiv_nonneg_iff)

section \<open>A write\<close>

text \<open>
  \<open>io.Copy\<close>: what a read gives is written before the error it came with is looked at. The fuel is two
  more than the stream's bytes, and each read gives one of them at least.
\<close>

fun copy_to :: "(string \<Rightarrow> ('w, unit) io) \<Rightarrow> 'r reader \<Rightarrow> nat \<Rightarrow> 'r \<Rightarrow> ('w, 'r) io" where
  "copy_to dst rd 0 r = failE err_no_progress"
| "copy_to dst rd (Suc k) r = (case rd r copy_buffer of ((p, e), r') \<Rightarrow>
     bindE (if p = [] then okE () else dst p) (\<lambda>_.
       case e of Some x \<Rightarrow> if is_eof x then okE r' else failE x | None \<Rightarrow> copy_to dst rd k r'))"

definition gcs_put :: "'w gcs_client \<Rightarrow> string \<Rightarrow> body \<Rightarrow> int \<Rightarrow> ('w, put_result) io" where
  "gcs_put c key r n =
     (if n < 0 then failE (new_error (''gcs: put '' @ quote key @ '': a size of '' @ show_int n @ '' bytes is not a length'')) else
      let failed = wrap_error (''gcs: put '' @ quote key) in
      bindE (\<lambda>w. (Inr (), gc_open c key w)) (\<lambda>_.
      deferE (gc_cancel c key) (
      bindE (tryE (copy_to (gc_send c key) (gcs_read body_read) (length (body_bytes r) + 2) (exact_over r n))) (\<lambda>res.
      let err = (case res of Inl e \<Rightarrow> Some e
        | Inr sent \<Rightarrow> if ex_n sent \<noteq> n
            then Some (new_error (show_int (ex_n sent) @ '' bytes were read, and the artifact is '' @ show_int n)) else None) in
      case err of
        Some e \<Rightarrow> bindE (\<lambda>w. (Inr (), gc_cancel c key w)) (\<lambda>_. failE (failed e))
      | None \<Rightarrow> bindE (mapErrE failed (gc_close c key)) (\<lambda>a.
          okE \<lparr>pr_key = key, pr_etag = ga_etag a, pr_version = [], pr_size = ga_size a, pr_sha256 = [],
            pr_until = ga_until a, pr_mode = []\<rparr>)))))"

section \<open>Reading\<close>

definition gcs_object :: "gcs_attrs \<Rightarrow> object" where
  "gcs_object a = \<lparr>obj_key = ga_name a, obj_size = ga_size a,
     obj_modified = (if is_zero (ga_created a) then ga_updated a else ga_created a)\<rparr>"

definition gcs_list :: "'w gcs_client \<Rightarrow> string \<Rightarrow> ('w, object list) io" where
  "gcs_list c prefix = bindE (gc_objects c prefix) (\<lambda>(as, err). case err of
       Some e \<Rightarrow> failE (wrap_error (''gcs: list '' @ quote prefix) e)
     | None \<Rightarrow> okE (map gcs_object as))"

definition gcs_list_page :: "'w gcs_client \<Rightarrow> string \<Rightarrow> int \<Rightarrow> ('w, object list \<times> bool) io" where
  "gcs_list_page c prefix limit =
     (if limit < 1
      then failE (new_error (''gcs: list '' @ quote prefix @ '': a page holds at least 1 object, not '' @ show_int limit))
      else bindE (mapErrE (wrap_error (''gcs: list '' @ quote prefix)) (gc_page c prefix limit)) (\<lambda>(page, more).
        okE (map (\<lambda>a. \<lparr>obj_key = ga_name a, obj_size = ga_size a, obj_modified = time_zero\<rparr>) page, more \<noteq> [])))"

definition gcs_get :: "'w gcs_client \<Rightarrow> string \<Rightarrow> ('w, body) io" where
  "gcs_get c key = mapErrE (wrap_error (''gcs: get '' @ quote key)) (gc_get c key)"

definition gcs_observe_retention :: "'w gcs_client \<Rightarrow> string \<Rightarrow> ('w, retention_observation \<times> time) io" where
  "gcs_observe_retention c key = bindE (mapErrE (wrap_error (''gcs: attrs '' @ quote key)) (gc_attrs c key)) (\<lambda>a.
     if is_zero (ga_until a) then okE (RetentionAbsent, time_zero) else okE (RetentionPresent, ga_until a))"

text \<open>The retention asked for is not sent: the bucket's policy gives every object its own.\<close>

definition gcs_destination :: "'w gcs_client \<Rightarrow> 'w destination" where
  "gcs_destination c = \<lparr>verify_worm = gcs_verify_worm c, put_immutable = (\<lambda>key r n ret. gcs_put c key r n),
     list_objects = gcs_list c, get_object = gcs_get c, observe_retention = Some (gcs_observe_retention c)\<rparr>"

section \<open>The contract\<close>

text \<open>
  \<open>objs\<close> is what the bucket holds, and \<open>sent\<close> what was written to the writer that is open. Nothing
  written or abandoned becomes an object; closing the writer commits all that was written or nothing, and
  only at a key that holds nothing.
\<close>

locale gcs_store =
  fixes c :: "'w gcs_client" and objs :: "'w \<Rightarrow> (string \<rightharpoonup> string)" and sent :: "'w \<Rightarrow> string"
  assumes policy_same: "steps_in (same_on objs) (gc_policy c)"
    and objects_same: "steps_in (same_on objs) (gc_objects c pre)"
    and attrs_same: "steps_in (same_on objs) (gc_attrs c k)"
    and get_same: "steps_in (same_on objs) (gc_get c k)"
    and get_gives: "gc_get c k w = (Inr r, w') \<Longrightarrow>
      \<exists>bs t. objs w k = Some bs \<and> bs = body_bytes r @ t \<and> (body_err r = None \<longrightarrow> t = [])"
    and objects_give: "gc_objects c pre w = (Inr (as, None), w') \<Longrightarrow> ga_name ` set as = {k \<in> dom (objs w). has_prefix pre k}"
    and open_same: "objs (gc_open c k w) = objs w" "sent (gc_open c k w) = []"
    and cancel_same: "objs (gc_cancel c k w) = objs w"
    and send_same: "steps_in (same_on objs) (gc_send c k p)"
    and send_adds: "gc_send c k p w = (Inr u, w') \<Longrightarrow> sent w' = sent w @ p"
    and close_lands: "gc_close c k w = (x, w') \<Longrightarrow> lands_on objs k (sent w) w w'"
    and close_done: "gc_close c k w = (Inr a, w') \<Longrightarrow> objs w' k = Some (sent w) \<and> ga_size a = int (length (sent w))"
begin

lemma copy_same: "steps_in (same_on objs) (copy_to (gc_send c k) rd n r)"
proof (induction n arbitrary: r)
  case (Suc n)
  show ?case
    by (simp only: copy_to.simps) (intro same.steps_rules send_same Suc.IH)
qed (simp only: copy_to.simps same.steps_rules)

lemma copy_sent:
  "copy_to (gc_send c k) rd n r w = (Inr r', w') \<Longrightarrow>
   \<exists>j rs. reads rd r (replicate j copy_buffer) = (rs, r') \<and> sent w' = sent w @ concat (map fst rs)
     \<and> Some eof \<in> set (map snd rs)"
proof (induction n arbitrary: r w)
  case (Suc n)
  obtain p e r1 where one: "rd r copy_buffer = ((p, e), r1)" by (metis prod.collapse)
  obtain w1 where s: "sent w1 = sent w @ p"
    and rest: "(case e of Some x \<Rightarrow> if is_eof x then okE r1 else failE x | None \<Rightarrow> copy_to (gc_send c k) rd n r1) w1 = (Inr r', w')"
    using Suc.prems one by (auto elim!: bindE_InrE dest: send_adds split: if_splits)
  show ?case
  proof (cases e)
    case None
    then have "copy_to (gc_send c k) rd n r1 w1 = (Inr r', w')" using rest by simp
    from Suc.IH [OF this] obtain j rs where "reads rd r1 (replicate j copy_buffer) = (rs, r')"
      "sent w' = sent w1 @ concat (map fst rs)" "Some eof \<in> set (map snd rs)" by blast
    then show ?thesis using one s by (intro exI [of _ "Suc j"] exI [of _ "(p, e) # rs"]) simp
  next
    case (Some x)
    then show ?thesis using one s rest
      by (intro exI [of _ 1] exI [of _ "[(p, e)]"]) (auto simp: is_eof_def split: if_splits)
  qed
qed simp

text \<open>The writer is closed only over the whole of the artifact.\<close>

lemma copied_exactly:
  assumes "copy_to (gc_send c k) (gcs_read body_read) m (exact_over r n) w = (Inr s, w')" and "0 \<le> n" "sent w = []"
  shows "sent w' = body_bytes r" "int (length (body_bytes r)) = n" "ex_n s = n"
proof -
  obtain j rs where r: "reads (gcs_read body_read) (exact_over r n) (replicate j copy_buffer) = (rs, s)"
    "sent w' = concat (map fst rs)" "Some eof \<in> set (map snd rs)" using copy_sent [OF assms(1)] assms(3) by auto
  note all = body_stream.sized_all [OF r(1) [unfolded gcs_read_def] assms(2)]
  from all(3) [OF r(3) errors_is_refl] all(1) r(2)
  show "sent w' = body_bytes r" "int (length (body_bytes r)) = n" "ex_n s = n" by (simp_all add: stream_of_def)
qed

lemma gcs_put_cases:
  assumes "gcs_put c k r n w = (x, w')"
  shows "lands_on objs k (body_bytes r) w w'"
    and "x = Inr p \<Longrightarrow> objs w' k = Some (body_bytes r) \<and> int (length (body_bytes r)) = n \<and> pr_key p = k \<and> pr_size p = n"
proof -
  have "lands_on objs k (body_bytes r) w w'
    \<and> (\<forall>p. x = Inr p \<longrightarrow> objs w' k = Some (body_bytes r) \<and> int (length (body_bytes r)) = n \<and> pr_key p = k \<and> pr_size p = n)"
  proof (cases "n < 0")
    case True
    with assms show ?thesis by (auto simp: gcs_put_def lands_on_def)
  next
    case False
    define failed where "failed = wrap_error (''gcs: put '' @ quote k)"
    let ?w = "gc_open c k w"
    obtain res w1 where copy: "copy_to (gc_send c k) (gcs_read body_read) (length (body_bytes r) + 2) (exact_over r n) ?w = (res, w1)"
      by (metis prod.collapse)
    have same: "objs w1 = objs w" using same_D [OF copy_same copy] open_same(1) by simp
    show ?thesis
    proof (cases "\<exists>s. res = Inr s \<and> ex_n s = n")
      case True
      then obtain s where s: "res = Inr s" "ex_n s = n" by blast
      note whole = copied_exactly [OF copy [unfolded s] _ open_same(2)]
      obtain a w2 where close: "gc_close c k w1 = (a, w2)" by (metis prod.collapse)
      have "x = (case a of Inl e \<Rightarrow> Inl (failed e) | Inr b \<Rightarrow> Inr \<lparr>pr_key = k, pr_etag = ga_etag b, pr_version = [],
          pr_size = ga_size b, pr_sha256 = [], pr_until = ga_until b, pr_mode = []\<rparr>) \<and> w' = gc_cancel c k w2"
        using assms False copy s close by (cases a) (auto simp: gcs_put_def failed_def bindE_def deferE_def tryE_apply mapErrE_def Let_def)
      with close_lands [OF close] close_done [of k w1 _ w2] close whole False same cancel_same show ?thesis
        by (cases a) (auto simp: lands_on_def)
    next
      case no: False
      then have "\<exists>e. x = Inl e \<and> objs w' = objs w"
        using assms False copy same cancel_same
        by (cases res) (auto simp: gcs_put_def bindE_def deferE_def tryE_apply Let_def)
      then show ?thesis by (auto simp: lands_on_def)
    qed
  qed
  then show "lands_on objs k (body_bytes r) w w'"
    and "x = Inr p \<Longrightarrow> objs w' k = Some (body_bytes r) \<and> int (length (body_bytes r)) = n \<and> pr_key p = k \<and> pr_size p = n"
    by blast+
qed

end

sublocale gcs_store \<subseteq> stored: lands_whole "gcs_destination c" objs
proof
  fix k and r :: body and n ret w w' x p pre os f
  show "put_immutable (gcs_destination c) k r n ret w = (x, w') \<Longrightarrow> lands_on objs k (body_bytes r) w w'"
    by (simp add: gcs_destination_def gcs_put_cases(1))
  show "put_immutable (gcs_destination c) k r n ret w = (Inr p, w') \<Longrightarrow>
      objs w' k = Some (body_bytes r) \<and> int (length (body_bytes r)) = n \<and> pr_key p = k \<and> pr_size p = n"
    using gcs_put_cases(2) by (fastforce simp: gcs_destination_def)
  show "steps_in (same_on objs) (verify_worm (gcs_destination c))"
    unfolding gcs_destination_def gcs_verify_worm_def by (simp, intro same.steps_rules policy_same)
  show "steps_in (same_on objs) (list_objects (gcs_destination c) pre)"
    unfolding gcs_destination_def gcs_list_def by (simp, intro same.steps_rules objects_same)
  show "steps_in (same_on objs) (get_object (gcs_destination c) k)"
    unfolding gcs_destination_def gcs_get_def by (simp, intro same.steps_rules get_same)
  show "observe_retention (gcs_destination c) = Some f \<Longrightarrow> steps_in (same_on objs) (f k)"
    unfolding gcs_destination_def gcs_observe_retention_def by (auto intro!: same.steps_rules attrs_same)
  show "\<exists>bs t. objs w k = Some bs \<and> bs = body_bytes y @ t \<and> (body_err y = None \<longrightarrow> t = [])"
    if "get_object (gcs_destination c) k w = (Inr y, w')" for y
    using that get_gives by (simp add: gcs_destination_def gcs_get_def)
  show "obj_key ` set os = {k \<in> dom (objs w). has_prefix pre k}" if l: "list_objects (gcs_destination c) pre w = (Inr os, w')"
  proof -
    obtain as where "gc_objects c pre w = (Inr (as, None), w')" "os = map gcs_object as"
      using l by (auto simp: gcs_destination_def gcs_list_def elim!: bindE_InrE split: option.splits)
    with objects_give show ?thesis by (simp add: image_image gcs_object_def)
  qed
qed

context gcs_store
begin

lemma keeps_contract: "lands_whole (gcs_destination c) objs" "create_only (gcs_destination c) objs"
  by unfold_locales

end

end
