(* ===== verification/Lab_GCS.thy ===== *)
theory Lab_GCS
  imports GCS
begin

text \<open>
  A Cloud Storage bucket in memory, in which the contract of \<open>gcs_store\<close> holds. Its answer to a commit
  can be lost after the object has been stored (\<open>lost\<close>).
\<close>

record gcs_lab =
  gl_objs :: "(string \<times> string) list"
  gl_sent :: string

definition lab_gcs_objs :: "gcs_lab \<Rightarrow> (string \<rightharpoonup> string)" where
  "lab_gcs_objs w = map_of (gl_objs w)"

definition lab_attrs :: "string \<Rightarrow> string \<Rightarrow> gcs_attrs" where
  "lab_attrs k c = \<lparr>ga_name = k, ga_size = int (length c), ga_etag = ''tag'', ga_created = 1, ga_updated = 1, ga_until = 5\<rparr>"

definition lab_gcs :: "bool \<Rightarrow> gcs_policy option \<Rightarrow> gcs_lab gcs_client" where
  "lab_gcs lost rp =
     \<lparr>gc_policy = okE rp,
      gc_open = (\<lambda>k w. w\<lparr>gl_sent := []\<rparr>),
      gc_send = (\<lambda>k p w. (Inr (), w\<lparr>gl_sent := gl_sent w @ p\<rparr>)),
      gc_close = (\<lambda>k w. if lab_gcs_objs w k \<noteq> None then (Inl (new_error ''conditionNotMet''), w)
        else (if lost then Inl (new_error ''timeout'') else Inr (lab_attrs k (gl_sent w)),
          w\<lparr>gl_objs := (k, gl_sent w) # gl_objs w\<rparr>)),
      gc_cancel = (\<lambda>k w. w),
      gc_objects = (\<lambda>pre w. (Inr (map (\<lambda>(k, c). lab_attrs k c) (filter (\<lambda>(k, c). has_prefix pre k) (gl_objs w)), None), w)),
      gc_page = (\<lambda>pre n. okE ([], [])),
      gc_get = (\<lambda>k w. case lab_gcs_objs w k of
          None \<Rightarrow> (Inl (new_error ''notFound''), w)
        | Some c \<Rightarrow> (Inr \<lparr>body_bytes = c, body_err = None\<rparr>, w)),
      gc_attrs = (\<lambda>k w. case lab_gcs_objs w k of
          None \<Rightarrow> (Inl (new_error ''notFound''), w)
        | Some c \<Rightarrow> (Inr (lab_attrs k c), w))\<rparr>"

interpretation lab_gcs_store: gcs_store "lab_gcs lost rp" lab_gcs_objs gl_sent for lost rp
proof
  show "gc_objects (lab_gcs lost rp) pre w = (Inr (as, None), w') \<Longrightarrow>
      ga_name ` set as = {k \<in> dom (lab_gcs_objs w). has_prefix pre k}" for pre w as w'
    by (force simp: lab_gcs_def lab_gcs_objs_def lab_attrs_def dom_map_of_conv_image_fst image_iff)
qed (auto simp: lab_gcs_def lab_gcs_objs_def lab_attrs_def steps_in_def same_on_def lands_on_def split: option.splits if_splits)

definition empty_gcs :: gcs_lab where
  "empty_gcs = \<lparr>gl_objs = [], gl_sent = []\<rparr>"

text \<open>A write of the whole artifact is stored; one of a stream that runs long is not.\<close>

lemma lab_gcs_put:
  "map_prod (\<lambda>x. case x of Inl e \<Rightarrow> None | Inr p \<Rightarrow> Some (pr_size p)) gl_objs
     (gcs_put (lab_gcs False None) ''k'' \<lparr>body_bytes = ''data'', body_err = None\<rparr> 4 empty_gcs) = (Some 4, [(''k'', ''data'')])"
  "map_prod (\<lambda>x. case x of Inl e \<Rightarrow> None | Inr p \<Rightarrow> Some (pr_size p)) gl_objs
     (gcs_put (lab_gcs False None) ''k'' \<lparr>body_bytes = ''data'', body_err = None\<rparr> 3 empty_gcs) = (None, [])"
  by (simp_all add: gcs_put_def lab_gcs_def empty_gcs_def lab_gcs_objs_def lab_attrs_def gcs_read_def sized_read_def body_read_def
      exact_over_def copy_buffer_def holds_more_def eof_def new_error_def is_eof_def bindE_def deferE_def mapErrE_def tryE_apply Let_def)

end
