(* ===== verification/Azure.thy ===== *)
theory Azure
  imports Exact
begin

text \<open>
  src/internal/dest/azure/azure.go: the create-only destination over an Azure Blob client. The blob client
  and the one of Resource Manager are the SDK's and parameters, one operation per call the package makes;
  what Azure documents of the calls is the locale \<open>azure_store\<close>.
\<close>

section \<open>The clients\<close>

record container_props =
  cp_policy :: "bool option"
  cp_versioning :: "bool option"
  cp_hold :: "bool option"

text \<open>A container as Resource Manager reports it; a field is None where the answer left it out.\<close>

record arm_policy =
  am_state :: "string option"
  am_days :: "int option"   \<comment> \<open>an int32\<close>

record arm_container =
  am_versioning :: "bool option option"
  am_policy :: "arm_policy option option"
  am_has_policy :: "bool option"
  am_has_hold :: "bool option"
  am_legal_hold :: "bool option option"

record blob_props =
  bp_length :: "int option"
  bp_created :: "time option"
  bp_modified :: "time option"

record blob_item =
  bi_name :: "string option"
  bi_props :: "blob_props option"

record 'w azure_client =
  az_url :: string
  az_props :: "('w, container_props) io"
  az_until :: "string \<Rightarrow> ('w, time option) io"
  az_upload :: "string \<Rightarrow> body \<Rightarrow> int \<Rightarrow> bool \<Rightarrow> ('w, unit) io"   \<comment> \<open>with the size of a block and If-None-Match: *\<close>
  az_pages :: "string \<Rightarrow> ('w, blob_item list list \<times> goerr option) io"
  az_page :: "string \<Rightarrow> int \<Rightarrow> ('w, blob_item option list option \<times> string option) io"
  az_get :: "string \<Rightarrow> ('w, body) io"

type_synonym 'w arm_get = "string \<Rightarrow> string \<Rightarrow> string \<Rightarrow> ('w, arm_container option) io"

record 'w azure_backend =
  ab_client :: "'w azure_client"
  ab_container :: string
  ab_resource :: "'w arm_get option"
  ab_account :: string
  ab_group :: string
  ab_max_blocks :: int

definition is_true :: "bool option \<Rightarrow> bool" where "is_true b \<longleftrightarrow> b = Some True"
definition is_false :: "bool option \<Rightarrow> bool" where "is_false b \<longleftrightarrow> b = Some False"

section \<open>Whose endpoint a URL is\<close>

definition account_name :: "string \<Rightarrow> bool" where
  "account_name s \<longleftrightarrow> 3 \<le> length s \<and> length s \<le> 24 \<and> list_all (\<lambda>c. is_num c \<or> is_letter c \<and> lower_char c = c) s"

definition dns_zone :: "string \<Rightarrow> bool" where
  "dns_zone s \<longleftrightarrow> s \<in> set (map (\<lambda>n. CHR ''z'' # show_nat n) [1..<51])"

text \<open>\<open>net.ParseIP\<close>: the sixteen bytes of an address. A zone is none.\<close>

definition v4_field :: "string \<Rightarrow> nat option" where
  "v4_field s = (if s \<noteq> [] \<and> list_all is_num s \<and> (length s = 1 \<or> hd s \<noteq> CHR ''0'') \<and> num s \<le> 255 then Some (nat (num s)) else None)"

definition parse_v4 :: "string \<Rightarrow> nat list option" where
  "parse_v4 s = (let fs = map v4_field (split_on (CHR ''.'') s) in
     if length fs = 4 \<and> None \<notin> set fs then Some (map the fs) else None)"

definition hex_num :: "string \<Rightarrow> nat" where
  "hex_num s = foldl (\<lambda>n c. 16 * n + hex_val c) 0 s"

text \<open>The groups from here, given the bytes read before, where the ellipsis was, and how many more groups there is room for.\<close>

fun v6_groups :: "nat \<Rightarrow> nat list \<Rightarrow> nat option \<Rightarrow> string \<Rightarrow> (nat list \<times> nat option \<times> string) option" where
  "v6_groups 0 bs el s = Some (bs, el, s)"
| "v6_groups (Suc room) bs el s =
     (let h = takeWhile is_hex_digit s; r = drop (length h) s in
      if h = [] \<or> length h > 4 then None
      else if has_prefix ''.'' r
      then (if el = None \<and> length bs \<noteq> 12 \<or> length bs + 4 > 16 then None
            else map_option (\<lambda>v. (bs @ v, el, [])) (parse_v4 s))
      else let bs' = bs @ [hex_num h div 256, hex_num h mod 256] in
        if r = [] then Some (bs', el, [])
        else if hd r \<noteq> CHR '':'' \<or> tl r = [] then None
        else if hd (tl r) = CHR '':''
        then (if el \<noteq> None then None
              else if tl (tl r) = [] then Some (bs', Some (length bs'), [])
              else v6_groups room bs' (Some (length bs')) (tl (tl r)))
        else v6_groups room bs' el (tl r))"

definition parse_v6 :: "string \<Rightarrow> nat list option" where
  "parse_v6 s = (let led = has_prefix ''::'' s; r = (if led then drop 2 s else s) in
     if led \<and> r = [] then Some (replicate 16 0)
     else case v6_groups 8 [] (if led then Some 0 else None) r of
       None \<Rightarrow> None
     | Some (bs, el, rest) \<Rightarrow>
         if rest \<noteq> [] then None
         else if length bs < 16
         then map_option (\<lambda>i. take i bs @ replicate (16 - length bs) 0 @ drop i bs) el
         else if el \<noteq> None then None else Some bs)"

definition v4_mapped :: "nat list" where
  "v4_mapped = replicate 10 0 @ [255, 255]"

definition parse_ip :: "string \<Rightarrow> nat list option" where
  "parse_ip s = (case dropWhile (\<lambda>c. c \<notin> set ''.:%'') s of
       [] \<Rightarrow> None
     | c # cs \<Rightarrow> if c = CHR ''.'' then map_option ((@) v4_mapped) (parse_v4 s)
         else if CHR ''%'' \<in> set s then None else parse_v6 s)"

definition is_loopback :: "string \<Rightarrow> bool" where
  "is_loopback host = (if host = ''localhost'' then True else case parse_ip host of
       None \<Rightarrow> False
     | Some ip \<Rightarrow> if take 12 ip = v4_mapped then ip ! 12 = 127 else ip = replicate 15 0 @ [1])"

fun unescape_path :: "string \<Rightarrow> string" where
  "unescape_path (c # a # b # s) =
     (if c = CHR ''%'' then char_of (16 * hex_val a + hex_val b) # unescape_path s else c # unescape_path (a # b # s))"
| "unescape_path s = s"

definition names_account :: "string \<Rightarrow> string \<Rightarrow> bool" where
  "names_account service account = (case url_parse service of
       None \<Rightarrow> False
     | Some u \<Rightarrow>
         if \<not> account_name account then False
         else let host = to_lower (url_hostname u); path = trim_suffix ''/'' (unescape_path (url_path u)) in
           case cut_prefix (account @ ''.'') host of
             Some rest \<Rightarrow>
               if path = [] then
                 (if rest = ''blob.core.windows.net'' \<or> rest = ''privatelink.blob.core.windows.net'' then True
                  else has_suffix ''.blob.storage.azure.net'' rest \<and> dns_zone (trim_suffix ''.blob.storage.azure.net'' rest))
               else is_loopback host \<and> path = CHR ''/'' # account
           | None \<Rightarrow> is_loopback host \<and> path = CHR ''/'' # account)"

section \<open>The backend\<close>

record azure_options =
  ao_account :: string
  ao_container :: string
  ao_endpoint :: string
  ao_connection :: string
  ao_subscription :: string
  ao_group :: string

text \<open>What the SDK makes of a credential, a connection string or a URL, and a subscription.\<close>

record 'w azure_sdk =
  as_cred :: "goerr + unit"
  as_connection :: "string \<Rightarrow> string \<Rightarrow> goerr + 'w azure_client"
  as_service :: "string \<Rightarrow> string \<Rightarrow> goerr + 'w azure_client"
  as_resource :: "string \<Rightarrow> goerr + 'w arm_get"

definition account_url :: "string \<Rightarrow> string" where
  "account_url a = ''https://'' @ a @ ''.blob.core.windows.net/''"

definition azure_open :: "'w azure_sdk \<Rightarrow> azure_options \<Rightarrow> goerr + 'w azure_client" where
  "azure_open sdk o' = (let failed = map_sum (wrap_error ''azure: new client'') id in
     if ao_connection o' \<noteq> [] then failed (as_connection sdk (ao_connection o') (ao_container o'))
     else if ao_endpoint o' \<noteq> [] then failed (as_service sdk (ao_endpoint o') (ao_container o'))
     else if ao_account o' = [] then Inl (new_error ''azure: account or endpoint is required'')
     else failed (as_service sdk (account_url (ao_account o')) (ao_container o')))"

definition reads_policy :: "azure_options \<Rightarrow> bool" where
  "reads_policy o' \<longleftrightarrow> ao_subscription o' \<noteq> [] \<or> ao_group o' \<noteq> []"

definition azure_new :: "'w azure_sdk \<Rightarrow> azure_options \<Rightarrow> goerr + 'w azure_backend" where
  "azure_new sdk o' =
     (if trim_space (ao_container o') = [] then Inl (new_error ''azure: container is required'')
      else if ao_account o' \<noteq> [] \<and> \<not> account_name (ao_account o')
      then Inl (new_error ''azure: the account is not a storage account name, which is 3 to 24 lowercase letters and digits'')
      else if reads_policy o' \<and> (ao_subscription o' = [] \<or> ao_group o' = [] \<or> ao_account o' = [])
      then Inl (new_error ''azure: reading the immutability policy through Resource Manager needs subscriptionID, resourceGroup and account together'')
      else case (if ao_connection o' = [] \<or> reads_policy o' then as_cred sdk else Inr ()) of
        Inl e \<Rightarrow> Inl (wrap_error ''azure: default credential'' e)
      | Inr _ \<Rightarrow> (case azure_open sdk o' of
          Inl e \<Rightarrow> Inl e
        | Inr c \<Rightarrow>
            let b = \<lparr>ab_client = c, ab_container = ao_container o', ab_resource = None, ab_account = ao_account o',
              ab_group = ao_group o', ab_max_blocks = 0\<rparr> in
            if \<not> reads_policy o' then Inr b
            else if \<not> names_account (az_url c) (ao_account o')
            then Inl (new_error (''azure: the blob endpoint is not account '' @ quote (ao_account o')
              @ CHR 0x27 # ''s own in Azure's public cloud, where the immutability policy would be read''))
            else map_sum id (\<lambda>rm. b\<lparr>ab_resource := Some rm\<rparr>) (as_resource sdk (ao_subscription o'))))"

text \<open>A token that could not be had is marked as no answer of the store, or as the end of the run.\<close>

definition marked_token :: "('w \<Rightarrow> goerr option) \<Rightarrow> ('w, 'tok) io \<Rightarrow> ('w, 'tok) io" where
  "marked_token ctx get = bindE (tryE get) (\<lambda>r. case r of
       Inr tok \<Rightarrow> okE tok
     | Inl e \<Rightarrow> bindE (readE ctx) (\<lambda>stop. let mark = (case stop of None \<Rightarrow> err_no_credentials | Some x \<Rightarrow> x) in
         failE (GoErr Plain (err_text mark @ '': '' @ err_text e) [mark, e])))"

section \<open>The verdict on immutability\<close>

definition azure_status :: "worm_verdict \<Rightarrow> duration \<Rightarrow> string \<Rightarrow> string \<Rightarrow> worm_status" where
  "azure_status v held mode details =
     \<lparr>ws_period = held, ws_verdict = v, ws_mode = mode, ws_details = details, ws_refusal = None\<rparr>"

definition with_legal_hold :: "string \<Rightarrow> bool option \<Rightarrow> string" where
  "with_legal_hold details hold = (if is_true hold then details @ ''; a legal hold is set, which can be cleared'' else details)"

definition verdict_from_data_plane :: "container_props \<Rightarrow> worm_status" where
  "verdict_from_data_plane p =
     (if is_true (cp_policy p)
      then azure_status VerdictUnknown 0 ''IMMUTABILITY'' ''container has an immutability policy; whether it is locked is reported only by Resource Manager, and subscriptionID and resourceGroup are not set''
      else if is_true (cp_versioning p)
      then azure_status VerdictUnknown 0 [] ''version-level immutability enabled, no container policy reported; that alone locks nothing, and a policy set on the account is not read''
      else if is_false (cp_policy p) \<and> is_false (cp_versioning p)
      then azure_status VerdictNotImmutable 0 [] (with_legal_hold ''no immutability policy on container, no version-level immutability'' (cp_hold p))
      else azure_status VerdictUnknown 0 [] (''the container did not report whether it has ''
        @ (if cp_policy p \<noteq> None then ''version-level immutability'' else ''an immutability policy'')))"

definition period_text :: "int option \<Rightarrow> string" where
  "period_text days = (case days of None \<Rightarrow> [] | Some d \<Rightarrow> if d \<le> 0 then [] else '', '' @ show_int d @ '' days'')"

definition verdict_from_resource_manager :: "arm_container option \<Rightarrow> worm_status" where
  "verdict_from_resource_manager c = (case c of
       None \<Rightarrow> azure_status VerdictUnknown 0 [] ''Resource Manager returned no container properties''
     | Some p \<Rightarrow>
       let version_level = (case am_versioning p of None \<Rightarrow> False | Some en \<Rightarrow> is_true en);
           state = (case am_policy p of Some (Some q) \<Rightarrow> am_state q | _ \<Rightarrow> None);
           days = (case am_policy p of Some (Some q) \<Rightarrow> am_days q | _ \<Rightarrow> None);
           scope = (if version_level then '', version-level'' else []);
           held = (case days of Some d \<Rightarrow> if d > 0 then days_duration d else 0 | None \<Rightarrow> 0) in
       if state = Some ''Locked'' \<and> (case days of Some d \<Rightarrow> d > 0 | None \<Rightarrow> False)
       then azure_status VerdictImmutable held ''IMMUTABILITY''
         (''container immutability policy Locked, '' @ show_int (the days) @ '' days'' @ scope)
       else if state = Some ''Unlocked''
       then azure_status VerdictNotImmutable held ''IMMUTABILITY''
         (''container immutability policy Unlocked'' @ period_text days @ scope @ ''; an unlocked policy can be shortened or deleted'')
       else if state = Some ''Locked''
       then azure_status VerdictUnknown 0 ''IMMUTABILITY'' ''container immutability policy Locked, with no retention period reported''
       else case state of
         Some s \<Rightarrow> azure_status VerdictUnknown held ''IMMUTABILITY''
           (''container immutability policy in state '' @ quote (shaped_code s) @ '', which is not Locked or Unlocked'')
       | None \<Rightarrow>
         if is_true (am_has_policy p)
         then azure_status VerdictUnknown 0 ''IMMUTABILITY'' ''container has an immutability policy and Resource Manager reported no state for it''
         else if version_level
         then azure_status VerdictUnknown 0 [] ''version-level immutability enabled, no container policy; that alone locks nothing, and a policy set on the account is not read''
         else if is_false (am_has_policy p)
         then (let hold = (if am_has_hold p = None then (case am_legal_hold p of Some h \<Rightarrow> h | None \<Rightarrow> None) else am_has_hold p) in
           azure_status VerdictNotImmutable 0 [] (with_legal_hold ''no immutability policy on container, no version-level immutability'' hold))
         else azure_status VerdictUnknown 0 [] ''Resource Manager did not say whether the container has an immutability policy'')"

definition response_error :: "goerr \<Rightarrow> (string \<times> int) option" where
  "response_error e = (case errors_as (\<lambda>k. case k of ResponseError c s \<Rightarrow> True | _ \<Rightarrow> False) e of
       Some (GoErr (ResponseError c s) t ws) \<Rightarrow> Some (c, s) | _ \<Rightarrow> None)"

definition response_code :: "string \<times> int \<Rightarrow> string" where
  "response_code re = (if fst re \<noteq> [] then shaped_code (fst re) else ''HTTP '' @ show_int (snd re))"

definition azure_verify_worm :: "'w azure_backend \<Rightarrow> ('w, worm_status) io" where
  "azure_verify_worm b = bindE (mapErrE (wrap_error ''azure: container properties'') (az_props (ab_client b))) (\<lambda>props.
     case ab_resource b of
       None \<Rightarrow> okE (verdict_from_data_plane props)
     | Some get \<Rightarrow> bindE (tryE (get (ab_group b) (ab_account b) (ab_container b))) (\<lambda>r. case r of
           Inr got \<Rightarrow> okE (verdict_from_resource_manager got)
         | Inl e \<Rightarrow> (case response_error e of
               Some re \<Rightarrow> okE ((azure_status VerdictUnknown 0 [] (''could not read the container's immutability policy: Resource Manager answered ''
                 @ response_code re))\<lparr>ws_refusal := Some e\<rparr>)
             | None \<Rightarrow> failE (wrap_error ''azure: read container immutability policy'' e))))"

lemma status_verdict [simp]: "ws_verdict (azure_status v held m d) = v" "ws_period (azure_status v held m d) = held"
    "ws_refusal (azure_status v held m d) = None"
  by (simp_all add: azure_status_def)

lemma status_frozen: "azure_status v held m d = azure_status v held m d" ..

text \<open>
  Immutable is said only on a policy that Resource Manager reports Locked with its days, and not immutable
  only where what was asked was answered and nothing is locked.
\<close>

lemma data_plane_never: "ws_verdict (verdict_from_data_plane p) \<noteq> VerdictImmutable"
  by (simp add: verdict_from_data_plane_def cong: status_frozen)

lemma data_plane_negative:
  "ws_verdict (verdict_from_data_plane p) = VerdictNotImmutable \<longleftrightarrow> cp_policy p = Some False \<and> cp_versioning p = Some False"
  by (auto simp: verdict_from_data_plane_def is_true_def is_false_def cong: status_frozen)

definition locked_for :: "arm_container option \<Rightarrow> int \<Rightarrow> bool" where
  "locked_for c d \<longleftrightarrow> (\<exists>p q. c = Some p \<and> am_policy p = Some (Some q) \<and> am_state q = Some ''Locked'' \<and> am_days q = Some d \<and> 0 < d)"

lemma resource_manager_immutable:
  "ws_verdict (verdict_from_resource_manager c) = VerdictImmutable \<longleftrightarrow> (\<exists>d. locked_for c d)"
  "locked_for c d \<Longrightarrow> ws_period (verdict_from_resource_manager c) = days_duration d"
proof -
  have yes: "ws_verdict (verdict_from_resource_manager c) = VerdictImmutable
      \<and> ws_period (verdict_from_resource_manager c) = days_duration d" if "locked_for c d" for d
    using that by (auto simp: verdict_from_resource_manager_def locked_for_def cong: status_frozen)
  have no: "ws_verdict (verdict_from_resource_manager c) \<noteq> VerdictImmutable" if n: "\<not> (\<exists>d. locked_for c d)"
  proof (cases c)
    case (Some p)
    show ?thesis
    proof (cases "\<exists>q d. am_policy p = Some (Some q) \<and> am_state q = Some ''Locked'' \<and> am_days q = Some d \<and> d > 0")
      case True
      with n Some show ?thesis by (auto simp: locked_for_def)
    next
      case False
      then show ?thesis unfolding verdict_from_resource_manager_def Some Let_def
        by (auto split: option.split cong: status_frozen)
    qed
  qed (simp add: verdict_from_resource_manager_def)
  show "ws_verdict (verdict_from_resource_manager c) = VerdictImmutable \<longleftrightarrow> (\<exists>d. locked_for c d)" using yes no by blast
  show "locked_for c d \<Longrightarrow> ws_period (verdict_from_resource_manager c) = days_duration d" using yes by blast
qed

text \<open>
  The verdict of a check: what it says was reported, and of an answer Resource Manager refused it keeps the
  refusal.
\<close>

lemma azure_verdict:
  assumes "azure_verify_worm b w = (Inr st, w')"
  shows "ws_verdict st = VerdictImmutable \<Longrightarrow> (\<exists>get got w1 d. ab_resource b = Some get
      \<and> get (ab_group b) (ab_account b) (ab_container b) w1 = (Inr got, w') \<and> locked_for got d \<and> ws_period st = days_duration d)"
      (is "_ \<Longrightarrow> ?earned")
    and "ws_refusal st \<noteq> None \<Longrightarrow> ws_verdict st = VerdictUnknown"
proof -
  obtain props w1 where p: "az_props (ab_client b) w = (Inr props, w1)"
    and rest: "(case ab_resource b of None \<Rightarrow> okE (verdict_from_data_plane props)
     | Some get \<Rightarrow> bindE (tryE (get (ab_group b) (ab_account b) (ab_container b))) (\<lambda>r. case r of
           Inr got \<Rightarrow> okE (verdict_from_resource_manager got)
         | Inl e \<Rightarrow> (case response_error e of
               Some re \<Rightarrow> okE ((azure_status VerdictUnknown 0 [] (''could not read the container's immutability policy: Resource Manager answered ''
                 @ response_code re))\<lparr>ws_refusal := Some e\<rparr>)
             | None \<Rightarrow> failE (wrap_error ''azure: read container immutability policy'' e)))) w1 = (Inr st, w')"
    using assms unfolding azure_verify_worm_def by (auto elim!: bindE_InrE)
  show ?earned if v: "ws_verdict st = VerdictImmutable"
  proof (cases "ab_resource b")
    case None
    with rest data_plane_never [of props] v show ?thesis by auto
  next
    case (Some get)
    obtain r w2 where r: "get (ab_group b) (ab_account b) (ab_container b) w1 = (r, w2)" by (metis prod.collapse)
    obtain got where "r = Inr got" "st = verdict_from_resource_manager got" "w' = w2"
      using rest Some r v by (cases r) (auto simp: bindE_def tryE_apply split: option.splits cong: status_frozen)
    with Some r v resource_manager_immutable show ?thesis by metis
  qed
  have none: "ws_refusal (verdict_from_data_plane props) = None" "ws_refusal (verdict_from_resource_manager got) = None" for got
    by (simp_all add: verdict_from_data_plane_def verdict_from_resource_manager_def Let_def split: option.splits cong: status_frozen)
  show "ws_refusal st \<noteq> None \<Longrightarrow> ws_verdict st = VerdictUnknown"
    using rest none by (auto elim!: bindE_InrE split: option.splits sum.splits cong: status_frozen)
qed

lemma names_account_name: "names_account u a \<Longrightarrow> account_name a"
proof (rule ccontr)
  assume n: "names_account u a" and "\<not> account_name a"
  then have "\<not> names_account u a" unfolding names_account_def by (cases "url_parse u") simp_all
  with n show False by contradiction
qed

text \<open>The policy is read only of the account whose own endpoint the writes go to.\<close>

lemma azure_policy_of_the_account:
  "azure_new sdk o' = Inr b \<Longrightarrow> ab_resource b \<noteq> None \<Longrightarrow>
   names_account (az_url (ab_client b)) (ab_account b) \<and> account_name (ab_account b) \<and> ab_account b = ao_account o'"
  by (cases "ao_connection o' = [] \<or> reads_policy o'"; cases "azure_open sdk o'"; cases "as_cred sdk";
      cases "as_resource sdk (ao_subscription o')")
    (auto simp: azure_new_def Let_def names_account_name split: if_splits)

text \<open>
  A period of more than 106751 days is past what a duration holds. The longest that Azure takes, 146,000
  days, is reported as a negative one.
\<close>

lemma azure_period_wraps: "days_duration 146000 < 0"
  by (simp add: days_duration_def wrap64_def time_units)

section \<open>A write\<close>

definition mib :: int where "mib = 2 ^ 20"
definition max_blocks :: int where "max_blocks = 50000"
definition max_stage_block_bytes :: int where "max_stage_block_bytes = 4000 * mib"

definition block_size_for :: "int \<Rightarrow> int \<Rightarrow> goerr + int" where
  "block_size_for n blocks =
     (if n < 0 then Inl (new_error (''a size of '' @ show_int n @ '' bytes is not a length''))
      else if blocks < 1 then Inl (new_error (''a blob of at most '' @ show_int blocks @ '' blocks holds nothing''))
      else let per_block = (if go_mod n blocks \<noteq> 0 then go_div n blocks + 1 else go_div n blocks) in
        if per_block > max_stage_block_bytes
        then Inl (new_error (show_int n @ '' bytes do not fit in a block blob of '' @ show_int blocks @ '' blocks of at most ''
          @ show_int (go_div max_stage_block_bytes mib) @ '' MiB''))
        else Inr (max 1 (go_div (per_block + mib - 1) mib) * mib))"

lemma div_up:
  fixes n b :: int
  assumes "0 \<le> n" "1 \<le> b"
  defines "q \<equiv> (if n mod b \<noteq> 0 then n div b + 1 else n div b)"
  shows "n \<le> b * q" "b * (q - 1) < n \<or> n = 0 \<and> q = 0"
proof -
  have e: "n = b * (n div b) + n mod b" "0 \<le> n mod b" "n mod b < b" using assms by simp_all
  show "n \<le> b * q"
  proof (cases "n mod b = 0")
    case False
    then have "b * q = b * (n div b) + b" by (simp add: q_def distrib_left)
    with e show ?thesis by linarith
  qed (use e in \<open>simp add: q_def\<close>)
  show "b * (q - 1) < n \<or> n = 0 \<and> q = 0"
  proof (cases "n mod b = 0")
    case True
    then have "b * (q - 1) = b * (n div b) - b" by (simp add: q_def right_diff_distrib)
    with e True assms(2) show ?thesis by linarith
  next
    case False
    then have "b * (q - 1) = b * (n div b)" by (simp add: q_def)
    with e False show ?thesis by linarith
  qed
qed

text \<open>
  The block is a whole number of MiB, no larger than Azure takes, and so many of them hold the blob; and
  no smaller whole number of MiB would do. Only a blob that no block would hold is refused.
\<close>

lemma block_size_fits:
  assumes "block_size_for n blocks = Inr s"
  shows "mib \<le> s" "s \<le> max_stage_block_bytes" "mib dvd s" "n \<le> blocks * s"
    and "s = mib \<or> n > blocks * (s - mib)"
proof -
  have n: "0 \<le> n" and b: "1 \<le> blocks" using assms by (auto simp: block_size_for_def split: if_splits)
  define q where "q = (if n mod blocks \<noteq> 0 then n div blocks + 1 else n div blocks)"
  have s: "s = max 1 ((q + mib - 1) div mib) * mib" and q: "q \<le> max_stage_block_bytes"
    using assms n b
    by (auto simp: block_size_for_def go_div_nonneg go_mod_nonneg q_def Let_def mib_def pos_imp_zdiv_nonneg_iff split: if_splits)
  have nq: "n \<le> blocks * q" "blocks * (q - 1) < n \<or> n = 0 \<and> q = 0"
    using div_up [OF n b] by (simp_all add: q_def)
  define k where "k = (q + mib - 1) div mib"
  have k: "q \<le> k * mib" "k * mib \<le> q + mib - 1"
    using div_mult_mod_eq [of "q + mib - 1" mib] pos_mod_sign [of mib "q + mib - 1"] pos_mod_bound [of mib "q + mib - 1"]
    by (auto simp: k_def mib_def)
  have s': "s = (if k < 1 then 1 else k) * mib" by (simp add: s k_def max_def)
  show "mib \<le> s" "mib dvd s" by (auto simp: s' mib_def)
  show "s \<le> max_stage_block_bytes" using k q by (auto simp: s' mib_def max_stage_block_bytes_def)
  have "q \<le> s" using k by (auto simp: s' mib_def)
  then show "n \<le> blocks * s" using nq(1) b mult_left_mono [of q s blocks] by linarith
  show "s = mib \<or> n > blocks * (s - mib)"
  proof (cases "k \<le> 1")
    case True
    then show ?thesis by (auto simp: s' mib_def)
  next
    case False
    then have "s - mib \<le> q - 1" "1 \<le> s - mib" using k by (auto simp: s' mib_def algebra_simps)
    then have "blocks * (s - mib) \<le> blocks * (q - 1)" "q \<noteq> 0" using b by (auto intro: mult_left_mono)
    with nq(2) show ?thesis by auto
  qed
qed

lemma block_size_refused:
  assumes n: "0 \<le> n" and b: "1 \<le> blocks"
  shows "(\<exists>e. block_size_for n blocks = Inl e) \<longleftrightarrow> n > blocks * max_stage_block_bytes"
proof -
  define q where "q = (if n mod blocks \<noteq> 0 then n div blocks + 1 else n div blocks)"
  have nq: "n \<le> blocks * q" "blocks * (q - 1) < n \<or> n = 0 \<and> q = 0"
    using div_up [OF n b] by (simp_all add: q_def)
  have "q > max_stage_block_bytes \<longleftrightarrow> n > blocks * max_stage_block_bytes"
  proof
    assume "q > max_stage_block_bytes"
    then have "blocks * max_stage_block_bytes \<le> blocks * (q - 1)" "q \<noteq> 0"
      using b by (auto intro: mult_left_mono simp: max_stage_block_bytes_def mib_def)
    with nq(2) show "n > blocks * max_stage_block_bytes" by auto
  next
    assume "n > blocks * max_stage_block_bytes"
    with nq(1) b show "q > max_stage_block_bytes" by (smt (verit) mult_left_mono)
  qed
  moreover have "(\<exists>e. block_size_for n blocks = Inl e) \<longleftrightarrow> q > max_stage_block_bytes"
    using n b by (auto simp: block_size_for_def q_def go_div_nonneg go_mod_nonneg Let_def)
  ultimately show ?thesis by simp
qed

definition azure_failed :: "string \<Rightarrow> goerr \<Rightarrow> goerr" where
  "azure_failed key = wrap_error (''azure: put '' @ quote key)"

text \<open>The upload reads its source through and commits it when that says an end, however wrapped.\<close>

definition is_an_end :: "goerr \<Rightarrow> bool" where
  "is_an_end y \<longleftrightarrow> errors_is y eof"

definition azure_put :: "'w azure_backend \<Rightarrow> string \<Rightarrow> body \<Rightarrow> int \<Rightarrow> ('w, put_result) io" where
  "azure_put b key r n =
     (case block_size_for n (if ab_max_blocks b \<le> 0 then max_blocks else ab_max_blocks b) of
       Inl e \<Rightarrow> failE (azure_failed key e)
     | Inr block \<Rightarrow> (case sized_body is_an_end (\<lambda>y. y) r n of (src, sent) \<Rightarrow>
         bindE (mapErrE (azure_failed key) (az_upload (ab_client b) key src block True)) (\<lambda>_.
         if sent \<noteq> n
         then failE (new_error (''azure: put '' @ quote key @ '': '' @ show_int sent @ '' bytes were stored, and the artifact is '' @ show_int n))
         else okE \<lparr>pr_key = key, pr_etag = [], pr_version = [], pr_size = sent, pr_sha256 = [], pr_until = time_zero, pr_mode = []\<rparr>)))"

section \<open>Reading\<close>

definition nil_pointer :: goerr where
  "nil_pointer = new_error ''runtime error: invalid memory address or nil pointer dereference''"

definition blob_object :: "blob_item \<Rightarrow> goerr + object" where
  "blob_object it = (case bi_name it of
       None \<Rightarrow> Inl nil_pointer
     | Some name \<Rightarrow> Inr (case bi_props it of
           None \<Rightarrow> \<lparr>obj_key = name, obj_size = 0, obj_modified = time_zero\<rparr>
         | Some p \<Rightarrow> \<lparr>obj_key = name, obj_size = (case bp_length p of Some n \<Rightarrow> n | None \<Rightarrow> 0),
             obj_modified = (case bp_created p of Some t \<Rightarrow> t | None \<Rightarrow> (case bp_modified p of Some t \<Rightarrow> t | None \<Rightarrow> time_zero))\<rparr>))"

fun blob_objects :: "blob_item list \<Rightarrow> goerr + object list" where
  "blob_objects [] = Inr []"
| "blob_objects (it # its) = (case blob_object it of Inl e \<Rightarrow> Inl e | Inr x \<Rightarrow> map_sum id ((#) x) (blob_objects its))"

text \<open>A page's items are read before the next page is asked for; a failed page is the last.\<close>

definition azure_list :: "'w azure_backend \<Rightarrow> string \<Rightarrow> ('w, object list) io" where
  "azure_list b prefix = bindE (az_pages (ab_client b) prefix) (\<lambda>(pages, err).
     bindE (liftE (blob_objects (concat pages))) (\<lambda>objs. case err of
       Some e \<Rightarrow> failE (wrap_error (''azure: list '' @ quote prefix) e)
     | None \<Rightarrow> okE objs))"

definition page_objects :: "blob_item option list \<Rightarrow> object list" where
  "page_objects its = List.map_filter (\<lambda>x. case x of
       None \<Rightarrow> None
     | Some it \<Rightarrow> (case bi_name it of
           None \<Rightarrow> None
         | Some name \<Rightarrow> Some \<lparr>obj_key = name,
             obj_size = (case bi_props it of None \<Rightarrow> 0 | Some p \<Rightarrow> (case bp_length p of Some n \<Rightarrow> n | None \<Rightarrow> 0)),
             obj_modified = time_zero\<rparr>)) its"

definition azure_list_page :: "'w azure_backend \<Rightarrow> string \<Rightarrow> int \<Rightarrow> ('w, object list \<times> bool) io" where
  "azure_list_page b prefix limit =
     (if limit < 1 \<or> limit > 5000
      then failE (new_error (''azure: list '' @ quote prefix @ '': a page holds 1 to 5000 blobs, not '' @ show_int limit))
      else bindE (mapErrE (wrap_error (''azure: list '' @ quote prefix)) (az_page (ab_client b) prefix limit)) (\<lambda>(segment, next_marker).
        let objs = (case segment of None \<Rightarrow> [] | Some its \<Rightarrow> page_objects its) in
        okE (if int (length objs) > limit then take (nat limit) objs else objs,
          case next_marker of None \<Rightarrow> False | Some m \<Rightarrow> m \<noteq> [])))"

definition azure_get :: "'w azure_backend \<Rightarrow> string \<Rightarrow> ('w, body) io" where
  "azure_get b key = mapErrE (wrap_error (''azure: get '' @ quote key)) (az_get (ab_client b) key)"

definition azure_unheld :: "'w azure_backend \<Rightarrow> ('w, retention_observation \<times> time) io" where
  "azure_unheld b = bindE (mapErrE (wrap_error ''azure: container properties'') (az_props (ab_client b))) (\<lambda>c.
     if is_true (cp_versioning c) then okE (RetentionAbsent, time_zero) else okE (RetentionNotChecked, time_zero))"

definition azure_observe_retention :: "'w azure_backend \<Rightarrow> string \<Rightarrow> ('w, retention_observation \<times> time) io" where
  "azure_observe_retention b key =
     bindE (mapErrE (wrap_error (''azure: blob properties '' @ quote key)) (az_until (ab_client b) key)) (\<lambda>expires.
     case expires of
       Some t \<Rightarrow> if is_zero t then azure_unheld b else okE (RetentionPresent, t)
     | None \<Rightarrow> azure_unheld b)"

definition azure_destination :: "'w azure_backend \<Rightarrow> 'w destination" where
  "azure_destination b = \<lparr>verify_worm = azure_verify_worm b, put_immutable = (\<lambda>key r n ret. azure_put b key r n),
     list_objects = azure_list b, get_object = azure_get b, observe_retention = Some (azure_observe_retention b)\<rparr>"

section \<open>The contract\<close>

text \<open>
  \<open>objs\<close> is what the container holds. An upload lands whole or not at all, never without the whole of its
  source, and with If-None-Match only at a key that holds nothing.
\<close>

locale azure_store =
  fixes b :: "'w azure_backend" and objs :: "'w \<Rightarrow> (string \<rightharpoonup> string)"
  assumes props_same: "steps_in (same_on objs) (az_props (ab_client b))"
    and resource_same: "ab_resource b = Some g \<Longrightarrow> steps_in (same_on objs) (g gr acc con)"
    and until_same: "steps_in (same_on objs) (az_until (ab_client b) k)"
    and pages_same: "steps_in (same_on objs) (az_pages (ab_client b) pre)"
    and get_same: "steps_in (same_on objs) (az_get (ab_client b) k)"
    and get_gives: "az_get (ab_client b) k w = (Inr r, w') \<Longrightarrow>
      \<exists>bs t. objs w k = Some bs \<and> bs = body_bytes r @ t \<and> (body_err r = None \<longrightarrow> t = [])"
    and pages_give: "az_pages (ab_client b) pre w = (Inr (ps, None), w') \<Longrightarrow>
      bi_name ` set (concat ps) = Some ` {k \<in> dom (objs w). has_prefix pre k}"
    and upload_lands: "az_upload (ab_client b) k src block True w = (ux, w') \<Longrightarrow>
      objs w' = objs w \<or> body_err src = None \<and> objs w' = (objs w)(k \<mapsto> body_bytes src) \<and> objs w k = None"
    and upload_done: "az_upload (ab_client b) k src block True w = (Inr u, w') \<Longrightarrow>
      body_err src = None \<and> objs w' k = Some (body_bytes src)"
begin

lemma azure_put_lands:
  assumes "azure_put b k r n w = (x, w')"
  shows "lands_on objs k (body_bytes r) w w'"
    and "x = Inr p \<Longrightarrow> objs w' k = Some (body_bytes r) \<and> int (length (body_bytes r)) = n \<and> pr_key p = k \<and> pr_size p = n"
proof -
  have "lands_on objs k (body_bytes r) w w'
    \<and> (\<forall>p. x = Inr p \<longrightarrow> objs w' k = Some (body_bytes r) \<and> int (length (body_bytes r)) = n \<and> pr_key p = k \<and> pr_size p = n)"
  proof (cases "block_size_for n (if ab_max_blocks b \<le> 0 then max_blocks else ab_max_blocks b)")
    case (Inl e)
    with assms show ?thesis by (auto simp: azure_put_def lands_on_def)
  next
    case (Inr block)
    then have n: "0 \<le> n" by (auto simp: block_size_for_def split: if_splits)
    obtain src sent where s: "sized_body is_an_end (\<lambda>y. y) r n = (src, sent)" by (metis prod.collapse)
    have whole: "body_bytes src = body_bytes r \<and> int (length (body_bytes r)) = n \<and> sent = n" if "body_err src = None"
      using sized_body_only [OF n s that] by (simp add: is_an_end_def)
    obtain u w1 where up: "az_upload (ab_client b) k src block True w = (u, w1)" by (metis prod.collapse)
    have "w' = w1 \<and> (\<forall>p. x = Inr p \<longrightarrow> (\<exists>v. u = Inr v) \<and> pr_key p = k \<and> pr_size p = n)"
      using assms Inr s up by (cases u) (auto simp: azure_put_def bindE_def mapErrE_def split: if_splits)
    with upload_lands [OF up] upload_done [of k src block w _ w1] up whole show ?thesis
      by (auto simp: lands_on_def)
  qed
  then show "lands_on objs k (body_bytes r) w w'"
    and "x = Inr p \<Longrightarrow> objs w' k = Some (body_bytes r) \<and> int (length (body_bytes r)) = n \<and> pr_key p = k \<and> pr_size p = n"
    by blast+
qed

end

lemma blob_objects_keys: "blob_objects its = Inr os \<Longrightarrow> map (Some \<circ> obj_key) os = map bi_name its"
  by (induction its arbitrary: os) (auto simp: blob_object_def map_sum_Inr split: sum.splits option.splits)

sublocale azure_store \<subseteq> stored: lands_whole "azure_destination b" objs
proof
  fix k and r :: body and n ret w w' x p pre os f
  show "put_immutable (azure_destination b) k r n ret w = (x, w') \<Longrightarrow> lands_on objs k (body_bytes r) w w'"
    by (simp add: azure_destination_def azure_put_lands(1))
  show "put_immutable (azure_destination b) k r n ret w = (Inr p, w') \<Longrightarrow>
      objs w' k = Some (body_bytes r) \<and> int (length (body_bytes r)) = n \<and> pr_key p = k \<and> pr_size p = n"
    using azure_put_lands(2) by (fastforce simp: azure_destination_def)
  show "steps_in (same_on objs) (verify_worm (azure_destination b))"
    unfolding azure_destination_def azure_verify_worm_def
    by (cases "ab_resource b") (auto intro!: same.steps_rules props_same resource_same)
  show "steps_in (same_on objs) (list_objects (azure_destination b) pre)"
    unfolding azure_destination_def azure_list_def by (simp, intro same.steps_rules pages_same)
  show "steps_in (same_on objs) (get_object (azure_destination b) k)"
    unfolding azure_destination_def azure_get_def by (simp, intro same.steps_rules get_same)
  show "observe_retention (azure_destination b) = Some f \<Longrightarrow> steps_in (same_on objs) (f k)"
    unfolding azure_destination_def azure_observe_retention_def azure_unheld_def
    by (auto intro!: same.steps_rules until_same props_same)
  show "\<exists>bs t. objs w k = Some bs \<and> bs = body_bytes y @ t \<and> (body_err y = None \<longrightarrow> t = [])"
    if "get_object (azure_destination b) k w = (Inr y, w')" for y
    using that get_gives by (simp add: azure_destination_def azure_get_def)
  show "obj_key ` set os = {k \<in> dom (objs w). has_prefix pre k}" if l: "list_objects (azure_destination b) pre w = (Inr os, w')"
  proof -
    obtain ps where "az_pages (ab_client b) pre w = (Inr (ps, None), w')" "blob_objects (concat ps) = Inr os"
      using l by (auto simp: azure_destination_def azure_list_def elim!: bindE_InrE split: option.splits)
    note given = pages_give [OF this(1)] and keys = arg_cong [OF blob_objects_keys [OF this(2)], of set]
    have "set (map (Some \<circ> obj_key) os) = Some ` {k \<in> dom (objs w). has_prefix pre k}" unfolding keys by (simp only: set_map given)
    then have "Some ` (obj_key ` set os) = Some ` {k \<in> dom (objs w). has_prefix pre k}" by (simp only: set_map image_comp)
    then show ?thesis by (simp only: inj_image_eq_iff [OF inj_Some])
  qed
qed

context azure_store
begin

lemma keeps_contract: "lands_whole (azure_destination b) objs" "create_only (azure_destination b) objs"
  by unfold_locales

end

end
