(* ===== verification/Lab_Azure.thy ===== *)
theory Lab_Azure
  imports Azure
begin

text \<open>
  A container in memory, in which the contract of \<open>azure_store\<close> holds, and an account in Resource
  Manager that reports a policy for it. The answer to an upload can be lost after it was committed.
\<close>

type_synonym azure_lab = "(string \<times> string) list"

definition lab_blob :: "string \<Rightarrow> string \<Rightarrow> blob_item" where
  "lab_blob k c = \<lparr>bi_name = Some k, bi_props = Some \<lparr>bp_length = Some (int (length c)), bp_created = None, bp_modified = Some 7\<rparr>\<rparr>"

definition lab_azure_client :: "bool \<Rightarrow> container_props \<Rightarrow> azure_lab azure_client" where
  "lab_azure_client lost props =
     \<lparr>az_url = account_url ''acme'',
      az_props = okE props,
      az_until = (\<lambda>k. okE None),
      az_upload = (\<lambda>k src block if_none w. if if_none \<and> map_of w k \<noteq> None then (Inl (new_error ''BlobAlreadyExists''), w)
        else (case body_err src of Some e \<Rightarrow> (Inl e, w)
          | None \<Rightarrow> (if lost then Inl (new_error ''timeout'') else Inr (), (k, body_bytes src) # w))),
      az_pages = (\<lambda>pre w. (Inr ([map (\<lambda>(k, c). lab_blob k c) (filter (\<lambda>(k, c). has_prefix pre k) w)], None), w)),
      az_page = (\<lambda>pre n. okE (None, None)),
      az_get = (\<lambda>k w. case map_of w k of
          None \<Rightarrow> (Inl (new_error ''BlobNotFound''), w)
        | Some c \<Rightarrow> (Inr \<lparr>body_bytes = c, body_err = None\<rparr>, w))\<rparr>"

definition lab_locked :: "string \<Rightarrow> int \<Rightarrow> arm_container option" where
  "lab_locked state days = Some \<lparr>am_versioning = None, am_policy = Some (Some \<lparr>am_state = Some state, am_days = Some days\<rparr>),
     am_has_policy = Some True, am_has_hold = None, am_legal_hold = None\<rparr>"

definition lab_azure :: "bool \<Rightarrow> arm_container option \<Rightarrow> azure_lab azure_backend" where
  "lab_azure lost arm =
     \<lparr>ab_client = lab_azure_client lost \<lparr>cp_policy = Some True, cp_versioning = None, cp_hold = None\<rparr>, ab_container = ''backups'',
      ab_resource = Some (\<lambda>gr acc con. okE arm), ab_account = ''acme'', ab_group = ''group'', ab_max_blocks = 0\<rparr>"

interpretation lab_azure_store: azure_store "lab_azure lost arm" map_of for lost arm
proof
  show "az_pages (ab_client (lab_azure lost arm)) pre w = (Inr (ps, None), w') \<Longrightarrow>
      bi_name ` set (concat ps) = Some ` {k \<in> dom (map_of w). has_prefix pre k}" for pre w ps w'
    by (force simp: lab_azure_def lab_azure_client_def lab_blob_def dom_map_of_conv_image_fst image_iff)
qed (auto simp: lab_azure_def lab_azure_client_def steps_in_def same_on_def split: option.splits if_splits)

end
