(* ===== verification/Glob.thy ===== *)
theory Glob
  imports Prelude
begin

text \<open>
  \<open>path.Match\<close> of Go's library, which the filters of the sources use: a star matches within a path
  segment. Its callers drop the error of a malformed pattern and take it for no match, so a pattern
  matches here or does not.
\<close>

section \<open>Runes\<close>

definition cont_byte :: "nat \<Rightarrow> nat \<Rightarrow> nat \<Rightarrow> bool" where
  "cont_byte lo hi b \<longleftrightarrow> lo \<le> b \<and> b \<le> hi"

text \<open>\<open>utf8.DecodeRuneInString\<close>: the rune and how many bytes it takes.\<close>

definition decode_rune :: "string \<Rightarrow> nat \<times> nat" where
  "decode_rune s = (case map of_char s of
       [] \<Rightarrow> (0xFFFD, 0)
     | a # r \<Rightarrow>
         if a < 0x80 then (a, 1)
         else if 0xC2 \<le> a \<and> a \<le> 0xDF then (case r of
             b # r' \<Rightarrow> if cont_byte 0x80 0xBF b then ((a - 0xC0) * 64 + (b - 0x80), 2) else (0xFFFD, 1)
           | [] \<Rightarrow> (0xFFFD, 1))
         else if 0xE0 \<le> a \<and> a \<le> 0xEF then (case r of
             b # c # r' \<Rightarrow>
               if cont_byte (if a = 0xE0 then 0xA0 else 0x80) (if a = 0xED then 0x9F else 0xBF) b \<and> cont_byte 0x80 0xBF c
               then ((a - 0xE0) * 4096 + (b - 0x80) * 64 + (c - 0x80), 3) else (0xFFFD, 1)
           | _ \<Rightarrow> (0xFFFD, 1))
         else if 0xF0 \<le> a \<and> a \<le> 0xF4 then (case r of
             b # c # d # r' \<Rightarrow>
               if cont_byte (if a = 0xF0 then 0x90 else 0x80) (if a = 0xF4 then 0x8F else 0xBF) b
                 \<and> cont_byte 0x80 0xBF c \<and> cont_byte 0x80 0xBF d
               then ((a - 0xF0) * 262144 + (b - 0x80) * 4096 + (c - 0x80) * 64 + (d - 0x80), 4) else (0xFFFD, 1)
           | _ \<Rightarrow> (0xFFFD, 1))
         else (0xFFFD, 1))"

section \<open>Matching\<close>

definition get_esc :: "string \<Rightarrow> (nat \<times> string) option" where
  "get_esc chunk =
     (if chunk = [] \<or> hd chunk = CHR ''-'' \<or> hd chunk = CHR '']'' then None
      else let c = (if hd chunk = CHR 0x5C then tl chunk else chunk) in
        if c = [] then None
        else case decode_rune c of (r, n) \<Rightarrow>
          if r = 0xFFFD \<and> n = 1 \<or> drop n c = [] then None else Some (r, drop n c))"

lemma decode_rune_pos: "s \<noteq> [] \<Longrightarrow> 0 < snd (decode_rune s)"
  by (cases s) (auto simp: decode_rune_def split: list.split)

lemma get_esc_shorter: "get_esc c = Some (r, c') \<Longrightarrow> length c' < length c"
proof -
  assume g: "get_esc c = Some (r, c')"
  define b where "b = (if hd c = CHR 0x5C then tl c else c)"
  have "c \<noteq> []" "b \<noteq> []" and c': "c' = drop (snd (decode_rune b)) b"
    using g by (auto simp: get_esc_def b_def Let_def split: if_splits prod.splits)
  then have "length c' < length b" using decode_rune_pos [of b] by (cases b) auto
  moreover have "length b \<le> length c" by (simp add: b_def)
  ultimately show ?thesis by simp
qed

function match_class :: "nat \<Rightarrow> string \<Rightarrow> bool \<Rightarrow> bool \<Rightarrow> (bool \<times> string) option" where
  "match_class r chunk ranged matched =
     (if chunk \<noteq> [] \<and> hd chunk = CHR '']'' \<and> ranged then Some (matched, tl chunk)
      else case get_esc chunk of
        None \<Rightarrow> None
      | Some (lo, c1) \<Rightarrow> (case (if hd c1 = CHR ''-'' then get_esc (tl c1) else Some (lo, c1)) of
          None \<Rightarrow> None
        | Some (hi, c2) \<Rightarrow>
            if length c2 < length chunk then match_class r c2 True (matched \<or> lo \<le> r \<and> r \<le> hi) else None))"
  by pat_completeness auto
termination by (relation "measure (\<lambda>(r, chunk, b, m). length chunk)") auto

declare match_class.simps [simp del]

text \<open>The guard of the recursion always holds.\<close>

lemma match_class_guard:
  assumes "get_esc chunk = Some (lo, c1)" and "(if hd c1 = CHR ''-'' then get_esc (tl c1) else Some (lo, c1)) = Some (hi, c2)"
  shows "length c2 < length chunk"
proof -
  have "length c2 \<le> length c1"
    using assms(2) get_esc_shorter [of "tl c1" hi c2] by (auto split: if_splits)
  with get_esc_shorter [OF assms(1)] show ?thesis by simp
qed

lemma match_class_shorter: "match_class r c b m = Some (x, c') \<Longrightarrow> length c' < length c"
proof (induction r c b m rule: match_class.induct)
  case (1 r chunk b m)
  show ?case
  proof (cases "chunk \<noteq> [] \<and> hd chunk = CHR '']'' \<and> b")
    case True
    with "1.prems" show ?thesis by (cases chunk) (auto simp: match_class.simps)
  next
    case False
    obtain lo c1 hi c2 where g: "get_esc chunk = Some (lo, c1)"
      "(if hd c1 = CHR ''-'' then get_esc (tl c1) else Some (lo, c1)) = Some (hi, c2)" "length c2 < length chunk"
      "match_class r c2 True (m \<or> lo \<le> r \<and> r \<le> hi) = Some (x, c')"
      using "1.prems" False by (subst (asm) match_class.simps) (auto split: option.splits if_splits)
    have "length c' < length c2" using "1.IH" False g by blast
    with g(3) show ?thesis by simp
  qed
qed

text \<open>None is a malformed chunk, \<open>Some None\<close> no match, and a match leaves the rest of the name.\<close>

function match_chunk :: "string \<Rightarrow> string \<Rightarrow> bool \<Rightarrow> string option option" where
  "match_chunk [] s failed = Some (if failed then None else Some s)"
| "match_chunk (c # cs) s failed =
     (let failed = (failed \<or> s = []) in
      if c = CHR ''['' then
        (let (r, n) = (if failed then (0, 0) else decode_rune s);
             negated = (cs \<noteq> [] \<and> hd cs = CHR ''^'') in
         case match_class r (if negated then tl cs else cs) False False of
           None \<Rightarrow> None
         | Some (matched, c2) \<Rightarrow> match_chunk c2 (drop n s) (failed \<or> matched = negated))
      else if c = CHR ''?'' then
        (if failed then match_chunk cs s True else match_chunk cs (drop (snd (decode_rune s)) s) (hd s = CHR ''/''))
      else if c = CHR 0x5C then
        (case cs of [] \<Rightarrow> None
         | d # ds \<Rightarrow> if failed then match_chunk ds s True else match_chunk ds (tl s) (d \<noteq> hd s))
      else if failed then match_chunk cs s True else match_chunk cs (tl s) (c \<noteq> hd s))"
  by pat_completeness auto
termination
proof (relation "measure (\<lambda>(c, s, f). length c)", goal_cases)
  case (2 c cs s failed failed' p r n neg y matched c2)
  have "length c2 < length (if neg then tl cs else cs)" using 2 match_class_shorter [of r "if neg then tl cs else cs" False False matched c2] by auto
  also have "\<dots> \<le> length cs" by simp
  finally show ?case by simp
qed auto

fun chunk_end :: "bool \<Rightarrow> string \<Rightarrow> string \<times> string" where
  "chunk_end ranged [] = ([], [])"
| "chunk_end ranged (c # cs) =
     (if c = CHR 0x5C then (case cs of [] \<Rightarrow> ([c], []) | d # ds \<Rightarrow> (case chunk_end ranged ds of (a, b) \<Rightarrow> (c # d # a, b)))
      else if c = CHR ''*'' \<and> \<not> ranged then ([], c # cs)
      else case chunk_end (if c = CHR ''['' then True else if c = CHR '']'' then False else ranged) cs of (a, b) \<Rightarrow> (c # a, b))"

lemma chunk_end_split: "chunk_end ranged s = (a, b) \<Longrightarrow> s = a @ b"
  by (induction ranged s arbitrary: a b rule: chunk_end.induct) (auto split: if_splits list.splits prod.splits)

lemma chunk_end_some: "chunk_end False (c # cs) = (a, b) \<Longrightarrow> c \<noteq> CHR ''*'' \<Longrightarrow> length b < length (c # cs)"
  using chunk_end_split [of False "c # cs" a b] by (cases a) (auto split: if_splits list.splits prod.splits)

text \<open>A match after some bytes that the star takes; it takes no slash. The last chunk has to end the name.\<close>

fun star_match :: "string \<Rightarrow> bool \<Rightarrow> string \<Rightarrow> string option" where
  "star_match chunk ends [] = None"
| "star_match chunk ends (c # cs) =
     (if c = CHR ''/'' then None
      else case match_chunk chunk cs False of
        None \<Rightarrow> None
      | Some None \<Rightarrow> star_match chunk ends cs
      | Some (Some t) \<Rightarrow> if ends \<and> t \<noteq> [] then star_match chunk ends cs else Some t)"

definition scan_chunk :: "string \<Rightarrow> bool \<times> string \<times> string" where
  "scan_chunk p = (p \<noteq> [] \<and> hd p = CHR ''*'', chunk_end False (dropWhile (\<lambda>c. c = CHR ''*'') p))"

lemma scan_chunk_shorter: "p \<noteq> [] \<Longrightarrow> scan_chunk p = (star, chunk, rest) \<Longrightarrow> length rest < length p"
proof -
  assume p: "p \<noteq> []" and s: "scan_chunk p = (star, chunk, rest)"
  let ?q = "dropWhile (\<lambda>c. c = CHR ''*'') p"
  have q: "chunk_end False ?q = (chunk, rest)" using s by (simp add: scan_chunk_def)
  show ?thesis
  proof (cases "hd p = CHR ''*''")
    case True
    then have "length ?q < length p" using p by (cases p) (auto simp: le_imp_less_Suc length_dropWhile_le)
    with chunk_end_split [OF q] show ?thesis by (metis add_leD2 length_append not_less order.strict_trans1 less_le_not_le)
  next
    case False
    then have "?q = p" using p by (cases p) auto
    with False p q chunk_end_some [of "hd p" "tl p" chunk rest] show ?thesis by (cases p) auto
  qed
qed

function path_match :: "string \<Rightarrow> string \<Rightarrow> bool" where
  "path_match pattern name =
     (if pattern = [] then name = []
      else case scan_chunk pattern of (star, chunk, rest) \<Rightarrow>
        if star \<and> chunk = [] then CHR ''/'' \<notin> set name
        else case match_chunk chunk name False of
          None \<Rightarrow> False
        | Some t \<Rightarrow>
            if t \<noteq> None \<and> (t = Some [] \<or> rest \<noteq> []) then path_match rest (the t)
            else if \<not> star then False
            else case star_match chunk (rest = []) name of None \<Rightarrow> False | Some u \<Rightarrow> path_match rest u)"
  by pat_completeness auto
termination by (relation "measure (\<lambda>(p, n). length p)") (auto dest: scan_chunk_shorter [OF _ sym])

declare match_chunk.simps [simp del] path_match.simps [simp del]

section \<open>What the patterns in use match\<close>

definition plain_pattern :: "string \<Rightarrow> bool" where
  "plain_pattern p \<longleftrightarrow> set p \<inter> {CHR ''*'', CHR ''?'', CHR ''['', CHR 0x5C} = {}"

lemma chunk_end_plain: "plain_pattern p \<Longrightarrow> chunk_end False p = (p, []) \<and> chunk_end False (p @ CHR ''*'' # s) = (p, CHR ''*'' # s)"
  by (induction p) (auto simp: plain_pattern_def)

lemma match_chunk_failed: "plain_pattern p \<Longrightarrow> match_chunk p s True = Some None"
  by (induction p arbitrary: s) (auto simp: plain_pattern_def match_chunk.simps)

lemma match_chunk_plain: "plain_pattern p \<Longrightarrow> match_chunk p s False = Some (if has_prefix p s then Some (drop (length p) s) else None)"
proof (induction p arbitrary: s)
  case (Cons c p)
  note IH = Cons.IH
  from Cons.prems have p: "plain_pattern p" "c \<noteq> CHR ''*''" "c \<noteq> CHR ''?''" "c \<noteq> CHR ''[''" "c \<noteq> CHR 0x5C" by (auto simp: plain_pattern_def)
  show ?case
  proof (cases s)
    case (Cons a t)
    show ?thesis
      using IH [OF p(1)] match_chunk_failed [OF p(1)] p(2-)
      by (cases "c = a") (simp_all add: Cons match_chunk.simps has_prefix_def)
  qed (simp add: p match_chunk_failed match_chunk.simps has_prefix_def)
qed (simp add: match_chunk.simps has_prefix_def)

lemma scan_plain: "plain_pattern p \<Longrightarrow> p \<noteq> [] \<Longrightarrow> scan_chunk p = (False, p, []) \<and> scan_chunk (p @ ''*'') = (False, p, ''*'')"
  using chunk_end_plain [of p "[]"] by (cases p) (auto simp: scan_chunk_def plain_pattern_def)

text \<open>A pattern with nothing special matches itself, and one that ends in a star what it begins within a segment.\<close>

lemma plain_matches: "plain_pattern p \<Longrightarrow> path_match p s \<longleftrightarrow> s = p"
proof (cases "p = []")
  case False
  assume p: "plain_pattern p"
  show ?thesis
    using scan_plain [OF p False] False
    by (subst path_match.simps) (auto simp: match_chunk_plain [OF p] has_prefix_iff path_match.simps [of "[]"])
qed (simp add: path_match.simps)

lemma star_matches: "plain_pattern p \<Longrightarrow> p \<noteq> [] \<Longrightarrow> path_match (p @ ''*'') s \<longleftrightarrow> (\<exists>r. s = p @ r \<and> CHR ''/'' \<notin> set r)"
proof -
  assume p: "plain_pattern p" and ne: "p \<noteq> []"
  have star: "path_match ''*'' r \<longleftrightarrow> CHR ''/'' \<notin> set r" for r
    by (subst path_match.simps) (simp add: scan_chunk_def)
  have "path_match (p @ ''*'') s \<longleftrightarrow> (if has_prefix p s then path_match ''*'' (drop (length p) s) else False)"
    using scan_plain [OF p ne] ne
    by (subst path_match.simps) (simp add: match_chunk_plain [OF p])
  then show ?thesis by (auto simp: star has_prefix_iff)
qed

end
