(* ===== verification/Forge.thy ===== *)
theory Forge
  imports Source Go_Url Glob Crypto Manifest
begin

text \<open>
  What the two forge clients share: src/internal/source/redirect.go, the rules that decide which
  redirects an API client follows, and the filter that ListRepos applies, which github.go and
  gitlab.go have word for word.
\<close>

section \<open>Requests\<close>

text \<open>
  A request has the hop it is of when it answers a redirect: the URL it was redirected from, or None
  where the response does not name one.
\<close>

record request =
  rq_url :: url
  rq_headers :: "(string \<times> string) list"
  rq_hop :: "url option option"

type_synonym ('w, 'r) transport = "request \<Rightarrow> ('w, 'r) io"

definition origin :: "url \<Rightarrow> string" where
  "origin u = url_scheme u @ ''://'' @ url_host u"

definition del_header :: "string \<Rightarrow> request \<Rightarrow> request" where
  "del_header h q = q\<lparr>rq_headers := filter (\<lambda>p. fst p \<noteq> h) (rq_headers q)\<rparr>"

definition set_header :: "string \<Rightarrow> string \<Rightarrow> request \<Rightarrow> request" where
  "set_header h v q = (del_header h q)\<lparr>rq_headers := filter (\<lambda>p. fst p \<noteq> h) (rq_headers q) @ [(h, v)]\<rparr>"

definition has_header :: "string \<Rightarrow> request \<Rightarrow> bool" where
  "has_header h q \<longleftrightarrow> h \<in> fst ` set (rq_headers q)"

lemma del_header_facts [simp]: "\<not> has_header h (del_header h q)" "rq_url (del_header h q) = rq_url q" "rq_hop (del_header h q) = rq_hop q"
    "rq_url (set_header h v q) = rq_url q" "rq_hop (set_header h v q) = rq_hop q"
  by (auto simp: has_header_def del_header_def set_header_def)

section \<open>Redirects\<close>

text \<open>The refusal names both ends by scheme and host alone.\<close>

definition redirect_text :: "string \<Rightarrow> string \<Rightarrow> string \<Rightarrow> string" where
  "redirect_text from to reason =
     (if from = [] then ''refusing a redirect to '' @ to @ '': '' @ reason
      else ''refusing a redirect from '' @ from @ '' to '' @ to @ '': '' @ reason)"

definition redirect_error :: "string \<Rightarrow> string \<Rightarrow> string \<Rightarrow> goerr" where
  "redirect_error from to reason = GoErr (RedirectRefused from to reason) (redirect_text from to reason) []"

definition refuse :: "request \<Rightarrow> string \<Rightarrow> ('w, 'r) io" where
  "refuse q reason = failE (redirect_error (case rq_hop q of Some (Some prev) \<Rightarrow> origin prev | _ \<Rightarrow> []) (origin (rq_url q)) reason)"

definition redirect_refusal :: "goerr \<Rightarrow> goerr option" where
  "redirect_refusal = errors_as (\<lambda>k. case k of RedirectRefused f t r \<Rightarrow> True | _ \<Rightarrow> False)"

definition scrub_redirect :: "goerr \<Rightarrow> goerr" where
  "scrub_redirect e = (case redirect_refusal e of Some r \<Rightarrow> r | None \<Rightarrow> e)"

definition keep_tls :: "('w, 'r) transport \<Rightarrow> ('w, 'r) transport" where
  "keep_tls nxt q =
     (if url_scheme (rq_url q) \<noteq> ''https'' \<and> rq_hop q \<noteq> None
         \<and> (case the (rq_hop q) of None \<Rightarrow> True | Some prev \<Rightarrow> url_scheme prev = ''https'')
      then refuse q ''it leaves TLS'' else nxt q)"

definition stay_on_api :: "string \<Rightarrow> string \<Rightarrow> ('w, 'r) transport \<Rightarrow> ('w, 'r) transport" where
  "stay_on_api scheme host nxt q =
     (if rq_hop q \<noteq> None \<and> (host = [] \<or> url_scheme (rq_url q) \<noteq> scheme \<or> url_host (rq_url q) \<noteq> host)
      then refuse q ''it leaves the API'' else nxt q)"

text \<open>What is sent on a redirect stays on TLS and on the API; what is not is refused, with nothing sent.\<close>

definition followed :: "string \<Rightarrow> string \<Rightarrow> request \<Rightarrow> bool" where
  "followed scheme host q \<longleftrightarrow> rq_hop q = None
     \<or> host \<noteq> [] \<and> url_scheme (rq_url q) = scheme \<and> url_host (rq_url q) = host
       \<and> (url_scheme (rq_url q) = ''https'' \<or> (\<exists>prev. rq_hop q = Some (Some prev) \<and> url_scheme prev \<noteq> ''https''))"

lemma redirects_kept:
  "keep_tls (stay_on_api scheme host nxt) q = (if followed scheme host q then nxt q
     else refuse q (if url_scheme (rq_url q) \<noteq> ''https'' \<and> (\<forall>prev. rq_hop q = Some (Some prev) \<longrightarrow> url_scheme prev = ''https'')
       then ''it leaves TLS'' else ''it leaves the API''))"
  by (cases "rq_hop q") (auto simp: keep_tls_def stay_on_api_def followed_def split: option.splits)

lemma first_some: "foldr (\<lambda>r acc. case r of Some e \<Rightarrow> Some e | None \<Rightarrow> acc) rs None = Some x \<Longrightarrow> Some x \<in> set rs"
  by (induction rs) (auto split: option.splits)

lemma errors_as_kind: "errors_as P e = Some r \<Longrightarrow> P (err_kind r)"
proof (induction P e rule: errors_as.induct)
  case (1 P k s ws)
  then show ?case by (cases "P k") (auto dest!: first_some)
qed

text \<open>A scrubbed refusal says nothing of the URL but its ends.\<close>

lemma scrubbed:
  assumes "redirect_refusal e = Some r"
  shows "scrub_redirect e = r" "\<exists>f t why. err_kind r = RedirectRefused f t why"
proof -
  show "scrub_redirect e = r" by (simp add: scrub_redirect_def assms)
  from errors_as_kind [OF assms [unfolded redirect_refusal_def]]
  show "\<exists>f t why. err_kind r = RedirectRefused f t why" by (auto split: errkind.splits)
qed

text \<open>
  What a transport puts on the network: all that it does, it does through the requests that meet P.
\<close>

definition sends_only :: "(request \<Rightarrow> bool) \<Rightarrow> (('w, 'r) transport \<Rightarrow> ('w, 'r) transport) \<Rightarrow> bool" where
  "sends_only P t \<longleftrightarrow> (\<forall>net net'. (\<forall>q. P q \<longrightarrow> net q = net' q) \<longrightarrow> t net = t net')"

lemma sends_only_redirects:
  fixes t :: "('w, 'r) transport \<Rightarrow> ('w, 'r) transport"
  assumes t: "\<And>net net' q. (\<And>p. P p \<Longrightarrow> rq_url p = rq_url q \<Longrightarrow> rq_hop p = rq_hop q \<Longrightarrow> net p = net' p) \<Longrightarrow> t net q = t net' q"
  shows "sends_only (\<lambda>q. P q \<and> followed scheme host q) (\<lambda>net. keep_tls (stay_on_api scheme host (t net)))"
proof (unfold sends_only_def, intro allI impI, rule ext)
  fix net net' :: "('w, 'r) transport" and q
  assume eq: "\<forall>q. P q \<and> followed scheme host q \<longrightarrow> net q = net' q"
  have "t net q = t net' q" if "followed scheme host q"
    using eq that by (intro t) (auto simp: followed_def)
  then show "keep_tls (stay_on_api scheme host (t net)) q = keep_tls (stay_on_api scheme host (t net')) q"
    by (simp add: redirects_kept)
qed

section \<open>Pages\<close>

text \<open>
  Both clients read a list endpoint page by page until the answer names no next page. A forge that
  always names one is read without end, so the loop has a bound on its pages.
\<close>

definition err_endless_pages :: goerr where
  "err_endless_pages = new_error ''the listing has not ended''"

fun page_loop :: "nat \<Rightarrow> (int \<Rightarrow> ('w, 'a list \<times> int) io) \<Rightarrow> int \<Rightarrow> 'a list \<Rightarrow> ('w, 'a list) io" where
  "page_loop 0 get page out = failE err_endless_pages"
| "page_loop (Suc n) get page out = bindE (get page) (\<lambda>(items, nxt).
     if nxt = 0 then okE (out @ items) else page_loop n get nxt (out @ items))"

text \<open>\<open>nextPage\<close>: no answer names no page.\<close>

definition next_page :: "int option \<Rightarrow> int" where
  "next_page resp = (case resp of None \<Rightarrow> 0 | Some p \<Rightarrow> p)"

text \<open>A listing as a forge serves it, n items to the page: pages count from 1, and 0 asks for the first.\<close>

definition page_no :: "int \<Rightarrow> nat" where
  "page_no p = (if p \<le> 1 then 1 else nat p)"

definition page_items :: "nat \<Rightarrow> 'a list \<Rightarrow> int \<Rightarrow> 'a list" where
  "page_items n xs p = take n (drop (n * (page_no p - 1)) xs)"

definition page_after :: "nat \<Rightarrow> 'a list \<Rightarrow> int \<Rightarrow> int" where
  "page_after n xs p = (if length xs > n * page_no p then int (page_no p) + 1 else 0)"

lemma page_no_simps [simp]: "0 < page_no p" "page_no 0 = 1" "page_no 1 = 1" "page_no (int (page_no p) + 1) = page_no p + 1"
  by (auto simp: page_no_def)

lemma page_split: "drop (n * (page_no p - 1)) xs = page_items n xs p @ drop (n * page_no p) xs"
proof -
  obtain k where "page_no p = Suc k" using page_no_simps(1) [of p] by (cases "page_no p") auto
  then show ?thesis by (simp add: page_items_def) (metis append_take_drop_id drop_drop)
qed

lemma page_last: "page_after n xs p = 0 \<Longrightarrow> drop (n * (page_no p - 1)) xs = page_items n xs p"
  using page_split [of n p xs] by (auto simp: page_after_def split: if_splits)

lemma page_more: "page_after n xs p \<noteq> 0 \<Longrightarrow> page_no (page_after n xs p) = page_no p + 1"
  by (auto simp: page_after_def split: if_splits)

lemma filter_map_concat: "filter P (map f xs) = concat (map (\<lambda>x. filter P [f x]) xs)"
  by (induction xs) auto

text \<open>The loop returns what every page had; with more fuel than there are pages it stops only for a page that failed.\<close>

lemma page_loop_all:
  assumes get: "\<And>p w r w'. get p w = (Inr r, w') \<Longrightarrow> r = (concat (map g (page_items n xs p)), page_after n xs p)"
  shows "page_loop fuel get p out w = (Inr r, w') \<Longrightarrow> r = out @ concat (map g (drop (n * (page_no p - 1)) xs))"
proof (induction fuel arbitrary: p out w)
  case (Suc fuel)
  obtain r1 v where one: "get p w = (Inr r1, v)"
    and rest: "(if page_after n xs p = 0 then okE (out @ concat (map g (page_items n xs p)))
      else page_loop fuel get (page_after n xs p) (out @ concat (map g (page_items n xs p)))) v = (Inr r, w')"
    using Suc.prems get by (auto elim!: bindE_InrE) blast
  show ?case
  proof (cases "page_after n xs p = 0")
    case True
    with rest page_last [OF True] show ?thesis by auto
  next
    case False
    from page_more [OF False] rest False Suc.IH [of "page_after n xs p" "out @ concat (map g (page_items n xs p))" v]
    show ?thesis by (subst page_split) simp
  qed
qed simp

lemma page_loop_ends:
  assumes get: "\<And>p w r w'. get p w = (Inr r, w') \<Longrightarrow> snd r = page_after n xs p"
  shows "page_loop fuel get p out w = (Inl e, w') \<Longrightarrow> 0 < fuel \<Longrightarrow> length xs \<le> n * (page_no p - 1 + fuel)
    \<Longrightarrow> \<exists>q v. get q v = (Inl e, w')"
proof (induction fuel arbitrary: p out w)
  case (Suc fuel)
  from Suc.prems(1) show ?case unfolding page_loop.simps
  proof (cases rule: bindE_cases)
    case (2 r v)
    let ?more = "page_after n xs p"
    have more: "snd r \<noteq> 0" and rest: "page_loop fuel get ?more (out @ fst r) v = (Inl e, w')" and "snd r = ?more"
      using 2 get by (auto split: prod.splits if_splits)
    with page_more have no: "page_no ?more = page_no p + 1" by metis
    have "n * page_no p < length xs" using more \<open>snd r = ?more\<close> by (auto simp: page_after_def split: if_splits)
    then have "0 < fuel" using Suc.prems(3) page_no_simps(1) [of p] by (cases fuel) auto
    moreover have "page_no ?more - 1 + fuel = page_no p - 1 + Suc fuel" using no page_no_simps(1) [of p] by simp
    ultimately show ?thesis using Suc.IH [OF rest] Suc.prems(3) by metis
  qed blast
qed simp

section \<open>The filter\<close>

definition filter_matches :: "string \<Rightarrow> repo \<Rightarrow> bool" where
  "filter_matches pat r \<longleftrightarrow> path_match pat (slug r) \<or> path_match pat (rp_name r) \<or> equal_fold pat (slug r) \<or> equal_fold pat (rp_name r)"

definition keep_repo :: "repo \<Rightarrow> repo_filter \<Rightarrow> bool" where
  "keep_repo r f =
     (if list_ex (\<lambda>ex. filter_matches ex r) (rf_exclude f) then False
      else if rf_include f = [] then True else list_ex (\<lambda>p. filter_matches p r) (rf_include f))"

text \<open>
  Patterns as operators write them: a name, an owner and a name, or all of an owner's repositories.
\<close>

definition names :: "string \<Rightarrow> repo \<Rightarrow> bool" where
  "names pat r \<longleftrightarrow> pat = rp_owner r @ ''/*'' \<or> equal_fold pat (slug r) \<or> equal_fold pat (rp_name r)"

definition usual_pattern :: "string \<Rightarrow> bool" where
  "usual_pattern pat \<longleftrightarrow> plain_pattern pat \<or> (\<exists>ow. plain_pattern ow \<and> pat = ow @ ''/*'')"

lemma filter_matches_names:
  assumes "usual_pattern pat" and name: "CHR ''/'' \<notin> set (rp_name r)"
  shows "filter_matches pat r \<longleftrightarrow> names pat r"
proof (cases "plain_pattern pat")
  case True
  then have "pat \<noteq> rp_owner r @ ''/*''" by (auto simp: plain_pattern_def)
  then show ?thesis by (auto simp: filter_matches_def names_def plain_matches [OF True])
next
  case False
  then obtain ow where ow: "plain_pattern (ow @ ''/'')" "pat = (ow @ ''/'') @ ''*''"
    using assms(1) by (auto simp: usual_pattern_def plain_pattern_def)
  have slash: "rp_owner r @ CHR ''/'' # rp_name r = ow @ CHR ''/'' # t \<and> CHR ''/'' \<notin> set t \<longleftrightarrow> rp_owner r = ow \<and> rp_name r = t" for t
  proof
    assume a: "rp_owner r @ CHR ''/'' # rp_name r = ow @ CHR ''/'' # t \<and> CHR ''/'' \<notin> set t"
    then have "rev (rp_name r) @ CHR ''/'' # rev (rp_owner r) = rev t @ CHR ''/'' # rev ow"
      by (metis rev.simps(2) rev_append append.assoc append_Cons append_Nil)
    then have "cut_at (CHR ''/'') (rev (rp_name r) @ CHR ''/'' # rev (rp_owner r)) = Some (rev (rp_name r), rev (rp_owner r))"
      "cut_at (CHR ''/'') (rev (rp_name r) @ CHR ''/'' # rev (rp_owner r)) = Some (rev t, rev ow)"
      using name a by (auto simp: cut_at_Some)
    then show "rp_owner r = ow \<and> rp_name r = t" by simp
  qed (use name in auto)
  have "path_match pat (slug r) \<longleftrightarrow> rp_owner r = ow"
    unfolding ow(2) using star_matches [OF ow(1)] slash by (auto simp: slug_def)
  moreover have "\<not> path_match pat (rp_name r)"
    unfolding ow(2) using star_matches [OF ow(1)] name by auto
  ultimately show ?thesis using ow(2) by (auto simp: filter_matches_def names_def)
qed

lemma keep_usual:
  assumes "\<forall>p \<in> set (rf_include f) \<union> set (rf_exclude f). usual_pattern p" and "CHR ''/'' \<notin> set (rp_name r)"
  shows "keep_repo r f \<longleftrightarrow> (\<forall>p \<in> set (rf_exclude f). \<not> names p r) \<and> (rf_include f = [] \<or> (\<exists>p \<in> set (rf_include f). names p r))"
  using assms filter_matches_names [OF _ assms(2)] by (auto simp: keep_repo_def list_ex_iff)

section \<open>What both say of a repository\<close>

definition host_from_url :: "string \<Rightarrow> string \<Rightarrow> string" where
  "host_from_url other raw = (case url_parse raw of
       Some u \<Rightarrow> if url_host u \<noteq> [] then url_host u else other | None \<Rightarrow> other)"

definition clone_url_of :: "string \<Rightarrow> repo \<Rightarrow> string" where
  "clone_url_of host r = (if rp_clone_url r \<noteq> [] then rp_clone_url r
     else ''https://'' @ host @ ''/'' @ rp_owner r @ ''/'' @ rp_name r @ ''.git'')"

definition basic_auth :: "string \<Rightarrow> string \<Rightarrow> string" where
  "basic_auth user token = ''Authorization: Basic '' @ b64_encode (user @ '':'' @ token)"

section \<open>What both say of a repository's metadata\<close>

definition meta_schema :: string where "meta_schema = ''gitdr.meta/v1''"

text \<open>A slice is nil until something is appended to it, and nil is written as null.\<close>

definition items_json :: "json list \<Rightarrow> json" where
  "items_json items = (if items = [] then JNull else JArr items)"

text \<open>encoding/json writes a map with its keys in order.\<close>

definition json_map :: "(string \<times> json) list \<Rightarrow> json" where
  "json_map kvs = JObj (sort_key fst kvs)"

end
