(* ===== verification/Github.thy ===== *)
theory Github
  imports Forge
begin

text \<open>
  src/internal/source/github: the GitHub source. Its API client and the App's transport are parameters;
  the waiting for rate limits (ratelimit.go), the token file (tokenfile.go), what a request may
  carry, the paging, the filter and the metadata document (metadata.go) are modelled.
\<close>

section \<open>The budget for waiting\<close>

record wait_budget =
  wb_max :: duration
  wb_spent :: duration
  wb_until :: time

definition reserve :: "wait_budget \<Rightarrow> time \<Rightarrow> time \<Rightarrow> bool \<times> wait_budget" where
  "reserve b now resume =
     (let from_time = (if wb_until b > now then wb_until b else now);
          charge = max (time_sub resume from_time) 0 in
      if wrap64 (wb_spent b + charge) > wb_max b then (False, b)
      else (True, b\<lparr>wb_spent := wrap64 (wb_spent b + charge), wb_until := (if resume > wb_until b then resume else wb_until b)\<rparr>))"

text \<open>The waits of a run as they are reserved, and those that were granted.\<close>

fun reserve_all :: "wait_budget \<Rightarrow> (time \<times> time) list \<Rightarrow> (time \<times> time) list \<times> wait_budget" where
  "reserve_all b [] = ([], b)"
| "reserve_all b ((now, resume) # ws) = (case reserve b now resume of (ok, b') \<Rightarrow>
     (case reserve_all b' ws of (granted, b'') \<Rightarrow> (if ok then (now, resume) # granted else granted, b'')))"

definition waited :: "(time \<times> time) list \<Rightarrow> time set" where
  "waited ws = (\<Union>(a, b) \<in> set ws. {a..<b})"

lemma waited_simps [simp]: "waited [] = {}" "waited (p # ws) = {fst p..<snd p} \<union> waited ws" "finite (waited ws)"
  by (auto simp: waited_def)

text \<open>The budget charges the time some wait covers, once, as long as the clock does not go back.\<close>

definition charged :: "wait_budget \<Rightarrow> time set \<Rightarrow> time \<Rightarrow> bool" where
  "charged b S now \<longleftrightarrow> finite S \<and> wb_spent b = int (card S) \<and> wb_spent b \<le> wb_max b
     \<and> (\<forall>t \<in> S. t < wb_until b) \<and> (\<forall>t. now \<le> t \<longrightarrow> t < wb_until b \<longrightarrow> t \<in> S)"

lemma reserve_charges:
  assumes c: "charged b S n" and "n \<le> now" and m: "wb_max b < 2 ^ 62" "resume - now < 2 ^ 62"
    and r: "reserve b now resume = (ok, b')"
  shows "ok \<longleftrightarrow> int (card (S \<union> {now..<resume})) \<le> wb_max b" and "wb_max b' = wb_max b"
    and "charged b' (if ok then S \<union> {now..<resume} else S) now"
proof -
  define from_time where "from_time = (if wb_until b > now then wb_until b else now)"
  let ?charge = "max (time_sub resume from_time) 0"
  have "{now..<resume} - S = {from_time..<resume}"
    using c assms(2) by (auto simp: charged_def from_time_def) (metis not_le order.trans)
  then have u: "S \<union> {now..<resume} = S \<union> {from_time..<resume}" "S \<inter> {from_time..<resume} = {}" by blast+
  have card: "int (card (S \<union> {now..<resume})) = int (card S) + max (resume - from_time) 0"
    using c unfolding u(1) by (subst card_Un_disjoint) (auto simp: charged_def u(2))
  have sub: "?charge = max (resume - from_time) 0"
    using m(2) by (auto simp: time_sub_def from_time_def max_def min_def)
  have "0 \<le> wb_spent b" "wb_spent b \<le> wb_max b" "wb_spent b = int (card S)" using c by (auto simp: charged_def)
  moreover have "?charge < 2 ^ 62" unfolding sub using m(2) by (auto simp: from_time_def)
  ultimately have w: "wrap64 (wb_spent b + ?charge) = int (card (S \<union> {now..<resume}))"
    using m(1) by (subst wrap64_id) (auto simp: in_int64_def card sub)
  have r': "(if int (card (S \<union> {now..<resume})) > wb_max b then (False, b)
      else (True, b\<lparr>wb_spent := int (card (S \<union> {now..<resume})), wb_until := (if resume > wb_until b then resume else wb_until b)\<rparr>)) = (ok, b')"
    using r w unfolding reserve_def from_time_def [symmetric] Let_def by metis
  then show "ok \<longleftrightarrow> int (card (S \<union> {now..<resume})) \<le> wb_max b" "wb_max b' = wb_max b" by (auto split: if_splits)
  show "charged b' (if ok then S \<union> {now..<resume} else S) now"
  proof (cases ok)
    case True
    let ?u = "if resume > wb_until b then resume else wb_until b"
    have b': "wb_spent b' = int (card (S \<union> {now..<resume}))" "wb_max b' = wb_max b" "wb_until b' = ?u"
      "int (card (S \<union> {now..<resume})) \<le> wb_max b" using r' True by (auto split: if_splits)
    have "\<forall>t \<in> S \<union> {now..<resume}. t < ?u" using c by (auto simp: charged_def)
    moreover have "\<forall>t. now \<le> t \<longrightarrow> t < ?u \<longrightarrow> t \<in> S \<union> {now..<resume}" using c assms(2) by (auto simp: charged_def)
    ultimately show ?thesis using c True by (simp only: charged_def b' if_True finite_Un finite_atLeastLessThan_int simp_thms)
  next
    case False
    with r' have "b' = b" by (auto split: if_splits)
    with c False assms(2) show ?thesis by (simp add: charged_def)
  qed
qed

lemma reserve_all_charges:
  "reserve_all b ws = (granted, b') \<Longrightarrow> charged b S n \<Longrightarrow> sorted (n # map fst ws) \<Longrightarrow> wb_max b < 2 ^ 62
    \<Longrightarrow> \<forall>(now, resume) \<in> set ws. resume - now < 2 ^ 62
    \<Longrightarrow> wb_spent b' = int (card (S \<union> waited granted)) \<and> wb_spent b' \<le> wb_max b"
proof (induction ws arbitrary: b S n granted)
  case Nil
  then show ?case by (simp add: charged_def)
next
  case (Cons p ws)
  obtain now resume where p: "p = (now, resume)" by (cases p)
  obtain ok b1 where one: "reserve b now resume = (ok, b1)" by (metis prod.collapse)
  obtain gs where rest: "reserve_all b1 ws = (gs, b')" and g: "granted = (if ok then (now, resume) # gs else gs)"
    using Cons.prems(1) p one by (auto split: prod.splits)
  have "n \<le> now" "resume - now < 2 ^ 62" using Cons.prems(3,5) p by auto
  note c = reserve_charges [OF Cons.prems(2) this(1) Cons.prems(4) this(2) one]
  have "wb_spent b' = int (card ((if ok then S \<union> {now..<resume} else S) \<union> waited gs)) \<and> wb_spent b' \<le> wb_max b1"
    using Cons.IH [OF rest c(3)] Cons.prems p c(2) by auto
  with g c(2) show ?case by (auto simp: Un_assoc)
qed

text \<open>The first wait that is refused is one that the budget does not cover.\<close>

lemma reserve_all_refuses:
  "reserve_all b ws = (granted, b') \<Longrightarrow> granted \<noteq> ws \<Longrightarrow> charged b S n \<Longrightarrow> sorted (n # map fst ws) \<Longrightarrow> wb_max b < 2 ^ 62
    \<Longrightarrow> \<forall>(now, resume) \<in> set ws. resume - now < 2 ^ 62
    \<Longrightarrow> \<exists>pre now resume post. ws = pre @ (now, resume) # post \<and> fst (reserve_all b pre) = pre
      \<and> int (card (S \<union> waited pre \<union> {now..<resume})) > wb_max b"
proof (induction ws arbitrary: b S n granted)
  case (Cons p ws)
  obtain now resume where p: "p = (now, resume)" by (cases p)
  obtain ok b1 where one: "reserve b now resume = (ok, b1)" by (metis prod.collapse)
  obtain gs where rest: "reserve_all b1 ws = (gs, b')" and g: "granted = (if ok then (now, resume) # gs else gs)"
    using Cons.prems(1) p one by (auto split: prod.splits)
  have "n \<le> now" "resume - now < 2 ^ 62" using Cons.prems(4,6) p by auto
  note c = reserve_charges [OF Cons.prems(3) this(1) Cons.prems(5) this(2) one]
  show ?case
  proof (cases ok)
    case True
    with g Cons.prems(2) p have "gs \<noteq> ws" by simp
    with Cons.IH [OF rest this c(3)] Cons.prems p c(2) True
    obtain pre now' resume' post where split: "ws = pre @ (now', resume') # post" "fst (reserve_all b1 pre) = pre"
      and "int (card (S \<union> {now..<resume} \<union> waited pre \<union> {now'..<resume'})) > wb_max b" by auto
    moreover have "fst (reserve_all b (p # pre)) = p # pre" using split(2) one True p by (cases "reserve_all b1 pre") simp
    moreover have "S \<union> waited (p # pre) = S \<union> {now..<resume} \<union> waited pre" using p by (simp add: Un_assoc)
    ultimately show ?thesis by (intro exI [of _ "p # pre"]) auto
  next
    case False
    with c(1) p show ?thesis by (intro exI [of _ "[]"]) auto
  qed
qed simp

text \<open>
  The sum is of 64 bits: past half of them a wait is granted that the budget does not cover.
\<close>

lemma reserve_overflows:
  "fst (reserve \<lparr>wb_max = hour, wb_spent = 1, wb_until = 0\<rparr> 0 (2 ^ 63))"
  by (simp add: reserve_def time_sub_def wrap64_def Let_def time_units max_def min_def)

section \<open>A request\<close>

text \<open>\<open>Duration.String\<close>.\<close>

definition frac_digits :: "int \<Rightarrow> nat \<Rightarrow> string" where
  "frac_digits v prec = (let ds = rev (dropWhile (\<lambda>c. c = CHR ''0'') (rev (map (\<lambda>i. digit (nat (v div 10 ^ (prec - 1 - i) mod 10))) [0..<prec]))) in
     if ds = [] then [] else CHR ''.'' # ds)"

definition duration_string :: "duration \<Rightarrow> string" where
  "duration_string d = (let u = \<bar>d\<bar> in (if d < 0 then ''-'' else []) @
     (if u = 0 then ''0s''
      else if u < 1000 then show_int u @ ''ns''
      else if u < 1000000 then show_int (u div 1000) @ frac_digits u 3 @ [CHR 0xC2, CHR 0xB5, CHR ''s'']
      else if u < second then show_int (u div 1000000) @ frac_digits u 6 @ ''ms''
      else let secs = u div second; mins = secs div 60; hours = mins div 60 in
        (if hours > 0 then show_int hours @ ''h'' else []) @ (if mins > 0 then show_int (mins mod 60) @ ''m'' else [])
        @ show_int (secs mod 60) @ frac_digits u 9 @ ''s''))"

definition rate_limit_waits :: nat where "rate_limit_waits = 5"
definition unnamed_wait :: duration where "unnamed_wait = minute"
definition rate_limit_slack :: duration where "rate_limit_slack = second"
definition server_error_attempts :: nat where "server_error_attempts = 4"
definition server_error_backoff :: duration where "server_error_backoff = second"

text \<open>
  What the source runs on: its clock, its sleep and the random spread of the waits, the deadline of the
  run, and the budget, which is in the world.
\<close>

record 'w gh_clock =
  gc_now :: "'w \<Rightarrow> time"
  gc_sleep :: "duration \<Rightarrow> ('w, unit) io"
  gc_jitter :: "'w \<Rightarrow> duration \<times> 'w"
  gc_deadline :: "time option"
  gc_budget :: "'w \<Rightarrow> wait_budget"
  gc_charge :: "wait_budget \<Rightarrow> 'w \<Rightarrow> 'w"

definition limit_lifts :: "goerr \<Rightarrow> time \<Rightarrow> nat \<Rightarrow> time option" where
  "limit_lifts e now waits =
     (let unnamed = time_add now (unnamed_wait * 2 ^ waits) in
      case errors_as (\<lambda>k. case k of RateLimit r d \<Rightarrow> True | _ \<Rightarrow> False) e of
        Some (GoErr (RateLimit reset date) t ws) \<Rightarrow>
          Some (if is_zero reset then unnamed else if \<not> is_zero date then time_add now (time_sub reset date) else reset)
      | _ \<Rightarrow> (case errors_as (\<lambda>k. case k of AbuseLimit r \<Rightarrow> True | _ \<Rightarrow> False) e of
            Some (GoErr (AbuseLimit (Some d)) t ws) \<Rightarrow> Some (if d > 0 then time_add now d else unnamed)
          | Some _ \<Rightarrow> Some unnamed
          | None \<Rightarrow> None))"

definition github_response :: "goerr \<Rightarrow> (int option \<times> string) option" where
  "github_response e = (case errors_as (\<lambda>k. case k of GithubResponse s m \<Rightarrow> True | _ \<Rightarrow> False) e of
       Some (GoErr (GithubResponse s m) t ws) \<Rightarrow> Some (s, m) | _ \<Rightarrow> None)"

definition is_server_error :: "goerr \<Rightarrow> bool" where
  "is_server_error e = (let status = (case github_response e of
       Some (s, m) \<Rightarrow> s
     | None \<Rightarrow> (case errors_as (\<lambda>k. case k of InstallationHTTP s \<Rightarrow> True | _ \<Rightarrow> False) e of
           Some (GoErr (InstallationHTTP s) t ws) \<Rightarrow> s | _ \<Rightarrow> None)) in
     case status of Some n \<Rightarrow> n \<ge> 500 | None \<Rightarrow> False)"

definition transient :: "goerr \<Rightarrow> goerr" where
  "transient e = the (mark_transient (Some e))"

lemma transient_is: "errors_is (transient e) err_transient" "errors_is (transient e) e" "err_text (transient e) = err_text e"
  by (auto simp: transient_def mark_transient_def)

definition reserve_wait :: "'w gh_clock \<Rightarrow> time \<Rightarrow> time \<Rightarrow> ('w, bool) io" where
  "reserve_wait c now resume w = (case reserve (gc_budget c w) now resume of (ok, b) \<Rightarrow> (Inr ok, gc_charge c b w))"

definition jitter :: "'w gh_clock \<Rightarrow> ('w, duration) io" where
  "jitter c w = (case gc_jitter c w of (d, w') \<Rightarrow> (Inr d, w'))"

text \<open>
  \<open>call\<close>, with the flag of the context it hands on and its two counters, which count up from 0.
\<close>

function gh_call :: "'w gh_clock \<Rightarrow> (bool \<Rightarrow> ('w, 'a) io) \<Rightarrow> bool \<Rightarrow> nat \<Rightarrow> nat \<Rightarrow> ('w, 'a) io" where
  "gh_call c fn bypass waits errs = bindE (tryE (fn bypass)) (\<lambda>r. case map_sum scrub_redirect id r of
       Inr x \<Rightarrow> okE x
     | Inl e \<Rightarrow> bindE (readE (gc_now c)) (\<lambda>now. case limit_lifts e now waits of
         Some reset \<Rightarrow>
           if waits \<ge> rate_limit_waits
           then failE (transient (wrap_error (''rate limited after '' @ show_nat waits @ '' waits for the limit to lift'') e))
           else bindE (jitter c) (\<lambda>spread.
             let resume = time_add (if reset < now then now else reset) (rate_limit_slack + spread) in
             if (case gc_deadline c of Some d \<Rightarrow> resume > d | None \<Rightarrow> False)
             then failE (transient (wrap_error (''rate limited until '' @ format_rfc3339 reset @ '', past the deadline of ''
               @ format_rfc3339 (the (gc_deadline c))) e))
             else bindE (readE (\<lambda>w. wb_max (gc_budget c w))) (\<lambda>max_wait. bindE (reserve_wait c now resume) (\<lambda>ok.
               if \<not> ok
               then failE (transient (wrap_error (''rate limited until '' @ format_rfc3339 reset
                 @ '', and waiting would take the run past the '' @ duration_string max_wait @ '' it may spend on rate limits'') e))
               else bindE (tryE (gc_sleep c (time_sub resume now))) (\<lambda>slept. case slept of
                   Inl se \<Rightarrow> failE (transient (wrap_error (''rate limited until '' @ format_rfc3339 reset @ ''; stopped waiting'') se))
                 | Inr _ \<Rightarrow> gh_call c fn True (waits + 1) errs))))
       | None \<Rightarrow>
           if \<not> is_server_error e then failE e
           else if errs + 1 \<ge> server_error_attempts then failE (transient e)
           else bindE (jitter c) (\<lambda>spread.
             bindE (tryE (gc_sleep c (server_error_backoff * 2 ^ errs + spread))) (\<lambda>slept. case slept of
                 Inl se \<Rightarrow> failE (transient (GoErr Plain (''stopped retrying: '' @ err_text se @ '': '' @ err_text e) [se, e]))
               | Inr _ \<Rightarrow> gh_call c fn bypass waits (errs + 1)))))"
  by pat_completeness auto
termination
  by (relation "measure (\<lambda>(c, fn, b, waits, errs). (rate_limit_waits - waits) + (server_error_attempts - errs))") auto

declare gh_call.simps [simp del]


text \<open>
  What a call comes back with, given how its steps other than the request itself move the world.
\<close>

definition limited :: "goerr \<Rightarrow> bool" where
  "limited e \<longleftrightarrow> limit_lifts e 0 0 \<noteq> None"

lemma limited_any: "limit_lifts e now waits = None \<longleftrightarrow> \<not> limited e"
  by (auto simp: limited_def limit_lifts_def Let_def split: option.splits goerr.splits errkind.splits)

locale gh_quiet = world_order R for R :: "'w \<Rightarrow> 'w \<Rightarrow> bool" +
  fixes c :: "'w gh_clock"
  assumes sleep_quiet: "steps_in R (gc_sleep c d)"
    and jitter_quiet: "R w (snd (gc_jitter c w))"
    and charge_quiet: "R w (gc_charge c b w)"
begin

lemma jitter_steps: "steps_in R (jitter c)"
  using jitter_quiet by (simp add: steps_in_def jitter_def split_beta)

lemma reserve_steps: "steps_in R (reserve_wait c now resume)"
  using charge_quiet by (simp add: steps_in_def reserve_wait_def split_beta)

lemma gh_call_cases:
  assumes "gh_call c fn b waits errs w = (x, w')"
  obtains (answered) y where "fn b w = (Inr y, w')" "x = Inr y"
  | (refused) e where "fn b w = (Inl e, w')" "x = Inl (scrub_redirect e)" "\<not> limited (scrub_redirect e)" "\<not> is_server_error (scrub_redirect e)"
  | (given_up) e v e' where "fn b w = (Inl e, v)" "R v w'" "x = Inl (transient e')"
  | (waited) e v v' where "fn b w = (Inl e, v)" "R v v'" "waits < rate_limit_waits" "gh_call c fn True (waits + 1) errs v' = (x, w')"
  | (retried) e v v' where "fn b w = (Inl e, v)" "R v v'" "errs + 1 < server_error_attempts" "gh_call c fn b waits (errs + 1) v' = (x, w')"
proof -
  obtain r v where f: "fn b w = (r, v)" by (metis prod.collapse)
  show thesis
  proof (cases r)
    case (Inr y)
    with f assms have "x = Inr y \<and> v = w'" by (subst (asm) gh_call.simps) (auto simp: bindE_def tryE_apply)
    with f Inr answered show thesis by blast
  next
    case (Inl e0)
    define e where "e = scrub_redirect e0"
    define now where "now = gc_now c v"
    note step = assms [unfolded gh_call.simps [of c fn b waits errs] bindE_def [of "tryE (fn b)"] bindE_def [of "readE (gc_now c)"]
        tryE_apply [of "fn b"] readE_apply [of "gc_now c"] f Inl fst_conv snd_conv prod.case sum.case map_sum.simps, folded e_def now_def]
    show thesis
    proof (cases "limit_lifts e now waits")
      case None
      have rest: "(if \<not> is_server_error e then failE e
           else if errs + 1 \<ge> server_error_attempts then failE (transient e)
           else bindE (jitter c) (\<lambda>spread.
             bindE (tryE (gc_sleep c (server_error_backoff * 2 ^ errs + spread))) (\<lambda>slept. case slept of
                 Inl se \<Rightarrow> failE (transient (GoErr Plain (''stopped retrying: '' @ err_text se @ '': '' @ err_text e) [se, e]))
               | Inr _ \<Rightarrow> gh_call c fn b waits (errs + 1)))) v = (x, w')"
        using step unfolding None option.case .
      consider "\<not> is_server_error e" | "is_server_error e" "errs + 1 \<ge> server_error_attempts"
        | "is_server_error e" "errs + 1 < server_error_attempts" by linarith
      then show thesis
      proof cases
        case 1
        with rest have "x = Inl e" "v = w'" by simp_all
        with f Inl None 1 refused limited_any show thesis unfolding e_def by metis
      next
        case 2
        with rest have "x = Inl (transient e)" "v = w'" by simp_all
        with f Inl given_up refl show thesis by metis
      next
        case 3
        then have guards: "\<not> \<not> is_server_error e" "\<not> server_error_attempts \<le> errs + 1" by simp_all
        obtain j v1 where j: "jitter c v = (Inr j, v1)" by (cases "gc_jitter c v") (simp add: jitter_def)
        note s = rest [unfolded if_not_P [OF guards(1)] if_not_P [OF guards(2)] bindE_def [of "jitter c"] j prod.case sum.case]
        obtain sl v2 where sl: "gc_sleep c (server_error_backoff * 2 ^ errs + j) v1 = (sl, v2)" by (metis prod.collapse)
        have R: "R v v2" using trans [OF steps_inD [OF jitter_steps j] steps_inD [OF sleep_quiet sl]] .
        show thesis
        proof (cases sl)
          case (Inl se)
          with s sl have "x = Inl (transient (GoErr Plain (''stopped retrying: '' @ err_text se @ '': '' @ err_text e) [se, e]))" "w' = v2"
            by (simp_all add: bindE_def tryE_apply)
          with f \<open>r = Inl e0\<close> R given_up show thesis by metis
        next
          case (Inr u)
          with s sl have "gh_call c fn b waits (errs + 1) v2 = (x, w')" by (simp add: bindE_def tryE_apply)
          with f \<open>r = Inl e0\<close> R 3 retried show thesis by metis
        qed
      qed
    next
      case (Some reset)
      define resume where "resume j = time_add (if reset < now then now else reset) (rate_limit_slack + j)" for j
      have rest: "(if waits \<ge> rate_limit_waits
           then failE (transient (wrap_error (''rate limited after '' @ show_nat waits @ '' waits for the limit to lift'') e))
           else bindE (jitter c) (\<lambda>j.
             if (case gc_deadline c of Some d \<Rightarrow> resume j > d | None \<Rightarrow> False)
             then failE (transient (wrap_error (''rate limited until '' @ format_rfc3339 reset @ '', past the deadline of ''
               @ format_rfc3339 (the (gc_deadline c))) e))
             else bindE (readE (\<lambda>w. wb_max (gc_budget c w))) (\<lambda>max_wait. bindE (reserve_wait c now (resume j)) (\<lambda>ok.
               if \<not> ok
               then failE (transient (wrap_error (''rate limited until '' @ format_rfc3339 reset
                 @ '', and waiting would take the run past the '' @ duration_string max_wait @ '' it may spend on rate limits'') e))
               else bindE (tryE (gc_sleep c (time_sub (resume j) now))) (\<lambda>slept. case slept of
                   Inl se \<Rightarrow> failE (transient (wrap_error (''rate limited until '' @ format_rfc3339 reset @ ''; stopped waiting'') se))
                 | Inr _ \<Rightarrow> gh_call c fn True (waits + 1) errs))))) v = (x, w')"
        using step unfolding Some option.case resume_def [symmetric] Let_def .
      show thesis
      proof (cases "waits \<ge> rate_limit_waits")
        case True
        with rest have "x = Inl (transient (wrap_error (''rate limited after '' @ show_nat waits @ '' waits for the limit to lift'') e))" "v = w'" by simp_all
        with f Inl given_up refl show thesis by metis
      next
        case less: False
        obtain j v1 where j: "jitter c v = (Inr j, v1)" by (cases "gc_jitter c v") (simp add: jitter_def)
        have Rj: "R v v1" by (rule steps_inD [OF jitter_steps j])
        note rest1 = rest [unfolded if_not_P [OF less] bindE_def [of "jitter c"] j prod.case sum.case]
        show thesis
        proof (cases "case gc_deadline c of Some d \<Rightarrow> resume j > d | None \<Rightarrow> False")
          case True
          with rest1 have "\<exists>e'. x = Inl (transient e') \<and> v1 = w'" by auto
          with f Inl given_up Rj show thesis by metis
        next
          case False
          obtain ok v2 where res: "reserve_wait c now (resume j) v1 = (Inr ok, v2)" by (cases "reserve (gc_budget c v1) now (resume j)") (simp add: reserve_wait_def)
          have R2: "R v v2" using trans [OF Rj steps_inD [OF reserve_steps res]] .
          obtain sl v3 where sl: "gc_sleep c (time_sub (resume j) now) v2 = (sl, v3)" by (metis prod.collapse)
          have R3: "R v v3" using trans [OF R2 steps_inD [OF sleep_quiet sl]] .
          note rest2 = rest1 [unfolded if_not_P [OF False] bindE_def [of "readE _"] bindE_def [of "reserve_wait _ _ _"] readE_apply res prod.case sum.case]
          consider "\<not> ok" | se where "ok" "sl = Inl se" | u where "ok" "sl = Inr u" by (cases sl) auto
          then show thesis
          proof cases
            case 1
            with rest2 have "\<exists>e'. x = Inl (transient e') \<and> v2 = w'" by auto
            with f Inl given_up R2 show thesis by metis
          next
            case 2
            with rest2 sl have "\<exists>e'. x = Inl (transient e') \<and> v3 = w'" by (auto simp: bindE_def tryE_apply)
            with f Inl given_up R3 show thesis by metis
          next
            case 3
            with rest2 sl have "gh_call c fn True (waits + 1) errs v3 = (x, w')" by (simp add: bindE_def tryE_apply)
            with f Inl R3 less waited show thesis by (metis not_le)
          qed
        qed
      qed
    qed
  qed
qed

end


interpretation any_step: gh_quiet "\<lambda>w w'. True" c for c
  by unfold_locales (auto simp: steps_in_def)

text \<open>
  A call sends the request nine times at most; what it returns is an answer to one of them; and what it
  gives up on over a limit or a server's error is marked, so that the repository is tried by the next run.
\<close>

lemma gh_call_tries:
  assumes q: "gh_quiet (same_on tries) c" and fn: "\<And>b w x w'. fn b w = (x, w') \<Longrightarrow> tries w' = Suc (tries w)"
  shows "gh_call c fn b waits errs w = (x, w') \<Longrightarrow>
    tries w' \<le> tries w + 1 + (rate_limit_waits - waits) + (server_error_attempts - 1 - errs)"
proof (induction "(rate_limit_waits - waits) + (server_error_attempts - errs)" arbitrary: b waits errs w rule: less_induct)
  case less
  from less.prems show ?case
  proof (cases rule: gh_quiet.gh_call_cases [OF q, consumes 1, case_names answered refused given_up waited retried])
    case (answered y)
    with fn [of b w] show ?thesis by simp
  next
    case (refused e)
    with fn [of b w] show ?thesis by simp
  next
    case (given_up e v e')
    with fn [of b w] show ?thesis by (simp add: same_on_def)
  next
    case (waited e v v')
    then have "tries w' \<le> tries v' + 1 + (rate_limit_waits - (waits + 1)) + (server_error_attempts - 1 - errs)"
      by (intro less.hyps [of "waits + 1" errs]) auto
    with waited fn [of b w] show ?thesis by (simp add: same_on_def)
  next
    case (retried e v v')
    then have "tries w' \<le> tries v' + 1 + (rate_limit_waits - waits) + (server_error_attempts - 1 - (errs + 1))"
      by (intro less.hyps [of waits "errs + 1"]) auto
    with retried fn [of b w] show ?thesis by (simp add: same_on_def)
  qed
qed

lemma gh_call_answer: "gh_call c fn b waits errs w = (Inr y, w') \<Longrightarrow> \<exists>b' v. fn b' v = (Inr y, w')"
proof (induction "(rate_limit_waits - waits) + (server_error_attempts - errs)" arbitrary: b waits errs w rule: less_induct)
  case less
  from less.prems show ?case
  proof (cases rule: any_step.gh_call_cases [consumes 1, case_names answered refused given_up waited retried])
    case (waited e v v')
    then show ?thesis by (intro less.hyps [of "waits + 1" errs]) auto
  next
    case (retried e v v')
    then show ?thesis by (intro less.hyps [of waits "errs + 1"]) auto
  qed auto
qed

lemma gh_call_error:
  "gh_call c fn b waits errs w = (Inl e, w') \<Longrightarrow> errors_is e err_transient \<or> \<not> limited e \<and> \<not> is_server_error e"
proof (induction "(rate_limit_waits - waits) + (server_error_attempts - errs)" arbitrary: b waits errs w rule: less_induct)
  case less
  from less.prems show ?case
  proof (cases rule: any_step.gh_call_cases [consumes 1, case_names answered refused given_up waited retried])
    case (given_up e0 v e')
    then show ?thesis using transient_is(1) by simp
  next
    case (waited e0 v v')
    then show ?thesis by (intro less.hyps [of "waits + 1" errs]) auto
  next
    case (retried e0 v v')
    then show ?thesis by (intro less.hyps [of waits "errs + 1"]) auto
  qed auto
qed

lemma gh_call_steps:
  assumes q: "gh_quiet R c" and fn: "\<And>b. steps_in R (fn b)"
  shows "gh_call c fn b waits errs w = (x, w') \<Longrightarrow> R w w'"
proof (induction "(rate_limit_waits - waits) + (server_error_attempts - errs)" arbitrary: b waits errs w rule: less_induct)
  case less
  note trans = world_order.trans [OF gh_quiet.axioms(1) [OF q]]
  from less.prems show ?case
  proof (cases rule: gh_quiet.gh_call_cases [OF q, consumes 1, case_names answered refused given_up waited retried])
    case (answered y)
    show ?thesis by (rule steps_inD [OF fn answered(1)])
  next
    case (refused e)
    show ?thesis by (rule steps_inD [OF fn refused(1)])
  next
    case (given_up e v e')
    show ?thesis by (rule trans [OF steps_inD [OF fn given_up(1)] given_up(2)])
  next
    case (waited e v v')
    then have "R v' w'" by (intro less.hyps [of "waits + 1" errs]) auto
    then show ?thesis by (rule trans [OF steps_inD [OF fn waited(1)] trans [OF waited(2)]])
  next
    case (retried e v v')
    then have "R v' w'" by (intro less.hyps [of waits "errs + 1"]) auto
    then show ?thesis by (rule trans [OF steps_inD [OF fn retried(1)] trans [OF retried(2)]])
  qed
qed

section \<open>The token file\<close>

definition max_token_file_bytes :: nat where "max_token_file_bytes = 4096"

record 'w token_files =
  tf_regular :: "string \<Rightarrow> ('w, bool) io"
  tf_open :: "string \<Rightarrow> ('w, unit) io"
  tf_read :: "string \<Rightarrow> nat \<Rightarrow> ('w, string) io"
  tf_close :: "string \<Rightarrow> ('w, unit) io"

definition token_path_error :: "string \<Rightarrow> string \<Rightarrow> string" where
  "token_path_error path why = ''source.github.tokenPath: the token file '' @ quote path @ why"

definition unreadable :: "string \<Rightarrow> goerr \<Rightarrow> goerr" where
  "unreadable path e = wrap_error (''source.github.tokenPath: cannot read the token file '' @ quote path)
     (case errors_as (\<lambda>k. k = PathError) e of Some (GoErr k t (reason # ws)) \<Rightarrow> reason | _ \<Rightarrow> e)"

definition token_byte :: "char \<Rightarrow> bool" where
  "token_byte c \<longleftrightarrow> 0x21 \<le> byte c \<and> byte c \<le> 0x7E"

definition token_in :: "string \<Rightarrow> string \<Rightarrow> goerr + string" where
  "token_in path raw =
     (if length raw > max_token_file_bytes
      then Inl (new_error (token_path_error path ('' is larger than '' @ show_nat max_token_file_bytes @ '' bytes, which no installation token is'')))
      else let tok = trim_space raw; lead = length raw - length (trim_left raw) in
        if tok = [] then Inl (new_error (token_path_error path '' is empty''))
        else case List.find (\<lambda>i. \<not> token_byte (tok ! i)) [0..<length tok] of
          Some i \<Rightarrow> Inl (new_error (token_path_error path ('' holds a byte a token cannot, at offset '' @ show_nat (lead + i)
            @ '': an installation token is printable ASCII with no spaces'')))
        | None \<Rightarrow> Inr tok)"

definition read_token :: "'w token_files \<Rightarrow> string \<Rightarrow> ('w, string) io" where
  "read_token fs path =
     bindE (mapErrE (unreadable path) (tf_regular fs path)) (\<lambda>regular.
     if \<not> regular then failE (new_error (token_path_error path '' is not a regular file''))
     else bindE (mapErrE (unreadable path) (tf_open fs path)) (\<lambda>_.
     bindE (tryE (tf_read fs path (max_token_file_bytes + 1))) (\<lambda>raw.
     bindE (tryE (tf_close fs path)) (\<lambda>closed.
     case (raw, closed) of
       (Inl e, _) \<Rightarrow> failE (unreadable path e)
     | (Inr r, Inl e) \<Rightarrow> failE (unreadable path e)
     | (Inr r, Inr _) \<Rightarrow> liftE (token_in path r)))))"

text \<open>A token that was read is one header value: no line of a second header, no space, no more than the bound.\<close>

lemma find_none: "List.find P xs = None \<longleftrightarrow> (\<forall>x \<in> set xs. \<not> P x)"
  by (induction xs) auto

lemma token_in_clean:
  assumes "token_in path raw = Inr tok"
  shows "tok = trim_space raw" "tok \<noteq> []" "\<forall>c \<in> set tok. token_byte c" "length raw \<le> max_token_file_bytes"
  using assms by (auto simp: token_in_def Let_def find_none in_set_conv_nth split: if_splits option.splits)

lemma read_token_clean:
  assumes "read_token fs path w = (Inr tok, w')"
  shows "tok \<noteq> [] \<and> (\<forall>c \<in> set tok. token_byte c)"
proof -
  obtain raw where "token_in path raw = Inr tok"
    using assms unfolding read_token_def by (auto elim!: bindE_InrE split: if_splits sum.splits)
  from token_in_clean [OF this] show ?thesis by blast
qed

section \<open>What a request carries\<close>

definition token_transport :: "'w token_files \<Rightarrow> string \<Rightarrow> string \<Rightarrow> ('w, 'r) transport \<Rightarrow> ('w, 'r) transport" where
  "token_transport fs path host net q =
     (if url_scheme (rq_url q) \<noteq> ''https'' \<or> url_host (rq_url q) \<noteq> host then net (del_header ''Authorization'' q)
      else bindE (read_token fs path) (\<lambda>tok. net (set_header ''Authorization'' (''Bearer '' @ tok) q)))"

definition app_transport :: "string \<Rightarrow> string \<Rightarrow> ('w, 'r) transport \<Rightarrow> ('w, 'r) transport \<Rightarrow> ('w, 'r) transport" where
  "app_transport scheme host app net q =
     (if host \<noteq> [] \<and> url_scheme (rq_url q) = scheme \<and> url_host (rq_url q) = host then app q
      else net (del_header ''Authorization'' q))"

text \<open>
  What goes on the network bears no token, or goes to the API over TLS.
\<close>

definition bare_or_api :: "string \<Rightarrow> request \<Rightarrow> bool" where
  "bare_or_api host q \<longleftrightarrow> (has_header ''Authorization'' q \<longrightarrow> url_scheme (rq_url q) = ''https'' \<and> url_host (rq_url q) = host)"

lemma token_transport_sends:
  assumes "\<And>p. bare_or_api host p \<Longrightarrow> rq_url p = rq_url q \<Longrightarrow> rq_hop p = rq_hop q \<Longrightarrow> net p = net' p"
  shows "token_transport fs path host net q = token_transport fs path host net' q"
proof (cases "url_scheme (rq_url q) \<noteq> ''https'' \<or> url_host (rq_url q) \<noteq> host")
  case True
  have "net (del_header ''Authorization'' q) = net' (del_header ''Authorization'' q)" by (rule assms) (simp_all add: bare_or_api_def)
  with True show ?thesis by (simp add: token_transport_def)
next
  case False
  then have "net (set_header ''Authorization'' v q) = net' (set_header ''Authorization'' v q)" for v
    by (intro assms) (simp_all add: bare_or_api_def)
  with False show ?thesis by (simp add: token_transport_def)
qed

lemma app_transport_sends:
  assumes "\<And>p. \<not> has_header ''Authorization'' p \<Longrightarrow> rq_url p = rq_url q \<Longrightarrow> rq_hop p = rq_hop q \<Longrightarrow> net p = net' p"
  shows "app_transport scheme host app net q = app_transport scheme host app net' q"
proof -
  have "net (del_header ''Authorization'' q) = net' (del_header ''Authorization'' q)" by (rule assms) simp_all
  then show ?thesis by (simp add: app_transport_def)
qed

definition on_api :: "string \<Rightarrow> string \<Rightarrow> request \<Rightarrow> bool" where
  "on_api scheme host q \<longleftrightarrow> host \<noteq> [] \<and> url_scheme (rq_url q) = scheme \<and> url_host (rq_url q) = host"

lemma app_transport_app:
  assumes "\<And>p. on_api scheme host p \<Longrightarrow> rq_url p = rq_url q \<Longrightarrow> rq_hop p = rq_hop q \<Longrightarrow> app p = app' p"
  shows "app_transport scheme host app net q = app_transport scheme host app' net q"
  using assms [of q] by (simp add: app_transport_def on_api_def)

section \<open>A source and how it is built\<close>

record gh_options =
  go_base_url :: string
  go_app_id :: int
  go_installation_id :: int
  go_private_key :: string
  go_token_path :: string
  go_max_wait :: duration

record gh_setup =
  gs_host :: string
  gs_api_scheme :: string
  gs_api_host :: string
  gs_token_file :: "string option"
  gs_app_base :: string
  gs_budget :: wait_budget

definition default_max_wait :: duration where "default_max_wait = hour"

text \<open>
  \<open>newSource\<close>. The App's transport and the client are built by code that is not here: what these may
  refuse is a parameter.
\<close>

definition gh_setup_of :: "gh_options \<Rightarrow> gh_setup" where
  "gh_setup_of opts = \<lparr>
     gs_host = (if go_base_url opts \<noteq> [] then host_from_url ''github.com'' (go_base_url opts) else ''github.com''),
     gs_api_scheme = (if go_base_url opts = [] then ''https'' else case url_parse (go_base_url opts) of Some u \<Rightarrow> url_scheme u | None \<Rightarrow> []),
     gs_api_host = (if go_base_url opts = [] then ''api.github.com'' else case url_parse (go_base_url opts) of Some u \<Rightarrow> url_host u | None \<Rightarrow> []),
     gs_token_file = (if go_token_path opts \<noteq> [] then Some (go_token_path opts) else None),
     gs_app_base = (if go_token_path opts = [] \<and> go_base_url opts \<noteq> [] then rev (dropWhile (\<lambda>c. c = CHR ''/'') (rev (go_base_url opts))) else []),
     gs_budget = \<lparr>wb_max = (if go_max_wait opts \<le> 0 then default_max_wait else go_max_wait opts), wb_spent = 0, wb_until = time_zero\<rparr>\<rparr>"

definition gh_new :: "'w token_files \<Rightarrow> (int \<Rightarrow> int \<Rightarrow> string \<Rightarrow> ('w, unit) io) \<Rightarrow> (string \<Rightarrow> ('w, unit) io) \<Rightarrow> gh_options \<Rightarrow> ('w, gh_setup) io" where
  "gh_new fs new_app new_client opts =
     bindE
       (if go_token_path opts \<noteq> [] then
          (if go_private_key opts \<noteq> [] then failE (new_error ''github: both a token file and an App private key were given; set exactly one'')
           else bindE (read_token fs (go_token_path opts)) (\<lambda>_. okE ()))
        else if go_app_id opts = 0 \<or> go_installation_id opts = 0 then failE (new_error ''github: appID and installationID are required'')
        else if go_private_key opts = [] then failE (new_error ''github: app private key is required'')
        else mapErrE (wrap_error ''github: app transport'') (new_app (go_app_id opts) (go_installation_id opts) (go_private_key opts)))
     (\<lambda>_. bindE (mapErrE (wrap_error ''github: client'') (new_client (go_base_url opts))) (\<lambda>_. okE (gh_setup_of opts)))"

definition gh_transport :: "gh_setup \<Rightarrow> 'w token_files \<Rightarrow> ('w, 'r) transport \<Rightarrow> ('w, 'r) transport \<Rightarrow> ('w, 'r) transport" where
  "gh_transport s fs app net = keep_tls (stay_on_api (gs_api_scheme s) (gs_api_host s)
     (case gs_token_file s of Some path \<Rightarrow> token_transport fs path (gs_api_host s) net
      | None \<Rightarrow> app_transport (gs_api_scheme s) (gs_api_host s) app net))"

lemma gh_transport_sends:
  assumes "gs_token_file s = Some path"
  shows "sends_only (\<lambda>q. bare_or_api (gs_api_host s) q \<and> followed (gs_api_scheme s) (gs_api_host s) q) (gh_transport s fs app)"
  unfolding gh_transport_def assms option.case by (rule sends_only_redirects) (rule token_transport_sends, blast)

lemma gh_transport_app_sends:
  assumes "gs_token_file s = None"
  shows "sends_only (\<lambda>q. \<not> has_header ''Authorization'' q \<and> followed (gs_api_scheme s) (gs_api_host s) q) (gh_transport s fs app)"
    and "sends_only (\<lambda>q. on_api (gs_api_scheme s) (gs_api_host s) q \<and> followed (gs_api_scheme s) (gs_api_host s) q)
      (\<lambda>app. gh_transport s fs app net)"
  unfolding gh_transport_def assms option.case
  by (rule sends_only_redirects, rule app_transport_sends, blast) (rule sends_only_redirects, rule app_transport_app, blast)

section \<open>The API\<close>

text \<open>What the API client answers, with nil as it can be: a repository's fields, the list and the response.\<close>

record gh_repository =
  gr_owner :: "string option"
  gr_name :: "string option"
  gr_clone_url :: "string option"
  gr_default_branch :: "string option"
  gr_archived :: "bool option"
  gr_size :: "int option"

datatype gh_section = SecLabels | SecMilestones | SecIssues | SecComments | SecPullRequests | SecReviewComments | SecReleases

record 'w github_api =
  ga_list_repos :: "bool \<Rightarrow> int \<Rightarrow> int \<Rightarrow> ('w, gh_repository list option \<times> int option) io"
  ga_get :: "bool \<Rightarrow> string \<Rightarrow> string \<Rightarrow> ('w, json) io"
  ga_section :: "gh_section \<Rightarrow> string \<Rightarrow> bool \<Rightarrow> string \<Rightarrow> string \<Rightarrow> int \<Rightarrow> int \<Rightarrow> ('w, json list \<times> int option) io"
  ga_app_token :: "('w, string) io"
  ga_wall :: "'w \<Rightarrow> time"

definition got_str :: "string option \<Rightarrow> string" where
  "got_str x = (case x of Some s \<Rightarrow> s | None \<Rightarrow> [])"

definition gh_to_repo :: "string \<Rightarrow> gh_repository \<Rightarrow> repo" where
  "gh_to_repo host r = \<lparr>rp_host = host, rp_owner = got_str (gr_owner r), rp_name = got_str (gr_name r), rp_clone_url = got_str (gr_clone_url r),
     rp_default_branch = got_str (gr_default_branch r), rp_archived = (gr_archived r = Some True),
     rp_size_kb = (case gr_size r of Some n \<Rightarrow> n | None \<Rightarrow> 0)\<rparr>"

definition gh_list_page :: "'w gh_clock \<Rightarrow> 'w github_api \<Rightarrow> string \<Rightarrow> repo_filter \<Rightarrow> int \<Rightarrow> ('w, repo list \<times> int) io" where
  "gh_list_page c api host f page =
     bindE (mapErrE (wrap_error ''github: list installation repos'') (gh_call c (\<lambda>b. ga_list_repos api b page 100) False 0 0)) (\<lambda>r.
     case r of (Some rs, Some nxt) \<Rightarrow> okE (filter (\<lambda>r. keep_repo r f) (map (gh_to_repo host) rs), nxt)
     | _ \<Rightarrow> failE (new_error ''github: list installation repos: GitHub answered with no list''))"

definition gh_list_repos :: "nat \<Rightarrow> 'w gh_clock \<Rightarrow> 'w github_api \<Rightarrow> string \<Rightarrow> repo_filter \<Rightarrow> ('w, repo list) io" where
  "gh_list_repos fuel c api host f = page_loop fuel (gh_list_page c api host f) 0 []"

text \<open>
  The installation's repositories as GitHub serves them, a hundred to the page: a request may fail, and
  one that is answered is answered with its page.
\<close>

definition gh_serves :: "'w github_api \<Rightarrow> gh_repository list \<Rightarrow> bool" where
  "gh_serves api rs \<longleftrightarrow> (\<forall>b p w r w'. ga_list_repos api b p 100 w = (Inr r, w') \<longrightarrow> r = (Some (page_items 100 rs p), Some (page_after 100 rs p)))"

lemma gh_list_page_serves:
  assumes "gh_serves api rs" and "gh_list_page c api host f p w = (Inr r, w')"
  shows "r = (concat (map (\<lambda>x. filter (\<lambda>r. keep_repo r f) [gh_to_repo host x]) (page_items 100 rs p)), page_after 100 rs p)"
proof -
  obtain y v where call: "gh_call c (\<lambda>b. ga_list_repos api b p 100) False 0 0 w = (Inr y, v)"
    and rest: "(case y of (Some rs, Some nxt) \<Rightarrow> okE (filter (\<lambda>r. keep_repo r f) (map (gh_to_repo host) rs), nxt)
     | _ \<Rightarrow> failE (new_error ''github: list installation repos: GitHub answered with no list'')) v = (Inr r, w')"
    using assms(2) unfolding gh_list_page_def by (auto elim!: bindE_InrE)
  from gh_call_answer [OF call] assms(1) have y: "y = (Some (page_items 100 rs p), Some (page_after 100 rs p))"
    unfolding gh_serves_def by blast
  from rest show ?thesis unfolding y by (simp add: filter_map_concat)
qed

lemma gh_lists_all:
  assumes "gh_serves api rs" and "gh_list_repos fuel c api host f w = (Inr out, w')"
  shows "out = filter (\<lambda>r. keep_repo r f) (map (gh_to_repo host) rs)"
  using page_loop_all [OF gh_list_page_serves [OF assms(1)] assms(2) [unfolded gh_list_repos_def]]
  by (simp add: filter_map_concat)

lemma gh_list_fails:
  assumes "gh_serves api rs" and "gh_list_repos fuel c api host f w = (Inl e, w')" and "0 < fuel" and "length rs \<le> 100 * fuel"
  shows "\<exists>p v e0. gh_call c (\<lambda>b. ga_list_repos api b p 100) False 0 0 v = (Inl e0, w') \<and> e = wrap_error ''github: list installation repos'' e0"
proof -
  have after: "\<And>p v r v'. gh_list_page c api host f p v = (Inr r, v') \<Longrightarrow> snd r = page_after 100 rs p"
    using gh_list_page_serves [OF assms(1)] by fastforce
  have "\<exists>p v. gh_list_page c api host f p v = (Inl e, w')"
    by (rule page_loop_ends [where xs = rs and n = 100, OF _ assms(2) [unfolded gh_list_repos_def] assms(3)])
      (simp_all add: after assms(4))
  then obtain p v where "gh_list_page c api host f p v = (Inl e, w')" by blast
  then show ?thesis unfolding gh_list_page_def
  proof (cases rule: bindE_cases)
    case (1 e')
    then show ?thesis by (auto simp: mapErrE_def split: prod.splits sum.splits)
  next
    case (2 y v')
    from 2(1) have "gh_call c (\<lambda>b. ga_list_repos api b p 100) False 0 0 v = (Inr y, v')" by simp
    from gh_call_answer [OF this] obtain b u where "ga_list_repos api b p 100 u = (Inr y, v')" by blast
    with assms(1) have "y = (Some (page_items 100 rs p), Some (page_after 100 rs p))" unfolding gh_serves_def by blast
    with 2 show ?thesis by simp
  qed
qed

section \<open>The credential\<close>

definition gh_auth_header :: "gh_setup \<Rightarrow> 'w token_files \<Rightarrow> 'w github_api \<Rightarrow> ('w, string) io" where
  "gh_auth_header s fs api = (case gs_token_file s of
       Some path \<Rightarrow> bindE (read_token fs path) (\<lambda>tok. okE (basic_auth ''x-access-token'' tok))
     | None \<Rightarrow> bindE (mapErrE (wrap_error ''github: installation token'') (ga_app_token api)) (\<lambda>tok. okE (basic_auth ''x-access-token'' tok)))"

definition gh_check_token :: "gh_setup \<Rightarrow> 'w github_api \<Rightarrow> ('w, unit) io" where
  "gh_check_token s api = (case gs_token_file s of
       None \<Rightarrow> failE (new_error ''github: this source mints its own token; there is no token file to check'')
     | Some path \<Rightarrow> bindE (mapErrE (\<lambda>e. wrap_error ''github: checking the token from source.github.tokenPath'' (scrub_redirect e))
         (ga_list_repos api False 0 1)) (\<lambda>_. okE ()))"

section \<open>The metadata\<close>

definition gh_sections :: "gh_section list" where
  "gh_sections = [SecLabels, SecMilestones, SecIssues, SecComments, SecPullRequests, SecReviewComments, SecReleases]"

definition section_key :: "gh_section \<Rightarrow> string" where
  "section_key s = (case s of SecLabels \<Rightarrow> ''labels'' | SecMilestones \<Rightarrow> ''milestones'' | SecIssues \<Rightarrow> ''issues'' | SecComments \<Rightarrow> ''comments''
     | SecPullRequests \<Rightarrow> ''pullRequests'' | SecReviewComments \<Rightarrow> ''reviewComments'' | SecReleases \<Rightarrow> ''releases'')"

definition section_words :: "gh_section \<Rightarrow> string" where
  "section_words s = (case s of SecPullRequests \<Rightarrow> ''pull requests'' | SecReviewComments \<Rightarrow> ''review comments'' | _ \<Rightarrow> section_key s)"

text \<open>The state the items are asked for in: those that are closed too, where the endpoint would leave them out.\<close>

definition section_state :: "gh_section \<Rightarrow> string" where
  "section_state s = (if s \<in> {SecMilestones, SecIssues, SecPullRequests} then ''all'' else [])"

definition turned_off :: "goerr \<Rightarrow> string option" where
  "turned_off e = (case github_response e of
       Some (Some code, msg) \<Rightarrow> (if code = 404 \<or> code = 410 then Some (show_int code @ '' '' @ msg) else None)
     | _ \<Rightarrow> None)"

definition gh_collect :: "nat \<Rightarrow> 'w gh_clock \<Rightarrow> 'w github_api \<Rightarrow> repo \<Rightarrow> gh_section \<Rightarrow> ('w, json list) io" where
  "gh_collect fuel c api r s = page_loop fuel
     (\<lambda>page. bindE (gh_call c (\<lambda>b. ga_section api s (section_state s) b (rp_owner r) (rp_name r) page 100) False 0 0)
       (\<lambda>(items, resp). okE (items, next_page resp))) 1 []"

fun gh_read_sections :: "(gh_section \<Rightarrow> ('w, json list) io) \<Rightarrow> gh_section list \<Rightarrow> (string \<times> json) list \<Rightarrow> (string \<times> json) list
    \<Rightarrow> ('w, (string \<times> json) list \<times> (string \<times> json) list) io" where
  "gh_read_sections get [] doc off = okE (doc, off)"
| "gh_read_sections get (s # ss) doc off = bindE (tryE (get s)) (\<lambda>r. case r of
       Inr items \<Rightarrow> gh_read_sections get ss (doc @ [(section_key s, items_json items)]) off
     | Inl e \<Rightarrow> (case turned_off e of
           Some answer \<Rightarrow> gh_read_sections get ss (doc @ [(section_key s, JNull)]) (off @ [(section_key s, JStr answer)])
         | None \<Rightarrow> failE (wrap_error (''github: '' @ section_words s) e)))"

definition gh_document :: "nat \<Rightarrow> 'w gh_clock \<Rightarrow> 'w github_api \<Rightarrow> repo \<Rightarrow> ('w, json) io" where
  "gh_document fuel c api r =
     bindE (readE (ga_wall api)) (\<lambda>now.
     bindE (mapErrE (wrap_error (''github: get repo '' @ slug r)) (gh_call c (\<lambda>b. ga_get api b (rp_owner r) (rp_name r)) False 0 0)) (\<lambda>got.
     bindE (gh_read_sections (gh_collect fuel c api r) gh_sections [] []) (\<lambda>(secs, off).
     okE (json_map ([(''schema'', JStr meta_schema), (''host'', JStr (rp_host r)), (''owner'', JStr (rp_owner r)), (''name'', JStr (rp_name r)),
         (''fetchedAt'', JStr (format_rfc3339 now)), (''repo'', got)] @ secs
         @ (if off = [] then [] else [(''unavailable'', json_map off)]))))))"

definition gh_fetch_metadata :: "(json \<Rightarrow> string) \<Rightarrow> nat \<Rightarrow> 'w gh_clock \<Rightarrow> 'w github_api \<Rightarrow> repo \<Rightarrow> ('w, string) io" where
  "gh_fetch_metadata indent fuel c api r = bindE (gh_document fuel c api r) (\<lambda>doc. okE (indent doc))"

text \<open>The source that the pipeline is given.\<close>

definition github_source :: "(json \<Rightarrow> string) \<Rightarrow> nat \<Rightarrow> 'w gh_clock \<Rightarrow> 'w github_api \<Rightarrow> 'w token_files \<Rightarrow> gh_setup \<Rightarrow> 'w source" where
  "github_source indent fuel c api fs s = \<lparr>list_repos = gh_list_repos fuel c api (gs_host s), clone_url = (\<lambda>r. okE (clone_url_of (gs_host s) r)),
     fetch_metadata = gh_fetch_metadata indent fuel c api, git_auther = Some (gh_auth_header s fs api)\<rparr>"

subsection \<open>What a document says\<close>

text \<open>How a section stands: what was read of it, or the answer that says it is turned off.\<close>

definition section_stands :: "(gh_section \<Rightarrow> ('w, json list) io) \<Rightarrow> (string \<times> json) list \<Rightarrow> (string \<times> json) list \<Rightarrow> gh_section \<Rightarrow> bool" where
  "section_stands get doc off s \<longleftrightarrow>
     (\<exists>v items v'. get s v = (Inr items, v') \<and> (section_key s, items_json items) \<in> set doc \<and> section_key s \<notin> fst ` set off)
     \<or> (\<exists>v e v' answer. get s v = (Inl e, v') \<and> turned_off e = Some answer \<and> (section_key s, JNull) \<in> set doc
          \<and> (section_key s, JStr answer) \<in> set off)"

lemma section_key_inj: "inj section_key"
  by (auto simp: inj_def section_key_def split: gh_section.splits)

lemma section_key_eq [simp]: "section_key s = section_key t \<longleftrightarrow> s = t"
  using section_key_inj by (auto simp: inj_eq)

lemma gh_read_sections_stand:
  "gh_read_sections get ss doc off w = (Inr (doc', off'), w') \<Longrightarrow> distinct ss \<Longrightarrow> section_key ` set ss \<inter> fst ` set off = {}
    \<Longrightarrow> set doc \<subseteq> set doc' \<and> set off \<subseteq> set off' \<and> fst ` set doc' = fst ` set doc \<union> section_key ` set ss
      \<and> fst ` set off' \<subseteq> fst ` set off \<union> section_key ` set ss \<and> (\<forall>s \<in> set ss. section_stands get doc' off' s)"
proof (induction ss arbitrary: doc off w)
  case Nil
  then show ?case by simp
next
  case (Cons s ss)
  obtain r v where one: "get s w = (r, v)" by (metis prod.collapse)
  show ?case
  proof (cases r)
    case (Inr items)
    let ?doc = "doc @ [(section_key s, items_json items)]"
    have rest: "gh_read_sections get ss ?doc off v = (Inr (doc', off'), w')"
      using Cons.prems(1) one Inr by (simp add: bindE_def tryE_apply)
    have ih: "set ?doc \<subseteq> set doc' \<and> set off \<subseteq> set off' \<and> fst ` set doc' = fst ` set ?doc \<union> section_key ` set ss
      \<and> fst ` set off' \<subseteq> fst ` set off \<union> section_key ` set ss \<and> (\<forall>s \<in> set ss. section_stands get doc' off' s)"
      using Cons.prems(2,3) by (intro Cons.IH [OF rest]) auto
    moreover have "section_key s \<notin> section_key ` set ss" using Cons.prems(2) by (simp add: inj_image_mem_iff [OF section_key_inj])
    with ih Cons.prems(3) have "section_key s \<notin> fst ` set off'" by auto
    with ih one Inr have "section_stands get doc' off' s" unfolding section_stands_def by auto
    ultimately show ?thesis by auto
  next
    case (Inl e)
    from Cons.prems(1) one Inl obtain answer where off: "turned_off e = Some answer"
      by (auto simp: bindE_def tryE_apply split: option.splits)
    let ?doc = "doc @ [(section_key s, JNull)]" and ?off = "off @ [(section_key s, JStr answer)]"
    have rest: "gh_read_sections get ss ?doc ?off v = (Inr (doc', off'), w')"
      using Cons.prems(1) one Inl off by (simp add: bindE_def tryE_apply)
    have ih: "set ?doc \<subseteq> set doc' \<and> set ?off \<subseteq> set off' \<and> fst ` set doc' = fst ` set ?doc \<union> section_key ` set ss
      \<and> fst ` set off' \<subseteq> fst ` set ?off \<union> section_key ` set ss \<and> (\<forall>s \<in> set ss. section_stands get doc' off' s)"
      using Cons.prems(2,3) by (intro Cons.IH [OF rest]) auto
    moreover have "(section_key s, JNull) \<in> set doc'" "(section_key s, JStr answer) \<in> set off'" using ih by auto
    with one Inl off have "section_stands get doc' off' s" unfolding section_stands_def by blast
    ultimately show ?thesis by auto
  qed
qed

lemma gh_sections_all: "set gh_sections = UNIV" "distinct gh_sections"
  by (auto simp: gh_sections_def) (metis gh_section.exhaust)

lemma gh_document_stands:
  assumes "gh_document fuel c api r w = (Inr doc, w')"
  obtains members secs off where "doc = JObj members" and "set secs \<subseteq> set members"
    and "off = [] \<longleftrightarrow> ''unavailable'' \<notin> fst ` set members"
    and "off \<noteq> [] \<Longrightarrow> (''unavailable'', json_map off) \<in> set members"
    and "\<forall>s. section_stands (gh_collect fuel c api r) secs off s"
proof -
  obtain secs off v v' got now where read: "gh_read_sections (gh_collect fuel c api r) gh_sections [] [] v = (Inr (secs, off), v')"
    and doc: "doc = json_map ([(''schema'', JStr meta_schema), (''host'', JStr (rp_host r)), (''owner'', JStr (rp_owner r)), (''name'', JStr (rp_name r)),
         (''fetchedAt'', JStr (format_rfc3339 now)), (''repo'', got)] @ secs
         @ (if off = [] then [] else [(''unavailable'', json_map off)]))"
    using assms unfolding gh_document_def by (auto elim!: bindE_InrE)
  have st: "fst ` set secs = section_key ` UNIV" "\<forall>s. section_stands (gh_collect fuel c api r) secs off s"
    using gh_read_sections_stand [OF read gh_sections_all(2)] gh_sections_all(1) by auto
  define kvs where "kvs = [(''schema'', JStr meta_schema), (''host'', JStr (rp_host r)), (''owner'', JStr (rp_owner r)), (''name'', JStr (rp_name r)),
         (''fetchedAt'', JStr (format_rfc3339 now)), (''repo'', got)] @ secs @ (if off = [] then [] else [(''unavailable'', json_map off)])"
  have "''unavailable'' \<notin> section_key ` UNIV" by (auto simp: section_key_def split: gh_section.splits)
  with st(1) have "''unavailable'' \<notin> fst ` set secs" by simp
  then have "set secs \<subseteq> set (sort_key fst kvs)" "off = [] \<longleftrightarrow> ''unavailable'' \<notin> fst ` set (sort_key fst kvs)"
    "off \<noteq> [] \<Longrightarrow> (''unavailable'', json_map off) \<in> set (sort_key fst kvs)"
    unfolding set_sort by (auto simp: kvs_def)
  from that [OF doc [folded kvs_def, unfolded json_map_def] this] st(2) show thesis unfolding json_map_def by blast
qed

end
