(* ===== verification/Gitlab.thy ===== *)
theory Gitlab
  imports Forge
begin

text \<open>
  src/internal/source/gitlab: the GitLab source, over a client that is a parameter: how it is built,
  what a request off the API may carry, the listing, the credential and the metadata document.
\<close>

section \<open>What a request carries\<close>

definition off_api_headers :: "string set" where
  "off_api_headers = {''Accept'', ''User-Agent''}"

definition api_only :: "string \<Rightarrow> string \<Rightarrow> ('w, 'r) transport \<Rightarrow> ('w, 'r) transport" where
  "api_only scheme host nxt q =
     (if host \<noteq> [] \<and> url_scheme (rq_url q) = scheme \<and> url_host (rq_url q) = host then nxt q
      else nxt (q\<lparr>rq_headers := filter (\<lambda>p. fst p \<in> off_api_headers) (rq_headers q)\<rparr>))"

text \<open>What goes on the network off the API bears no header but those.\<close>

definition plain_or_api :: "string \<Rightarrow> string \<Rightarrow> request \<Rightarrow> bool" where
  "plain_or_api scheme host q \<longleftrightarrow> host \<noteq> [] \<and> url_scheme (rq_url q) = scheme \<and> url_host (rq_url q) = host
     \<or> (\<forall>p \<in> set (rq_headers q). fst p \<in> off_api_headers)"

lemma api_only_sends:
  assumes "\<And>p. plain_or_api scheme host p \<Longrightarrow> rq_url p = rq_url q \<Longrightarrow> rq_hop p = rq_hop q \<Longrightarrow> net p = net' p"
  shows "api_only scheme host net q = api_only scheme host net' q"
  unfolding api_only_def by (auto intro!: assms simp: plain_or_api_def)

section \<open>A source and how it is built\<close>

record gl_setup =
  gl_host :: string
  gl_token :: string
  gl_api :: url

text \<open>\<open>newSource\<close>. The client is built by code that is not here, which says what its base URL is.\<close>

definition gl_new :: "(string \<Rightarrow> string \<Rightarrow> ('w, url) io) \<Rightarrow> string \<Rightarrow> string \<Rightarrow> ('w, gl_setup) io" where
  "gl_new new_client base_url token =
     (if trim_space token = [] then failE (new_error ''gitlab: access token is required'')
      else bindE (mapErrE (wrap_error ''gitlab: new client'') (new_client token base_url)) (\<lambda>api.
        okE \<lparr>gl_host = (if base_url \<noteq> [] then host_from_url ''gitlab.com'' base_url else ''gitlab.com''), gl_token = token, gl_api = api\<rparr>))"

definition gl_transport :: "gl_setup \<Rightarrow> ('w, 'r) transport \<Rightarrow> ('w, 'r) transport" where
  "gl_transport s net = keep_tls (stay_on_api (url_scheme (gl_api s)) (url_host (gl_api s))
     (api_only (url_scheme (gl_api s)) (url_host (gl_api s)) net))"

lemma gl_transport_sends:
  "sends_only (\<lambda>q. plain_or_api (url_scheme (gl_api s)) (url_host (gl_api s)) q \<and> followed (url_scheme (gl_api s)) (url_host (gl_api s)) q)
     (gl_transport s)"
  unfolding gl_transport_def by (rule sends_only_redirects) (rule api_only_sends, blast)

definition gl_auth_header :: "gl_setup \<Rightarrow> ('w, string) io" where
  "gl_auth_header s = okE (basic_auth ''oauth2'' (gl_token s))"

section \<open>The API\<close>

record gl_project =
  gp_namespace :: "string option" \<comment> \<open>its full path\<close>
  gp_path :: string
  gp_http_url :: string
  gp_default_branch :: string
  gp_archived :: bool

datatype gl_items = GlLabels | GlMilestones | GlReleases
datatype gl_threads = GlIssues | GlMergeRequests

text \<open>An issue and a merge request have the number that their notes are listed by.\<close>

record 'w gitlab_api =
  gl_projects :: "int \<Rightarrow> int \<Rightarrow> ('w, gl_project list \<times> int) io"
  gl_project_of :: "string \<Rightarrow> ('w, json) io"
  gl_list :: "gl_items \<Rightarrow> string \<Rightarrow> int \<Rightarrow> int \<Rightarrow> ('w, json list \<times> int option) io"
  gl_list_threads :: "gl_threads \<Rightarrow> string \<Rightarrow> int \<Rightarrow> int \<Rightarrow> ('w, (int \<times> json) list \<times> int option) io"
  gl_list_notes :: "gl_threads \<Rightarrow> string \<Rightarrow> int \<Rightarrow> int \<Rightarrow> int \<Rightarrow> ('w, json list \<times> int option) io"
  gl_wall :: "'w \<Rightarrow> time"

definition gl_to_repo :: "string \<Rightarrow> gl_project \<Rightarrow> repo" where
  "gl_to_repo host p = \<lparr>rp_host = host, rp_owner = (case gp_namespace p of Some n \<Rightarrow> n | None \<Rightarrow> []), rp_name = gp_path p,
     rp_clone_url = gp_http_url p, rp_default_branch = gp_default_branch p, rp_archived = gp_archived p, rp_size_kb = 0\<rparr>"

definition gl_list_page :: "'w gitlab_api \<Rightarrow> string \<Rightarrow> repo_filter \<Rightarrow> int \<Rightarrow> ('w, repo list \<times> int) io" where
  "gl_list_page api host f page =
     bindE (mapErrE (\<lambda>e. wrap_error ''gitlab: list projects'' (scrub_redirect e)) (gl_projects api page 100)) (\<lambda>(ps, nxt).
     okE (filter (\<lambda>r. keep_repo r f) (map (gl_to_repo host) ps), nxt))"

definition gl_list_repos :: "nat \<Rightarrow> 'w gitlab_api \<Rightarrow> string \<Rightarrow> repo_filter \<Rightarrow> ('w, repo list) io" where
  "gl_list_repos fuel api host f = page_loop fuel (gl_list_page api host f) 0 []"

definition gl_serves :: "'w gitlab_api \<Rightarrow> gl_project list \<Rightarrow> bool" where
  "gl_serves api ps \<longleftrightarrow> (\<forall>p w r w'. gl_projects api p 100 w = (Inr r, w') \<longrightarrow> r = (page_items 100 ps p, page_after 100 ps p))"

lemma gl_lists_all:
  assumes "gl_serves api ps" and "gl_list_repos fuel api host f w = (Inr out, w')"
  shows "out = filter (\<lambda>r. keep_repo r f) (map (gl_to_repo host) ps)"
proof -
  have "r = (concat (map (\<lambda>x. filter (\<lambda>r. keep_repo r f) [gl_to_repo host x]) (page_items 100 ps p)), page_after 100 ps p)"
    if "gl_list_page api host f p v = (Inr r, v')" for p v r v'
  proof -
    from that obtain y where "gl_projects api p 100 v = (Inr y, v')"
      and r: "r = (filter (\<lambda>r. keep_repo r f) (map (gl_to_repo host) (fst y)), snd y)"
      unfolding gl_list_page_def by (auto elim!: bindE_InrE split: prod.splits)
    with assms(1) have "y = (page_items 100 ps p, page_after 100 ps p)" unfolding gl_serves_def by blast
    with r show ?thesis by (simp add: filter_map_concat)
  qed
  from page_loop_all [OF this assms(2) [unfolded gl_list_repos_def]] show ?thesis by (simp add: filter_map_concat)
qed

section \<open>The metadata\<close>

definition gl_collect :: "nat \<Rightarrow> (int \<Rightarrow> int \<Rightarrow> ('w, 'a list \<times> int option) io) \<Rightarrow> ('w, 'a list) io" where
  "gl_collect fuel fetch = page_loop fuel
     (\<lambda>page. bindE (mapErrE scrub_redirect (fetch page 100)) (\<lambda>(items, resp). okE (items, next_page resp))) 1 []"

fun gl_notes :: "(int \<Rightarrow> ('w, json list) io) \<Rightarrow> string \<Rightarrow> (int \<times> json) list \<Rightarrow> json list \<Rightarrow> ('w, json list) io" where
  "gl_notes get what [] acc = okE acc"
| "gl_notes get what ((iid, j) # ts) acc = bindE (mapErrE (wrap_error (''gitlab: '' @ what @ '' '' @ show_int iid @ '' notes'')) (get iid))
     (\<lambda>ns. gl_notes get what ts (acc @ ns))"

definition gl_document :: "nat \<Rightarrow> 'w gitlab_api \<Rightarrow> repo \<Rightarrow> ('w, json) io" where
  "gl_document fuel api r = (let pid = path_join [rp_owner r, rp_name r];
       items = (\<lambda>k. gl_collect fuel (gl_list api k pid));
       threads = (\<lambda>k. gl_collect fuel (gl_list_threads api k pid));
       notes = (\<lambda>k iid. gl_collect fuel (gl_list_notes api k pid iid)) in
     bindE (readE (gl_wall api)) (\<lambda>now.
     bindE (mapErrE (\<lambda>e. wrap_error (''gitlab: get project '' @ slug r) (scrub_redirect e)) (gl_project_of api pid)) (\<lambda>project.
     bindE (mapErrE (wrap_error ''gitlab: labels'') (items GlLabels)) (\<lambda>labels.
     bindE (mapErrE (wrap_error ''gitlab: milestones'') (items GlMilestones)) (\<lambda>milestones.
     bindE (mapErrE (wrap_error ''gitlab: issues'') (threads GlIssues)) (\<lambda>issues.
     bindE (mapErrE (wrap_error ''gitlab: merge requests'') (threads GlMergeRequests)) (\<lambda>mrs.
     bindE (mapErrE (wrap_error ''gitlab: releases'') (items GlReleases)) (\<lambda>releases.
     bindE (gl_notes (notes GlIssues) ''issue'' issues []) (\<lambda>of_issues.
     bindE (gl_notes (notes GlMergeRequests) ''mr'' mrs of_issues) (\<lambda>all.
     okE (json_map [(''schema'', JStr meta_schema), (''host'', JStr (rp_host r)), (''owner'', JStr (rp_owner r)), (''name'', JStr (rp_name r)),
         (''fetchedAt'', JStr (format_rfc3339 now)), (''project'', project), (''labels'', items_json labels), (''milestones'', items_json milestones),
         (''issues'', items_json (map snd issues)), (''mergeRequests'', items_json (map snd mrs)), (''releases'', items_json releases),
         (''notes'', items_json all)])))))))))))"

definition gl_fetch_metadata :: "(json \<Rightarrow> string) \<Rightarrow> nat \<Rightarrow> 'w gitlab_api \<Rightarrow> repo \<Rightarrow> ('w, string) io" where
  "gl_fetch_metadata indent fuel api r = bindE (gl_document fuel api r) (\<lambda>doc. okE (indent doc))"

text \<open>The source that the pipeline is given.\<close>

definition gitlab_source :: "(json \<Rightarrow> string) \<Rightarrow> nat \<Rightarrow> 'w gitlab_api \<Rightarrow> gl_setup \<Rightarrow> 'w source" where
  "gitlab_source indent fuel api s = \<lparr>list_repos = gl_list_repos fuel api (gl_host s), clone_url = (\<lambda>r. okE (clone_url_of (gl_host s) r)),
     fetch_metadata = gl_fetch_metadata indent fuel api, git_auther = Some (gl_auth_header s)\<rparr>"

text \<open>The notes are those of every thread, in the order of the threads.\<close>

lemma gl_notes_all:
  assumes "\<And>iid w ns w'. get iid w = (Inr ns, w') \<Longrightarrow> ns = notes iid"
  shows "gl_notes get what ts acc w = (Inr out, w') \<Longrightarrow> out = acc @ concat (map (notes \<circ> fst) ts)"
proof (induction ts arbitrary: acc w)
  case (Cons t ts)
  obtain iid j where t: "t = (iid, j)" by (cases t)
  from Cons.prems [unfolded t] obtain ns v where "get iid w = (Inr ns, v)" and "gl_notes get what ts (acc @ ns) v = (Inr out, w')"
    by (auto elim!: bindE_InrE)
  then have "ns = notes iid" "out = (acc @ ns) @ concat (map (notes \<circ> fst) ts)" using assms Cons.IH by blast+
  with t show ?case by (simp add: comp_def)
qed simp

end
