(* ===== verification/Lab_Forge.thy ===== *)
theory Lab_Forge
  imports Github Gitlab
begin

text \<open>
  A GitHub in memory: a request costs one try, the clock stands still, and the budget is in the world.
\<close>

record lab_net =
  ln_tries :: nat
  ln_budget :: wait_budget

definition lab_clock :: "lab_net gh_clock" where
  "lab_clock = \<lparr>gc_now = (\<lambda>w. 1750000000 * second), gc_sleep = (\<lambda>d. okE ()), gc_jitter = (\<lambda>w. (0, w)), gc_deadline = None,
     gc_budget = ln_budget, gc_charge = (\<lambda>b w. w\<lparr>ln_budget := b\<rparr>)\<rparr>"

definition lab_net :: lab_net where
  "lab_net = \<lparr>ln_tries = 0, ln_budget = \<lparr>wb_max = hour, wb_spent = 0, wb_until = time_zero\<rparr>\<rparr>"

definition lab_request :: "goerr + 'a \<Rightarrow> bool \<Rightarrow> (lab_net, 'a) io" where
  "lab_request answer bypass w = (answer, w\<lparr>ln_tries := ln_tries w + 1\<rparr>)"

interpretation lab_tries: gh_quiet "same_on ln_tries" lab_clock
  by unfold_locales (auto simp: same_on_def steps_in_def lab_clock_def okE_def)

text \<open>A server that answers 502 is asked four times.\<close>

definition bad_gateway :: goerr where
  "bad_gateway = GoErr (GithubResponse (Some 502) ''Bad Gateway'') ''502 Bad Gateway'' []"

lemma bad_gateway_facts: "limit_lifts bad_gateway now waits = None" "is_server_error bad_gateway" "scrub_redirect bad_gateway = bad_gateway"
  by (simp_all add: bad_gateway_def limit_lifts_def is_server_error_def github_response_def scrub_redirect_def redirect_refusal_def Let_def)

lemma lab_clock_simps [simp]: "gc_now lab_clock w = 1750000000 * second" "gc_sleep lab_clock d = okE ()" "jitter lab_clock w = (Inr 0, w)"
    "gc_deadline lab_clock = None"
  by (simp_all add: lab_clock_def jitter_def)

lemma lab_retries:
  assumes "errs + k = 3"
  shows "gh_call lab_clock (lab_request (Inl bad_gateway :: goerr + unit)) b 0 errs w
     = (Inl (transient bad_gateway), w\<lparr>ln_tries := ln_tries w + k + 1\<rparr>)"
  using assms
proof (induction k arbitrary: errs w)
  case 0
  have "lab_request (Inl bad_gateway :: goerr + unit) b w = (Inl bad_gateway, w\<lparr>ln_tries := ln_tries w + 1\<rparr>)"
    by (simp add: lab_request_def)
  with 0 show ?case by (subst gh_call.simps) (simp add: bindE_def tryE_apply bad_gateway_facts server_error_attempts_def)
next
  case (Suc k)
  have "lab_request (Inl bad_gateway :: goerr + unit) b w = (Inl bad_gateway, w\<lparr>ln_tries := ln_tries w + 1\<rparr>)"
    by (simp add: lab_request_def)
  moreover have "\<not> server_error_attempts \<le> errs + 1" using Suc.prems by (simp add: server_error_attempts_def)
  ultimately show ?case using Suc.IH [of "errs + 1" "w\<lparr>ln_tries := ln_tries w + 1\<rparr>"] Suc.prems
    by (subst gh_call.simps) (simp add: bindE_def tryE_apply bad_gateway_facts)
qed

text \<open>An installation of 101 repositories, which take two pages.\<close>

definition lab_repository :: gh_repository where
  "lab_repository = \<lparr>gr_owner = Some ''org'', gr_name = Some ''app'', gr_clone_url = None, gr_default_branch = Some ''main'',
     gr_archived = None, gr_size = None\<rparr>"

definition lab_section :: "gh_section \<Rightarrow> goerr + json list \<times> int option" where
  "lab_section s = (case s of SecLabels \<Rightarrow> Inr ([JStr ''bug''], Some 0)
     | SecPullRequests \<Rightarrow> Inl (GoErr (GithubResponse (Some 404) ''Not Found'') ''404'' []) | _ \<Rightarrow> Inr ([], Some 0))"

definition lab_api :: "lab_net github_api" where
  "lab_api = \<lparr>ga_list_repos = (\<lambda>b p n. okE (Some (page_items 100 (replicate 101 lab_repository) p), Some (page_after 100 (replicate 101 lab_repository) p))),
     ga_get = (\<lambda>b ow name. okE (JStr name)), ga_section = (\<lambda>s state b ow name page n. liftE (lab_section s)),
     ga_app_token = okE ''token'', ga_wall = (\<lambda>w. 1750000000 * second)\<rparr>"

lemma lab_serves: "gh_serves lab_api (replicate 101 lab_repository)"
  by (simp add: gh_serves_def lab_api_def)

lemma gh_call_answered: "fn b w = (Inr x, w') \<Longrightarrow> gh_call c fn b waits errs w = (Inr x, w')"
  by (subst gh_call.simps) (simp add: bindE_def tryE_apply)

lemma lab_list_answers: "\<exists>out. gh_list_repos 2 lab_clock lab_api ''github.com'' f w = (Inr out, w)"
proof -
  let ?rs = "replicate 101 lab_repository"
  have page: "gh_list_page lab_clock lab_api ''github.com'' f p w
      = (Inr (filter (\<lambda>r. keep_repo r f) (map (gh_to_repo ''github.com'') (page_items 100 ?rs p)), page_after 100 ?rs p), w)" for p
    by (simp add: gh_list_page_def bindE_def mapErrE_def gh_call_answered lab_api_def okE_def)
  have "page_after 100 ?rs 0 = 2" "page_after 100 ?rs 2 = 0" by (simp_all add: page_after_def page_no_def)
  then show ?thesis by (simp add: gh_list_repos_def numeral_2_eq_2 bindE_def page)
qed

lemma refused_at_once:
  assumes "fn b w = (Inl e, w')" and "scrub_redirect e = e" and "\<not> limited e" and "\<not> is_server_error e"
  shows "gh_call c fn b waits errs w = (Inl e, w')"
  using assms limited_any [of e] by (subst gh_call.simps) (simp add: bindE_def tryE_apply)

lemma lab_document_is: "\<exists>members. gh_document 1 lab_clock lab_api \<lparr>rp_host = ''github.com'', rp_owner = ''org'', rp_name = ''app'', rp_clone_url = [],
    rp_default_branch = ''main'', rp_archived = False, rp_size_kb = 0\<rparr> w = (Inr (JObj members), w)"
  (is "\<exists>members. gh_document _ _ _ ?r w = _")
proof -
  have off: "github_response (GoErr (GithubResponse (Some 404) ''Not Found'') ''404'' []) = Some (Some 404, ''Not Found'')"
    by (simp add: github_response_def)
  have coll: "gh_collect 1 lab_clock lab_api r s w = (case lab_section s of Inl e \<Rightarrow> Inl e | Inr p \<Rightarrow> Inr (fst p), w)" for r s
  proof (cases "s = SecPullRequests")
    case True
    have "gh_call lab_clock (\<lambda>b. liftE (lab_section s) :: (lab_net, json list \<times> int option) io) False 0 0 w
        = (Inl (GoErr (GithubResponse (Some 404) ''Not Found'') ''404'' []), w)"
      unfolding True
      by (rule refused_at_once) (simp_all add: lab_section_def liftE_def scrub_redirect_def redirect_refusal_def limited_def
          limit_lifts_def is_server_error_def off Let_def)
    then show ?thesis unfolding True by (simp add: gh_collect_def lab_api_def bindE_def lab_section_def)
  next
    case False
    then obtain items where "lab_section s = Inr (items, Some 0)" by (cases s) (auto simp: lab_section_def)
    then show ?thesis
      by (simp add: gh_collect_def lab_api_def bindE_def liftE_def next_page_def gh_call_answered [of _ _ _ "(items, Some 0)"])
  qed
  have "turned_off (GoErr (GithubResponse (Some 404) ''Not Found'') ''404'' []) = Some (show_int 404 @ '' Not Found'')"
    by (simp add: turned_off_def off)
  then have "\<exists>secs off. gh_read_sections (gh_collect 1 lab_clock lab_api r) gh_sections [] [] w = (Inr (secs, off), w)" for r
    by (simp add: gh_sections_def bindE_def tryE_apply coll lab_section_def okE_def del: One_nat_def)
  then obtain secs off where read: "gh_read_sections (gh_collect 1 lab_clock lab_api ?r) gh_sections [] [] w = (Inr (secs, off), w)" by blast
  have "gh_call lab_clock (\<lambda>b. ga_get lab_api b (rp_owner ?r) (rp_name ?r)) False 0 0 w = (Inr (JStr ''app''), w)"
    by (rule gh_call_answered) (simp add: lab_api_def)
  then show ?thesis unfolding gh_document_def bindE_def readE_apply mapErrE_def json_map_def by (simp add: read del: sort_key_simps One_nat_def)
qed

end
