(* ===== verification/Doctor.thy ===== *)
theory Doctor
  imports Run Crypto
begin

text \<open>
  src/internal/cli/doctor.go and doctorcode.go: the checks a bucket, a configuration and a source are
  given before a run, the words a failure is told in, and the document they go out in. Parsing the
  command line is the flag package's; standard output is the lines of the answer.
\<close>

section \<open>What a failure is called\<close>

definition code_dns :: string where "code_dns = ''dns''"
definition code_connect :: string where "code_connect = ''connect''"
definition code_tls :: string where "code_tls = ''tls''"
definition code_timeout :: string where "code_timeout = ''timeout''"
definition code_too_large :: string where "code_too_large = ''too-large''"
definition code_not_s3 :: string where "code_not_s3 = ''not-s3''"
definition code_no_credentials :: string where "code_no_credentials = ''no-credentials''"
definition code_config :: string where "code_config = ''config''"

text \<open>The errors of the standard library and of the Cloud Storage client that are compared with.\<close>

definition err_deadline_exceeded :: goerr where "err_deadline_exceeded = new_error ''context deadline exceeded''"
definition err_canceled :: goerr where "err_canceled = new_error ''context canceled''"
definition err_unexpected_eof :: goerr where "err_unexpected_eof = new_error ''unexpected EOF''"
definition err_conn_refused :: goerr where "err_conn_refused = new_error ''connection refused''"
definition err_conn_reset :: goerr where "err_conn_reset = new_error ''connection reset by peer''"
definition err_scheme_mismatch :: goerr where "err_scheme_mismatch = new_error ''http: server gave HTTP response to HTTPS client''"
definition err_bucket_not_exist :: goerr where "err_bucket_not_exist = new_error (''storage: bucket doesn'' @ CHR 0x27 # ''t exist'')"
definition err_object_not_exist :: goerr where "err_object_not_exist = new_error (''storage: object doesn'' @ CHR 0x27 # ''t exist'')"

text \<open>The parts of the errors that are looked for in the tree.\<close>

definition smithy_code :: "errkind \<Rightarrow> string option" where
  "smithy_code k = (case k of ApiError c m \<Rightarrow> Some c | _ \<Rightarrow> None)"

definition azure_code :: "errkind \<Rightarrow> string option" where
  "azure_code k = (case k of ResponseError c s \<Rightarrow> Some c | _ \<Rightarrow> None)"

definition google_code :: "errkind \<Rightarrow> string option" where
  "google_code k = (case k of GoogleError rs \<Rightarrow> Some (case List.find (\<lambda>r. r \<noteq> []) rs of Some r \<Rightarrow> r | None \<Rightarrow> []) | _ \<Rightarrow> None)"

definition net_op :: "errkind \<Rightarrow> string option" where
  "net_op k = (case k of NetOp op t \<Rightarrow> Some op | _ \<Rightarrow> None)"

definition dns_timeout :: "errkind \<Rightarrow> bool option" where
  "dns_timeout k = (case k of NetDNS t \<Rightarrow> Some t | _ \<Rightarrow> None)"

text \<open>What net.Error's Timeout says.\<close>

definition timeout_of :: "errkind \<Rightarrow> bool option" where
  "timeout_of k = (case k of NetDNS t \<Rightarrow> Some t | NetOp op t \<Rightarrow> Some t | NetErr t \<Rightarrow> Some t | _ \<Rightarrow> None)"

definition found_part :: "(errkind \<Rightarrow> 'a option) \<Rightarrow> goerr \<Rightarrow> 'a option" where
  "found_part part e = (case errors_as (\<lambda>k. part k \<noteq> None) e of Some x \<Rightarrow> part (err_kind x) | None \<Rightarrow> None)"

definition store_code :: "goerr \<Rightarrow> string option" where
  "store_code e =
     (if found_part smithy_code e \<noteq> None then found_part smithy_code e
      else if found_part azure_code e \<noteq> None then found_part azure_code e
      else if found_part google_code e \<noteq> None then found_part google_code e
      else if errors_is e err_bucket_not_exist \<or> errors_is e err_object_not_exist then Some ''notFound'' else None)"

definition is_tls :: "goerr \<Rightarrow> bool" where
  "is_tls e \<longleftrightarrow> errors_as (\<lambda>k. k = NetTLS) e \<noteq> None \<or> errors_is e err_scheme_mismatch
     \<or> (case found_part net_op e of Some op \<Rightarrow> op = ''remote error'' \<or> op = ''local error'' | None \<Rightarrow> False)"

definition error_code :: "goerr \<Rightarrow> string" where
  "error_code e =
     (if errors_is e err_response_too_large then code_too_large
      else if errors_is e err_not_storage_api then code_not_s3
      else if errors_is e err_no_credentials then code_no_credentials
      else case store_code e of Some c \<Rightarrow> shaped_code c
      | None \<Rightarrow>
        if errors_is e err_deadline_exceeded \<or> errors_is e err_canceled then code_timeout
        else if found_part dns_timeout e \<noteq> None then code_dns
        else if is_tls e then code_tls
        else if found_part timeout_of e = Some True then code_timeout
        else if found_part net_op e \<noteq> None \<or> errors_is e err_conn_refused \<or> errors_is e err_conn_reset
            \<or> errors_is e err_unexpected_eof \<or> errors_is e eof then code_connect
        else code_not_s3)"

definition store_answered :: "string \<Rightarrow> bool" where
  "store_answered code \<longleftrightarrow> code \<notin> {code_dns, code_connect, code_tls, code_timeout, code_too_large, code_not_s3, code_no_credentials}"

definition failure :: "string \<Rightarrow> string" where
  "failure code =
     (if code = code_dns then ''the endpoint'' @ CHR 0x27 # ''s host name did not resolve (dns)''
      else if code = code_connect then ''the connection to the endpoint failed (connect)''
      else if code = code_tls then ''the TLS handshake with the endpoint failed (tls)''
      else if code = code_timeout then ''no answer came in time (timeout)''
      else if code = code_too_large then ''an answer ran past 1 MiB, the most doctor reads of one (too-large)''
      else if code = code_not_s3 then ''the endpoint did not answer as the storage API does (not-s3)''
      else if code = code_no_credentials then ''no credential could be obtained, so nothing reached the store (no-credentials)''
      else ''the store answered '' @ code)"

lemmas code_words = code_dns_def code_connect_def code_tls_def code_timeout_def code_too_large_def code_not_s3_def
  code_no_credentials_def

text \<open>
  What an error is called is one of those words, or a word the store wrote that has the shape of a
  code: whatever a store answers, no more than 64 letters, digits, dots and dashes are repeated of it.
\<close>

definition doctor_words :: "string list" where
  "doctor_words = [code_dns, code_connect, code_tls, code_timeout, code_too_large, code_not_s3, code_no_credentials]"

lemma error_code_cases: "error_code e \<in> set doctor_words \<or> (\<exists>c. store_code e = Some c \<and> error_code e = shaped_code c)"
  by (simp add: error_code_def doctor_words_def split: option.split)

definition safe_code :: "string \<Rightarrow> bool" where
  "safe_code s \<longleftrightarrow> s \<noteq> [] \<and> length s \<le> 64 \<and> list_all (\<lambda>c. code_byte c \<or> c = CHR ''-'') s"

lemma error_code_safe: "safe_code (error_code e)"
proof -
  have "list_all safe_code doctor_words" by code_simp
  moreover have "safe_code (shaped_code c)" for c
    using shaped_code_safe [of c] by (auto simp: safe_code_def list_all_iff Suc_le_eq)
  ultimately show ?thesis using error_code_cases [of e] by (auto simp: list_all_iff)
qed

text \<open>A store that answers with one of the words itself is taken for one that did not answer.\<close>

lemma store_can_borrow_a_word:
  "store_code (GoErr (GoogleError [''timeout'']) [] []) = Some ''timeout''
    \<and> \<not> store_answered (error_code (GoErr (GoogleError [''timeout'']) [] []))"
  by code_simp

section \<open>The checks of a destination\<close>

record worm_answer =
  wa_verdict :: "string option"
  wa_mode :: "string option"
  wa_code :: "string option"

record check_result =
  ck_name :: string
  ck_ok :: bool
  ck_detail :: string
  ck_worm :: "worm_answer option"
  ck_observed :: string

definition plain_check :: "string \<Rightarrow> bool \<Rightarrow> string \<Rightarrow> check_result" where
  "plain_check name ok detail = \<lparr>ck_name = name, ck_ok = ok, ck_detail = detail, ck_worm = None, ck_observed = []\<rparr>"

definition observed_present :: string where "observed_present = ''present''"
definition observed_lapsed :: string where "observed_lapsed = ''lapsed''"
definition observed_absent :: string where "observed_absent = ''absent''"
definition observed_unreadable :: string where "observed_unreadable = ''unreadable''"
definition observed_none :: string where "observed_none = ''none''"

lemmas observed_words = observed_present_def observed_lapsed_def observed_absent_def observed_unreadable_def observed_none_def

definition known_mode :: "string \<Rightarrow> string option" where
  "known_mode m = (if m \<in> {''COMPLIANCE'', ''GOVERNANCE'', ''RETENTION'', ''IMMUTABILITY''} then Some m else None)"

definition zero_worm :: worm_status where
  "zero_worm = \<lparr>ws_period = 0, ws_verdict = VerdictUnknown, ws_mode = [], ws_details = [], ws_refusal = None\<rparr>"

text \<open>The check of what the destination answered.\<close>

definition worm_result :: "worm_status \<Rightarrow> bool \<Rightarrow> check_result" where
  "worm_result st require =
     (let code = map_option error_code (ws_refusal st);
          c = \<lparr>ck_name = ''worm'', ck_ok = True, ck_detail = [],
               ck_worm = Some \<lparr>wa_verdict = Some (verdict_wire (ws_verdict st)), wa_mode = known_mode (ws_mode st), wa_code = code\<rparr>, ck_observed = []\<rparr> in
      if (case ws_refusal st of Some e \<Rightarrow> errors_is e err_no_such_bucket | None \<Rightarrow> False)
      then c\<lparr>ck_ok := False, ck_detail := ''the bucket does not exist: '' @ failure (the code) @ ''; backup stops before it copies anything''\<rparr>
      else if immutable (ws_verdict st) then c\<lparr>ck_detail := ''immutable, '' @ ws_details st\<rparr>
      else if require
      then c\<lparr>ck_ok := False, ck_detail := ''NOT immutable ('' @ ws_details st @ ''); worm.require is set, backup would fail''\<rparr>
      else if ws_verdict st = VerdictUnknown
      then c\<lparr>ck_detail := ''could not read immutability ('' @ ws_details st @ ''); check with the provider, backup warns and proceeds''\<rparr>
      else c\<lparr>ck_detail := ''NOT immutable ('' @ ws_details st @ ''), WORM recommended; backup warns and proceeds''\<rparr>)"

definition check_worm :: "'w destination \<Rightarrow> bool \<Rightarrow> ('w, check_result \<times> worm_status) io" where
  "check_worm d require = bindE (tryE (verify_worm d)) (\<lambda>r. okE (case r of
       Inl e \<Rightarrow> let code = error_code e in
         (\<lparr>ck_name = ''worm'', ck_ok = \<not> require, ck_detail = ''could not verify immutability: '' @ failure code,
           ck_worm = Some \<lparr>wa_verdict = None, wa_mode = None, wa_code = Some code\<rparr>, ck_observed = []\<rparr>, zero_worm)
     | Inr st \<Rightarrow> (worm_result st require, st)))"

text \<open>An object from the first page, with whether the store said there is more.\<close>

type_synonym 'w page_lister = "string \<Rightarrow> int \<Rightarrow> ('w, object list \<times> bool) io"

definition any_object :: "'w page_lister \<Rightarrow> ('w, string \<times> bool) io" where
  "any_object page = bindE (page [] 1) (\<lambda>(objs, further).
     okE (case List.find (\<lambda>ob. obj_key ob \<noteq> []) objs of Some ob \<Rightarrow> obj_key ob | None \<Rightarrow> [], further))"

definition needs_permission :: string where
  "needs_permission = ''; on S3 this needs s3:GetObjectRetention, which a create-only credential will not have''"

text \<open>The check of what the store said of that object's retention.\<close>

definition retention_result :: "bool \<Rightarrow> time \<Rightarrow> goerr + retention_observation \<times> time \<Rightarrow> check_result" where
  "retention_result require now answer =
     (let c = \<lparr>ck_name = ''retention'', ck_ok = True, ck_detail = [], ck_worm = None, ck_observed = observed_unreadable\<rparr>;
          unread = ''could not read the retention on an object here'' in
      case answer of
        Inr (RetentionPresent, until) \<Rightarrow>
          if until > now then c\<lparr>ck_observed := observed_present, ck_detail := ''an object here is held until '' @ format_rfc3339 until\<rparr>
          else c\<lparr>ck_observed := observed_lapsed, ck_detail := ''the lock on an object here ended on '' @ format_rfc3339 until
            @ '': the store applied one, and the object is no longer held''\<rparr>
      | Inr (RetentionAbsent, until) \<Rightarrow>
          c\<lparr>ck_observed := observed_absent, ck_ok := \<not> require,
            ck_detail := ''this bucket reports object lock and an object here carries no retention''\<rparr>
      | Inr (RetentionNotChecked, until) \<Rightarrow> c\<lparr>ck_detail := unread @ needs_permission\<rparr>
      | Inl e \<Rightarrow> c\<lparr>ck_detail := unread @ '': '' @ failure (error_code e) @ (if store_answered (error_code e) then needs_permission else [])\<rparr>)"

definition check_retention :: "'w destination \<Rightarrow> 'w page_lister option \<Rightarrow> bool \<Rightarrow> time \<Rightarrow> ('w, check_result option) io" where
  "check_retention d lister require now = (case (observe_retention d, lister) of
       (Some observe, Some page) \<Rightarrow>
         (let c = \<lparr>ck_name = ''retention'', ck_ok = True, ck_detail = [], ck_worm = None, ck_observed = []\<rparr> in
          bindE (tryE (any_object page)) (\<lambda>r. case r of
            Inl e \<Rightarrow> okE (Some (c\<lparr>ck_observed := observed_unreadable,
              ck_detail := ''could not list the destination to find an object to check: '' @ failure (error_code e)\<rparr>))
          | Inr (key, further) \<Rightarrow>
              if key = [] \<and> further then okE (Some (c\<lparr>ck_observed := observed_none,
                ck_detail := ''the first page of the listing named no object and doctor reads no further, so there is no object to check''\<rparr>))
              else if key = [] then okE (Some (c\<lparr>ck_observed := observed_none,
                ck_detail := ''nothing written here yet, so there is no object to check''\<rparr>))
              else bindE (tryE (observe key)) (\<lambda>answer. okE (Some (retention_result require now answer)))))
     | _ \<Rightarrow> okE None)"

definition check_destination :: "'w destination \<Rightarrow> 'w page_lister option \<Rightarrow> bool \<Rightarrow> time \<Rightarrow> ('w, check_result list) io" where
  "check_destination d lister require now =
     bindE (check_worm d require) (\<lambda>(c, st).
       if immutable (ws_verdict st)
       then bindE (check_retention d lister require now) (\<lambda>r. okE (case r of Some x \<Rightarrow> [c, x] | None \<Rightarrow> [c]))
       else okE [c])"

section \<open>The document\<close>

definition opt_json :: "string option \<Rightarrow> json" where
  "opt_json x = (case x of Some s \<Rightarrow> JStr s | None \<Rightarrow> JNull)"

definition enc_check :: "check_result \<Rightarrow> json" where
  "enc_check c = JObj ([(''name'', JStr (ck_name c)), (''ok'', JBool (ck_ok c)), (''detail'', JStr (ck_detail c))]
     @ (case ck_worm c of Some a \<Rightarrow> [(''verdict'', opt_json (wa_verdict a)), (''mode'', opt_json (wa_mode a)), (''code'', opt_json (wa_code a))] | None \<Rightarrow> [])
     @ omit_str ''observed'' (ck_observed c))"

definition doctor_schema :: string where "doctor_schema = ''gitdr.doctor/v1''"

definition enc_doctor :: "bool \<Rightarrow> json list \<Rightarrow> json" where
  "enc_doctor ok checks = JObj [(''schema'', JStr doctor_schema), (''ok'', JBool ok), (''checks'', if checks = [] then JNull else JArr checks)]"

definition check_line :: "check_result \<Rightarrow> string" where
  "check_line c = ''['' @ (if ck_ok c then ''ok'' else ''FAIL'') @ ''] '' @ ck_name c @ '', '' @ ck_detail c"

definition emit_doctor :: "(json \<Rightarrow> string) \<Rightarrow> string \<Rightarrow> check_result list \<Rightarrow> int \<times> string list" where
  "emit_doctor indent output checks = (let ok = list_all ck_ok checks in
     (if ok then 0 else 1, if output = ''json'' then [indent (enc_doctor ok (map enc_check checks))] else map check_line checks))"

definition unloaded_config :: json where
  "unloaded_config = enc_doctor False [JObj [(''name'', JStr ''config''), (''ok'', JBool False),
     (''detail'', JStr ''could not read or parse the config; the error is on stderr''), (''code'', JStr code_config)]]"

section \<open>The command\<close>

record doctor_flags =
  df_only :: "string option"   \<comment> \<open>None where it is not on the line\<close>
  df_timeout :: duration
  df_output :: string

text \<open>
  What the command builds and asks: the configuration, the tools on the path, the source with the
  check of its token file where it has one, and the destination with its reader of pages.
\<close>

record 'w token_checker =
  tk_uses_file :: bool
  tk_check :: "('w, unit) io"

record 'w doctor_deps =
  dx_load :: "('w, config) io"
  dx_machine :: "'w machine"
  dx_source :: "config \<Rightarrow> ('w, 'w source \<times> 'w token_checker option) io"
  dx_dest :: "config \<Rightarrow> ('w, 'w destination \<times> 'w page_lister option) io"
  dx_clock :: "'w \<Rightarrow> time"
  dx_indent :: "json \<Rightarrow> string"

definition resolve_encryption_key :: "config \<Rightarrow> goerr + string option" where
  "resolve_encryption_key cfg = (case encryption_key_material cfg of
       Inl e \<Rightarrow> Inl e | Inr None \<Rightarrow> Inr None | Inr (Some mat) \<Rightarrow> map_sum id Some (parse_encryption_key mat))"

definition doctor_scope :: "string option \<Rightarrow> goerr + bool" where
  "doctor_scope only = (case only of
       None \<Rightarrow> Inr False
     | Some s \<Rightarrow> if s = ''destination'' then Inr True
         else Inl (new_error (''doctor: -only takes \"destination\", not '' @ quote s)))"

definition check_auther :: "'w source \<Rightarrow> ('w, check_result) io" where
  "check_auther src = (case git_auther src of
       Some ga \<Rightarrow> bindE (tryE ga) (\<lambda>r. okE (case r of
           Inl e \<Rightarrow> plain_check ''source auth'' False (err_text e)
         | Inr _ \<Rightarrow> plain_check ''source auth'' True ''installation token minted''))
     | None \<Rightarrow> okE (plain_check ''source'' True ''built''))"

definition check_source :: "'w source \<Rightarrow> 'w token_checker option \<Rightarrow> ('w, check_result) io" where
  "check_source src tc = (case tc of
       Some t \<Rightarrow> if tk_uses_file t
         then bindE (tryE (tk_check t)) (\<lambda>r. okE (case r of
             Inl e \<Rightarrow> plain_check ''source auth'' False (err_text e)
           | Inr _ \<Rightarrow> plain_check ''source auth'' True ''token file read and accepted by GitHub''))
         else check_auther src
     | None \<Rightarrow> check_auther src)"

definition check_tools :: "'w doctor_deps \<Rightarrow> ('w, check_result list) io" where
  "check_tools x = bindE (readE (look_path (dx_machine x) ''git'')) (\<lambda>git. bindE (readE (look_path (dx_machine x) ''git-lfs'')) (\<lambda>lfs.
     okE [plain_check ''git'' git (if git then ''found'' else ''not found on PATH''),
          plain_check ''git-lfs'' True (if lfs then ''found'' else ''not found (LFS objects will be skipped)'')]))"

definition check_key :: "config \<Rightarrow> check_result list" where
  "check_key cfg = (if \<not> cf_encrypt cfg then [] else case resolve_encryption_key cfg of
       Inl e \<Rightarrow> [plain_check ''encryption key'' False (err_text e)]
     | Inr _ \<Rightarrow> [plain_check ''encryption key'' True ''valid 32-byte key''])"

definition doctor_source :: "'w doctor_deps \<Rightarrow> config \<Rightarrow> ('w, check_result) io" where
  "doctor_source x cfg = bindE (tryE (dx_source x cfg)) (\<lambda>r. case r of
       Inl e \<Rightarrow> okE (plain_check ''source'' False (err_text e))
     | Inr (src, tc) \<Rightarrow> check_source src tc)"

definition doctor_dest :: "'w doctor_deps \<Rightarrow> config \<Rightarrow> ('w, check_result list) io" where
  "doctor_dest x cfg = bindE (tryE (dx_dest x cfg)) (\<lambda>r. case r of
       Inl e \<Rightarrow> okE [plain_check ''destination'' False (err_text e)]
     | Inr (d, lister) \<Rightarrow> bindE (readE (dx_clock x)) (\<lambda>now. check_destination d lister (cf_worm_require cfg) now))"

text \<open>The checks, in their order; a configuration that is refused is the last of them.\<close>

definition doctor_checks :: "'w doctor_deps \<Rightarrow> bool \<Rightarrow> config \<Rightarrow> ('w, check_result list) io" where
  "doctor_checks x dest_only cfg =
     bindE (if dest_only then okE [] else check_tools x) (\<lambda>tools.
     case (if dest_only then validate_destination cfg else validate cfg) of
       Some e \<Rightarrow> okE (tools @ [plain_check ''config'' False (err_text e)])
     | None \<Rightarrow>
         bindE (if dest_only then okE [] else bindE (doctor_source x cfg) (\<lambda>c. okE (check_key cfg @ [c]))) (\<lambda>src.
         bindE (doctor_dest x cfg) (\<lambda>dst.
         okE (tools @ [plain_check ''config'' True ''valid''] @ src @ dst))))"

definition run_doctor :: "'w doctor_deps \<Rightarrow> doctor_flags \<Rightarrow> ('w, int \<times> string list) io" where
  "run_doctor x f = (case doctor_scope (df_only f) of
       Inl e \<Rightarrow> okE (2, [])
     | Inr dest_only \<Rightarrow>
         if df_timeout f < 0 then okE (2, [])
         else bindE (tryE (dx_load x)) (\<lambda>r. case r of
             Inl e \<Rightarrow> okE (1, if df_output f = ''json'' then [dx_indent x unloaded_config] else [])
           | Inr cfg \<Rightarrow> bindE (doctor_checks x dest_only cfg) (\<lambda>checks. okE (emit_doctor (dx_indent x) (df_output f) checks))))"

section \<open>What the checks say\<close>

definition says :: "(goerr + check_result \<times> worm_status) \<times> 'w \<Rightarrow> bool" where
  "says x = (case x of (Inr (c, st), w) \<Rightarrow> ck_ok c | (Inl e, w) \<Rightarrow> False)"

text \<open>What it says of a lock, the destination has answered.\<close>

lemma check_worm_cases:
  assumes "check_worm d require w = (Inr (c, st), w')"
  obtains (answered) "verify_worm d w = (Inr st, w')" and "c = worm_result st require"
  | (failed) e where "verify_worm d w = (Inl e, w')" and "st = zero_worm" and "ck_ok c \<longleftrightarrow> \<not> require" and "ck_observed c = []"
      and "ck_worm c = Some \<lparr>wa_verdict = None, wa_mode = None, wa_code = Some (error_code e)\<rparr>"
  using assms by (cases "verify_worm d w"; cases "fst (verify_worm d w)") (auto simp: check_worm_def bindE_def tryE_apply Let_def okE_def)

definition bucket_missing :: "worm_status \<Rightarrow> bool" where
  "bucket_missing st \<longleftrightarrow> (case ws_refusal st of Some e \<Rightarrow> errors_is e err_no_such_bucket | None \<Rightarrow> False)"

lemma worm_result_says:
  "ck_worm (worm_result st require) = Some \<lparr>wa_verdict = Some (verdict_wire (ws_verdict st)), wa_mode = known_mode (ws_mode st),
     wa_code = map_option error_code (ws_refusal st)\<rparr>"
  "ck_observed (worm_result st require) = []"
  "ck_ok (worm_result st require) \<longleftrightarrow> \<not> bucket_missing st \<and> (immutable (ws_verdict st) \<or> \<not> require)"
  by (simp_all add: worm_result_def bucket_missing_def Let_def)

lemma check_worm_says:
  assumes "check_worm d require w = (Inr (c, st), w')"
  shows "ck_worm c = Some a \<Longrightarrow> wa_verdict a = Some v \<Longrightarrow> verify_worm d w = (Inr st, w') \<and> v = verdict_wire (ws_verdict st)"
    and "require \<Longrightarrow> ck_ok c \<Longrightarrow> verify_worm d w = (Inr st, w') \<and> immutable (ws_verdict st)"
    and "immutable (ws_verdict st) \<Longrightarrow> verify_worm d w = (Inr st, w')"
    and "ck_worm c = Some a \<Longrightarrow> wa_code a = Some code \<Longrightarrow> safe_code code"
    and "ck_observed c = []"
proof -
  have all: "(ck_worm c = Some a \<longrightarrow> wa_verdict a = Some v \<longrightarrow> verify_worm d w = (Inr st, w') \<and> v = verdict_wire (ws_verdict st))
    \<and> (require \<longrightarrow> ck_ok c \<longrightarrow> verify_worm d w = (Inr st, w') \<and> immutable (ws_verdict st))
    \<and> (immutable (ws_verdict st) \<longrightarrow> verify_worm d w = (Inr st, w'))
    \<and> (ck_worm c = Some a \<longrightarrow> wa_code a = Some code \<longrightarrow> safe_code code) \<and> ck_observed c = []"
    using assms
  proof (cases rule: check_worm_cases)
    case answered
    then show ?thesis using error_code_safe by (auto simp: worm_result_says)
  next
    case (failed e)
    then show ?thesis using error_code_safe [of e] by (auto simp: zero_worm_def immutable_def)
  qed
  then show "ck_worm c = Some a \<Longrightarrow> wa_verdict a = Some v \<Longrightarrow> verify_worm d w = (Inr st, w') \<and> v = verdict_wire (ws_verdict st)"
    and "require \<Longrightarrow> ck_ok c \<Longrightarrow> verify_worm d w = (Inr st, w') \<and> immutable (ws_verdict st)"
    and "immutable (ws_verdict st) \<Longrightarrow> verify_worm d w = (Inr st, w')"
    and "ck_worm c = Some a \<Longrightarrow> wa_code a = Some code \<Longrightarrow> safe_code code"
    and "ck_observed c = []" by blast+
qed

text \<open>The check of a destination and the preflight of a run decide alike.\<close>

lemma check_worm_agrees:
  "says (check_worm (bk_dst r) (bk_require_worm r) w) \<longleftrightarrow> (\<exists>st w'. worm_check r w = (Inr st, w'))"
proof -
  obtain x w1 where v: "verify_worm (bk_dst r) w = (x, w1)" by (metis prod.collapse)
  show ?thesis
  proof (cases x)
    case (Inl e)
    then show ?thesis using v by (simp add: says_def check_worm_def worm_check_def bindE_def tryE_apply Let_def okE_def failE_def)
  next
    case (Inr st)
    have "says (check_worm (bk_dst r) (bk_require_worm r) w) \<longleftrightarrow> \<not> bucket_missing st \<and> (immutable (ws_verdict st) \<or> \<not> bk_require_worm r)"
      using v Inr by (simp add: says_def check_worm_def bindE_def tryE_apply okE_def worm_result_says)
    also have "\<dots> \<longleftrightarrow> (\<exists>st w'. worm_check r w = (Inr st, w'))"
      using v Inr by (auto simp: worm_check_def bucket_missing_def bindE_def tryE_apply okE_def failE_def split: option.splits)
    finally show ?thesis .
  qed
qed

lemma retention_result_says:
  "ck_observed (retention_result require now answer) = (case answer of
       Inr (RetentionPresent, until) \<Rightarrow> if now < until then observed_present else observed_lapsed
     | Inr (RetentionAbsent, until) \<Rightarrow> observed_absent | _ \<Rightarrow> observed_unreadable)"
  "ck_ok (retention_result require now answer) \<longleftrightarrow> \<not> (require \<and> (\<exists>until. answer = Inr (RetentionAbsent, until)))"
  "ck_worm (retention_result require now answer) = None"
  by (simp_all add: retention_result_def Let_def split: sum.split prod.split retention_observation.split)

lemma observed_distinct: "distinct [observed_present, observed_lapsed, observed_absent, observed_unreadable, observed_none]"
  by (simp add: observed_words)

lemma check_retention_cases:
  assumes "check_retention d lister require now w = (Inr (Some c), w')"
  obtains observe page r v where "observe_retention d = Some observe" and "lister = Some page" and "any_object page w = (r, v)"
    and "\<forall>key further. r = Inr (key, further) \<longrightarrow> key = []" and "ck_ok c" and "ck_observed c \<in> {observed_unreadable, observed_none}"
    and "ck_worm c = None"
  | observe page key further v answer where "observe_retention d = Some observe" and "lister = Some page"
    and "any_object page w = (Inr (key, further), v)" and "key \<noteq> []" and "observe key v = (answer, w')" and "c = retention_result require now answer"
proof -
  obtain observe page where o: "observe_retention d = Some observe" "lister = Some page"
    using assms by (cases "observe_retention d"; cases lister) (simp_all add: check_retention_def)
  obtain r v where a: "any_object page w = (r, v)" by (metis prod.collapse)
  show thesis
  proof (cases "\<exists>key further. r = Inr (key, further) \<and> key \<noteq> []")
    case True
    then obtain key further where k: "r = Inr (key, further)" "key \<noteq> []" by blast
    obtain answer u where ans: "observe key v = (answer, u)" by (metis prod.collapse)
    have "c = retention_result require now answer" "u = w'"
      using assms o a k ans by (simp_all add: check_retention_def bindE_def tryE_apply Let_def okE_def)
    with that(2) o a k ans show thesis by blast
  next
    case False
    then have none: "\<forall>key further. r = Inr (key, further) \<longrightarrow> key = []" by blast
    have "ck_ok c \<and> ck_observed c \<in> {observed_unreadable, observed_none} \<and> ck_worm c = None"
    proof (cases r)
      case (Inl e)
      with assms o a show ?thesis by (auto simp: check_retention_def bindE_def tryE_apply Let_def okE_def)
    next
      case (Inr y)
      with none obtain further where "y = ([], further)" by (metis prod.collapse)
      with Inr assms o a show ?thesis by (cases further) (auto simp: check_retention_def bindE_def tryE_apply Let_def okE_def)
    qed
    with that(1) o a none show thesis by blast
  qed
qed

lemma check_retention_says:
  assumes "check_retention d lister require now w = (Inr (Some c), w')" and "ck_observed c \<in> {observed_present, observed_lapsed, observed_absent}"
  obtains observe page key further v ob until where "observe_retention d = Some observe" and "lister = Some page"
    and "any_object page w = (Inr (key, further), v)" and "key \<noteq> []" and "observe key v = (Inr (ob, until), w')"
    and "ck_observed c = observed_present \<longleftrightarrow> ob = RetentionPresent \<and> now < until"
    and "ck_observed c = observed_lapsed \<longleftrightarrow> ob = RetentionPresent \<and> until \<le> now"
    and "ck_observed c = observed_absent \<longleftrightarrow> ob = RetentionAbsent"
  using assms(1)
proof (cases rule: check_retention_cases)
  case (1 observe page r v)
  with assms(2) observed_distinct show thesis by auto
next
  case (2 observe page key further v answer)
  with assms(2) observed_distinct obtain ob until where a: "answer = Inr (ob, until)" "ob \<noteq> RetentionNotChecked"
    by (cases answer) (auto simp: retention_result_says split: retention_observation.splits)
  have "(ck_observed c = observed_present \<longleftrightarrow> ob = RetentionPresent \<and> now < until)
    \<and> (ck_observed c = observed_lapsed \<longleftrightarrow> ob = RetentionPresent \<and> until \<le> now)
    \<and> (ck_observed c = observed_absent \<longleftrightarrow> ob = RetentionAbsent)"
    unfolding 2(6) retention_result_says a(1) using observed_distinct a(2) by (cases ob) auto
  with that [of observe page key further v ob until] 2 a(1) show thesis by blast
qed

lemma check_destination_says:
  assumes "check_destination d lister require now w = (Inr cs, w')" and "c \<in> set cs"
  obtains (worm) st v where "check_worm d require w = (Inr (c, st), v)"
  | (retention) v where "check_retention d lister require now v = (Inr (Some c), w')" and "ck_worm c = None"
proof -
  obtain c0 st v where worm: "check_worm d require w = (Inr (c0, st), v)"
    and rest: "(if immutable (ws_verdict st)
       then bindE (check_retention d lister require now) (\<lambda>r. okE (case r of Some x \<Rightarrow> [c0, x] | None \<Rightarrow> [c0]))
       else okE [c0]) v = (Inr cs, w')"
    using assms(1) unfolding check_destination_def by (auto elim!: bindE_InrE)
  show thesis
  proof (cases "c = c0")
    case True
    with worm that(1) show thesis by blast
  next
    case False
    with rest assms(2) have "check_retention d lister require now v = (Inr (Some c), w')"
      by (auto elim!: bindE_InrE split: if_splits option.splits)
    moreover from this have "ck_worm c = None"
      by (cases rule: check_retention_cases) (auto simp: retention_result_says)
    ultimately show thesis using that(2) by blast
  qed
qed

lemma doctor_dest_green:
  assumes "doctor_dest x cfg w = (Inr cs, w')" and "list_all ck_ok cs"
  shows "\<exists>d lister v. dx_dest x cfg w = (Inr (d, lister), v) \<and> (cf_worm_require cfg \<longrightarrow> (\<exists>st u. verify_worm d v = (Inr st, u) \<and> immutable (ws_verdict st)))"
proof -
  obtain r v where r: "dx_dest x cfg w = (r, v)" by (metis prod.collapse)
  show ?thesis
  proof (cases r)
    case (Inl e)
    with assms r show ?thesis by (auto simp: doctor_dest_def bindE_def tryE_apply plain_check_def okE_def)
  next
    case (Inr y)
    obtain d lister where y: "y = (d, lister)" by (cases y)
    have "check_destination d lister (cf_worm_require cfg) (dx_clock x v) v = (Inr cs, w')"
      using assms(1) r Inr y by (simp add: doctor_dest_def bindE_def tryE_apply)
    then obtain c st u where "check_worm d (cf_worm_require cfg) v = (Inr (c, st), u)" and "c \<in> set cs"
      unfolding check_destination_def by (auto elim!: bindE_InrE split: if_splits option.splits)
    moreover from this assms(2) have "ck_ok c" by (simp add: list_all_iff)
    ultimately have "cf_worm_require cfg \<longrightarrow> verify_worm d v = (Inr st, u) \<and> immutable (ws_verdict st)"
      using check_worm_says(2) [of d "cf_worm_require cfg" v c st u] by blast
    then have "cf_worm_require cfg \<longrightarrow> (\<exists>st u. verify_worm d v = (Inr st, u) \<and> immutable (ws_verdict st))" by blast
    with r Inr y show ?thesis by blast
  qed
qed

lemma doctor_checks_green:
  assumes "doctor_checks x only cfg w = (Inr cs, w')" and "list_all ck_ok cs"
  shows "(if only then validate_destination cfg else validate cfg) = None
    \<and> (\<exists>d lister u v. dx_dest x cfg u = (Inr (d, lister), v) \<and> (cf_worm_require cfg \<longrightarrow> (\<exists>st u. verify_worm d v = (Inr st, u) \<and> immutable (ws_verdict st))))"
proof -
  obtain tools v where rest: "(case (if only then validate_destination cfg else validate cfg) of
       Some e \<Rightarrow> okE (tools @ [plain_check ''config'' False (err_text e)])
     | None \<Rightarrow>
         bindE (if only then okE [] else bindE (doctor_source x cfg) (\<lambda>c. okE (check_key cfg @ [c]))) (\<lambda>src.
         bindE (doctor_dest x cfg) (\<lambda>dst.
         okE (tools @ [plain_check ''config'' True ''valid''] @ src @ dst)))) v = (Inr cs, w')"
    using assms(1) unfolding doctor_checks_def by (rule bindE_InrE)
  show ?thesis
  proof (cases "if only then validate_destination cfg else validate cfg")
    case (Some e)
    with rest assms(2) show ?thesis unfolding Some by (auto simp: plain_check_def)
  next
    case None
    from rest [unfolded None option.case] obtain src dst u where "doctor_dest x cfg u = (Inr dst, w')"
      and cs: "cs = tools @ [plain_check ''config'' True ''valid''] @ src @ dst" by (auto elim!: bindE_InrE)
    with assms(2) have "list_all ck_ok dst" by simp
    from doctor_dest_green [OF \<open>doctor_dest x cfg u = (Inr dst, w')\<close> this] None show ?thesis by blast
  qed
qed

lemma doctor_green:
  assumes "run_doctor x f w = (Inr (0, out), w')"
  shows "\<exists>cfg v. dx_load x w = (Inr cfg, v) \<and> (if df_only f = Some ''destination'' then validate_destination cfg else validate cfg) = None
    \<and> (\<exists>d lister u u'. dx_dest x cfg u = (Inr (d, lister), u')
        \<and> (cf_worm_require cfg \<longrightarrow> (\<exists>st u. verify_worm d u' = (Inr st, u) \<and> immutable (ws_verdict st))))"
proof -
  obtain only where scope: "doctor_scope (df_only f) = Inr only"
    using assms by (cases "doctor_scope (df_only f)") (simp_all add: run_doctor_def okE_def)
  then have only: "only \<longleftrightarrow> df_only f = Some ''destination''"
    unfolding doctor_scope_def by (cases "df_only f") (auto split: if_splits)
  obtain r v where l: "dx_load x w = (r, v)" by (metis prod.collapse)
  show ?thesis
  proof (cases r)
    case (Inl e)
    with assms scope l show ?thesis by (simp add: run_doctor_def bindE_def tryE_apply okE_def split: if_splits)
  next
    case (Inr cfg)
    obtain cs where checks: "doctor_checks x only cfg v = (Inr cs, w')" and "emit_doctor (dx_indent x) (df_output f) cs = (0, out)"
      using assms scope l Inr by (auto simp: run_doctor_def bindE_def tryE_apply okE_def split: if_splits sum.splits prod.splits)
    then have "list_all ck_ok cs" by (simp add: emit_doctor_def Let_def split: if_splits)
    from doctor_checks_green [OF checks this] only l Inr show ?thesis by auto
  qed
qed

end
