(* ===== verification/Lab_Doctor.thy ===== *)
theory Lab_Doctor
  imports Doctor Lab
begin

text \<open>A bucket that locks, asked by a configuration that requires it.\<close>

definition lab_doctor_config :: config where
  "lab_doctor_config = default_config\<lparr>cf_worm_require := True,
     cf_destination := (cf_destination default_config)\<lparr>dc_s3 := (dc_s3 (cf_destination default_config))\<lparr>s3_bucket := ''b''\<rparr>\<rparr>\<rparr>"

definition lab_doctor :: "lab doctor_deps" where
  "lab_doctor = \<lparr>dx_load = okE lab_doctor_config, dx_machine = machine.truncate lab_workspace, dx_source = (\<lambda>c. okE (lab_source, None)),
     dx_dest = (\<lambda>c. okE (lab_destination VerdictImmutable, None)), dx_clock = (\<lambda>w. 0), dx_indent = json_print lab_codec\<rparr>"

lemma lab_doctor_valid: "validate_destination lab_doctor_config = None"
  by code_simp

lemma lab_doctor_green:
  "\<exists>out. run_doctor lab_doctor \<lparr>df_only = Some ''destination'', df_timeout = 0, df_output = ''text''\<rparr> lab_start = (Inr (0, out), lab_start)"
proof -
  let ?st = "\<lparr>ws_period = 0, ws_verdict = VerdictImmutable, ws_mode = [], ws_details = [], ws_refusal = None\<rparr>"
  have "doctor_checks lab_doctor True lab_doctor_config lab_start
      = (Inr [plain_check ''config'' True ''valid'', worm_result ?st (cf_worm_require lab_doctor_config)], lab_start)"
    by (simp add: doctor_checks_def lab_doctor_valid doctor_dest_def lab_doctor_def check_destination_def check_worm_def check_retention_def
        lab_destination_def bindE_def tryE_apply okE_def immutable_def)
  moreover have "list_all ck_ok [plain_check ''config'' True ''valid'', worm_result ?st (cf_worm_require lab_doctor_config)]"
    by (simp add: plain_check_def worm_result_says bucket_missing_def immutable_def)
  ultimately show ?thesis
    by (simp add: run_doctor_def doctor_scope_def emit_doctor_def bindE_def tryE_apply okE_def Let_def lab_doctor_def)
qed

end
