(* ===== verification/Metrics.thy ===== *)
theory Metrics
  imports Go_Time
begin

text \<open>
  src/internal/metrics/metrics.go: the file of a run's metrics, written beside itself and renamed, so
  that what reads it finds the last run's or this one's.
\<close>

record 'w metrics_files =
  mf_create_temp :: "string \<Rightarrow> string \<Rightarrow> ('w, string) io"
  mf_write :: "string \<Rightarrow> string \<Rightarrow> ('w, unit) io"
  mf_close :: "string \<Rightarrow> ('w, unit) io"
  mf_chmod :: "string \<Rightarrow> int \<Rightarrow> ('w, unit) io"
  mf_rename :: "string \<Rightarrow> string \<Rightarrow> ('w, unit) io"
  mf_remove :: "string \<Rightarrow> 'w \<Rightarrow> 'w"

definition atomic_write :: "'w metrics_files \<Rightarrow> string \<Rightarrow> string \<Rightarrow> ('w, unit) io" where
  "atomic_write m path data =
     bindE (mapErrE (wrap_error ''metrics: temp file'') (mf_create_temp m (path_dir path) ''.gitdr-*.prom.tmp'')) (\<lambda>tmp.
     deferE (mf_remove m tmp)
       (bindE (tryE (mf_write m tmp data)) (\<lambda>r. case r of
          Inl e \<Rightarrow> bindE (tryE (mf_close m tmp)) (\<lambda>_. failE (wrap_error ''metrics: write'' e))
        | Inr _ \<Rightarrow>
          bindE (mapErrE (wrap_error ''metrics: close'') (mf_close m tmp)) (\<lambda>_.
          bindE (mapErrE (wrap_error ''metrics: chmod'') (mf_chmod m tmp 420)) (\<lambda>_.
          mapErrE (wrap_error ''metrics: rename'') (mf_rename m tmp path))))))"

definition metrics_text :: "time \<Rightarrow> nat \<Rightarrow> string" where
  "metrics_text now repos =
     ''# HELP gitdr_last_successful_run Unix timestamp (seconds) of the last successful gitdr backup.'' @ CHR 0x0A
     # ''# TYPE gitdr_last_successful_run gauge'' @ CHR 0x0A
     # ''gitdr_last_successful_run '' @ show_int (secs_of now) @ CHR 0x0A
     # ''# HELP gitdr_repos_backed_up Repositories protected by the last successful run.'' @ CHR 0x0A
     # ''# TYPE gitdr_repos_backed_up gauge'' @ CHR 0x0A
     # ''gitdr_repos_backed_up '' @ show_nat repos @ [CHR 0x0A]"

definition write_success :: "'w metrics_files \<Rightarrow> ('w \<Rightarrow> time) \<Rightarrow> string \<Rightarrow> nat \<Rightarrow> ('w, unit) io" where
  "write_success m clock path repos =
     (if path = [] then okE () else bindE (readE clock) (\<lambda>now. atomic_write m path (metrics_text now repos)))"

text \<open>
  What the file system does: a temporary file is new and is named by its pattern, a write that fails
  leaves some of it, a rename puts a file in another's place at once.
\<close>

locale metrics_disk =
  fixes m :: "'w metrics_files" and files :: "'w \<Rightarrow> (string \<rightharpoonup> string)"
  assumes temp_made: "mf_create_temp m dir pat w = (Inr t, w') \<Longrightarrow> files w t = None \<and> has_suffix ''.prom.tmp'' t \<and> files w' = (files w)(t \<mapsto> [])"
    and temp_refused: "mf_create_temp m dir pat w = (Inl e, w') \<Longrightarrow> files w' = files w"
    and write_adds: "mf_write m t s w = (x, w') \<Longrightarrow> files w t = Some old \<Longrightarrow>
      \<exists>part. files w' = (files w)(t \<mapsto> old @ part) \<and> (\<forall>u. x = Inr u \<longrightarrow> part = s)"
    and close_same: "steps_in (same_on files) (mf_close m t)"
    and chmod_same: "steps_in (same_on files) (mf_chmod m t mode)"
    and renamed: "mf_rename m t path w = (Inr u, w') \<Longrightarrow> files w' = (files w)(path := files w t, t := None)"
    and not_renamed: "mf_rename m t path w = (Inl e, w') \<Longrightarrow> files w' = files w"
    and removed: "files (mf_remove m t w) = (files w)(t := None)"
begin

text \<open>The file is whole or as it was, and nothing else is left.\<close>

lemma atomic_write_whole:
  assumes w: "atomic_write m path data w = (x, w')" and path: "\<not> has_suffix ''.prom.tmp'' path"
  shows "files w' = (case x of Inr u \<Rightarrow> (files w)(path \<mapsto> data) | Inl e \<Rightarrow> files w)"
proof -
  from w show ?thesis unfolding atomic_write_def
  proof (cases rule: bindE_cases)
    case (1 e)
    then have "\<exists>e. mf_create_temp m (path_dir path) ''.gitdr-*.prom.tmp'' w = (Inl e, w')" by (auto simp: mapErrE_def split: prod.splits sum.splits)
    with 1 temp_refused show ?thesis by auto
  next
    case (2 t v)
    then have t: "files w t = None" "t \<noteq> path" "files v = (files w)(t \<mapsto> [])" using temp_made path by auto
    define body where "body = bindE (tryE (mf_write m t data)) (\<lambda>r. case r of
          Inl e \<Rightarrow> bindE (tryE (mf_close m t)) (\<lambda>_. failE (wrap_error ''metrics: write'' e))
        | Inr _ \<Rightarrow>
          bindE (mapErrE (wrap_error ''metrics: close'') (mf_close m t)) (\<lambda>_.
          bindE (mapErrE (wrap_error ''metrics: chmod'') (mf_chmod m t 420)) (\<lambda>_.
          mapErrE (wrap_error ''metrics: rename'') (mf_rename m t path))))"
    obtain u where b: "body v = (x, u)" and w': "w' = mf_remove m t u"
      using 2(2) unfolding body_def [symmetric] by (auto simp: deferE_def split: prod.splits)
    obtain r v1 where wr: "mf_write m t data v = (r, v1)" by (metis prod.collapse)
    obtain part where part: "files v1 = (files v)(t \<mapsto> [] @ part)" "\<forall>u. r = Inr u \<longrightarrow> part = data"
      using write_adds [OF wr, of "[]"] t(3) by auto
    have undo: "(files z)(t := None) = files w" if "files z = (files v)(t \<mapsto> y)" for z y
      using that t by (auto simp: fun_eq_iff)
    show ?thesis
    proof (cases r)
      case (Inl e)
      with b wr have "\<exists>e. x = Inl e" "files u = files v1"
        using steps_inD [OF close_same, of t v1] by (auto simp: body_def bindE_def tryE_apply same_on_def split: prod.splits) (metis prod.collapse)
      with part undo removed w' show ?thesis by auto
    next
      case (Inr y)
      obtain c v2 where cl: "mf_close m t v1 = (c, v2)" by (metis prod.collapse)
      obtain ch v3 where cm: "mf_chmod m t 420 v2 = (ch, v3)" by (metis prod.collapse)
      obtain rn v4 where re: "mf_rename m t path v3 = (rn, v4)" by (metis prod.collapse)
      have same: "files v2 = files v1" "files v3 = files v1"
        using steps_inD [OF close_same cl] steps_inD [OF chmod_same cm] by (simp_all add: same_on_def)
      have "(\<exists>e. x = Inl e \<and> files u = files v1) \<or> (\<exists>y. x = Inr y \<and> rn = Inr y \<and> u = v4)"
        using b wr Inr cl cm re same not_renamed [of t path v3]
        by (auto simp: body_def bindE_def tryE_apply mapErrE_def split: sum.splits)
      then show ?thesis
      proof
        assume "\<exists>e. x = Inl e \<and> files u = files v1"
        with part undo removed w' show ?thesis by auto
      next
        assume "\<exists>y. x = Inr y \<and> rn = Inr y \<and> u = v4"
        moreover from this renamed re have "files v4 = (files v3)(path := files v3 t, t := None)" by blast
        ultimately show ?thesis using part Inr same t removed w' by (auto simp: fun_eq_iff)
      qed
    qed
  qed
qed

end

section \<open>A disk in memory\<close>

definition lab_metrics :: "(string \<rightharpoonup> string) metrics_files" where
  "lab_metrics = \<lparr>mf_create_temp = (\<lambda>dir pat w. if w ''.gitdr-1.prom.tmp'' = None then (Inr ''.gitdr-1.prom.tmp'', w(''.gitdr-1.prom.tmp'' \<mapsto> []))
       else (Inl (new_error ''file exists''), w)),
     mf_write = (\<lambda>t s w. (Inr (), w(t \<mapsto> (case w t of Some old \<Rightarrow> old | None \<Rightarrow> []) @ s))), mf_close = (\<lambda>t. okE ()), mf_chmod = (\<lambda>t mode. okE ()),
     mf_rename = (\<lambda>t p w. (Inr (), w(p := w t, t := None))), mf_remove = (\<lambda>t w. w(t := None))\<rparr>"

interpretation lab_metrics_disk: metrics_disk lab_metrics "\<lambda>w. w"
  by unfold_locales (auto simp: lab_metrics_def steps_in_def same_on_def okE_def has_suffix_def split: if_splits)

end
