(* ===== verification/Cli.thy ===== *)
theory Cli
  imports Doctor Drill Verify S3 GCS Azure Github Gitlab Metrics
begin

text \<open>
  src/internal/cli: what each command makes of its flags and its configuration, what it prints, and the
  status it exits with. Parsing the flags is the flag package's: a command starts from the values it
  was given. Standard output is the lines of the answer; what goes to the log is left out.
\<close>

section \<open>What the commands are built on\<close>

text \<open>
  Files, the YAML reader, the clients' libraries, the keys' formats, and the parts of a run's
  surroundings that are not chosen by the command line.
\<close>

record 'w program =
  pg_read_file :: "string \<Rightarrow> ('w, string) io"
  pg_yaml :: "string \<Rightarrow> config \<Rightarrow> goerr + config"
  pg_vars :: "'w \<Rightarrow> vars"
  pg_set_vars :: "vars \<Rightarrow> 'w \<Rightarrow> 'w"
  pg_tokens :: "'w token_files"
  pg_new_app :: "int \<Rightarrow> int \<Rightarrow> string \<Rightarrow> ('w, unit) io"
  pg_gh_client :: "string \<Rightarrow> ('w, unit) io"
  pg_gh_api :: "gh_setup \<Rightarrow> 'w github_api"
  pg_gh_clock :: "gh_setup \<Rightarrow> 'w gh_clock"
  pg_gl_client :: "string \<Rightarrow> string \<Rightarrow> ('w, url) io"
  pg_gl_api :: "gl_setup \<Rightarrow> 'w gitlab_api"
  pg_pages :: nat
  pg_indent :: "json \<Rightarrow> string"
  pg_s3_load :: "string \<Rightarrow> s3_options \<Rightarrow> goerr + 'w s3_client"
  pg_s3 :: "'w s3_backend"
  pg_gcs_load :: "gcs_options \<Rightarrow> goerr + 'w gcs_client"
  pg_azure :: "'w azure_sdk"
  pg_parse_private :: "string \<Rightarrow> goerr + (string \<Rightarrow> string) \<times> (string \<Rightarrow> string \<Rightarrow> bool)"
  pg_parse_public :: "string \<Rightarrow> goerr + string"
  pg_rfc3339 :: "string \<Rightarrow> goerr + time"
  pg_backup :: "time option \<Rightarrow> 'w destination \<Rightarrow> 'w backup_deps"   \<comment> \<open>with the deadline its work stops by\<close>
  pg_restore :: "'w restore_deps"
  pg_drill :: "'w drill_deps"
  pg_verify :: "'w verify_deps"
  pg_verify_with :: "string \<Rightarrow> string \<Rightarrow> string \<Rightarrow> bool"
  pg_metrics :: "'w metrics_files"
  pg_clock :: "'w \<Rightarrow> time"

record common_opts =
  co_config :: string
  co_level :: string
  co_format :: string
  co_output :: string

definition load_common :: "'w program \<Rightarrow> common_opts \<Rightarrow> ('w, config) io" where
  "load_common p o' =
     bindE (readE (pg_vars p)) (\<lambda>vs.
     bindE (load_config (pg_read_file p) (pg_yaml p) (co_config o') vs) (\<lambda>(c, vs').
     bindE (\<lambda>w. (Inr (), pg_set_vars p vs' w)) (\<lambda>_.
     okE (c\<lparr>cf_log_level := (if co_level o' \<noteq> [] then co_level o' else cf_log_level c),
            cf_log_format := (if co_format o' \<noteq> [] then co_format o' else cf_log_format c)\<rparr>))))"

section \<open>The source and the destination\<close>

definition gh_source :: "'w program \<Rightarrow> gh_setup \<Rightarrow> 'w source \<times> 'w token_checker option" where
  "gh_source p s = (github_source (pg_indent p) (pg_pages p) (pg_gh_clock p s) (pg_gh_api p s) (pg_tokens p) s,
     Some \<lparr>tk_uses_file = (gs_token_file s \<noteq> None), tk_check = gh_check_token s (pg_gh_api p s)\<rparr>)"

definition build_source :: "'w program \<Rightarrow> config \<Rightarrow> ('w, 'w source \<times> 'w token_checker option) io" where
  "build_source p c = (let sc = cf_source c; g = sc_github sc;
       opts = \<lparr>go_base_url = sc_base_url sc, go_app_id = 0, go_installation_id = 0, go_private_key = [], go_token_path = [], go_max_wait = gh_max_wait g\<rparr>;
       make = (\<lambda>opts'. bindE (gh_new (pg_tokens p) (pg_new_app p) (pg_gh_client p) opts') (\<lambda>s. okE (gh_source p s))) in
     if sc_type sc = ''github'' then
       bindE (liftE (github_token_file c)) (\<lambda>token_path.
       if token_path \<noteq> [] then make (opts\<lparr>go_token_path := token_path\<rparr>)
       else bindE (resolve_github_key (pg_read_file p) c) (\<lambda>key.
         make (opts\<lparr>go_app_id := gh_app_id g, go_installation_id := gh_installation_id g, go_private_key := key\<rparr>)))
     else if sc_type sc = ''gitlab'' then
       bindE (gl_new (pg_gl_client p) (sc_base_url sc) (sc_gitlab_token sc)) (\<lambda>s.
         okE (gitlab_source (pg_indent p) (pg_pages p) (pg_gl_api p s) s, None))
     else failE (new_error (''unsupported source type '' @ quote (sc_type sc))))"

definition build_dest :: "'w program \<Rightarrow> config \<Rightarrow> ('w, 'w destination \<times> 'w page_lister option) io" where
  "build_dest p c = (let dc = cf_destination c in
     if dc_type dc = ''s3'' then
       liftE (map_sum id (\<lambda>b. (s3_destination b, Some (s3_list_page b)))
         (new_backend (pg_s3_load p) (pg_s3 p) \<lparr>so_bucket = s3_bucket (dc_s3 dc), so_region = s3_region (dc_s3 dc), so_endpoint = s3_endpoint (dc_s3 dc),
            so_path_style = s3_path_style (dc_s3 dc), so_threshold = s3_threshold (dc_s3 dc), so_part = s3_part_size (dc_s3 dc)\<rparr>))
     else if dc_type dc = ''gcs'' then
       liftE (map_sum id (\<lambda>b. (gcs_destination b, Some (gcs_list_page b)))
         (gcs_new (pg_gcs_load p) \<lparr>go_bucket = dc_gcs_bucket dc, go_endpoint = dc_gcs_endpoint dc\<rparr>))
     else if dc_type dc = ''azure'' then
       liftE (map_sum id (\<lambda>b. (azure_destination b, Some (azure_list_page b)))
         (azure_new (pg_azure p) \<lparr>ao_account = az_account (dc_azure dc), ao_container = az_container (dc_azure dc), ao_endpoint = az_endpoint (dc_azure dc),
            ao_connection = az_connection (dc_azure dc), ao_subscription = az_subscription (dc_azure dc), ao_group = az_group (dc_azure dc)\<rparr>))
     else failE (new_error (''unsupported destination type '' @ quote (dc_type dc))))"

text \<open>A step of a command that fails ends it with status 1; what it printed until then stays.\<close>

type_synonym outcome = "int \<times> string list"

definition or_fail :: "('w, 'a) io \<Rightarrow> ('a \<Rightarrow> ('w, outcome) io) \<Rightarrow> ('w, outcome) io" where
  "or_fail m f = bindE (tryE m) (\<lambda>r. case r of Inl e \<Rightarrow> okE (1, []) | Inr x \<Rightarrow> f x)"

definition refuses :: "goerr option \<Rightarrow> goerr + unit" where
  "refuses e = (case e of Some x \<Rightarrow> Inl x | None \<Rightarrow> Inr ())"

lemma or_fail_zero:
  assumes "or_fail m f w = (Inr (0, out), w')"
  obtains x v where "m w = (Inr x, v)" and "f x v = (Inr (0, out), w')"
  using assms by (auto simp: or_fail_def bindE_def tryE_apply okE_def split: sum.splits) (metis prod.collapse)

section \<open>doctor\<close>

definition doctor_deps_of :: "'w program \<Rightarrow> common_opts \<Rightarrow> 'w doctor_deps" where
  "doctor_deps_of p o' = \<lparr>dx_load = load_common p o', dx_machine = machine.truncate (re_ws (pg_restore p)), dx_source = build_source p,
     dx_dest = build_dest p, dx_clock = pg_clock p, dx_indent = pg_indent p\<rparr>"

section \<open>backup\<close>

record backup_flags =
  bf_common :: common_opts
  bf_require_worm :: bool
  bf_repo :: string
  bf_deadline :: string
  bf_recopy :: "string list"

definition run_deadline :: "(string \<Rightarrow> goerr + time) \<Rightarrow> string \<Rightarrow> string \<Rightarrow> time \<Rightarrow> goerr + time option" where
  "run_deadline parse flag_value env_value now =
     (let (value, from_where) = (if trim_space flag_value \<noteq> [] then (trim_space flag_value, ''--deadline'') else (trim_space env_value, ''GITDR_DEADLINE'')) in
      if value = [] then Inr None
      else case parse value of
        Inl e \<Rightarrow> Inl (wrap_error (from_where @ '' '' @ quote value @ '' is not an RFC 3339 time'') e)
      | Inr d \<Rightarrow> if d \<le> now then Inl (new_error (from_where @ '' '' @ format_rfc3339 d @ '' has already passed'')) else Inr (Some d))"

definition recopy_names :: "string list \<Rightarrow> string list \<Rightarrow> string list" where
  "recopy_names given configured = (let names = concat (map split_list given) in if names = [] then configured else names)"

definition ok_repo_count :: "manifest \<Rightarrow> nat" where
  "ok_repo_count m = length (filter (\<lambda>e. en_status e \<noteq> status_failed) (m_repos m))"

definition enc_backup :: "codec \<Rightarrow> backup_result \<Rightarrow> json" where
  "enc_backup c res = (case enc_manifest c (br_manifest res) of
       JObj ms \<Rightarrow> JObj (ms @ [(''manifestKey'', JStr (br_key res))]) | j \<Rightarrow> j)"

definition emit_backup :: "(json \<Rightarrow> string) \<Rightarrow> codec \<Rightarrow> string \<Rightarrow> backup_result \<Rightarrow> string list" where
  "emit_backup indent c output res =
     (if output = ''json'' then [indent (enc_backup c res)]
      else let m = br_manifest res in
        (''run '' @ m_run_id m @ '', '' @ m_status m)
        # concat (map (\<lambda>e. (''  '' @ en_slug e @ '': '' @ en_status e) # (if en_error e \<noteq> [] then [''    error: '' @ en_error e] else [])) (m_repos m))
        @ [''manifest: '' @ br_key res])"

text \<open>What the flags override in the configuration.\<close>

definition cfg_for :: "backup_flags \<Rightarrow> config \<Rightarrow> config" where
  "cfg_for f cfg0 = (let cfg1 = (if bf_repo f \<noteq> [] then cfg0\<lparr>cf_source := (cf_source cfg0)\<lparr>sc_repo := bf_repo f\<rparr>\<rparr> else cfg0) in
     cfg1\<lparr>cf_backup := (cf_backup cfg1)\<lparr>bc_recopy := recopy_names (bf_recopy f) (bc_recopy (cf_backup cfg1))\<rparr>\<rparr>)"

text \<open>The run itself, over all that it is given.\<close>

definition backup_with :: "'w program \<Rightarrow> string \<Rightarrow> backup_flags \<Rightarrow> config \<Rightarrow> time option \<Rightarrow> 'w source \<Rightarrow> 'w destination
    \<Rightarrow> (string \<Rightarrow> string) \<times> (string \<Rightarrow> string \<Rightarrow> bool) \<Rightarrow> string option \<Rightarrow> ('w, outcome) io" where
  "backup_with p tool f cfg deadline src dst key enc =
     bindE (tryE (backup ((pg_backup p deadline dst)\<lparr>bk_cfg := cfg, bk_src := src, bk_dst := dst, bk_verify := snd key, bk_enc_key := enc,
         bk_tool := tool, bk_require_worm := (bf_require_worm f \<or> cf_worm_require cfg)\<rparr>) (Some (fst key)))) (\<lambda>r. case r of
       Inl e \<Rightarrow> okE (1, [])
     | Inr (res, err) \<Rightarrow> (case err of
           Some e \<Rightarrow> okE (1, emit_backup (pg_indent p) (bk_codec (pg_backup p deadline dst)) (co_output (bf_common f)) res)
         | None \<Rightarrow> bindE (tryE (write_success (pg_metrics p) (pg_clock p) (cf_textfile cfg) (ok_repo_count (br_manifest res))))
             (\<lambda>_. okE (0, emit_backup (pg_indent p) (bk_codec (pg_backup p deadline dst)) (co_output (bf_common f)) res))))"

text \<open>The command once it knows the configuration and the deadline.\<close>

definition run_backup_by :: "'w program \<Rightarrow> string \<Rightarrow> backup_flags \<Rightarrow> config \<Rightarrow> time option \<Rightarrow> ('w, outcome) io" where
  "run_backup_by p tool f cfg0 deadline =
     (let cfg = cfg_for f cfg0 in
     or_fail (liftE (refuses (validate cfg))) (\<lambda>_.
     or_fail (build_source p cfg) (\<lambda>(src, _).
     or_fail (build_dest p cfg) (\<lambda>(dst, _).
     or_fail (resolve_signing_key (pg_read_file p) cfg) (\<lambda>pem.
     or_fail (liftE (pg_parse_private p pem)) (\<lambda>key.
     or_fail (liftE (resolve_encryption_key cfg)) (\<lambda>enc.
     backup_with p tool f cfg deadline src dst key enc)))))))"

definition run_backup :: "'w program \<Rightarrow> string \<Rightarrow> backup_flags \<Rightarrow> ('w, outcome) io" where
  "run_backup p tool f =
     or_fail (load_common p (bf_common f)) (\<lambda>cfg0.
     bindE (readE (\<lambda>w. (pg_clock p w, case lookup_env (pg_vars p w) ''DEADLINE'' of Some v \<Rightarrow> v | None \<Rightarrow> []))) (\<lambda>(now, env).
     or_fail (liftE (run_deadline (pg_rfc3339 p) (bf_deadline f) env now)) (run_backup_by p tool f cfg0)))"

section \<open>verify\<close>

record verify_flags =
  vf_common :: common_opts
  vf_manifest :: string
  vf_drill :: string

definition opt_member :: "string \<Rightarrow> string list \<Rightarrow> (string \<times> json) list" where
  "opt_member k xs = omit_arr k (map JStr xs)"

definition enc_verify :: "verify_result \<Rightarrow> json" where
  "enc_verify r = JObj ([(''manifestKey'', JStr (vr_key r)), (''signatureValid'', JBool (vr_signed r)),
     (''artifactsChecked'', JNum (int (vr_checked r))), (''artifactsOk'', JNum (int (vr_ok r)))] @ opt_member ''failures'' (vr_failures r))"

definition enc_verify_drill :: "verify_drill_result \<Rightarrow> json" where
  "enc_verify_drill r = JObj ([(''drillKey'', JStr (vx_key r)), (''signatureValid'', JBool (vx_signed r)), (''schema'', JStr (vx_schema r)),
     (''drillId'', JStr (vx_id r)), (''manifestKey'', JStr (vx_manifest r)), (''manifestSigned'', JBool (vx_manifest_signed r)),
     (''status'', JStr (vx_status r)), (''eligible'', JNum (vx_eligible r)), (''drilled'', JNum (vx_drilled r))] @ opt_member ''failures'' (vx_failures r))"

definition drill_scope :: "int \<Rightarrow> int \<Rightarrow> int \<Rightarrow> string" where
  "drill_scope restored drilled eligible =
     (if restored = drilled \<and> drilled = eligible then ''all '' @ show_int eligible @ '' repositories''
      else if restored = drilled then show_int drilled @ '' of '' @ show_int eligible @ '' repositories''
      else show_int restored @ '' of '' @ show_int drilled @ '' drilled repositories'')"

definition drill_verify_summary :: "verify_drill_result \<Rightarrow> string" where
  "drill_verify_summary r =
     (if vx_failures r = []
      then ''the report says: '' @ vx_status r @ '', '' @ drill_scope (vx_drilled r) (vx_drilled r) (vx_eligible r) @ '' restored from '' @ vx_manifest r
      else ''the report says: '' @ vx_status r @ '', '' @ show_int (vx_drilled r - int (length (vx_failures r))) @ '' of '' @ show_int (vx_drilled r)
        @ '' drilled repositories passed, from '' @ vx_manifest r)"

definition emit_verify :: "(json \<Rightarrow> string) \<Rightarrow> string \<Rightarrow> verify_result \<Rightarrow> string list" where
  "emit_verify indent output r =
     (if output = ''json'' then [indent (enc_verify r)]
      else (''signature valid: '' @ (if vr_signed r then ''true'' else ''false'') @ '', artifacts '' @ show_nat (vr_ok r) @ ''/'' @ show_nat (vr_checked r) @ '' ok'')
        # map (\<lambda>f. ''  FAIL '' @ f) (vr_failures r))"

definition emit_verify_drill :: "(json \<Rightarrow> string) \<Rightarrow> string \<Rightarrow> verify_drill_result \<Rightarrow> string list" where
  "emit_verify_drill indent output r =
     (if output = ''json'' then [indent (enc_verify_drill r)]
      else if \<not> vx_signed r then []
      else [''signature valid, signed by the key in this config'', drill_verify_summary r] @ map (\<lambda>f. ''  FAIL '' @ f) (vx_failures r)
        @ (if vx_manifest_signed r then []
           else [''note: this drill did not check the manifest'' @ CHR 0x27 # ''s own signature, so it proves those artifacts restore, not that gitdr wrote them''])
        @ [''note: this checks the report is authentic and unaltered. It does not re-run the drill.''])"

definition exit_of :: "goerr option \<Rightarrow> int" where
  "exit_of err = (case err of Some e \<Rightarrow> 1 | None \<Rightarrow> 0)"

definition run_verify :: "'w program \<Rightarrow> verify_flags \<Rightarrow> ('w, outcome) io" where
  "run_verify p f =
     (if (vf_manifest f = []) = (vf_drill f = []) then okE (2, [])
      else or_fail (load_common p (vf_common f)) (\<lambda>cfg.
        or_fail (liftE (refuses (validate cfg))) (\<lambda>_.
        or_fail (build_dest p cfg) (\<lambda>(dst, _).
        or_fail (resolve_public_key (pg_read_file p) cfg) (\<lambda>pem.
        or_fail (liftE (pg_parse_public p pem)) (\<lambda>pub.
        let v = (pg_verify p)\<lparr>vd_dst := dst, vd_key := pg_verify_with p pub\<rparr>; output = co_output (vf_common f) in
        if vf_drill f \<noteq> []
        then or_fail (verify_drill v (vf_drill f)) (\<lambda>(res, err). okE (exit_of err, emit_verify_drill (pg_indent p) output res))
        else or_fail (verify v (vf_manifest f)) (\<lambda>(res, err). okE (exit_of err, emit_verify (pg_indent p) output res))))))))"

section \<open>restore\<close>

record restore_flags =
  rf_common :: common_opts
  rf_repo :: string
  rf_host :: "string option"   \<comment> \<open>None where it is not on the line\<close>
  rf_date :: "string option"
  rf_manifest :: string
  rf_out :: string

definition err_repo_flag :: goerr where
  "err_repo_flag = new_error ''restore: -repo must be owner/name, or group/subgroup/name for a GitLab project in a subgroup''"

definition split_repo :: "string \<Rightarrow> goerr + string \<times> string" where
  "split_repo s = (case cut_last (CHR ''/'') s of
       None \<Rightarrow> Inl err_repo_flag
     | Some (ow, name) \<Rightarrow> if [] \<in> set (split_on (CHR ''/'') s) then Inl err_repo_flag else Inr (ow, name))"

definition given_flag :: "string \<Rightarrow> 'a option \<Rightarrow> string list" where
  "given_flag name x = (if x \<noteq> None then [''-'' @ name] else [])"

definition restore_request_of :: "restore_flags \<Rightarrow> goerr + restore_request" where
  "restore_request_of f = (case split_repo (rf_repo f) of
       Inl e \<Rightarrow> Inl e
     | Inr (ow, name) \<Rightarrow>
         let date = (case rf_date f of Some d \<Rightarrow> d | None \<Rightarrow> []); host = (case rf_host f of Some h \<Rightarrow> h | None \<Rightarrow> ''github.com'');
             req = \<lparr>rq_manifest = [], rq_host = [], rq_owner = ow, rq_name = name, rq_date = [], rq_out = rf_out f, rq_verified = None\<rparr> in
         if rf_out f = [] then Inl (new_error ''restore: -out is required'')
         else if rf_manifest f \<noteq> [] then
           (let given = given_flag ''date'' (rf_date f) @ given_flag ''host'' (rf_host f) in
            if given \<noteq> []
            then Inl (new_error (''restore: -manifest names the run, and the host and date come from it; drop '' @ join_with '' and '' given))
            else Inr (req\<lparr>rq_manifest := rf_manifest f\<rparr>))
         else if date = [] then Inl (new_error ''restore: give -date (YYYY-MM-DD), or -manifest with the manifestKey the backup printed'')
         else if parse_date date = None then Inl (new_error (''restore: -date '' @ quote date @ '' is not a date in the form YYYY-MM-DD''))
         else Inr (req\<lparr>rq_host := host, rq_date := date\<rparr>))"

definition enc_restore :: "restore_result \<Rightarrow> json" where
  "enc_restore r = JObj [(''bundleKey'', JStr (rr_bundle r)), (''sha256'', JStr (rr_sha r)), (''outDir'', JStr (rr_out r)), (''verified'', JBool (rr_verified r))]"

definition emit_restore :: "(json \<Rightarrow> string) \<Rightarrow> string \<Rightarrow> restore_result \<Rightarrow> string list" where
  "emit_restore indent output r =
     (if output = ''json'' then [indent (enc_restore r)]
      else [''restored '' @ rr_bundle r @ '' -> '' @ rr_out r @ '' (sha256 '' @ take 12 (rr_sha r) @ '')'',
            ''refs: '' @ show_int (rc_matched (rr_refs r)) @ '' of '' @ show_int (rc_declared (rr_refs r)) @ '' declared by the bundle present at the same commit'',
            rr_verification r])"

text \<open>The key a restore is held to, where the configuration names one.\<close>

definition optional_key :: "'w program \<Rightarrow> config \<Rightarrow> ('w, string option) io" where
  "optional_key p cfg =
     (if trim_space (mc_public_path (cf_manifest cfg)) = [] then okE None
      else bindE (resolve_public_key (pg_read_file p) cfg) (\<lambda>pem. bindE (liftE (pg_parse_public p pem)) (\<lambda>pub. okE (Some pub))))"

definition run_restore :: "'w program \<Rightarrow> restore_flags \<Rightarrow> ('w, outcome) io" where
  "run_restore p f = (case restore_request_of f of
       Inl e \<Rightarrow> okE (2, [])
     | Inr req \<Rightarrow>
         or_fail (load_common p (rf_common f)) (\<lambda>cfg.
         or_fail (liftE (refuses (validate cfg))) (\<lambda>_.
         or_fail (optional_key p cfg) (\<lambda>pub.
         if rq_manifest req \<noteq> [] \<and> pub = None then okE (1, [])
         else or_fail (build_dest p cfg) (\<lambda>(dst, _).
              or_fail (liftE (resolve_encryption_key cfg)) (\<lambda>enc.
              or_fail (restore ((pg_restore p)\<lparr>re_dst := dst, re_enc_key := enc, re_key := pub, re_verify := pg_verify_with p\<rparr>) req) (\<lambda>res.
                okE (0, emit_restore (pg_indent p) (co_output (rf_common f)) res))))))))"

section \<open>drill\<close>

record drill_flags =
  lf_common :: common_opts
  lf_manifest :: string
  lf_host :: string
  lf_owner :: string
  lf_sample :: int
  lf_workdir :: string
  lf_no_report :: bool

text \<open>The public key always, the signing key only where there will be a report.\<close>

definition drill_keys :: "'w program \<Rightarrow> config \<Rightarrow> bool \<Rightarrow> ('w, string \<times> (string \<Rightarrow> string) option) io" where
  "drill_keys p cfg no_report =
     bindE (resolve_public_key (pg_read_file p) cfg) (\<lambda>pem. bindE (liftE (pg_parse_public p pem)) (\<lambda>pub.
     if no_report then okE (pub, None)
     else bindE (resolve_signing_key (pg_read_file p) cfg) (\<lambda>pem'. bindE (liftE (pg_parse_private p pem')) (\<lambda>(sign, _).
       okE (pub, Some sign)))))"

record drill_output =
  do_report :: drill_report
  do_key :: "string option"
  do_not_written :: string

definition report_not_requested :: string where "report_not_requested = ''no-report''"
definition report_store_failed :: string where "report_store_failed = ''store-failed''"

definition drill_output_for :: "drill_result \<Rightarrow> bool \<Rightarrow> drill_output" where
  "drill_output_for res no_report =
     (if ds_key res \<noteq> [] then \<lparr>do_report = ds_report res, do_key = Some (ds_key res), do_not_written = []\<rparr>
      else \<lparr>do_report = ds_report res, do_key = None, do_not_written = (if no_report then report_not_requested else report_store_failed)\<rparr>)"

definition drill_exit :: "goerr option \<Rightarrow> int" where
  "drill_exit err = (case err of
       None \<Rightarrow> 0
     | Some e \<Rightarrow> if errors_is e err_drill_failures then 1 else if errors_is e err_report_not_stored then 3 else 1)"

definition came_back :: "drill_repo list \<Rightarrow> nat" where
  "came_back ps = length (filter (\<lambda>r. dp_status r = status_success \<or> dp_source_match r \<noteq> None) ps)"

definition print_drill :: "drill_output \<Rightarrow> string list" where
  "print_drill x = (let r = do_report x in
     concat (map (\<lambda>q. (''FAIL '' @ dp_slug q @ '': '' @ dp_error q) # map (\<lambda>m. ''       '' @ m) (dp_mismatches q))
       (filter (\<lambda>q. dp_status q \<noteq> status_success) (dr_repos r)))
     @ [''drill '' @ dr_status r @ '': '' @ drill_scope (int (came_back (dr_repos r))) (dr_drilled r) (dr_eligible r) @ '' restored from '' @ dr_manifest r]
     @ (if dr_signed r then []
        else [''note: the manifest'' @ CHR 0x27 # ''s signature was not checked, so this proves these artifacts restore, not that gitdr wrote them''])
     @ (case do_key x of
          Some k \<Rightarrow> [''report: '' @ k]
        | None \<Rightarrow> if do_not_written x = report_not_requested
            then [''note: no report was written, because -no-report was given. This drill only read the bucket, wrote nothing to it and signed nothing, so the output above is the only record of it'']
            else [''note: this report was not stored, so the only copy of it is the output above'']))"

definition enc_drill_output :: "codec \<Rightarrow> drill_output \<Rightarrow> json" where
  "enc_drill_output c x = (case enc_report c (do_report x) of
       JObj ms \<Rightarrow> JObj (ms @ [(''reportKey'', opt_json (do_key x))] @ omit_str ''reportNotWritten'' (do_not_written x)) | j \<Rightarrow> j)"

definition emit_drill :: "(json \<Rightarrow> string) \<Rightarrow> codec \<Rightarrow> string \<Rightarrow> drill_output \<Rightarrow> string list" where
  "emit_drill indent c output x = (if output = ''json'' then [indent (enc_drill_output c x)] else print_drill x)"

definition run_drill :: "'w program \<Rightarrow> string \<Rightarrow> drill_flags \<Rightarrow> ('w, outcome) io" where
  "run_drill p tool f =
     (if lf_manifest f = [] \<and> (lf_host f = [] \<or> lf_owner f = []) then okE (2, [])
      else or_fail (load_common p (lf_common f)) (\<lambda>cfg.
        or_fail (liftE (refuses (validate cfg))) (\<lambda>_.
        or_fail (build_dest p cfg) (\<lambda>(dst, _).
        or_fail (drill_keys p cfg (lf_no_report f)) (\<lambda>(pub, sign).
        or_fail (liftE (resolve_encryption_key cfg)) (\<lambda>enc.
        let d = (pg_drill p)\<lparr>dd_dst := dst, dd_enc_key := enc, dd_key := Some pub, dd_verify := pg_verify_with p, dd_sign := sign,
            dd_days := dc_days (cf_destination cfg), dd_mode := dc_mode (cf_destination cfg), dd_tool := tool\<rparr> in
        bindE (tryE (drill d \<lparr>dq_manifest = lf_manifest f, dq_host = lf_host f, dq_owner = lf_owner f, dq_sample = lf_sample f, dq_workdir = lf_workdir f\<rparr>)) (\<lambda>r.
        okE (case r of
          Inl e \<Rightarrow> (drill_exit (Some e), [])
        | Inr (res, err) \<Rightarrow> (drill_exit err, emit_drill (pg_indent p) (dd_codec d) (co_output (lf_common f)) (drill_output_for res (lf_no_report f)))))))))))"

section \<open>Which command it is\<close>

text \<open>The flags each command was given, or None where they did not parse.\<close>

datatype command = Backup "backup_flags option" | Restore "restore_flags option" | Verify "verify_flags option" | Drill "drill_flags option"
  | Doctor "(common_opts \<times> doctor_flags) option" | PrintVersion | Help | NoCommand | Unknown string

definition resolve_version :: "string \<Rightarrow> string \<Rightarrow> string" where
  "resolve_version ldflags main = (if ldflags \<noteq> ''dev'' then ldflags else if main \<noteq> [] \<and> main \<noteq> ''(devel)'' then main else ldflags)"

text \<open>With what the build recorded: the module's version, and the revision if there is one of at least seven characters.\<close>

definition version_of :: "string \<Rightarrow> (string \<times> (string \<times> string) list) option \<Rightarrow> string" where
  "version_of stamped info = (case info of
       None \<Rightarrow> stamped
     | Some (main, settings) \<Rightarrow> let v = resolve_version stamped main in
         case List.find (\<lambda>(k, x). k = ''vcs.revision'' \<and> length x \<ge> 7) settings of
           Some (k, revision) \<Rightarrow> v @ '' ('' @ take 12 revision @ '')''
         | None \<Rightarrow> v)"

definition flagged :: "'a option \<Rightarrow> ('a \<Rightarrow> ('w, outcome) io) \<Rightarrow> ('w, outcome) io" where
  "flagged x f = (case x of None \<Rightarrow> okE (2, []) | Some y \<Rightarrow> f y)"

definition run_command :: "'w program \<Rightarrow> string \<Rightarrow> command \<Rightarrow> ('w, outcome) io" where
  "run_command p tool cmd = (case cmd of
       NoCommand \<Rightarrow> okE (2, [])
     | Backup x \<Rightarrow> flagged x (run_backup p tool)
     | Restore x \<Rightarrow> flagged x (run_restore p)
     | Verify x \<Rightarrow> flagged x (run_verify p)
     | Drill x \<Rightarrow> flagged x (run_drill p tool)
     | Doctor x \<Rightarrow> flagged x (\<lambda>(o', f). run_doctor (doctor_deps_of p o') f)
     | PrintVersion \<Rightarrow> okE (0, [tool])
     | Help \<Rightarrow> okE (0, [])
     | Unknown c \<Rightarrow> okE (2, []))"

section \<open>What a status says\<close>

text \<open>A backup exits with 0 only when the run returned no error, over a valid configuration and a deadline still to come.\<close>

lemma backup_with_zero:
  assumes "backup_with p tool f cfg deadline src dst key enc w = (Inr (0, out), w')"
  shows "\<exists>r sign res v. backup r (Some sign) w = (Inr (res, None), v) \<and> bk_cfg r = cfg
    \<and> bk_require_worm r = (bf_require_worm f \<or> cf_worm_require cfg)"
proof -
  define r where "r = (pg_backup p deadline dst)\<lparr>bk_cfg := cfg, bk_src := src, bk_dst := dst, bk_verify := snd key, bk_enc_key := enc,
         bk_tool := tool, bk_require_worm := (bf_require_worm f \<or> cf_worm_require cfg)\<rparr>"
  obtain x v where run: "backup r (Some (fst key)) w = (x, v)" by (metis prod.collapse)
  have "\<exists>res. x = Inr (res, None)"
    using assms run unfolding backup_with_def r_def [symmetric]
    by (cases x) (auto simp: bindE_def tryE_apply okE_def split: option.splits)
  then obtain res where "x = Inr (res, None)" by blast
  moreover have "bk_cfg r = cfg" "bk_require_worm r = (bf_require_worm f \<or> cf_worm_require cfg)" by (simp_all add: r_def)
  ultimately show ?thesis using run by blast
qed

lemma run_backup_zero:
  fixes p :: "'w program"
  assumes "run_backup p tool f w = (Inr (0, out), w')"
  shows "\<exists>(r :: 'w backup_deps) sign v res v'. backup r (Some sign) v = (Inr (res, None), v') \<and> validate (bk_cfg r) = None
    \<and> bk_require_worm r = (bf_require_worm f \<or> cf_worm_require (bk_cfg r))"
proof -
  obtain cfg0 v0 where rest0: "(bindE (readE (\<lambda>w. (pg_clock p w, case lookup_env (pg_vars p w) ''DEADLINE'' of Some v \<Rightarrow> v | None \<Rightarrow> []))) (\<lambda>(now, env).
     or_fail (liftE (run_deadline (pg_rfc3339 p) (bf_deadline f) env now)) (run_backup_by p tool f cfg0))) v0 = (Inr (0, out), w')"
    using assms unfolding run_backup_def by (elim or_fail_zero) blast
  then obtain deadline v1 where "run_backup_by p tool f cfg0 deadline v1 = (Inr (0, out), w')"
    by (auto elim!: bindE_InrE or_fail_zero split: prod.splits)
  then obtain src dst key enc v where valid: "refuses (validate (cfg_for f cfg0)) = Inr ()"
    and run: "backup_with p tool f (cfg_for f cfg0) deadline src dst key enc v = (Inr (0, out), w')"
    unfolding run_backup_by_def Let_def by (auto elim!: or_fail_zero)
  from valid have "validate (cfg_for f cfg0) = None" by (simp add: refuses_def split: option.splits)
  moreover from backup_with_zero [OF run] obtain r sign res va where "backup r (Some sign) v = (Inr (res, None), va)"
    and "bk_cfg r = cfg_for f cfg0" and "bk_require_worm r = (bf_require_worm f \<or> cf_worm_require (cfg_for f cfg0))" by blast
  ultimately show ?thesis by metis
qed

lemma run_verify_zero:
  assumes "run_verify p f w = (Inr (0, out), w')" and "vf_drill f = []"
  shows "\<exists>v u res. verify v (vf_manifest f) u = (Inr (res, None), w') \<and> out = emit_verify (pg_indent p) (co_output (vf_common f)) res"
  using assms unfolding run_verify_def
  by (auto simp: Let_def exit_of_def okE_def split: if_splits option.splits elim!: or_fail_zero) blast

text \<open>A drill's status: 0 for no error; 3 only when every repository came back and the report was not stored.\<close>

lemma drill_exit_zero: "drill_exit err = 0 \<longleftrightarrow> err = None"
  by (auto simp: drill_exit_def split: option.splits)

lemma drill_exit_status:
  assumes "drill d q w = (Inr (res, err), w')"
  shows "drill_exit err = 3 \<Longrightarrow> all_restored (dr_repos (ds_report res))"
    and "\<not> all_restored (dr_repos (ds_report res)) \<Longrightarrow> drill_exit err = 1"
  using drill_result [OF assms] by (auto simp: drill_exit_def split: option.splits if_splits)

text \<open>Without a report no signing key is read, and the drill has none.\<close>

lemma drill_keys_no_report:
  assumes "drill_keys p cfg True w = (Inr (pub, sign), w')"
  shows "sign = None"
  using assms by (auto simp: drill_keys_def elim!: bindE_InrE)

lemma drill_keys_reads:
  assumes "pg_read_file p (trim_space (mc_public_path (cf_manifest cfg))) = pg_read_file p' (trim_space (mc_public_path (cf_manifest cfg)))"
    and "pg_parse_public p = pg_parse_public p'"
  shows "drill_keys p cfg True = drill_keys p' cfg True"
  using assms by (auto simp: drill_keys_def resolve_public_key_def resolve_key_def Let_def)

text \<open>A project is named by its owner, which may have slashes, and its name, which has none.\<close>

lemma split_repo_names:
  "split_repo s = Inr (ow, name) \<longleftrightarrow> s = ow @ ''/'' @ name \<and> CHR ''/'' \<notin> set name \<and> [] \<notin> set (split_on (CHR ''/'') s)"
proof -
  have "split_repo s = Inr (ow, name) \<longleftrightarrow> cut_last (CHR ''/'') s = Some (ow, name) \<and> [] \<notin> set (split_on (CHR ''/'') s)"
    by (auto simp: split_repo_def split: option.splits)
  then show ?thesis by (simp add: cut_last_Some)
qed

lemma restore_request_verified:
  assumes "restore_request_of f = Inr q" and "rq_manifest q \<noteq> []"
  shows "rf_host f = None \<and> rf_date f = None \<and> rq_host q = [] \<and> rq_date q = []"
  using assms by (auto simp: restore_request_of_def given_flag_def Let_def split: sum.splits prod.splits if_splits)

end
