(* ===== verification/Keys.thy ===== *)
theory Keys
  imports Cli Filed
begin

text \<open>
  src/internal/crypto/sign.go: the forms a signing key and a public key are accepted in, and what the
  commands make of them. src/internal/dest/s3/limit.go: the cap on the answers doctor reads.
  src/internal/ctxio/ctxio.go: a copy that stops with its context. src/internal/logging/logging.go
  and src/internal/redact/redact.go: the log's level and format, and what a secret prints as. The
  PEM, PKCS#8 and PKIX readers, Ed25519 and the HTTP client are parameters.
\<close>

section \<open>Keys\<close>

text \<open>What the key readers of crypto/x509 give: an Ed25519 key, or one of another type.\<close>

datatype std_key = Ed25519_key string | Other_key string

record key_lib =
  kl_pem_decode :: "string \<Rightarrow> string option"         \<comment> \<open>the bytes of the first block\<close>
  kl_pem_encode :: "string \<Rightarrow> string \<Rightarrow> string"          \<comment> \<open>type, bytes\<close>
  kl_pkcs8 :: "string \<Rightarrow> goerr + std_key"
  kl_pkix :: "string \<Rightarrow> goerr + std_key"
  kl_marshal_pkcs8 :: "string \<Rightarrow> goerr + string"
  kl_marshal_pkix :: "string \<Rightarrow> goerr + string"
  kl_from_seed :: "string \<Rightarrow> string"
  kl_sign :: "string \<Rightarrow> string \<Rightarrow> string"               \<comment> \<open>key, message\<close>
  kl_verify :: "string \<Rightarrow> string \<Rightarrow> string \<Rightarrow> bool"        \<comment> \<open>key, message, signature\<close>

definition private_key_size :: nat where "private_key_size = 64"
definition public_key_size :: nat where "public_key_size = 32"
definition seed_size :: nat where "seed_size = 32"

lemmas key_sizes = private_key_size_def public_key_size_def seed_size_def

definition decode_raw :: "string \<Rightarrow> string" where
  "decode_raw data = (case b64_decode data of Some dec \<Rightarrow> dec | None \<Rightarrow> data)"

definition err_private_key :: goerr where
  "err_private_key = new_error ''unrecognized ed25519 private key (want PEM PKCS#8, 64-byte key, or 32-byte seed)''"

definition err_public_key :: goerr where
  "err_public_key = new_error ''unrecognized ed25519 public key (want PEM PKIX or 32-byte key)''"

definition parse_private_key :: "key_lib \<Rightarrow> string \<Rightarrow> goerr + string" where
  "parse_private_key l data0 = (let data = trim_space data0 in
     case kl_pem_decode l data of
       Some blk \<Rightarrow> (case kl_pkcs8 l blk of
           Inl e \<Rightarrow> Inl (wrap_error ''parse pkcs8 private key'' e)
         | Inr (Other_key t) \<Rightarrow> Inl (new_error (''private key is '' @ t @ '', want ed25519''))
         | Inr (Ed25519_key k) \<Rightarrow> Inr k)
     | None \<Rightarrow> (let raw = decode_raw data in
         if length raw = private_key_size then Inr raw
         else if length raw = seed_size then Inr (kl_from_seed l raw)
         else Inl err_private_key))"

definition parse_public_key :: "key_lib \<Rightarrow> string \<Rightarrow> goerr + string" where
  "parse_public_key l data0 = (let data = trim_space data0 in
     case kl_pem_decode l data of
       Some blk \<Rightarrow> (case kl_pkix l blk of
           Inl e \<Rightarrow> Inl (wrap_error ''parse pkix public key'' e)
         | Inr (Other_key t) \<Rightarrow> Inl (new_error (''public key is '' @ t @ '', want ed25519''))
         | Inr (Ed25519_key k) \<Rightarrow> Inr k)
     | None \<Rightarrow> (let raw = decode_raw data in
         if length raw = public_key_size then Inr raw else Inl err_public_key))"

definition sign_detached :: "key_lib \<Rightarrow> string \<Rightarrow> string \<Rightarrow> string" where
  "sign_detached l priv msg = kl_sign l priv msg"

definition verify_detached :: "key_lib \<Rightarrow> string \<Rightarrow> string \<Rightarrow> string \<Rightarrow> goerr option" where
  "verify_detached l pub msg sig =
     (if kl_verify l pub msg sig then None else Some (new_error ''ed25519 signature verification failed''))"

definition generate_key_pair :: "key_lib \<Rightarrow> ('w, string \<times> string) io \<Rightarrow> ('w, string \<times> string) io" where
  "generate_key_pair l gen =
     bindE (mapErrE (wrap_error ''generate ed25519 key'') gen) (\<lambda>(pub, priv).
     bindE (mapErrE (wrap_error ''marshal private key'') (liftE (kl_marshal_pkcs8 l priv))) (\<lambda>pkcs8.
     bindE (mapErrE (wrap_error ''marshal public key'') (liftE (kl_marshal_pkix l pub))) (\<lambda>pkix.
     okE (kl_pem_encode l ''PUBLIC KEY'' pkix, kl_pem_encode l ''PRIVATE KEY'' pkcs8))))"

text \<open>Public of a private key: its last 32 bytes.\<close>

definition public_of :: "string \<Rightarrow> string" where
  "public_of priv = drop (private_key_size - public_key_size) priv"

text \<open>What those libraries document of themselves.\<close>

definition key_formats :: "key_lib \<Rightarrow> bool" where
  "key_formats l \<longleftrightarrow> (\<forall>t b. kl_pem_decode l (trim_space (kl_pem_encode l t b)) = Some b)
     \<and> (\<forall>s. CHR ''-'' \<notin> set s \<longrightarrow> kl_pem_decode l s = None)
     \<and> (\<forall>k b. kl_marshal_pkcs8 l k = Inr b \<longrightarrow> kl_pkcs8 l b = Inr (Ed25519_key k))
     \<and> (\<forall>k b. kl_marshal_pkix l k = Inr b \<longrightarrow> kl_pkix l b = Inr (Ed25519_key k))
     \<and> (\<forall>s. length s = seed_size \<longrightarrow> length (kl_from_seed l s) = private_key_size)
     \<and> (\<forall>k b. kl_pkcs8 l b = Inr (Ed25519_key k) \<longrightarrow> length k = private_key_size)
     \<and> (\<forall>k b. kl_pkix l b = Inr (Ed25519_key k) \<longrightarrow> length k = public_key_size)"

text \<open>Whatever form it was given in, a key that is accepted is of an Ed25519 key's size.\<close>

lemma private_key_sized:
  assumes "key_formats l" and "parse_private_key l d = Inr k"
  shows "length k = private_key_size"
  using assms by (auto simp: parse_private_key_def key_formats_def Let_def split: option.splits sum.splits std_key.splits if_splits)

lemma public_key_sized:
  assumes "key_formats l" and "parse_public_key l d = Inr k"
  shows "length k = public_key_size"
  using assms by (auto simp: parse_public_key_def key_formats_def Let_def split: option.splits sum.splits std_key.splits if_splits)

text \<open>What generate_key_pair prints, the parsers read back.\<close>

lemma generated_keys_parse:
  assumes "key_formats l" and "generate_key_pair l gen w = (Inr (pub_pem, priv_pem), w')"
  obtains pub priv where "gen w = (Inr (pub, priv), w')" and "parse_public_key l pub_pem = Inr pub"
    and "parse_private_key l priv_pem = Inr priv"
proof -
  obtain pub priv pkcs8 pkix where "gen w = (Inr (pub, priv), w')" and "kl_marshal_pkcs8 l priv = Inr pkcs8"
    and "kl_marshal_pkix l pub = Inr pkix" and "pub_pem = kl_pem_encode l ''PUBLIC KEY'' pkix"
    and "priv_pem = kl_pem_encode l ''PRIVATE KEY'' pkcs8"
    using assms(2) by (auto simp: generate_key_pair_def bindE_def mapErrE_def liftE_def okE_def failE_def split: prod.splits sum.splits)
  with assms(1) show ?thesis
    by (intro that) (auto simp: parse_public_key_def parse_private_key_def key_formats_def Let_def)
qed

text \<open>No dash is in base64 text, so none of it is taken for a PEM block.\<close>

lemma b64_char_no_dash: "n < 64 \<Longrightarrow> CHR ''-'' \<noteq> b64_char n"
proof
  assume "n < 64" and dash: "CHR ''-'' = b64_char n"
  then have "b64_val (CHR ''-'') = Some n" by (simp only: dash b64_val_char)
  then show False by (simp add: b64_val_def byte_def)
qed

lemma b64_no_dash: "CHR ''-'' \<notin> set (b64_encode s)"
  by (induction s rule: b64_encode.induct) (simp_all add: b64_char_no_dash byte_parts)

text \<open>A key given as base64, a seed or the key itself, is the key.\<close>

lemma base64_keys_parse:
  assumes l: "key_formats l"
  shows "length k = private_key_size \<Longrightarrow> parse_private_key l (b64_encode k) = Inr k"
    and "length k = seed_size \<Longrightarrow> parse_private_key l (b64_encode k) = Inr (kl_from_seed l k)"
    and "length k = public_key_size \<Longrightarrow> parse_public_key l (b64_encode k) = Inr k"
proof -
  have "kl_pem_decode l (b64_encode k) = None" using l b64_no_dash [of k] by (auto simp: key_formats_def)
  then show "length k = private_key_size \<Longrightarrow> parse_private_key l (b64_encode k) = Inr k"
    "length k = seed_size \<Longrightarrow> parse_private_key l (b64_encode k) = Inr (kl_from_seed l k)"
    "length k = public_key_size \<Longrightarrow> parse_public_key l (b64_encode k) = Inr k"
    by (simp_all add: parse_private_key_def parse_public_key_def trim_b64 decode_raw_def b64_round_trip key_sizes Let_def)
qed

text \<open>
  Key bytes given as they are: read where trimming leaves them alone and they are no base64. Bytes
  that begin or end as white space does are cut and the key refused, which is one raw public key
  in about twenty.
\<close>

lemma raw_public_key:
  assumes "kl_pem_decode l (trim_space k) = None" and "b64_decode (trim_space k) = None" and "length k = public_key_size"
  shows "parse_public_key l k = (if length (trim_space k) = public_key_size then Inr (trim_space k) else Inl err_public_key)"
  using assms by (simp add: parse_public_key_def decode_raw_def Let_def)

lemma raw_public_key_refused:
  assumes "key_formats l"
  shows "parse_public_key l (replicate 31 (CHR 0x80) @ [CHR 0x0A]) = Inl err_public_key"
proof -
  have trim: "trim_space (replicate 31 (CHR 0x80) @ [CHR 0x0A]) = replicate 31 (CHR 0x80)" by code_simp
  have "b64_decode (replicate 31 (CHR 0x80)) = None" by code_simp
  moreover have "kl_pem_decode l (replicate 31 (CHR 0x80)) = None" using assms by (auto simp: key_formats_def)
  ultimately show ?thesis by (subst raw_public_key) (simp_all add: trim key_sizes)
qed

text \<open>Formats those laws hold of: a block is a line of dashes before its bytes and after them.\<close>

definition plain_keys :: key_lib where
  "plain_keys = \<lparr>kl_pem_decode = (\<lambda>s. if s \<noteq> [] \<and> hd s = CHR ''-'' \<and> last s = CHR ''-'' \<and> length s \<ge> 2 then Some (butlast (tl s)) else None),
     kl_pem_encode = (\<lambda>_ b. CHR ''-'' # b @ ''-''),
     kl_pkcs8 = (\<lambda>b. if length b = private_key_size then Inr (Ed25519_key b) else Inl (new_error ''asn1'')),
     kl_pkix = (\<lambda>b. if length b = public_key_size then Inr (Ed25519_key b) else Inl (new_error ''asn1'')),
     kl_marshal_pkcs8 = (\<lambda>k. if length k = private_key_size then Inr k else Inl (new_error ''size'')),
     kl_marshal_pkix = (\<lambda>k. if length k = public_key_size then Inr k else Inl (new_error ''size'')),
     kl_from_seed = (\<lambda>s. s @ s), kl_sign = (\<lambda>k m. public_of k @ m), kl_verify = (\<lambda>k m s. s = k @ m)\<rparr>"

lemma trim_dashes: "trim_space (CHR ''-'' # b @ ''-'') = CHR ''-'' # b @ ''-''"
  by (rule trim_space_edges) (simp_all add: graphic_def byte_def)

lemma plain_keys_formats: "key_formats plain_keys"
  using hd_in_set by (fastforce simp: key_formats_def plain_keys_def trim_dashes key_sizes butlast_append split: if_splits)

section \<open>The commands with those keys\<close>

definition verifies :: "key_lib \<Rightarrow> string \<Rightarrow> string \<Rightarrow> string \<Rightarrow> bool" where
  "verifies l pub msg sig \<longleftrightarrow> verify_detached l pub msg sig = None"

text \<open>The run's key signs, and its public half is what the run checks its own manifests with.\<close>

definition signer_of :: "key_lib \<Rightarrow> string \<Rightarrow> (string \<Rightarrow> string) \<times> (string \<Rightarrow> string \<Rightarrow> bool)" where
  "signer_of l priv = (sign_detached l priv, verifies l (public_of priv))"

definition with_keys :: "key_lib \<Rightarrow> 'w program \<Rightarrow> 'w program" where
  "with_keys l p = p\<lparr>pg_parse_private := (\<lambda>pem. map_sum id (signer_of l) (parse_private_key l pem)),
     pg_parse_public := parse_public_key l, pg_verify_with := verifies l\<rparr>"

text \<open>
  A run given the private half of a generated pair, and a verify given the public half, agree: what
  the first signs the second believes, and so does the run when it reads its own manifests.
\<close>

definition signs_for_itself :: "key_lib \<Rightarrow> string \<Rightarrow> string \<Rightarrow> bool" where
  "signs_for_itself l pub priv \<longleftrightarrow> pub = public_of priv \<and> (\<forall>m. kl_verify l pub m (kl_sign l priv m))"

lemma generated_pair_agrees:
  assumes "key_formats l" and "generate_key_pair l gen w = (Inr (pub_pem, priv_pem), w')"
    and "\<And>pub priv. gen w = (Inr (pub, priv), w') \<Longrightarrow> signs_for_itself l pub priv"
  obtains sign check pub where "pg_parse_private (with_keys l p) priv_pem = Inr (sign, check)"
    and "pg_parse_public (with_keys l p) pub_pem = Inr pub" and "check = pg_verify_with (with_keys l p) pub"
    and "\<And>m. check m (sign m)"
proof -
  obtain pub priv where g: "gen w = (Inr (pub, priv), w')" and parse: "parse_public_key l pub_pem = Inr pub"
    "parse_private_key l priv_pem = Inr priv"
    by (rule generated_keys_parse [OF assms(1,2)])
  from assms(3) [OF g] have "pub = public_of priv" and "\<And>m. kl_verify l pub m (kl_sign l priv m)"
    by (auto simp: signs_for_itself_def)
  with parse show ?thesis
    by (intro that [of "sign_detached l priv" "verifies l pub" pub])
      (auto simp: with_keys_def signer_of_def verifies_def verify_detached_def sign_detached_def fun_eq_iff)
qed

section \<open>The cap on an answer\<close>

text \<open>An answer of the HTTP client, with its body if it has one, and its error.\<close>

type_synonym ('w, 'q, 'r) http_client = "'q \<Rightarrow> 'w \<Rightarrow> ('r option option \<times> goerr option) \<times> 'w"

text \<open>Every body goes through the cap; its reader is then the capped one.\<close>

definition limited_do :: "('w, 'q, 'r) http_client \<Rightarrow> int \<Rightarrow> ('w, 'q, 'r limited_body) http_client" where
  "limited_do send limit q w = (case send q w of ((resp, err), w') \<Rightarrow>
     ((map_option (map_option (\<lambda>body. limit_body body limit)) resp, err), w'))"

text \<open>A client as the SDK has it: the requests it sends, and how the bodies of its answers are read.\<close>

datatype ('w, 'q, 'r) sdk_http = Uncapped "('w, 'q, 'r) http_client" "'r reader"
  | Capped "('w, 'q, 'r limited_body) http_client" "'r limited_body reader"

definition limit_responses :: "int \<Rightarrow> ('w, 'q, 'r) http_client \<Rightarrow> 'r reader \<Rightarrow> ('w, 'q, 'r) sdk_http" where
  "limit_responses limit send rd =
     (if limit \<le> 0 then Uncapped send rd else Capped (limited_do send limit) (limited_read rd))"

definition doctor_response_limit :: int where "doctor_response_limit = 2 ^ 20"

text \<open>Nothing else about an answer changes: the request, whether there is one, its error and the world.\<close>

lemma limited_do_same:
  assumes "send q w = ((resp, err), w')"
  shows "limited_do send limit q w = ((map_option (map_option (\<lambda>body. limit_body body limit)) resp, err), w')"
  using assms by (simp add: limited_do_def)

text \<open>However a capped body is read, it gives no more than the cap, and what it gives is what is under it.\<close>

lemma limited_reads_bounded:
  "reads (limited_read rd) b ns = (rs, b') \<Longrightarrow> 0 \<le> lb_left b \<Longrightarrow>
   int (length (concat (map fst rs))) + lb_left b' \<le> lb_left b \<and> 0 \<le> lb_left b'"
proof (induction ns arbitrary: b rs)
  case (Cons n ns)
  obtain p e b1 where one: "limited_read rd b n = ((p, e), b1)" by (metis prod.collapse)
  have step: "int (length p) + lb_left b1 \<le> lb_left b \<and> 0 \<le> lb_left b1"
    using one Cons.prems(2) by (auto simp: limited_read_def Let_def split: if_splits prod.splits)
  obtain rs' where "reads (limited_read rd) b1 ns = (rs', b')" and "rs = (p, e) # rs'"
    using Cons.prems(1) one by (auto split: prod.splits)
  with Cons.IH [of b1 rs'] step show ?case by auto
qed simp

lemma doctor_reads_at_most:
  assumes "limit_responses doctor_response_limit send rd = Capped send' rd'"
    and "send' q w = ((Some (Some body), err), w')" and "reads rd' body ns = (rs, b')"
  shows "length (concat (map fst rs)) \<le> 2 ^ 20"
proof -
  have rd: "rd' = limited_read rd" and send: "send' = limited_do send doctor_response_limit"
    using assms(1) by (auto simp: limit_responses_def split: if_splits)
  then have "lb_left body = doctor_response_limit"
    using assms(2) by (auto simp: limited_do_def limit_body_def doctor_response_limit_def split: prod.splits)
  with limited_reads_bounded [of rd body ns rs b'] assms(3) rd show ?thesis
    by (auto simp: doctor_response_limit_def)
qed

section \<open>A copy that stops with its context\<close>

text \<open>The context's error, if it is done, is read off the state the reader has.\<close>

definition ctx_read :: "('r \<Rightarrow> goerr option) \<Rightarrow> 'r reader \<Rightarrow> 'r reader" where
  "ctx_read ctx_err rd r n = (case ctx_err r of Some e \<Rightarrow> (([], Some e), r) | None \<Rightarrow> rd r n)"

text \<open>
  A copy through it gives a part of what the copy without it gives, from the start; and where it
  ends without an error, all of it. A context that is done when the copy begins gives nothing.
\<close>

lemma ctx_copy:
  assumes "\<And>r e. ctx_err r = Some e \<Longrightarrow> \<not> is_end e"
    and "copy_all is_end (ctx_read ctx_err rd) m k r = ((out, x), r')" and "copy_all is_end rd m k r = ((full, y), r2)"
  shows "(\<exists>t. full = out @ t) \<and> (x = None \<longrightarrow> out = full \<and> y = None \<and> r' = r2)"
  using assms(2,3)
proof (induction k arbitrary: r out full)
  case (Suc k)
  show ?case
  proof (cases "ctx_err r")
    case None
    then have same: "ctx_read ctx_err rd r m = rd r m" by (simp add: ctx_read_def)
    obtain p e r1 where one: "rd r m = ((p, e), r1)" by (metis prod.collapse)
    show ?thesis
    proof (cases e)
      case None
      obtain out1 full1 where "copy_all is_end (ctx_read ctx_err rd) m k r1 = ((out1, x), r')" and "out = p @ out1"
        and "copy_all is_end rd m k r1 = ((full1, y), r2)" and "full = p @ full1"
        using Suc.prems one None by (auto simp: same split: prod.splits)
      with Suc.IH [of r1 out1 full1] show ?thesis by auto
    next
      case (Some z)
      then show ?thesis using Suc.prems one by (auto simp: same)
    qed
  next
    case (Some e)
    then show ?thesis using Suc.prems(1) assms(1) by (auto simp: ctx_read_def)
  qed
qed simp

lemma stopped_copy:
  "ctx_err r = Some e \<Longrightarrow> \<not> is_end e \<Longrightarrow> copy_all is_end (ctx_read ctx_err rd) m (Suc k) r = (([], Some e), r)"
  by (simp add: ctx_read_def)

section \<open>The log and secrets\<close>

datatype log_level = LevelDebug | LevelInfo | LevelWarn | LevelError

definition parse_level :: "string \<Rightarrow> log_level" where
  "parse_level s = (let t = to_lower (trim_space s) in
     if t = ''debug'' then LevelDebug
     else if t \<in> {''warn'', ''warning''} then LevelWarn
     else if t = ''error'' then LevelError
     else LevelInfo)"

datatype log_handler = Text_handler log_level | JSON_handler log_level

definition new_logger :: "string \<Rightarrow> string \<Rightarrow> log_handler" where
  "new_logger level format' = (if equal_fold (trim_space format') ''text''
     then Text_handler (parse_level level) else JSON_handler (parse_level level))"

text \<open>A level is read whatever its case; what is no level is info.\<close>

lemma parse_level_default:
  "to_lower (trim_space s) \<notin> {''debug'', ''warn'', ''warning'', ''error''} \<Longrightarrow> parse_level s = LevelInfo"
  by (auto simp: parse_level_def Let_def)

datatype secret = Secret string

definition redacted :: string where "redacted = ''[REDACTED]''"

definition secret_string :: "secret \<Rightarrow> string" where "secret_string s = redacted"
definition secret_go_string :: "secret \<Rightarrow> string" where "secret_go_string s = redacted"

text \<open>What every verb of fmt writes, \<open>%p\<close> of a value apart, which fmt never asks the type about.\<close>

definition secret_format :: "char \<Rightarrow> secret \<Rightarrow> string" where
  "secret_format verb s = (if verb = CHR ''q'' then quote redacted else redacted)"

definition secret_log_value :: "secret \<Rightarrow> string" where "secret_log_value s = redacted"
definition secret_text :: "secret \<Rightarrow> goerr + string" where "secret_text s = Inr redacted"
definition secret_json :: "secret \<Rightarrow> goerr + string" where "secret_json s = Inr (CHR 0x22 # redacted @ [CHR 0x22])"
definition secret_yaml :: "secret \<Rightarrow> goerr + string" where "secret_yaml s = Inr redacted"

definition reveal :: "secret \<Rightarrow> string" where "reveal s = (case s of Secret t \<Rightarrow> t)"
definition secret_is_zero :: "secret \<Rightarrow> bool" where "secret_is_zero s \<longleftrightarrow> s = Secret []"

text \<open>Nothing that is printed of a secret depends on it; only \<open>reveal\<close> and whether it is empty do.\<close>

lemma secret_printed_same:
  "(secret_string s, secret_go_string s, secret_format verb s, secret_log_value s, secret_text s, secret_json s, secret_yaml s)
   = (secret_string t, secret_go_string t, secret_format verb t, secret_log_value t, secret_text t, secret_json t, secret_yaml t)"
  by (simp add: secret_string_def secret_go_string_def secret_format_def secret_log_value_def secret_text_def
      secret_json_def secret_yaml_def)

lemma reveal_zero: "secret_is_zero s \<longleftrightarrow> reveal s = []"
  by (cases s) (simp add: secret_is_zero_def reveal_def)

end
