(* ===== verification/Spec2Isabelle.thy ===== *)
theory Spec2Isabelle
  imports Read_Back FanOut Lab_S3 Lab_GCS Lab_Azure Lab_Forge Lab_Doctor Cli Keys
begin

text \<open>
  A verification library for gitdr, the backup tool of this repository: it copies the repositories of
  a GitHub or GitLab organisation into an object store that keeps what it is given, files a signed
  manifest of every run beside them, and restores from them. The library models the Go code under
  src/internal and proves what makes a backup one: that a run only adds to the store, that what
  its manifest lists is there, that a repository is left out only over a copy that still stands,
  and that whatever reads a backup believes nothing that was not signed.

  The world. Every effect is an action of a world \<open>'w\<close>: \<open>('w, 'a) io\<close> takes a world to an error or a
  value and the world after it (Prelude). Nothing is known of a world but what a contract says: the
  destination, Git, the scratch disk, the source, the JSON codec, the AEAD and the hash are records
  of functions, and the laws they are used under are locales and named predicates.

  The theories, in the order of their imports.

    Prelude    errors as Go has them (text, wrapped errors, \<open>errors.Is\<close> and \<open>errors.As\<close>), effects
               and their sequencing, relations that every step of an effect keeps (\<open>world_order\<close>),
               strings, the path package, \<open>strings.Fields\<close> and \<open>TrimSpace\<close>, \<open>%q\<close>.
    Go_Time    durations of 64 bits, civil dates, and the stamps manifest names carry.
    Go_Url     the parts of net/url and of redirects a host check needs.
    Gitexec    internal/gitexec/gitexec.go: the environment git is given, the tail of its standard
               error, each command, and the reading of what it prints (\<open>line_format\<close>).
    Refs       internal/pipeline/refs.go, copiedrefs.go, unchanged.go: the comparison of a restored
               repository with the record, the checks of a clone and of a bundle, and the decision
               that a repository has not moved.
    Dest       internal/dest/dest.go and limit.go: the destination and its create-only contract
               (\<open>create_only\<close>), capped reads and capped response bodies.
    Crypto     internal/crypto: the envelope format, chunk by chunk, base64 and checksums.
    Manifest   internal/pipeline/manifest.go: the manifest as a record and as JSON, both ways.
    Source     internal/source/source.go.
    Manifests  internal/pipeline/manifests.go and manifest.go: where a manifest is filed and
               searched for, the loader and the streaming loader, and what they refuse.
    Search     internal/pipeline/recorded.go and previous.go: the search for the manifest that
               records a copy, and what the last runs recorded of each repository.
    Archive    internal/pipeline/archive.go and lfspointers.go: the LFS archive, both ways.
    Config     internal/config/config.go: the environment's overrides and the validation.
    Backup     internal/pipeline/backup.go, one repository: its staging, its upload, the date that
               is resumed, the repository that is skipped.
    Run        internal/pipeline/backup.go, the run around its repositories.
    Frame      what a run does to the destination whatever happens in it (\<open>run_frame\<close>, \<open>stored_run\<close>).
    Stored     that what a run lists is stored (\<open>checked_run\<close>).
    Total      that every selected repository gets its entry, and that a run returns.
    FanOut     internal/pipeline/backup.go, fanOut: the repositories in flight at once, as a step
               relation over its semaphore, its stop and its grace.
    Filed      that what a run files can be read back.
    Verify     internal/pipeline/verify.go: the manifest's signature and its artifacts read back, in
               slots that any order of the reads fills the same.
    Restore    internal/pipeline/restore.go: the manifest a restore is held to, the bundle and the LFS
               archive checked before they are used, and the refs compared (\<open>restore_world\<close>,
               \<open>restore_disk\<close>).
    Drill      internal/pipeline/drill.go and VerifyDrill: the restore of a sample, joined to the refs
               the source advertised, and its signed report, which reads back (\<open>drill_world\<close>).
    Run_Facts  the facts about one run that the properties below are made of.
    Lab        a world in memory all those contracts hold in, where they are interpreted.
    Lab_Run, Lab_Restore  concrete runs, restores and drills in that world.
    Exact      the readers that pass a stream on as an artifact of a known size, in the three backends:
               an end comes out of them only where the stream ends at that size.
    S3_Body, S3  internal/dest/s3: the CRC32, the parts, the check of an answer's document, and
               the backend over the SDK's client (\<open>s3_client\<close>).
    S3_Store   that it stores the whole artifact or nothing, under what S3 documents of those calls
               (\<open>s3_store\<close>), and is a create-only destination of a store whose checksums tell (\<open>s3_told\<close>).
    GCS        internal/dest/gcs, and that it is a create-only destination (\<open>gcs_store\<close>).
    Azure      internal/dest/azure, the same (\<open>azure_store\<close>), with its verdict and the size of its blocks.
    Lab_S3, Lab_GCS, Lab_Azure  stores in memory that those laws hold of.
    Glob       path.Match, which the filters match with.
    Forge      what the two forge clients share: internal/source/redirect.go, requests and what a
               transport sends (\<open>sends_only\<close>), pages, the filter.
    Github     internal/source/github: the waits for rate limits and their budget (\<open>gh_quiet\<close>), the token
               file, what a request carries, the listing and the metadata document.
    Gitlab     internal/source/gitlab, the same.
    Lab_Forge  a GitHub in memory.
    Metrics    internal/metrics: the metrics file, whole or as it was (\<open>metrics_disk\<close>).
    Doctor     internal/cli/doctor.go and doctorcode.go: the checks, their words and their document.
    Lab_Doctor a destination they are run against.
    Cli        the commands: what each makes of its flags and configuration, which source and
               destination it builds, what it prints and the status it exits with.
    Keys       internal/crypto/sign.go: the forms a key is accepted in, and that a generated pair signs
               for itself; internal/dest/s3/limit.go, ctxio, logging and redact.
    Read_Back  that the manifest of a run that succeeded verifies, and concrete verifies.

  Time is in nanoseconds since 1970 as an integer; a duration is an integer that wraps at 64 bits
  where Go's arithmetic does. A string is a list of bytes. A map whose order the code does not
  fix is an association list. A loop whose end depends on the outside takes fuel, and
  a lemma says how much is enough: \<open>fetch_lfs\<close> needs one more than the LFS objects the disk can
  come to hold, which is what \<open>lfs_fetch_ends\<close> states, and a listing as many pages as the forge has,
  which is what \<open>every_page_is_listed\<close> states.

  Not modelled. cmd/gitdr/main.go: the signals that stop a run, which reach the model as the errors
  of the calls they stop, and the process's dumpable flag. Parsing flags and reading YAML, which are
  libraries: a command starts from its flags' values, and the YAML reader is a parameter. What is
  written to the log, the finished events of a run apart. The clients' own code (the S3, Cloud
  Storage, Azure, GitHub and GitLab libraries), AES-GCM, Ed25519, SHA-256, the tar and PEM formats: they
  are parameters under their documented laws. The cap on the answers doctor reads is modelled
  over an HTTP client (Keys), and not below the S3 client of Doctor, whose calls return whole
  answers. Reads and writes of other programs between two calls of a run: a world changes by this
  program's calls alone. src/scale: rigs that measure the program from outside.
\<close>

section \<open>A run\<close>

text \<open>C1: Every artifact a run's manifest lists, under any entry, is in the destination when the run
  comes back: under the key the manifest names, with the size and the checksum it signs. That holds
  of runs that failed half way as much as of those that succeeded.\<close>

theorem run_artifacts_stored:
  assumes "checked_run objs r files" and "backup_run r w = (Inr (res, err), w')"
    and "e \<in> set (m_repos (br_manifest res))" and "a \<in> set (en_artifacts e)"
  shows "\<exists>bs. objs w' (ai_key a) = Some bs \<and> ai_sha256 a = bk_sha r bs \<and> ai_size a = int (length bs)"
  using checked_run.run_stored [OF assms(1,2)] assms(3,4)
  by (simp add: all_stored_def entry_stored_def stored_artifact_def)

theorem run_artifacts_stored_witness:
  "\<exists>w' bs. lab_objs w' ''h/o/r/2025-06-15/r.bundle'' = Some bs \<and> int (length bs) = 12"
proof -
  obtain res ret w' where run: "backup_run (lab_deps VerdictImmutable lab_codec None) lab_start = (Inr (res, None), w')"
    and es: "m_repos (br_manifest res) = [lab_filed_entry ret]"
    using lab_whole_run [of VerdictImmutable lab_codec] by blast
  let ?a = "hd (en_artifacts (lab_filed_entry ret))"
  have a: "?a \<in> set (en_artifacts (lab_filed_entry ret))" "ai_key ?a = ''h/o/r/2025-06-15/r.bundle''" "ai_size ?a = 12"
    by (simp_all add: lab_filed_entry_def copied_entry_def lab_entry_def)
  have "lab_filed_entry ret \<in> set (m_repos (br_manifest res))" by (simp add: es)
  from run_artifacts_stored [OF lab_run.checked_run_axioms run this a(1)] show ?thesis by (auto simp: a)
qed



text \<open>Staging a repository, which is everything that reads the source or can fail on this
  machine, writes nothing to the destination: a repository whose staging fails has no object there.\<close>

theorem staging_writes_nothing:
  assumes "stored_run objs r"
  shows "objs (snd (stage_repo r date repo advertised tmp w)) = objs w"
  using stored_run.stage_repo_same [OF assms, of date repo advertised tmp] by (simp add: steps_in_def same_on_def)

theorem staging_writes_nothing_witness:
  "lab_objs (snd (stage_repo (lab_deps VerdictImmutable lab_codec None) ''2025-06-15'' lab_repo [] ''/tmp'' lab_filed)) = lab_objs lab_filed"
  by (rule staging_writes_nothing [OF lab_stored.stored_run_axioms])

text \<open>C10: A repository is skipped as unchanged only over a copy that a manifest this run read and
  believed records, under its own name, whose refs are not empty and are the source's refs now,
  which was not named to be copied again, and which was made in the past and within the bound
  set by the retention window, so that its successor is written before its lock ends.\<close>

theorem unchanged_is_skipped_safely:
  assumes "begin_run r started w = (Inr (repos, st, ret), w')"
    and "unchanged_skip r st sl current now = Some e"
  shows "\<exists>p. map_of (rs_previous st) sl = Some p \<and> copy_believed (bk_codec r) (bk_dst r) (Some (bk_verify r)) sl p
    \<and> e = unchanged_entry sl (en_reason e) p \<and> pc_refs p \<noteq> [] \<and> same_refs (pc_refs p) current
    \<and> sl \<notin> set (rs_recopy st) \<and> pc_copied_at p \<le> now
    \<and> now - pc_copied_at p < refresh_bound (retention_window (bk_cfg r) (rs_worm st))"
  using unchanged_skip_safe [OF assms(2)] begin_run_previous [OF assms(1)] by (fastforce dest: map_of_SomeD)

theorem unchanged_is_skipped_safely_witness:
  "\<exists>(st :: run_state) p. map_of (rs_previous st) ''o/r'' = Some p
    \<and> copy_believed (tiny_codec old_manifest) (lab_destination VerdictImmutable) (Some (\<lambda>m s. s = ''signed'')) ''o/r'' p"
proof -
  let ?r = "lab_deps VerdictImmutable (tiny_codec old_manifest) None"
  obtain st ret where b: "begin_run ?r 0 lab_filed = (Inr ([lab_repo], st, ret), lab_filed)"
    and st: "rs_previous st = [(''o/r'', old_copy)]" "rs_recopy st = []" "ws_period (rs_worm st) = 0"
    using lab_begin_old [of VerdictImmutable None 0] by blast
  obtain e where "unchanged_skip ?r st ''o/r'' [(''refs/heads/main'', ''0a'')] (1750000000 * second) = Some e"
    using old_unchanged [OF st, of VerdictImmutable "tiny_codec old_manifest" None] by blast
  from unchanged_is_skipped_safely [OF b this] show ?thesis
    by (auto simp: lab_deps_def)
qed

text \<open>C11: A repository whose date already has objects is passed over only when all of them were
  written on that date and a manifest that was believed records exactly these keys as a finished
  copy of it; its entry then carries that copy's refs and time. Anything else fails the repository.\<close>

theorem resumed_over_a_whole_copy:
  assumes "resumed r st q (w, mem) = (Inr (Some e), (w', mem'))" and "en_status e = status_skipped"
    and "memory_ok (bk_codec r) (bk_dst r) (Some (bk_verify r)) mem"
  shows "\<exists>objs w1 f na. list_objects (bk_dst r) (date_dir st q @ ''/'') w = (Inr objs, w1)
    \<and> ai_key ` set (en_artifacts (rcp_entry f)) = obj_key ` set (filed_under (date_dir st q) objs)
    \<and> (\<forall>ob \<in> set (filed_under (date_dir st q) objs). \<not> foreign_to (rs_date st) ob)
    \<and> found_ok (bk_codec r) (bk_dst r) (Some (bk_verify r)) (manifest_search_dirs (rp_host q) (rp_owner q)) (slug q)
        (resume_keys st q) na f
    \<and> e = zero_entry\<lparr>en_slug := slug q, en_status := status_skipped, en_reason := reason_resume,
        en_refs := en_refs (rcp_entry f), en_copied_at := copied_at_of (rcp_entry f) (rcp_finished f)\<rparr>"
  using assms by (rule resumed_skip)

theorem resumed_over_a_whole_copy_witness:
  "\<exists>objs w1. list_objects (lab_destination VerdictImmutable) (date_dir old_state lab_repo @ ''/'') lab_filed = (Inr objs, w1)
    \<and> (\<forall>ob \<in> set (filed_under (date_dir old_state lab_repo) objs). \<not> foreign_to (rs_date old_state) ob)"
proof -
  let ?r = "lab_deps VerdictImmutable (tiny_codec old_manifest) None"
  obtain e mem where "resumed ?r old_state lab_repo (lab_filed, no_memory) = (Inr (Some e), (lab_filed, mem))"
    and "en_status e = status_skipped"
    using lab_resumed [of VerdictImmutable None] by blast
  from resumed_over_a_whole_copy [OF this memory_ok_none] show ?thesis by (auto simp: lab_deps_def)
qed

text \<open>C12: When immutability is required and the destination does not answer that it is immutable,
  the run fails with the destination asked and nothing else done.\<close>

theorem required_worm_fails_closed:
  assumes "bk_require_worm r" and "\<forall>ws. fst (verify_worm (bk_dst r) w) = Inr ws \<longrightarrow> \<not> immutable (ws_verdict ws)"
  shows "\<exists>e. backup_run r w = (Inl e, snd (verify_worm (bk_dst r) w))"
  using assms by (rule run_fails_closed)

theorem required_worm_fails_closed_witness:
  "\<exists>e. backup_run ((lab_deps VerdictNotImmutable lab_codec None)\<lparr>bk_require_worm := True\<rparr>) lab_start
    = (Inl e, snd (verify_worm (bk_dst ((lab_deps VerdictNotImmutable lab_codec None)\<lparr>bk_require_worm := True\<rparr>)) lab_start))"
  by (rule required_worm_fails_closed) (simp_all add: lab_deps_def lab_destination_def immutable_def)




text \<open>C30: With any number of repositories in flight, and whatever order they finish, stop and are given up
  on in: when the fan-out has returned, every repository has exactly one finished event and the
  entry it was settled with, under its own name, and nothing a repository still in flight does
  changes what was returned.\<close>

theorem each_repository_is_settled_once:
  assumes "fan_reaches repos limit s" and "fa_phase s = Returned" and "(fan_step repos limit)\<^sup>*\<^sup>* s s'"
  shows "distinct (map fst (fa_events s)) \<and> fst ` set (fa_events s) = {..<length repos}
    \<and> (\<forall>i < length repos. \<exists>e. fa_entries s i = Some e \<and> en_slug e = slug (repos ! i) \<and> (i, e) \<in> set (fa_events s))
    \<and> fa_entries s' = fa_entries s \<and> fa_events s' = fa_events s"
  using fan_ok_returned [OF fan_reaches_ok [OF assms(1)] assms(2)]
    fan_returned [OF assms(3) fan_reaches_ok [OF assms(1)] assms(2)] by blast

theorem each_repository_is_settled_once_witness:
  "\<exists>(s :: fan_state). fa_phase s = Returned \<and> fst ` set (fa_events s) = {..<length [lab_repo]}"
proof -
  obtain s where "fan_reaches [lab_repo] 4 s \<and> fa_phase s = Returned
      \<and> map (fa_entries s) [0..<length [lab_repo]] = map Some [lab_filed_entry no_retention]"
    using fan_out_executes [OF lab_fan_out [OF old_state_fields]] ..
  then have s: "fan_reaches [lab_repo] 4 s" "fa_phase s = Returned" by simp_all
  note once = each_repository_is_settled_once [OF s rtranclp.rtrancl_refl]
  show ?thesis by (rule exI [of _ s], rule conjI [OF s(2) once [THEN conjunct2, THEN conjunct1]])
qed

text \<open>C31: No more repositories are in flight than the configured concurrency, none is started after
  a stop, and a stopped fan-out can return although none of those in flight ever does.\<close>

theorem stopped_run_can_return:
  assumes "fan_reaches repos limit s" and "fa_stop s = Some cause"
  shows "card (fa_held s) \<le> slots limit \<and> fa_running s \<subseteq> fa_held s
    \<and> (\<forall>s'. fan_step repos limit s s' \<longrightarrow> fa_next s' = fa_next s)
    \<and> (\<exists>s'. (fan_step repos limit)\<^sup>*\<^sup>* s s' \<and> fa_phase s' = Returned \<and> fa_running s' = fa_running s)"
proof -
  note ok = fan_reaches_ok [OF assms(1)]
  have "\<forall>s'. fan_step repos limit s s' \<longrightarrow> fa_next s' = fa_next s"
    using fan_step_stopped [of repos limit s] assms(2) by blast
  moreover have "card (fa_held s) \<le> slots limit" "fa_running s \<subseteq> fa_held s" using ok by (simp_all add: fan_ok_def)
  ultimately show ?thesis using fan_stopped_returns [OF ok assms(2)] by blast
qed

theorem stopped_run_can_return_witness:
  "\<exists>s s'. (fan_step [lab_repo, lab_repo] 1)\<^sup>*\<^sup>* s s' \<and> fa_phase s = Starting \<and> fa_running s = {0} \<and> fa_phase s' = Returned \<and> fa_running s' = {0}"
proof -
  let ?s1 = "fan_init\<lparr>fa_next := 1, fa_running := {0}, fa_held := {0}, fa_written := (\<lambda>i. [])(0 := [])\<rparr>"
  let ?s = "?s1\<lparr>fa_stop := Some (new_error ''stopped'')\<rparr>"
  have "fan_step [lab_repo, lab_repo] 1 fan_init ?s1"
    using starts [of fan_init "[lab_repo, lab_repo]" 1] by (simp add: fan_init_def slots_def)
  moreover have "fan_step [lab_repo, lab_repo] 1 ?s1 ?s" by (rule stops) (simp add: fan_init_def)
  ultimately have r: "fan_reaches [lab_repo, lab_repo] 1 ?s" by (meson converse_rtranclp_into_rtranclp r_into_rtranclp)
  have "fa_stop ?s = Some (new_error ''stopped'')" by simp
  from stopped_run_can_return [OF r this] show ?thesis by (fastforce simp: fan_init_def)
qed





text \<open>Fetching LFS objects ends: an attempt that fails is made again only when it left more objects
  on the disk than the one before, so one attempt more than the objects there can be is
  enough.\<close>

theorem lfs_fetch_ends:
  assumes "\<forall>w. count_files (bk_ws r) (file_join (file_join mirror ''lfs'') ''objects'') w \<le> n"
    and "had \<le> n" and "n < fuel + had"
  shows "fst (fetch_lfs r mirror url fuel attempt had w) \<noteq> Inl err_fuel"
  using assms by (rule fetch_lfs_ends)

theorem lfs_fetch_ends_witness:
  "fst (fetch_lfs (lab_deps VerdictImmutable lab_codec None) ''/tmp/r.git'' ''https://h/o/r'' 1 1 0 lab_start) \<noteq> Inl err_fuel"
  by (rule lfs_fetch_ends [where n = 0]) (simp_all add: lab_deps_def lab_workspace_def count_files_def)



section \<open>What a reader believes\<close>

text \<open>C6: A manifest is believed only when it is signed under the reader's key: what the loader returns
  with a key is the decoding of bytes that are stored under the key of the manifest, carry a signature
  that verifies, declare a run-manifest and are filed under the name of the time they finished.\<close>

theorem only_signed_manifests_are_loaded:
  assumes "load_manifest c d (Some holds) key w = (Inr m, w')"
  shows "\<exists>rc w1 sc sig. get_object d key w = (Inr rc, w1) \<and> get_object d (key @ ''.sig'') w1 = (Inr sc, w')
    \<and> b64_decode (trim_space (body_bytes sc)) = Some sig \<and> holds (body_bytes rc) sig
    \<and> unmarshal_manifest c (body_bytes rc) = Inr m
    \<and> has_prefix manifest_schema_prefix (m_schema m) \<and> path_base key = format_stamp (m_finished m) @ manifest_suffix"
proof -
  obtain raw where r: "read_manifest_bytes d (Some holds) key w = (Inr raw, w')" and u: "unmarshal_manifest c raw = Inr m"
    using load_manifest_ok(3) [OF assms] by blast
  from read_manifest_bytes_ok [OF r] u load_manifest_ok(1,2) [OF assms] show ?thesis by fastforce
qed

theorem only_signed_manifests_are_loaded_witness:
  "\<exists>rc w1 sc w2 sig. get_object (lab_destination VerdictImmutable) old_key lab_filed = (Inr rc, w1)
    \<and> get_object (lab_destination VerdictImmutable) (old_key @ ''.sig'') w1 = (Inr sc, w2)
    \<and> b64_decode (trim_space (body_bytes sc)) = Some sig \<and> sig = ''signed''"
  using only_signed_manifests_are_loaded [OF lab_load_old [of VerdictImmutable]] by fast



text \<open>A manifest that is written and read back is the same manifest.\<close>

theorem manifest_round_trip:
  assumes "codec_ok c" and "manifest_ok m"
  shows "unmarshal_manifest c (canonical c m) = Inr m"
  using assms by (rule unmarshal_canonical)

theorem manifest_round_trip_witness:
  "unmarshal_manifest lab_codec (canonical lab_codec (zero_manifest\<lparr>m_repos := [zero_entry\<lparr>en_artifacts :=
     [\<lparr>ai_kind = ''bundle'', ai_key = ''k'', ai_size = 7, ai_sha256 = ''ab'', ai_until = 0\<rparr>]\<rparr>]\<rparr>))
    = Inr (zero_manifest\<lparr>m_repos := [zero_entry\<lparr>en_artifacts :=
     [\<lparr>ai_kind = ''bundle'', ai_key = ''k'', ai_size = 7, ai_sha256 = ''ab'', ai_until = 0\<rparr>]\<rparr>]\<rparr>)"
  by (rule manifest_round_trip [OF lab_codec_ok]) (simp add: manifest_ok_def entry_ok_def artifact_ok_def in_int64_def)

text \<open>What a search for a copy finds was recorded: in a manifest of one of the directories it was
  given, read and believed with its key, no later than it was told to look, whose entry for the
  repository names one of the keys as a copy.\<close>

theorem a_found_copy_was_recorded:
  assumes "find_copy c d pub keep dirs on sl keys na (w, no_memory) = (Inr (Some f, rep), (w', mem'))"
  shows "found_ok c d pub dirs sl keys na f"
  using find_copy_ok [OF assms memory_ok_none] by blast

theorem a_found_copy_was_recorded_witness:
  "found_ok (tiny_codec old_manifest) (lab_destination VerdictImmutable) (Some (\<lambda>m s. s = ''signed'')) (manifest_search_dirs ''h'' ''o'')
     ''o/r'' (resume_keys old_state lab_repo) (Some (1750000000 * second)) old_found"
proof -
  obtain rep mem where "find_copy (tiny_codec old_manifest) (lab_destination VerdictImmutable) (Some (\<lambda>m s. s = ''signed'')) (\<lambda>s. s \<in> {''o/r''})
     (manifest_search_dirs ''h'' ''o'') (1749945600 * second) (''o/r'') (resume_keys old_state lab_repo)
     (Some (1750000000 * second)) (lab_filed, no_memory)
   = (Inr (Some old_found, rep), (lab_filed, mem))" using lab_search_old by blast
  then show ?thesis by (rule a_found_copy_was_recorded)
qed

text \<open>The directory a run files its manifest under is one of those a restore of any of its
  repositories searches.\<close>

theorem restore_searches_where_a_run_files:
  assumes "r \<in> set repos" and "\<forall>q \<in> set repos. rp_host q = rp_host r \<and> plain_path (rp_owner q)"
  shows "manifest_dir repos \<in> set (manifest_search_dirs (rp_host r) (rp_owner r))"
  using assms by (rule manifest_dir_searched)

theorem restore_searches_where_a_run_files_witness:
  "manifest_dir [lab_repo\<lparr>rp_owner := ''g/a/b''\<rparr>, lab_repo\<lparr>rp_owner := ''g/a/c''\<rparr>]
     \<in> set (manifest_search_dirs (rp_host (lab_repo\<lparr>rp_owner := ''g/a/b''\<rparr>)) (rp_owner (lab_repo\<lparr>rp_owner := ''g/a/b''\<rparr>)))"
  by (rule restore_searches_where_a_run_files) code_simp+

section \<open>Verifying, restoring and drilling\<close>

text \<open>C7: A verify that passes has read the manifest and its signature, the signature held over those bytes, and every
  artifact the manifest lists was read to its end and hashed to the checksum it records; what it counts
  as checked is all of them.\<close>

theorem verify_passes_on_what_it_read:
  assumes "verify v key w = (Inr (res, None), w')"
  shows "\<exists>rc w1 sc w2 sig m. get_object (vd_dst v) key w = (Inr rc, w1) \<and> get_object (vd_dst v) (key @ ''.sig'') w1 = (Inr sc, w2)
    \<and> b64_decode (trim_space (body_bytes sc)) = Some sig \<and> vd_key v (body_bytes rc) sig
    \<and> unmarshal_manifest (vd_codec v) (body_bytes rc) = Inr m \<and> a_manifest_schema (m_schema m)
    \<and> (\<forall>a \<in> set (listed_artifacts (m_repos m)). read_and_matched (vd_sha v) (vd_dst v) a)
    \<and> vr_signed res \<and> vr_failures res = [] \<and> vr_checked res = length (listed_artifacts (m_repos m)) \<and> vr_ok res = vr_checked res"
  using assms by (rule verify_passes)

theorem verify_passes_on_what_it_read_witness:
  "\<exists>rc w1. get_object (lab_destination VerdictImmutable) old_key lab_held = (Inr rc, w1)
     \<and> unmarshal_manifest (tiny_codec kept_manifest) (body_bytes rc) = Inr kept_run
     \<and> read_and_matched (\<lambda>b. hex_encode (take 32 b)) (lab_destination VerdictImmutable) (hd (en_artifacts kept_entry))"
proof -
  obtain res w' where v: "verify lab_verify_deps old_key lab_held = (Inr (res, None), w')" using lab_verify by blast
  obtain rc w1 m where g: "get_object (lab_destination VerdictImmutable) old_key lab_held = (Inr rc, w1)"
    and m: "unmarshal_manifest (tiny_codec kept_manifest) (body_bytes rc) = Inr m"
    and all: "\<forall>a \<in> set (listed_artifacts (m_repos m)). read_and_matched (\<lambda>b. hex_encode (take 32 b)) (lab_destination VerdictImmutable) a"
    using verify_passes_on_what_it_read [OF v] unfolding lab_verify_fields by blast
  have "m = kept_run" using m kept_unmarshals by simp
  moreover have "hd (en_artifacts kept_entry) \<in> set (listed_artifacts (m_repos kept_run))" unfolding kept_listed by (rule hd_in_set) code_simp
  ultimately show ?thesis using g m all by blast
qed

text \<open>However many artifacts are read at once and in whatever order the reads finish, a verify returns what reading
  one at a time returns, of a store that answers the same for as long as it holds the same.\<close>

theorem verify_is_the_same_in_any_order:
  assumes "steady (vd_dst v) objs s ans" and "objs w = s"
    and "\<And>n. set (vd_order v n) = {..<n}" and "\<And>n. set (order n) = {..<n}"
  shows "fst (verify v key w) = fst (verify (v\<lparr>vd_order := order\<rparr>) key w)"
  using assms by (rule verify_any_order)

theorem verify_is_the_same_in_any_order_witness:
  "fst (verify lab_verify_deps old_key lab_held) = fst (verify (lab_verify_deps\<lparr>vd_order := \<lambda>n. rev [0..<n]\<rparr>) old_key lab_held)"
  by (rule verify_is_the_same_in_any_order [OF lab_steady refl]) (simp_all add: lab_verify_fields atLeast_upt)

text \<open>C3: What a run that succeeded filed verifies: with the run's public key, a verify of the manifest key the run
  returns finds the signature good and every artifact the manifest lists intact.\<close>

theorem a_run_that_succeeds_verifies:
  assumes "checked_run objs r files" and "backup_run r w = (Inr (res, None), w')"
    and "answers (vd_dst v) objs" and "\<And>n. set (vd_order v n) = {..<n}"
    and "codec_ok (bk_codec r)" and "vd_codec v = bk_codec r" and "vd_sha v = bk_sha r" and "\<And>x. vd_key v x (bk_sign r x)"
    and "manifest_ok (br_manifest res)"
    and "int (length (canonical (bk_codec r) (br_manifest res))) \<le> max_manifest_bytes"
    and "int (length (b64_encode (bk_sign r (canonical (bk_codec r) (br_manifest res))))) \<le> max_signature_bytes"
  shows "\<exists>w''. verify v (br_key res) w' = (Inr (\<lparr>vr_key = br_key res, vr_signed = True,
      vr_checked = length (listed_artifacts (m_repos (br_manifest res))),
      vr_ok = length (listed_artifacts (m_repos (br_manifest res))), vr_failures = []\<rparr>, None), w'')"
  using checked_run.run_verifies [OF assms] by blast

theorem a_run_that_succeeds_verifies_witness:
  "\<exists>w' res w''. backup_run (lab_deps VerdictNotImmutable lab_short None) lab_start = (Inr (\<lparr>br_manifest = lab_run_manifest, br_key = lab_run_key\<rparr>, None), w')
     \<and> verify (lab_verify_deps\<lparr>vd_dst := lab_destination VerdictNotImmutable, vd_codec := lab_short\<rparr>) lab_run_key w' = (Inr (res, None), w'')
     \<and> vr_ok res = 3"
proof -
  let ?r = "lab_deps VerdictNotImmutable lab_short None"
    and ?v = "lab_verify_deps\<lparr>vd_dst := lab_destination VerdictNotImmutable, vd_codec := lab_short\<rparr>"
  obtain w' where run: "backup_run ?r lab_start = (Inr (\<lparr>br_manifest = lab_run_manifest, br_key = lab_run_key\<rparr>, None), w')"
    using lab_plain_run by blast
  have "\<exists>w''. verify ?v (br_key \<lparr>br_manifest = lab_run_manifest, br_key = lab_run_key\<rparr>) w' = (Inr (\<lparr>vr_key = lab_run_key, vr_signed = True,
      vr_checked = length (listed_artifacts (m_repos lab_run_manifest)),
      vr_ok = length (listed_artifacts (m_repos lab_run_manifest)), vr_failures = []\<rparr>, None), w'')"
    using a_run_that_succeeds_verifies [where v = ?v, OF lab_run.checked_run_axioms run] lab_answers lab_short_facts
    by (simp add: lab_verify_fields lab_deps_fields atLeast_upt)
  then obtain w'' where "verify ?v lab_run_key w' = (Inr (\<lparr>vr_key = lab_run_key, vr_signed = True,
      vr_checked = length (listed_artifacts (m_repos lab_run_manifest)),
      vr_ok = length (listed_artifacts (m_repos lab_run_manifest)), vr_failures = []\<rparr>, None), w'')" by auto
  with run show ?thesis by (fastforce simp: lab_short_facts)
qed



text \<open>A restore leaves the destination as it was, whatever it returns.\<close>

theorem restore_writes_nothing:
  assumes "restore_world objs r" and "restore r q w = (x, w')"
  shows "objs w' = objs w"
  using same_D [OF restore_world.restore_same [OF assms(1)] assms(2)] .

theorem restore_writes_nothing_witness:
  "lab_objs (snd (restore (lab_restore_deps None) (named_request old_key ''o'' ''r'' ''/out/r'') lab_held)) = lab_objs lab_held"
  by (rule restore_writes_nothing [OF lab_restores.restore_world_axioms surjective_pairing])

text \<open>C33: A restore that succeeds leaves no pointer file in the tree it restored: at its last look, before it removed its
  scratch directory, every file outside the tree's .git holds content.\<close>

theorem restored_tree_has_no_pointers:
  assumes "restore r q w = (Inr res, w')"
  shows "\<exists>t tmp w1. w' = remove_all (re_ws r) tmp w1 \<and> read_tree (re_ws r) (rr_out res) w1 = Some t \<and> \<not> holds_pointer [] t"
  using assms by (rule restore_whole)

theorem restored_tree_has_no_pointers_witness:
  "\<exists>t. \<not> holds_pointer [] t \<and> read_tree (re_ws (lab_restore_deps (Some ''pub''))) ''/out/r'' lab_held = Some t"
proof -
  obtain res w' where run: "restore (lab_restore_deps (Some ''pub'')) (named_request old_key ''o'' ''r'' ''/out/r'') lab_held = (Inr res, w')"
    using lab_restore_named by blast
  have "read_tree (re_ws (lab_restore_deps (Some ''pub''))) p w = read_tree (re_ws (lab_restore_deps (Some ''pub''))) ''/out/r'' lab_held" for p w
    by (simp add: lab_restore_deps_def restore_workspace_def)
  with restored_tree_has_no_pointers [OF run] show ?thesis by metis
qed



text \<open>A drill with no signing key leaves the destination as it was.\<close>

theorem drill_without_a_key_writes_nothing:
  assumes "drill_world objs d" and "dd_sign d = None" and "drill d q w = (x, w')"
  shows "objs w' = objs w"
  using same_D [OF drill_world.drill_unsigned_same [OF assms(1,2)] assms(3)] .

theorem drill_without_a_key_writes_nothing_witness:
  "\<exists>res w'. drill (lab_drill_deps None) lab_drill_request lab_held = (Inr (res, None), w') \<and> lab_objs w' = lab_objs lab_held"
proof -
  obtain res w' where run: "drill (lab_drill_deps None) lab_drill_request lab_held = (Inr (res, None), w')" using lab_drill by blast
  have "dd_sign (lab_drill_deps None) = None" by (simp add: lab_drill_deps_def)
  from drill_without_a_key_writes_nothing [OF lab_drills.drill_world_axioms this run] run show ?thesis by blast
qed



text \<open>A drill report stored with its signature, checked by the command that verifies reports, says what the report
  says: its manifest, status, counts, and each repository that failed with its error.\<close>

theorem report_reads_back:
  assumes "answers (vd_dst v) objs" and "codec_ok (vd_codec v)" and "report_fits rep" and "dr_schema rep = drill_schema"
    and "objs w key = Some (json_print (vd_codec v) (enc_report (vd_codec v) rep))"
    and "int (length (json_print (vd_codec v) (enc_report (vd_codec v) rep))) \<le> max_manifest_bytes"
    and "objs w (key @ ''.sig'') = Some (b64_encode sig)" and "int (length (b64_encode sig)) \<le> max_signature_bytes"
    and "vd_key v (json_print (vd_codec v) (enc_report (vd_codec v) rep)) sig"
  shows "\<exists>w'. verify_drill v key w = (Inr (drill_says key rep, None), w')"
  using assms by (rule stored_report_verifies)

theorem report_reads_back_witness:
  "\<exists>w'. verify_drill (lab_verify_deps\<lparr>vd_codec := short_codec (enc_report lab_codec lab_report)\<rparr>) ''k'' lab_reported
     = (Inr (drill_says ''k'' lab_report, None), w')"
  by (rule report_reads_back [where objs = lab_objs and sig = "''signed''", OF _ _ lab_report_facts(1,2)])
    (simp_all add: lab_answers lab_verify_fields lab_report_facts short_codec_ok max_manifest_bytes_def max_signature_bytes_def)

section \<open>The destinations\<close>

text \<open>C14: A write to S3, in one request or in parts and whatever it returns, has stored all of the
  artifact's bytes at a key that held nothing, or has changed nothing. When it succeeds the stream was
  exactly as long as its size, and its key holds its bytes, or an object of that length that the store
  shows with a checksum of those bytes.\<close>

theorem s3_put_whole_or_nothing:
  assumes "s3_store b objs parts" and "put_immutable (s3_destination b) k r n ret w = (x, w')"
  shows "(objs w' = objs w \<or> objs w k = None \<and> objs w' = (objs w)(k \<mapsto> body_bytes r))
    \<and> (\<forall>p. x = Inr p \<longrightarrow> int (length (body_bytes r)) = n \<and> pr_key p = k \<and> pr_size p = n
         \<and> s3_holds b objs k (body_bytes r) w')"
  using s3_store.s3_put_result [OF assms] by (auto simp: lands_on_def)

theorem s3_put_whole_or_nothing_witness:
  "\<exists>p w'. put_immutable (s3_destination (lab_s3 True True True)) ''k'' \<lparr>body_bytes = ''data'', body_err = None\<rparr> 4 no_retention
      empty_bucket = (Inr p, w') \<and> pr_size p = 4 \<and> s3_holds (lab_s3 True True True) lab_bucket ''k'' ''data'' w'"
proof -
  let ?r = "\<lparr>body_bytes = ''data'', body_err = None\<rparr>"
  obtain p w' where "s3_put (lab_s3 True True True) True ''k'' ?r 4 no_retention empty_bucket = (Inr p, w')"
    using lab_lost_write by blast
  then have run: "put_immutable (s3_destination (lab_s3 True True True)) ''k'' ?r 4 no_retention empty_bucket = (Inr p, w')"
    by (simp add: s3_destination_def in_int64_def)
  show ?thesis using s3_put_whole_or_nothing [OF lab_s3_store.s3_store_axioms run] run by auto
qed



text \<open>C16: The Azure backend keeps the destination's contract in the same way: its upload is committed
  only where the stream ends at exactly the artifact's size, and only at a key that holds nothing.\<close>

theorem azure_keeps_the_contract:
  assumes "azure_store b objs"
  shows "lands_whole (azure_destination b) objs \<and> create_only (azure_destination b) objs"
  using azure_store.keeps_contract [OF assms] by blast

theorem azure_keeps_the_contract_witness:
  "create_only (azure_destination (lab_azure True None)) map_of"
  using azure_keeps_the_contract [OF lab_azure_store.azure_store_axioms] by blast

text \<open>C17: However the body of an S3 write is read, and over any stream, all of the artifact's bytes, or an
  end, come out of it only where the stream is exactly those bytes and ends there without an error: a
  stream that runs long, ends short or fails never makes a request whole.\<close>

theorem a_body_is_whole_or_never_ends:
  assumes "stream_reader rd left" and "reads (exact_read rd) (exact_over r n) ns = (rs, e)" and "0 < n"
    and "int (length (concat (map fst rs))) \<ge> n \<or> (\<exists>y. Some y \<in> set (map snd rs) \<and> errors_is y eof)"
  shows "concat (map fst rs) = body_bytes (left r) \<and> int (length (body_bytes (left r))) = n \<and> body_err (left r) = None"
proof -
  have "0 \<le> n" using assms(3) by simp
  note all = stream_reader.exact_all [OF assms(1,2) this]
  from assms(4) show ?thesis
  proof
    assume "int (length (concat (map fst rs))) \<ge> n"
    from all(1) [OF assms(3) this] show ?thesis .
  next
    assume "\<exists>y. Some y \<in> set (map snd rs) \<and> errors_is y eof"
    then obtain y where "Some y \<in> set (map snd rs)" "errors_is y eof" by blast
    from all(2) [OF this] show ?thesis .
  qed
qed

theorem a_body_is_whole_or_never_ends_witness:
  "concat (map fst (fst (reads (exact_read body_read) (exact_over \<lparr>body_bytes = ''data'', body_err = None\<rparr> 4) [3, 3]))) = ''data''"
proof -
  let ?s = "\<lparr>body_bytes = ''data'', body_err = None\<rparr>"
  obtain rs e where r: "reads (exact_read body_read) (exact_over ?s 4) [3, 3] = (rs, e)" by (metis prod.collapse)
  then have "map (length \<circ> fst) rs = [3, 1]"
    by (auto simp: exact_read_def exact_over_def body_read_def empty_reads_def numeral_eq_Suc Let_def)
  then have "int (length (concat (map fst rs))) \<ge> 4" by (simp add: length_concat)
  then show ?thesis
    using a_body_is_whole_or_never_ends [OF body_stream.stream_reader_axioms r] r by (auto simp: stream_of_def)
qed

text \<open>C18: The parts of an upload tile the object: there is one at least, and no more than 9,000 of an object
  that fits in 9,000 of the largest; the first begins at 0, each begins where the one before it ends, none
  is empty or larger than a store takes, and the last ends where the object does.\<close>

theorem parts_tile_the_object:
  assumes "0 < n" and "in_int64 n" and "min_part_size \<le> smallest" and "smallest \<le> max_part_size"
    and "plan = plan_parts n smallest" and "0 \<le> pp_count plan"
  shows "1 \<le> pp_count plan \<and> (n \<le> part_target * max_part_size \<longrightarrow> pp_count plan \<le> part_target)
    \<and> fst (plan_part plan 0) = 0
    \<and> (\<forall>i off len. 0 \<le> i \<and> i < pp_count plan \<and> plan_part plan i = (off, len) \<longrightarrow>
      0 < len \<and> len \<le> max_part_size \<and> off + len = (if i + 1 < pp_count plan then fst (plan_part plan (i + 1)) else n))"
proof (intro conjI impI allI)
  have pl: "planned n plan" using plannedI assms by simp
  show one: "1 \<le> pp_count plan" by (rule part_count(1) [OF pl])
  show "pp_count plan \<le> part_target" if "n \<le> part_target * max_part_size" by (rule part_count_target [OF pl that])
  show "fst (plan_part plan 0) = 0" using part_is(1) [OF pl, of 0] one by simp
  fix i off len assume "0 \<le> i \<and> i < pp_count plan \<and> plan_part plan i = (off, len)"
  with parts_tile [OF pl] show "0 < len" and "len \<le> max_part_size"
    and "off + len = (if i + 1 < pp_count plan then fst (plan_part plan (i + 1)) else n)" by blast+
qed

theorem parts_tile_the_object_witness:
  "1 \<le> pp_count (plan_parts 10000000 min_part_size) \<and> plan_part (plan_parts 10000000 min_part_size) 1 = (5242880, 4757120)"
proof -
  have c: "pp_count (plan_parts 10000000 min_part_size) = 2" and p: "plan_part (plan_parts 10000000 min_part_size) 1 = (5242880, 4757120)"
    by code_simp+
  show ?thesis
    using parts_tile_the_object [of 10000000 min_part_size, OF _ _ _ _ refl] c p
    by (simp add: in_int64_def min_part_size_def max_part_size_def)
qed

text \<open>Azure's blocks hold the blob and no more than they must: whatever size is accepted, a block is a
  whole number of MiB within what Azure takes, so many of them are as long as the blob, and blocks of
  one MiB less would not be.\<close>

theorem azure_blocks_hold_the_blob:
  assumes "block_size_for n blocks = Inr s"
  shows "mib \<le> s \<and> s \<le> max_stage_block_bytes \<and> mib dvd s \<and> n \<le> blocks * s \<and> (s = mib \<or> n > blocks * (s - mib))"
  using block_size_fits [OF assms] by blast

theorem azure_blocks_hold_the_blob_witness:
  "block_size_for (50000 * mib + 1) max_blocks = Inr (2 * mib) \<and> 50000 * mib + 1 \<le> max_blocks * (2 * mib)"
proof -
  have "block_size_for (50000 * mib + 1) max_blocks = Inr (2 * mib)" by code_simp
  with azure_blocks_hold_the_blob [OF this] show ?thesis by blast
qed

text \<open>S3's verdict is earned. Immutable is said only when the store answered that Object Lock is enabled;
  not immutable only when it answered that it is not, or that there is no such configuration and a
  listing then showed that the bucket exists; and a verdict of unknown keeps the refusal it was made of.\<close>

theorem s3_verdict_is_earned:
  assumes "verify_worm (s3_destination b) w = (Inr st, w')"
  shows "(ws_verdict st = VerdictImmutable \<longrightarrow>
      (\<exists>c. sc_lock (sb_client b) (answer_check ''ObjectLockConfiguration'') w = (Inr (Some c), w') \<and> lc_enabled c = ''Enabled''))
    \<and> (ws_verdict st = VerdictNotImmutable \<longrightarrow>
      (\<exists>cfg. sc_lock (sb_client b) (answer_check ''ObjectLockConfiguration'') w = (Inr cfg, w')
        \<and> (\<forall>c. cfg = Some c \<longrightarrow> lc_enabled c \<noteq> ''Enabled''))
      \<or> (\<exists>e m w1 page. sc_lock (sb_client b) (answer_check ''ObjectLockConfiguration'') w = (Inl e, w1)
        \<and> api_error e = Some (''ObjectLockConfigurationNotFoundError'', m)
        \<and> sc_page (sb_client b) (answer_check ''ListBucketResult'') [] 1 w1 = (Inr page, w')))
    \<and> (ws_verdict st = VerdictUnknown \<longrightarrow> ws_refusal st \<noteq> None)"
  using s3_verdict [of b w st w'] assms by (simp add: s3_destination_def)

theorem s3_verdict_is_earned_witness:
  "\<exists>c. sc_lock (sb_client (lab_s3 True False True)) (answer_check ''ObjectLockConfiguration'') empty_bucket = (Inr (Some c), empty_bucket)
     \<and> lc_enabled c = ''Enabled''"
proof -
  let ?st = "worm_answer VerdictImmutable ''Object Lock enabled''"
  have "verify_worm (s3_destination (lab_s3 True False True)) empty_bucket = (Inr ?st, empty_bucket)"
    by (simp add: s3_destination_def s3_verify_worm_def lab_s3_def lab_s3_client_def lock_status_def bindE_def tryE_apply)
  from s3_verdict_is_earned [OF this] show ?thesis by (simp add: worm_answer_def)
qed

text \<open>Azure's container is called immutable only when Resource Manager reported its policy Locked, for
  a number of days that is then the verdict's period; the blob endpoint alone never earns it, and a
  refusal to answer is unknown.\<close>

theorem azure_immutable_is_earned:
  assumes "verify_worm (azure_destination b) w = (Inr st, w')"
  shows "(ws_verdict st = VerdictImmutable \<longrightarrow> (\<exists>get got w1 d. ab_resource b = Some get
      \<and> get (ab_group b) (ab_account b) (ab_container b) w1 = (Inr got, w') \<and> locked_for got d \<and> ws_period st = days_duration d))
    \<and> (ws_refusal st \<noteq> None \<longrightarrow> ws_verdict st = VerdictUnknown)"
  using azure_verdict [of b w st w'] assms by (simp add: azure_destination_def)

theorem azure_immutable_is_earned_witness:
  "\<exists>d. locked_for (lab_locked ''Locked'' 30) d \<and> days_duration 30 = days_duration d"
proof -
  let ?b = "lab_azure False (lab_locked ''Locked'' 30)"
  let ?st = "verdict_from_resource_manager (lab_locked ''Locked'' 30)"
  have l: "locked_for (lab_locked ''Locked'' 30) 30" by (simp add: locked_for_def lab_locked_def)
  then have v: "ws_verdict ?st = VerdictImmutable" "ws_period ?st = days_duration 30"
    using resource_manager_immutable by blast+
  have "verify_worm (azure_destination ?b) [] = (Inr ?st, [])"
    by (simp add: azure_destination_def azure_verify_worm_def lab_azure_def lab_azure_client_def bindE_def tryE_apply mapErrE_def)
  from azure_immutable_is_earned [OF this] v show ?thesis by (simp add: lab_azure_def okE_def)
qed

section \<open>The forges\<close>

text \<open>C19: The budget for rate limits charges a run for the time it waits. However many requests wait, and
  however their waits overlap, what is spent is the length of the time that some granted wait covers, it never
  passes what the run may spend, and the first wait refused is one that would have passed it.\<close>

theorem budget_is_the_time_waited:
  assumes "reserve_all b ws = (granted, b')" and "wb_spent b = 0" and "0 \<le> wb_max b" and "wb_max b < 2 ^ 62"
    and "wb_until b \<le> n" and "sorted (n # map fst ws)" and "\<forall>(now, resume) \<in> set ws. resume - now < 2 ^ 62"
  shows "wb_spent b' = int (card (waited granted)) \<and> wb_spent b' \<le> wb_max b
    \<and> (granted \<noteq> ws \<longrightarrow> (\<exists>pre now resume post. ws = pre @ (now, resume) # post \<and> fst (reserve_all b pre) = pre
          \<and> int (card (waited pre \<union> {now..<resume})) > wb_max b))"
proof -
  have "charged b {} n" using assms(2,3,5) by (simp add: charged_def)
  from reserve_all_charges [OF assms(1) this assms(6,4,7)] reserve_all_refuses [OF assms(1) _ this assms(6,4,7)]
  show ?thesis by simp
qed

theorem budget_is_the_time_waited_witness:
  "int (card (waited [(0::time, 40), (10, 50)])) = 50
    \<and> reserve_all \<lparr>wb_max = 60, wb_spent = 0, wb_until = -1\<rparr> [(0, 40), (10, 50), (50, 70)]
        = ([(0, 40), (10, 50)], \<lparr>wb_max = 60, wb_spent = 50, wb_until = 50\<rparr>)"
proof -
  have r: "reserve_all \<lparr>wb_max = 60, wb_spent = 0, wb_until = -1\<rparr> [(0, 40), (10, 50), (50, 70)]
        = ([(0, 40), (10, 50)], \<lparr>wb_max = 60, wb_spent = 50, wb_until = 50\<rparr>)" by code_simp
  from budget_is_the_time_waited [OF r, of 0] r show ?thesis by simp
qed

text \<open>C20: A call to GitHub ends, after nine requests at most. What it returns is the answer to one of them,
  and an error it fails with is marked transient, so that the next run tries again, unless it is a
  refusal that no wait would change: neither a rate limit nor a server's error.\<close>

theorem a_call_ends_in_nine_tries:
  assumes "gh_quiet (same_on tries) c" and "\<forall>b w. tries (snd (fn b w)) = Suc (tries w)" and "gh_call c fn False 0 0 w = (x, w')"
  shows "tries w' \<le> tries w + 9
    \<and> (case x of Inr y \<Rightarrow> \<exists>b v. fn b v = (Inr y, w')
       | Inl e \<Rightarrow> errors_is e err_transient \<or> \<not> limited e \<and> \<not> is_server_error e)"
proof
  have "tries w' \<le> tries w + 1 + (rate_limit_waits - 0) + (server_error_attempts - 1 - 0)"
    by (rule gh_call_tries [OF assms(1) _ assms(3)]) (metis assms(2) snd_conv)
  then show "tries w' \<le> tries w + 9" by (simp add: rate_limit_waits_def server_error_attempts_def)
  show "case x of Inr y \<Rightarrow> \<exists>b v. fn b v = (Inr y, w') | Inl e \<Rightarrow> errors_is e err_transient \<or> \<not> limited e \<and> \<not> is_server_error e"
  proof (cases x)
    case (Inl e)
    from gh_call_error [OF assms(3) [unfolded this]] show ?thesis unfolding Inl sum.case .
  next
    case (Inr y)
    from gh_call_answer [OF assms(3) [unfolded this]] show ?thesis unfolding Inr sum.case .
  qed
qed

theorem a_call_ends_in_nine_tries_witness:
  "\<exists>e w'. gh_call lab_clock (lab_request (Inl bad_gateway :: goerr + unit)) False 0 0 lab_net = (Inl e, w') \<and> ln_tries w' = 4
    \<and> ln_tries w' \<le> ln_tries lab_net + 9"
proof -
  have run: "gh_call lab_clock (lab_request (Inl bad_gateway :: goerr + unit)) False 0 0 lab_net
      = (Inl (transient bad_gateway), lab_net\<lparr>ln_tries := 4\<rparr>)"
    using lab_retries [of 0 3 False lab_net] by (simp add: lab_net_def)
  have "\<forall>b w. ln_tries (snd (lab_request (Inl bad_gateway :: goerr + unit) b w)) = Suc (ln_tries w)" by (simp add: lab_request_def)
  from a_call_ends_in_nine_tries [OF lab_tries.gh_quiet_axioms this run] run show ?thesis by auto
qed

text \<open>C21: A token stays on the API. With a token file, what the GitHub client puts on the network bears no
  Authorization header unless it goes to the API's host over TLS; with an App key the client puts none on itself
  and hands the App's transport only requests to the API's scheme and host; what the GitLab client sends
  anywhere else bears nothing but Accept and User-Agent; and none of them sends a redirect on that leaves
  the API or TLS.\<close>

theorem token_stays_on_the_api:
  "(case gs_token_file s of
      Some path \<Rightarrow> sends_only (\<lambda>q. bare_or_api (gs_api_host s) q \<and> followed (gs_api_scheme s) (gs_api_host s) q) (gh_transport s fs app)
    | None \<Rightarrow> sends_only (\<lambda>q. \<not> has_header ''Authorization'' q \<and> followed (gs_api_scheme s) (gs_api_host s) q) (gh_transport s fs app)
        \<and> sends_only (\<lambda>q. on_api (gs_api_scheme s) (gs_api_host s) q \<and> followed (gs_api_scheme s) (gs_api_host s) q)
            (\<lambda>app. gh_transport s fs app net))
   \<and> sends_only (\<lambda>q. plain_or_api (url_scheme (gl_api g)) (url_host (gl_api g)) q \<and> followed (url_scheme (gl_api g)) (url_host (gl_api g)) q)
       (gl_transport g)"
  by (simp add: gh_transport_sends gh_transport_app_sends gl_transport_sends split: option.split)

text \<open>C22: Every repository the installation can see is listed, once and in order, as far as the filter keeps it,
  however many pages they take; with a bound of at least as many pages as there are, a listing that fails
  does so only over a request that failed.\<close>

theorem every_page_is_listed:
  assumes "gh_serves api rs" and "gh_list_repos fuel c api host f w = (x, w')" and "0 < fuel" and "length rs \<le> 100 * fuel"
  shows "case x of Inr out \<Rightarrow> out = filter (\<lambda>r. keep_repo r f) (map (gh_to_repo host) rs)
    | Inl e \<Rightarrow> \<exists>p v e0. gh_call c (\<lambda>b. ga_list_repos api b p 100) False 0 0 v = (Inl e0, w')
        \<and> e = wrap_error ''github: list installation repos'' e0"
  using gh_lists_all [OF assms(1)] gh_list_fails [OF assms(1) _ assms(3,4)] assms(2) by (auto split: sum.split)

theorem every_page_is_listed_witness:
  "\<exists>out. gh_list_repos 2 lab_clock lab_api ''github.com'' \<lparr>rf_include = [], rf_exclude = []\<rparr> lab_net = (Inr out, lab_net) \<and> length out = 101"
proof -
  obtain out where run: "gh_list_repos 2 lab_clock lab_api ''github.com'' \<lparr>rf_include = [], rf_exclude = []\<rparr> lab_net = (Inr out, lab_net)"
    using lab_list_answers by blast
  have "filter (\<lambda>r. keep_repo r \<lparr>rf_include = [], rf_exclude = []\<rparr>) rs = rs" for rs by (simp add: keep_repo_def)
  with every_page_is_listed [OF lab_serves run] run show ?thesis by simp
qed

text \<open>C23: A filter whose patterns are names, slugs or an owner's \<open>owner/*\<close> keeps what it says: not what an
  exclusion names, and of the rest what an inclusion names, or everything where there is none.\<close>

theorem filter_keeps_what_it_names:
  assumes "\<forall>p \<in> set (rf_include f) \<union> set (rf_exclude f). usual_pattern p" and "CHR ''/'' \<notin> set (rp_name r)"
  shows "keep_repo r f \<longleftrightarrow> (\<forall>p \<in> set (rf_exclude f). \<not> names p r) \<and> (rf_include f = [] \<or> (\<exists>p \<in> set (rf_include f). names p r))"
  using assms by (rule keep_usual)

theorem filter_keeps_what_it_names_witness:
  "keep_repo (gh_to_repo ''github.com'' lab_repository) \<lparr>rf_include = [''org/*''], rf_exclude = [''other'']\<rparr>"
proof -
  let ?r = "gh_to_repo ''github.com'' lab_repository" and ?f = "\<lparr>rf_include = [''org/*''], rf_exclude = [''other'']\<rparr>"
  have r: "rp_name ?r = ''app''" "rp_owner ?r = ''org''" by (simp_all add: gh_to_repo_def lab_repository_def got_str_def)
  have "usual_pattern ''org/*''" unfolding usual_pattern_def plain_pattern_def by (intro disjI2 exI [of _ "''org''"]) simp
  moreover have "usual_pattern ''other''" unfolding usual_pattern_def plain_pattern_def by simp
  ultimately have u: "\<forall>p \<in> set (rf_include ?f) \<union> set (rf_exclude ?f). usual_pattern p" by simp
  have "names ''org/*'' ?r" "\<not> names ''other'' ?r" by (simp_all add: names_def r slug_def equal_fold_def to_lower_def)
  with filter_keeps_what_it_names [OF u, of ?r] show ?thesis by (simp add: r)
qed

text \<open>C24: A metadata document accounts for every section: either it holds all that was read of the section,
  or GitHub answered 404 or 410 for it, and then it is null there and the answer stands under
  "unavailable", which only such sections are named in.\<close>

theorem metadata_accounts_for_every_section:
  assumes "gh_document fuel c api r w = (Inr doc, w')"
  shows "\<exists>members secs off. doc = JObj members \<and> set secs \<subseteq> set members
    \<and> (if off = [] then ''unavailable'' \<notin> fst ` set members else (''unavailable'', json_map off) \<in> set members)
    \<and> (\<forall>s. section_stands (gh_collect fuel c api r) secs off s)"
proof -
  obtain members secs off where "doc = JObj members" "set secs \<subseteq> set members" "off = [] \<longleftrightarrow> ''unavailable'' \<notin> fst ` set members"
    "off \<noteq> [] \<longrightarrow> (''unavailable'', json_map off) \<in> set members" "\<forall>s. section_stands (gh_collect fuel c api r) secs off s"
    using gh_document_stands [OF assms] by metis
  then show ?thesis by (intro exI [of _ members] exI [of _ secs] exI [of _ off]) simp
qed

theorem metadata_accounts_for_every_section_witness:
  "\<exists>r members secs off. gh_document 1 lab_clock lab_api r lab_net = (Inr (JObj members), lab_net) \<and> set secs \<subseteq> set members
    \<and> section_stands (gh_collect 1 lab_clock lab_api r) secs off SecPullRequests"
proof -
  obtain r members where doc: "gh_document 1 lab_clock lab_api r lab_net = (Inr (JObj members), lab_net)"
    using lab_document_is [of lab_net] by blast
  from metadata_accounts_for_every_section [OF doc] doc show ?thesis by (metis json.inject(5))
qed

section \<open>The command line\<close>

text \<open>C25: doctor and backup agree: doctor's check of the lock passes exactly when a backup's preflight of the same
  destination, under the same setting, lets the run begin.\<close>

theorem doctor_agrees_with_the_run:
  "says (check_worm (bk_dst r) (bk_require_worm r) w) \<longleftrightarrow> (\<exists>st w'. worm_check r w = (Inr st, w'))"
  by (rule check_worm_agrees)



text \<open>C27: A green doctor: when it exits with 0 the configuration was read and is valid, the destination could be
  built from it, and where worm.require is set the destination answered that it is immutable.\<close>

theorem a_green_doctor:
  assumes "run_doctor x f w = (Inr (0, out), w')"
  shows "\<exists>cfg v. dx_load x w = (Inr cfg, v) \<and> (if df_only f = Some ''destination'' then validate_destination cfg else validate cfg) = None
    \<and> (\<exists>d lister u u'. dx_dest x cfg u = (Inr (d, lister), u')
        \<and> (cf_worm_require cfg \<longrightarrow> (\<exists>st u. verify_worm d u' = (Inr st, u) \<and> immutable (ws_verdict st))))"
  using assms by (rule doctor_green)

theorem a_green_doctor_witness:
  "\<exists>cfg d lister u u' st v. cf_worm_require cfg \<and> validate_destination cfg = None
    \<and> dx_dest lab_doctor cfg u = (Inr (d, lister), u') \<and> verify_worm d u' = (Inr st, v) \<and> immutable (ws_verdict st)"
proof -
  let ?f = "\<lparr>df_only = Some ''destination'', df_timeout = 0, df_output = ''text''\<rparr>"
  obtain out where "run_doctor lab_doctor ?f lab_start = (Inr (0, out), lab_start)" using lab_doctor_green by blast
  from a_green_doctor [OF this] obtain cfg v d lister u u' where "dx_load lab_doctor lab_start = (Inr cfg, v)"
    and valid: "validate_destination cfg = None" "dx_dest lab_doctor cfg u = (Inr (d, lister), u')"
      "cf_worm_require cfg \<longrightarrow> (\<exists>st u. verify_worm d u' = (Inr st, u) \<and> immutable (ws_verdict st))" by auto
  then have "cf_worm_require cfg" by (auto simp: lab_doctor_def lab_doctor_config_def)
  with valid show ?thesis by blast
qed

text \<open>C28: A drill's exit status says what failed: 0 is no error; 3 is a report that was not stored, with every
  repository restored; and a repository that did not come back is 1, whatever else went wrong.\<close>

theorem drill_status_says_what_failed:
  assumes "drill d q w = (Inr (res, err), w')"
  shows "(drill_exit err = 0 \<longleftrightarrow> err = None)
    \<and> (drill_exit err = 0 \<or> drill_exit err = 3 \<longrightarrow> all_restored (dr_repos (ds_report res)))
    \<and> (drill_exit err = 3 \<longrightarrow> (\<exists>e. err = Some e \<and> errors_is e err_report_not_stored))
    \<and> (\<not> all_restored (dr_repos (ds_report res)) \<longrightarrow> drill_exit err = 1)"
proof -
  have "err = None \<longrightarrow> all_restored (dr_repos (ds_report res))" using drill_result [OF assms] by blast
  moreover have "drill_exit err = 3 \<longrightarrow> (\<exists>e. err = Some e \<and> errors_is e err_report_not_stored)"
    by (auto simp: drill_exit_def split: option.splits if_splits)
  ultimately show ?thesis using drill_exit_zero [of err] drill_exit_status [OF assms] by blast
qed

theorem drill_status_says_what_failed_witness:
  "\<exists>(res :: drill_result) err. drill_exit err = 0 \<and> all_restored (dr_repos (ds_report res))"
proof -
  obtain res where run: "drill (lab_drill_deps None) lab_drill_request lab_held = (Inr (res, None), lab_fetched)" using lab_drill by blast
  from drill_status_says_what_failed [OF run] drill_exit_zero [of None] show ?thesis by blast
qed

section \<open>Git\<close>

text \<open>Reading what git prints for a list of refs gives the list back.\<close>

theorem bundle_heads_round_trip:
  assumes "\<forall>r \<in> set rs. readable_ref r"
  shows "parse_bundle_heads (print_heads rs) = Inr rs"
  using assms by (rule parse_print_heads)

theorem bundle_heads_round_trip_witness:
  "parse_bundle_heads (print_heads [\<lparr>bref_name = ''refs/heads/main'', bref_oid = ''0a1f''\<rparr>, \<lparr>bref_name = ''HEAD'', bref_oid = ''0a1f''\<rparr>])
    = Inr [\<lparr>bref_name = ''refs/heads/main'', bref_oid = ''0a1f''\<rparr>, \<lparr>bref_name = ''HEAD'', bref_oid = ''0a1f''\<rparr>]"
  by (rule bundle_heads_round_trip) code_simp

text \<open>Git is given nothing of the environment but the variables named for it, and those gitdr sets
  itself: no variable that changes what git does or whom it talks to gets through.\<close>

theorem git_env_withholds:
  assumes "kv \<in> set (command_env env cfg extra)"
  shows "kv \<in> set extra \<or> set_by_gitdr (env_name kv) \<or> kv \<in> set env \<and> env_name kv \<in> set passed_through"
  using assms by (rule command_env_entry)

theorem git_env_withholds_witness:
  "''HOME=/root'' \<in> set ([] :: string list) \<or> set_by_gitdr (env_name ''HOME=/root'')
    \<or> ''HOME=/root'' \<in> set [''HOME=/root'', ''GIT_SSH=x''] \<and> env_name ''HOME=/root'' \<in> set passed_through"
  by (rule git_env_withholds [where cfg = "[]"]) code_simp

text \<open>What is kept of a command's standard error is exactly its last bytes, however the command
  wrote them, and the count of those dropped is right.\<close>

theorem stderr_tail_exact:
  "tail_buf (tail_writes (new_tail m) ps) = drop (length (concat ps) - m) (concat ps)
   \<and> tail_dropped (tail_writes (new_tail m) ps) = int (length (concat ps) - m)"
proof -
  have "tail_max (tail_writes t ps) = tail_max t" for t ps
    by (induction ps arbitrary: t) (simp_all add: tail_writes_def)
  then show ?thesis
    using tail_holds_writes [OF tail_holds_new, of m ps] by (simp add: tail_holds_def new_tail_def)
qed

section \<open>Refs\<close>

lemma carried_code [code]:
  "carried restored head d =
     (if bref_name d = head_name then head \<noteq> [] \<and> equal_fold head (bref_oid d)
      else list_ex (\<lambda>c. case map_of restored c of None \<Rightarrow> False | Some got \<Rightarrow> equal_fold got (bref_oid d)) (candidates (bref_name d)))"
  by (auto simp: carried_def list_ex_iff split: option.splits)

text \<open>C36: A restored repository passes the comparison exactly when each declared ref is carried, with its
  object id, or is one that a clone does not point at; and each declared ref is counted once.\<close>

theorem restored_refs_accounted:
  "comparison_ok (compare_refs declared restored head)
     = (\<forall>d \<in> set declared. carried restored head d \<or> unpointed restored d)
   \<and> rc_matched (compare_refs declared restored head) + int (length (rc_unreferenced (compare_refs declared restored head)))
     + int (length (rc_mismatches (compare_refs declared restored head))) = int (length declared)"
  using compare_refs_ok compare_refs_total by (simp add: compare_refs_def compare_fold(1))

theorem restored_refs_accounted_witness:
  "comparison_ok (compare_refs [\<lparr>bref_name = ''refs/heads/main'', bref_oid = ''0a''\<rparr>, \<lparr>bref_name = ''refs/pull/1/head'', bref_oid = ''0b''\<rparr>]
     [(''refs/remotes/origin/main'', ''0A'')] [])"
  by (rule restored_refs_accounted [THEN conjunct1, THEN iffD2]) code_simp

text \<open>A clone is accepted only when every ref the source advertised before it is in it, or is gone
  from the source when it is asked again.\<close>

theorem clone_holds_advertised:
  assumes "clone_holds auth ask advertised copied w = (Inr u, w')"
  shows "\<forall>n \<in> fst ` set advertised. clonable n \<and> map_of copied n = None \<longrightarrow>
    (\<exists>h w1 now. auth w = (Inr h, w1) \<and> ask h w1 = (Inr now, w') \<and> map_of now n = None)"
  using clone_holds_ok [OF assms] by blast

theorem clone_holds_advertised_witness:
  "\<exists>h w1 now. okE ''auth'' () = (Inr h, w1) \<and> okE [(''refs/heads/main'', ''0b'')] w1 = (Inr now, ())
    \<and> map_of now ''refs/heads/gone'' = None"
  by (rule clone_holds_advertised [where u = "()" and advertised = "[(''refs/heads/gone'', ''0a'')]" and copied = "[]", THEN bspec, THEN mp])
    code_simp+

text \<open>A bundle is accepted only when it lists exactly the refs of the clone it was made of.\<close>

theorem bundle_is_the_clone:
  assumes "mirror_refs m mirror w = (Inr copied, w1)" and "bundle_holds m bundle copied w2 = (Inr u, w3)"
  shows "\<exists>heads. bundle_heads m bundle w2 = (Inr heads, w3)
    \<and> map_of copied = map_of (rev (map (\<lambda>h. (bref_name h, bref_oid h)) heads))"
  by (rule bundle_holds_ok [OF mirror_refs_ids [OF assms(1)], THEN iffD1, OF assms(2)])

definition one_ref_git :: "unit machine" where
  "one_ref_git = \<lparr>environ = [],
     start_git = (\<lambda>d e a w. (\<lparr>run_error = None, run_stdout =
        (if hd a = ''rev-parse'' then ''0a'' else if hd a = ''for-each-ref'' then ''0a refs/heads/main''
         else ''0a refs/heads/main'' @ [newline] @ ''0a HEAD''), run_stderr = []\<rparr>, w)),
     mkdir_temp = okE, remove_all = (\<lambda>p w. w), abs_path = okE, look_path = (\<lambda>p w. True)\<rparr>"

theorem bundle_is_the_clone_witness:
  "\<exists>heads. bundle_heads one_ref_git ''b'' () = (Inr heads, ())
    \<and> map_of [(''refs/heads/main'', ''0a''), (''HEAD'', ''0a'')] = map_of (rev (map (\<lambda>h. (bref_name h, bref_oid h)) heads))"
  by (rule bundle_is_the_clone [of one_ref_git "''m''" "()" _ "()" _ "()" "()"]) (code_simp+)

section \<open>The envelope\<close>

text \<open>C37: What is encrypted decrypts to itself under the same key, whatever was written before either.\<close>

theorem envelope_round_trip:
  assumes "aead_opens a" and "appends wr out" and "gives_random rand out" and "length kek = encryption_key_size"
  shows "\<exists>c w1. encrypt a rand wr \<lparr>body_bytes = bs, body_err = None\<rparr> kek w = (Inr (), w1) \<and> out w1 = out w @ c
    \<and> (\<forall>v. \<exists>v'. decrypt a wr \<lparr>body_bytes = c, body_err = None\<rparr> kek v = (Inr (), v') \<and> out v' = out v @ bs)"
  using assms by (rule decrypt_encrypt)

theorem envelope_round_trip_witness:
  "\<exists>c w1. encrypt lab_aead zeros collect \<lparr>body_bytes = ''data'', body_err = None\<rparr> (replicate 32 (CHR ''k'')) [] = (Inr (), w1)
    \<and> w1 = [] @ c
    \<and> (\<forall>v. \<exists>v'. decrypt lab_aead collect \<lparr>body_bytes = c, body_err = None\<rparr> (replicate 32 (CHR ''k'')) v = (Inr (), v') \<and> v' = v @ ''data'')"
  by (rule envelope_round_trip [OF lab_aead_opens collect_appends zeros_random]) (simp add: encryption_key_size_def)



section \<open>Archives and settings\<close>

text \<open>C39: An entry of an LFS archive is extracted to the root of the target or to a path below it, no
  deeper than the limit.\<close>

theorem tar_entry_stays_inside:
  assumes "tar_entry_path raw = Inr name"
  shows "name = ''.'' \<or> plain_path name \<and> length (split_on (CHR ''/'') name) \<le> max_tar_entry_depth"
  using assms by (rule tar_entry_path_contained)

theorem tar_entry_stays_inside_witness:
  "''objects/ab'' = ''.'' \<or> plain_path ''objects/ab'' \<and> length (split_on (CHR ''/'') ''objects/ab'') \<le> max_tar_entry_depth"
  by (rule tar_entry_stays_inside [of "''./objects/x/../ab''"]) code_simp



text \<open>The secrets that are read from the environment are not in it afterwards.\<close>

theorem secrets_are_taken_from_the_environment:
  assumes "apply_env_overrides env c = (c', env')" and "k \<in> set secret_keys"
  shows "lookup_env env' k = None"
  using assms by (rule secrets_leave_env)

theorem secrets_are_taken_from_the_environment_witness:
  "lookup_env (snd (apply_env_overrides [(''GITDR_ENCRYPTION_KEY'', ''s3cret''), (''HOME'', ''/root'')] default_config)) ''ENCRYPTION_KEY'' = None"
  by (rule secrets_are_taken_from_the_environment [where env = "[(''GITDR_ENCRYPTION_KEY'', ''s3cret''), (''HOME'', ''/root'')]"
      and c = default_config and c' = "fst (apply_env_overrides [(''GITDR_ENCRYPTION_KEY'', ''s3cret''), (''HOME'', ''/root'')] default_config)"])
    (simp, code_simp)

end
